(* ===== verification/Common_Library.thy ===== *)
theory Common_Library
  imports Prelude
begin

text \<open>
  The pure helpers of \<open>common/library.py\<close> that other parts of the server call:
  dictionary and list helpers, percentages, anonymisation, the spreadsheet column names of
  the bulk templates, name conversion and the GTIN check. \<open>Hashids\<close> (third party)
  is a parameter of \<open>encode_id\<close> and \<open>decode_id\<close>; the translation of the word
  \<open>and\<close> (gettext) is a parameter of \<open>list_to_sentence\<close>. A Python dictionary,
  which remembers insertion order, is an association list.
\<close>

section \<open>Dictionaries\<close>

definition pop_out_from_dictionary :: "('k \<times> 'v) list \<Rightarrow> 'k list \<Rightarrow> ('k \<times> 'v) list" where
  "pop_out_from_dictionary dictionary keys = fold AList.delete keys dictionary"

definition safe_append_to_dict_key ::
    "('k \<times> 'v list) list \<Rightarrow> 'k \<Rightarrow> 'v \<Rightarrow> ('k \<times> 'v list) list" where
  "safe_append_to_dict_key dictionary key v =
     (case map_of dictionary key of
        Some vs \<Rightarrow> AList.update key (vs @ [v]) dictionary
      | None \<Rightarrow> AList.update key [v] dictionary)"

text \<open>
  A queryset is the set of the primary keys it selects, tagged with its model;
  \<open>combine_queries\<close> is the union the three attempts of the code compute, after the
  assertion that the models agree.
\<close>

definition combine_queries :: "('m \<times> nat set) \<Rightarrow> ('m \<times> nat set) \<Rightarrow> ('m \<times> nat set) result" where
  "combine_queries q r =
     rbind (ensure (fst q = fst r) (AssertionError ''Cannot combine queries of two models''))
       (\<lambda>_. Inr (fst q, snd q \<union> snd r))"

definition safe_join_to_query ::
    "('k \<times> ('m \<times> nat set)) list \<Rightarrow> 'k \<Rightarrow> ('m \<times> nat set) \<Rightarrow> ('k \<times> ('m \<times> nat set)) list result"
where
  "safe_join_to_query dictionary key query =
     (case map_of dictionary key of
        Some q \<Rightarrow> rbind (combine_queries q query) (\<lambda>u. Inr (AList.update key u dictionary))
      | None \<Rightarrow> Inr (AList.update key query dictionary))"

text \<open>
  \<open>_update_list_of_dict\<close>: the dictionary comprehension keeps, for each value of the
  unique key, the position of its first item and the value of its last one; an item
  without the key raises \<open>KeyError\<close>.
\<close>

fun index_by :: "('v \<Rightarrow> 'k option) \<Rightarrow> 'v list \<Rightarrow> ('k \<times> 'v) list \<Rightarrow> ('k \<times> 'v) list result" where
  "index_by unique_key [] acc = Inr acc"
| "index_by unique_key (v # vs) acc =
     rbind (of_option PyKeyError (unique_key v))
       (\<lambda>k. index_by unique_key vs (AList.update k v acc))"

definition update_list_of_dict ::
    "('v \<Rightarrow> 'k option) \<Rightarrow> 'v list \<Rightarrow> 'v list \<Rightarrow> 'v list result" where
  "update_list_of_dict unique_key existing new_items =
     rbind (index_by unique_key (existing @ new_items) []) (\<lambda>d. Inr (map snd d))"

lemma map_of_pop_out:
  "map_of (pop_out_from_dictionary d ks) k = (if k \<in> set ks then None else map_of d k)"
  unfolding pop_out_from_dictionary_def
  by (induction ks arbitrary: d) (auto simp: AList.delete_conv')


lemma map_of_safe_append:
  "map_of (safe_append_to_dict_key d k v) j =
     (if j = k then Some ((case map_of d k of None \<Rightarrow> [] | Some vs \<Rightarrow> vs) @ [v]) else map_of d j)"
  by (auto simp: safe_append_to_dict_key_def update_conv' split: option.splits)

lemma map_of_safe_join:
  "safe_join_to_query d k q = Inr d' \<Longrightarrow>
   map_of d' j = (if j = k then Some (fst q, (case map_of d k of None \<Rightarrow> {} | Some r \<Rightarrow> snd r) \<union> snd q)
                  else map_of d j)"
  by (auto simp: safe_join_to_query_def combine_queries_def update_conv' rbind_eq_Inr
           split: option.splits)

lemma index_by_keys:
  "index_by uk vs acc = Inr d \<Longrightarrow> distinct (map fst acc) \<Longrightarrow>
     distinct (map fst d) \<and> fst ` set d = fst ` set acc \<union> {k. \<exists>v\<in>set vs. uk v = Some k}"
proof (induction vs arbitrary: acc)
  case Nil
  then show ?case by simp
next
  case (Cons v vs)
  from Cons.prems(1) obtain k where k: "uk v = Some k" "index_by uk vs (AList.update k v acc) = Inr d"
    by (auto simp: rbind_eq_Inr)
  from Cons.IH [OF k(2) distinct_update [OF Cons.prems(2)]]
  show ?case by (auto simp: k(1) dom_update image_iff)
qed

lemma index_by_entries:
  "index_by uk vs acc = Inr d \<Longrightarrow> (\<forall>e\<in>set acc. uk (snd e) = Some (fst e)) \<Longrightarrow>
     (\<forall>e\<in>set d. uk (snd e) = Some (fst e) \<and> (snd e \<in> set vs \<or> e \<in> set acc))"
proof (induction vs arbitrary: acc)
  case Nil
  then show ?case by auto
next
  case (Cons v vs)
  from Cons.prems(1) obtain k where k: "uk v = Some k" "index_by uk vs (AList.update k v acc) = Inr d"
    by (auto simp: rbind_eq_Inr)
  have sub: "set (AList.update k v acc) \<subseteq> insert (k, v) (set acc)"
    by (induction acc) auto
  with Cons.prems(2) k(1) have "\<forall>e\<in>set (AList.update k v acc). uk (snd e) = Some (fst e)"
    by auto
  from Cons.IH [OF k(2) this] sub show ?case by fastforce
qed

section \<open>Sentences, percentages and anonymisation\<close>

definition list_to_sentence :: "string \<Rightarrow> string list \<Rightarrow> string" where
  "list_to_sentence and_word word_list =
     (if butlast word_list = [] then str_join '' '' word_list
      else str_join '', '' (butlast word_list) @ '' '' @ and_word @ '' '' @ last word_list)"

definition percentage :: "rat \<Rightarrow> rat \<Rightarrow> rat" where
  "percentage value tot = (if tot = 0 then 0 else round_to_2 ((value / tot) * 100))"

text \<open>Slices \<open>s[0:2]\<close> and \<open>s[-n:]\<close>.\<close>

definition last_chars :: "nat \<Rightarrow> string \<Rightarrow> string" where
  "last_chars n s = drop (length s - n) s"

definition anonymise_email :: "string \<Rightarrow> string" where
  "anonymise_email email =
     (if length email < 4 then ''******''
      else case
        rbind (index_or_raise (str_split CHR ''@'' email) 0) (\<lambda>name.
        rbind (index_or_raise (str_split CHR ''@'' email) 1) (\<lambda>host.
        rbind (index_or_raise (str_split CHR ''.'' host) 0) (\<lambda>provider.
        rbind (index_or_raise (str_split CHR ''.'' host) 1) (\<lambda>domain.
        rbind (index_or_raise provider 0) (\<lambda>p.
          Inr (take 2 name @ ''*******@'' @ [p] @ ''**'' @ domain))))))
      of Inr v \<Rightarrow> v
       | Inl _ \<Rightarrow> take 2 email @ ''*****'' @ last_chars 2 email)"

definition anonymise_value :: "string \<Rightarrow> string" where
  "anonymise_value value =
     (if length value < 4 then ''******'' else ''*****'' @ last_chars 4 value)"

definition is_image_valid :: "string \<Rightarrow> bool" where
  "is_image_valid name =
     (\<exists>ext \<in> set [''.bmp'', ''.dib'', ''.gif'', ''.tif'', ''.tiff'', ''.jfif'', ''.jpe'', ''.jpg'',
        ''.jpeg'', ''.pbm'', ''.pgm'', ''.ppm'', ''.pnm'', ''.png'', ''.apng'', ''.blp''].
        length ext \<le> length name \<and>
        last_chars (length ext) (map lower_char name) = ext)"

lemma percentage_bounds:
  assumes "0 \<le> v" and "v \<le> t"
  shows "0 \<le> percentage v t \<and> percentage v t \<le> 100"
proof (cases "t = 0")
  case True
  then show ?thesis by (simp add: percentage_def)
next
  case False
  with assms have t: "0 < t" by simp
  let ?x = "(v / t) * 100 * 100"
  have "0 \<le> ?x" using assms t by simp
  then have lo: "0 \<le> round_half_even ?x" using round_half_even_ge [of 0 ?x] by simp
  have "v / t \<le> 1" using assms t by simp
  then have "?x \<le> of_int 10000" by simp
  then have hi: "round_half_even ?x \<le> 10000" by (rule round_half_even_le)
  have "of_int (round_half_even ?x) \<le> (10000 :: rat)"
    using hi by (metis of_int_le_iff of_int_numeral)
  with False lo show ?thesis by (simp add: percentage_def round_to_2_def)
qed

lemma percentage_full: "t \<noteq> 0 \<Longrightarrow> percentage t t = 100"
  by (simp add: percentage_def round_to_2_def round_half_even_def Let_def)

lemma percentage_error:
  "t \<noteq> 0 \<Longrightarrow> \<bar>percentage v t - (v / t) * 100\<bar> \<le> 1/200"
  using round_half_even_error [of "(v / t) * 100 * 100"]
  by (simp add: percentage_def round_to_2_def abs_le_iff field_simps)

lemma anonymise_value_hides:
  "4 \<le> length v \<Longrightarrow> \<exists>s. anonymise_value v = ''*****'' @ s \<and> length s = 4 \<and> (\<exists>p. v = p @ s)"
  unfolding anonymise_value_def last_chars_def
  by (auto intro: exI [where x = "take (length v - 4) v"])

section \<open>Spreadsheet columns\<close>

definition ascii_uppercase :: string where
  "ascii_uppercase = ''ABCDEFGHIJKLMNOPQRSTUVWXYZ''"

definition is_ascii_letter :: "char \<Rightarrow> bool" where
  "is_ascii_letter c = (is_upper_char c \<or> is_lower_char c)"

text \<open>\<open>None\<close> is the \<open>False\<close> the function returns for a character that is not a letter.\<close>

fun letters_to_number :: "int \<Rightarrow> string \<Rightarrow> int option" where
  "letters_to_number number [] = Some number"
| "letters_to_number number (i # rest) =
     (if \<not> is_ascii_letter i then None
      else letters_to_number (number + int (code (upper_char i)) - 64 + 25) rest)"

definition convert_letter_to_number :: "string \<Rightarrow> int option" where
  "convert_letter_to_number value = letters_to_number (- 26) value"

definition alphabetic_name :: "nat \<Rightarrow> string result" where
  "alphabetic_name i =
     (if i < 26 then rbind (index_or_raise ascii_uppercase i) (\<lambda>c. Inr [c])
      else rbind (index_or_raise ascii_uppercase (i div 26 - 1)) (\<lambda>c.
           rbind (index_or_raise ascii_uppercase (i mod 26)) (\<lambda>d. Inr [c, d])))"

fun collect_names :: "nat list \<Rightarrow> string list result" where
  "collect_names [] = Inr []"
| "collect_names (i # rest) =
     rbind (alphabetic_name i) (\<lambda>n. rbind (collect_names rest) (\<lambda>ns. Inr (n # ns)))"

definition create_alphabetic_list :: "nat \<Rightarrow> string list result" where
  "create_alphabetic_list limit = collect_names [0..<limit]"

lemma length_ascii_uppercase [simp]: "length ascii_uppercase = 26"
  by (simp add: ascii_uppercase_def)

lemma ascii_uppercase_nth: "i < 26 \<Longrightarrow> ascii_uppercase ! i = char_of (65 + i)"
proof -
  have "\<forall>i \<in> set [0..<26]. ascii_uppercase ! i = char_of (65 + i)"
    by code_simp
  then show "i < 26 \<Longrightarrow> ascii_uppercase ! i = char_of (65 + i)" by simp
qed

lemma column_letter:
  "i < 26 \<Longrightarrow> is_upper_char (ascii_uppercase ! i) \<and> code (ascii_uppercase ! i) = 65 + i"
  by (simp add: ascii_uppercase_nth is_upper_char_def)

lemma letters_to_number_upper:
  "i < 26 \<Longrightarrow> letters_to_number n (ascii_uppercase ! i # s) = letters_to_number (n + int i + 26) s"
  using column_letter [of i]
  by (simp add: is_ascii_letter_def upper_char_def is_lower_char_def algebra_simps)

lemma alphabetic_name_ok:
  "i < 702 \<Longrightarrow> alphabetic_name i =
     Inr (if i < 26 then [ascii_uppercase ! i]
          else [ascii_uppercase ! (i div 26 - 1), ascii_uppercase ! (i mod 26)])"
  by (auto simp: alphabetic_name_def index_or_raise_def)

lemma alphabetic_name_fails: "702 \<le> i \<Longrightarrow> alphabetic_name i = Inl PyIndexError"
  by (simp add: alphabetic_name_def index_or_raise_def)

lemma convert_alphabetic_name:
  assumes "i < 702" and "alphabetic_name i = Inr s"
  shows "convert_letter_to_number s =
    Some (if i < 26 then int i else int (i div 26) + int (i mod 26) + 25)"
proof (cases "i < 26")
  case True
  with assms show ?thesis
    by (auto simp: alphabetic_name_ok convert_letter_to_number_def letters_to_number_upper
        simp del: letters_to_number.simps(2))
next
  case False
  with assms(1) have b: "i div 26 - 1 < 26" "i mod 26 < 26" "1 \<le> i div 26" by auto
  then have "int (i div 26 - 1) = int (i div 26) - 1" by simp
  with False b assms show ?thesis
    by (auto simp: alphabetic_name_ok convert_letter_to_number_def letters_to_number_upper
        simp del: of_nat_diff letters_to_number.simps(2))
qed

text \<open>C29: converting a generated column name back gives the column's index exactly for the
  first 52 columns; from \<open>BA\<close> on the conversion, which adds instead of using base 26,
  returns the index of an earlier column.\<close>

theorem column_roundtrip_exactly_52:
  assumes "i < 702" and "alphabetic_name i = Inr s"
  shows "convert_letter_to_number s = Some (int i) \<longleftrightarrow> i < 52"
proof (cases "i < 26")
  case True
  with convert_alphabetic_name [OF assms] show ?thesis by simp
next
  case False
  have "int i = 26 * int (i div 26) + int (i mod 26)"
    using div_mult_mod_eq [of i 26] by (metis mult.commute of_nat_add of_nat_mult of_nat_numeral)
  then have "int (i div 26) + int (i mod 26) + 25 = int i \<longleftrightarrow> i div 26 = 1" by auto
  also have "\<dots> \<longleftrightarrow> i < 52" using False by auto
  finally show ?thesis using False convert_alphabetic_name [OF assms] by simp
qed

theorem column_roundtrip_exactly_52_witness:
  "alphabetic_name 51 = Inr ''AZ'' \<and> convert_letter_to_number ''AZ'' = Some 51 \<and>
   alphabetic_name 52 = Inr ''BA'' \<and> convert_letter_to_number ''BA'' \<noteq> Some 52"
proof -
  have az: "alphabetic_name 51 = Inr ''AZ''" and ba: "alphabetic_name 52 = Inr ''BA''"
    by code_simp+
  show ?thesis
    using column_roundtrip_exactly_52 [OF _ az] column_roundtrip_exactly_52 [OF _ ba] az ba by simp
qed

lemma collect_names_total:
  "\<forall>i\<in>set rest. i < 702 \<Longrightarrow> \<exists>ns. collect_names rest = Inr ns \<and> length ns = length rest"
  by (induction rest) (auto simp: alphabetic_name_ok)

lemma create_alphabetic_list_ok:
  "limit \<le> 702 \<Longrightarrow> \<exists>ns. create_alphabetic_list limit = Inr ns \<and> length ns = limit"
  using collect_names_total [of "[0..<limit]"] by (auto simp: create_alphabetic_list_def)

section \<open>Name conversion and product codes\<close>

fun camel_rest :: "string \<Rightarrow> string" where
  "camel_rest [] = []"
| "camel_rest (c # cs) = (if is_upper_char c then ''_'' else []) @ lower_char c # camel_rest cs"

definition camel_to_underscore :: "string \<Rightarrow> string result" where
  "camel_to_underscore camel_case =
     (case camel_case of [] \<Rightarrow> Inl PyIndexError | c # cs \<Rightarrow> Inr (lower_char c # camel_rest cs))"

lemma underscore_not_upper [simp]: "\<not> is_upper_char CHR ''_''"
  by (simp add: is_upper_char_def code_def)

lemma camel_rest_no_upper: "\<forall>c\<in>set (camel_rest s). \<not> is_upper_char c"
  by (induction s) auto

lemma camel_rest_inject:
  "CHR ''_'' \<notin> set s \<Longrightarrow> CHR ''_'' \<notin> set t \<Longrightarrow> camel_rest s = camel_rest t \<Longrightarrow> s = t"
proof (induction s arbitrary: t)
  case Nil
  then show ?case by (cases t) auto
next
  case (Cons c cs)
  from Cons.prems(3) obtain d ds where t: "t = d # ds" by (cases t) auto
  have low: "lower_char x \<noteq> CHR ''_''" if "x \<noteq> CHR ''_''" for x
  proof
    assume e: "lower_char x = CHR ''_''"
    with that have "is_upper_char x" by (cases "is_upper_char x") (simp_all add: lower_char_def)
    with e have "code (char_of (code x + 32)) = 95" by (simp add: lower_char_def code_def)
    with \<open>is_upper_char x\<close> show False by (simp add: is_upper_char_def)
  qed
  from Cons.prems t have *: "c \<noteq> CHR ''_''" "d \<noteq> CHR ''_''" by auto
  show ?case
  proof (cases "is_upper_char c = is_upper_char d")
    case True
    with Cons.prems(3) t have e: "lower_char c = lower_char d" "camel_rest cs = camel_rest ds"
      by (auto split: if_splits)
    with True have "c = d" using lower_char_inject by (auto simp: lower_char_def split: if_splits)
    with e(2) Cons t show ?thesis by simp
  next
    case False
    with Cons.prems(3) t low [OF *(1)] low [OF *(2)] show ?thesis by (auto split: if_splits)
  qed
qed

text \<open>camel-case names without underscores that start with a lower-case letter are
  converted injectively: two different names never become the same snake-case name.\<close>

theorem camel_to_underscore_inject:
  assumes "s \<noteq> t" and "s \<noteq> []" and "t \<noteq> []"
    and "CHR ''_'' \<notin> set s" and "CHR ''_'' \<notin> set t"
    and "\<not> is_upper_char (hd s)" and "\<not> is_upper_char (hd t)"
  shows "camel_to_underscore s \<noteq> camel_to_underscore t"
proof
  assume e: "camel_to_underscore s = camel_to_underscore t"
  from assms(2,3) obtain c cs d ds where s: "s = c # cs" and t: "t = d # ds"
    by (cases s; cases t) auto
  from e assms s t have "c = d" "camel_rest cs = camel_rest ds"
    by (auto simp: camel_to_underscore_def lower_char_def)
  moreover from assms s t have "CHR ''_'' \<notin> set cs" "CHR ''_'' \<notin> set ds" by auto
  ultimately have "s = t" using s t camel_rest_inject by simp
  with assms(1) show False by simp
qed

theorem camel_to_underscore_inject_witness:
  "camel_to_underscore ''myVar'' \<noteq> camel_to_underscore ''myvar''"
proof -
  have l: "\<not> is_upper_char CHR ''m''" by code_simp
  show ?thesis by (rule camel_to_underscore_inject) (simp_all add: l)
qed

text \<open>
  The four patterns \<open>^\d{n}$\<close> with \<open>re.match\<close>: \<open>$\<close> also matches before
  one final newline, and the digits of 8-bit text are the ASCII ones.
\<close>

definition matches_digits :: "nat \<Rightarrow> string \<Rightarrow> bool" where
  "matches_digits n s =
     (let body = (if s \<noteq> [] \<and> last s = CHR 0x0A then butlast s else s)
      in length body = n \<and> list_all is_digit_char body)"

definition is_valid_gtin :: "string \<Rightarrow> bool" where
  "is_valid_gtin gtin =
     (if matches_digits 8 gtin \<or> matches_digits 12 gtin \<or> matches_digits 13 gtin \<or>
         matches_digits 14 gtin then True else False)"

text \<open>C30: the GTIN check accepts exactly the strings of 8, 12, 13 or 14 digits, and also
  each of these followed by one newline character, which is not a GTIN.\<close>

theorem is_valid_gtin_iff:
  "is_valid_gtin g \<longleftrightarrow>
     (\<exists>ds. (g = ds \<or> g = ds @ [CHR 0x0A]) \<and> length ds \<in> {8, 12, 13, 14} \<and>
           list_all is_digit_char ds)"
proof -
  have nl: "\<not> is_digit_char CHR 0x0A" by (simp add: is_digit_char_def code_def)
  have m: "matches_digits n g \<longleftrightarrow>
      (\<exists>ds. (g = ds \<or> g = ds @ [CHR 0x0A]) \<and> length ds = n \<and> list_all is_digit_char ds)"
    if "0 < n" for n
  proof (cases "g \<noteq> [] \<and> last g = CHR 0x0A")
    case True
    then obtain b where b: "g = b @ [CHR 0x0A]" by (metis append_butlast_last_id)
    then show ?thesis using nl by (auto simp: matches_digits_def list_all_iff)
  next
    case False
    then show ?thesis by (auto simp: matches_digits_def)
  qed
  have "is_valid_gtin g \<longleftrightarrow> (\<exists>n \<in> {8, 12, 13, 14}. matches_digits n g)"
    by (simp add: is_valid_gtin_def)
  also have "\<dots> \<longleftrightarrow> (\<exists>n \<in> {8, 12, 13, 14}. \<exists>ds. (g = ds \<or> g = ds @ [CHR 0x0A]) \<and> length ds = n \<and>
      list_all is_digit_char ds)"
    by (rule bex_cong [OF refl], rule m) auto
  also have "\<dots> \<longleftrightarrow> (\<exists>ds. (g = ds \<or> g = ds @ [CHR 0x0A]) \<and> length ds \<in> {8, 12, 13, 14} \<and>
      list_all is_digit_char ds)"
    by (simp only: bex_simps) blast
  finally show ?thesis .
qed

section \<open>Encoded identifiers\<close>

text \<open>
  \<open>Hashids(min_length, salt)\<close> gives \<open>enc\<close> (of a non-negative integer) and
  \<open>dec\<close> (the list of integers a code stands for, possibly empty).
\<close>

definition encode_id :: "(nat \<Rightarrow> string) \<Rightarrow> nat \<Rightarrow> string option" where
  "encode_id enc value = Some (enc value)"

definition decode_id :: "(string \<Rightarrow> nat list) \<Rightarrow> string \<Rightarrow> nat option" where
  "decode_id dec value = (case index_or_raise (dec value) 0 of Inl _ \<Rightarrow> None | Inr n \<Rightarrow> Some n)"

fun decode_list :: "(string \<Rightarrow> nat list) \<Rightarrow> string list \<Rightarrow> nat list" where
  "decode_list dec [] = []"
| "decode_list dec (item # items) =
     (case decode_id dec item of
        Some n \<Rightarrow> (if n \<noteq> 0 then n # decode_list dec items else decode_list dec items)
      | None \<Rightarrow> decode_list dec items)"

lemma decode_encode_id:
  "dec (enc n) = [n] \<Longrightarrow> encode_id enc n = Some s \<Longrightarrow> decode_id dec s = Some n"
  by (auto simp: encode_id_def decode_id_def index_or_raise_def)

lemma decode_list_encoded:
  "(\<And>n. dec (enc n) = [n]) \<Longrightarrow> decode_list dec (map enc ns) = filter (\<lambda>n. n \<noteq> 0) ns"
  by (induction ns) (auto simp: decode_id_def index_or_raise_def)

end
