(* ===== verification/Callback_Auth.thy ===== *)
theory Callback_Auth
  imports Prelude
begin

text \<open>
  \<open>v2/blockchain/models/callback_auth.py\<close> and \<open>v2/blockchain/permissions.py\<close>:
  the one-time token that authenticates a callback of the blockchain middleware. The
  current time and the random strings drawn by \<open>get_random_string\<close> are arguments. The
  database table of tokens is a map from primary keys.
\<close>

datatype cbtoken_status = CBTOKEN_UNUSED | CBTOKEN_USED | CBTOKEN_INVALIDATED

record cbtoken =
  cb_key :: string
  cb_status :: cbtoken_status
  cb_expiry :: int
  cb_creator :: "nat option"

text \<open>\<open>TOKEN_VALIDITY = {"days": 30}\<close>, in microseconds.\<close>

definition token_validity :: int where
  "token_validity = 30 * 24 * 3600 * 1000000"

definition cb_get_expiry :: "int \<Rightarrow> int" where
  "cb_get_expiry now = now + token_validity"

text \<open>
  \<open>get_key\<close> draws random strings until one is not the key of a stored token. The
  argument is the sequence of draws; running out of draws is \<open>None\<close>.
\<close>

fun cb_get_key :: "(string \<Rightarrow> bool) \<Rightarrow> string list \<Rightarrow> string option" where
  "cb_get_key taken [] = None"
| "cb_get_key taken (token # draws) = (if taken token then cb_get_key taken draws else Some token)"

definition cb_is_valid :: "int \<Rightarrow> cbtoken \<Rightarrow> bool" where
  "cb_is_valid now t = (if cb_expiry t > now \<and> cb_status t = CBTOKEN_UNUSED then True else False)"

definition cb_mark_as_used :: "cbtoken \<Rightarrow> cbtoken" where
  "cb_mark_as_used t = t\<lparr>cb_status := CBTOKEN_USED\<rparr>"

text \<open>\<open>new_key\<close> is what \<open>get_key()\<close> returns, called only for an invalid token.\<close>

definition cb_refresh :: "int \<Rightarrow> string \<Rightarrow> cbtoken \<Rightarrow> cbtoken" where
  "cb_refresh now new_key t =
     (let t1 = (if \<not> cb_is_valid now t then t\<lparr>cb_key := new_key, cb_status := CBTOKEN_UNUSED\<rparr> else t)
      in t1\<lparr>cb_expiry := cb_get_expiry now\<rparr>)"

definition cb_invalidate :: "int \<Rightarrow> cbtoken \<Rightarrow> cbtoken" where
  "cb_invalidate now t =
     (if cb_status t = CBTOKEN_UNUSED then t\<lparr>cb_expiry := now, cb_status := CBTOKEN_INVALIDATED\<rparr>
      else t)"

text \<open>\<open>CallBackToken.objects.create(creator=user)\<close> with the field defaults.\<close>

definition cb_create :: "int \<Rightarrow> string \<Rightarrow> nat option \<Rightarrow> cbtoken" where
  "cb_create now key user =
     \<lparr>cb_key = key, cb_status = CBTOKEN_UNUSED, cb_expiry = cb_get_expiry now, cb_creator = user\<rparr>"

text \<open>
  \<open>ValidCallBackToken.has_permission\<close>: \<open>decode\<close> is the Hashids decoder applied to
  the query parameter \<open>salt\<close>; a result that is \<open>None\<close> or \<open>0\<close> is falsy. On
  success the token found is put into the view's arguments.
\<close>

definition valid_callback_token ::
    "int \<Rightarrow> (string \<Rightarrow> nat option) \<Rightarrow> (nat \<rightharpoonup> cbtoken) \<Rightarrow> string \<Rightarrow> string \<Rightarrow> (nat \<times> cbtoken) result"
where
  "valid_callback_token now decode tokens token salt =
     rbind (ensure (token \<noteq> []) (AssertionError ''Token can not be empty'')) (\<lambda>_.
     rbind (of_option (AssertionError ''Salt can not be empty'')
              (case decode salt of Some pk \<Rightarrow> if pk = 0 then None else Some pk | None \<Rightarrow> None)) (\<lambda>pk.
     rbind (of_option (UnauthorizedAccess ''Could not find Token.'')
              (case tokens pk of
                 Some t \<Rightarrow> if cb_key t = token then Some t else None
               | None \<Rightarrow> None)) (\<lambda>t.
     rbind (ensure (cb_is_valid now t) (UnauthorizedAccess ''Invalid token.'')) (\<lambda>_.
       Inr (pk, t)))))"

lemmas cb_op_defs = cb_is_valid_def cb_mark_as_used_def cb_refresh_def cb_invalidate_def
  cb_create_def cb_get_expiry_def token_validity_def

section \<open>Lifecycle of a token\<close>

lemma cb_get_key_fresh: "cb_get_key taken draws = Some k \<Longrightarrow> \<not> taken k \<and> k \<in> set draws"
  by (induction draws) (auto split: if_splits)

lemma cb_get_key_enough: "\<exists>d\<in>set draws. \<not> taken d \<Longrightarrow> \<exists>k. cb_get_key taken draws = Some k"
  by (induction draws) auto

lemma cb_create_valid [simp]: "cb_is_valid now (cb_create now key user)"
  by (simp add: cb_op_defs)

lemma cb_refresh_valid [simp]: "cb_is_valid now (cb_refresh now k t)"
  by (auto simp: cb_op_defs Let_def)

lemma cb_refresh_unused [simp]: "cb_status (cb_refresh now k t) = CBTOKEN_UNUSED"
  by (auto simp: cb_op_defs Let_def)

lemma cb_mark_as_used_invalid [simp]: "\<not> cb_is_valid now (cb_mark_as_used t)"
  by (simp add: cb_op_defs)

lemma cb_mark_as_used_status [simp]: "cb_status (cb_mark_as_used t) = CBTOKEN_USED"
  by (simp add: cb_op_defs)

lemma cb_invalidate_not_unused [simp]: "cb_status (cb_invalidate now t) \<noteq> CBTOKEN_UNUSED"
  by (simp add: cb_op_defs)

lemma cb_invalidate_invalid [simp]: "\<not> cb_is_valid now' (cb_invalidate now t)"
  by (simp add: cb_op_defs)

lemma cb_not_unused_invalid: "cb_status t \<noteq> CBTOKEN_UNUSED \<Longrightarrow> \<not> cb_is_valid now t"
  by (simp add: cb_op_defs)

text \<open>A valid token keeps its key on refresh; an invalid one is issued a new key.\<close>

lemma cb_refresh_key:
  "cb_key (cb_refresh now k t) = (if cb_is_valid now t then cb_key t else k)"
  by (simp add: cb_refresh_def Let_def)

lemma valid_callback_token_Inr:
  "valid_callback_token now decode tokens token salt = Inr (pk, t) \<longleftrightarrow>
     token \<noteq> [] \<and> decode salt = Some pk \<and> pk \<noteq> 0 \<and> tokens pk = Some t \<and> cb_key t = token \<and>
     cb_is_valid now t"
  by (auto simp: valid_callback_token_def rbind_eq_Inr split: option.splits if_splits)

text \<open>C24: a callback is admitted only by the stored token whose primary key the salt
  encodes, with exactly its key, unused and not expired; every other request is refused
  with an error.\<close>

theorem valid_callback_token_sound:
  assumes "valid_callback_token now decode tokens token salt = Inr (pk, t)"
  shows "tokens pk = Some t \<and> decode salt = Some pk \<and> cb_key t = token \<and> token \<noteq> [] \<and>
    cb_status t = CBTOKEN_UNUSED \<and> now < cb_expiry t"
  using assms by (auto simp: valid_callback_token_Inr cb_is_valid_def split: if_splits)

theorem valid_callback_token_sound_witness:
  "valid_callback_token 0 (\<lambda>s. Some 7) [7 \<mapsto> cb_create 0 ''k'' None] ''k'' ''s'' =
     Inr (7, cb_create 0 ''k'' None) \<and> 0 < cb_expiry (cb_create 0 ''k'' None)"
proof -
  have h: "valid_callback_token 0 (\<lambda>s. Some 7) [7 \<mapsto> cb_create 0 ''k'' None] ''k'' ''s'' =
     Inr (7, cb_create 0 ''k'' None)"
    by (simp add: valid_callback_token_Inr) (simp add: cb_create_def)
  show ?thesis using h valid_callback_token_sound [OF h] by simp
qed

end
