(* ===== verification/Blockchain_Request.thy ===== *)
theory Blockchain_Request
  imports Callback_Auth
begin

text \<open>
  The request side of the blockchain integration: \<open>v2/blockchain/models/request.py\<close>
  (the request row, its lifecycle and the callback handler), the nine request classes of
  \<open>v2/blockchain/models/\<close> with their bodies and headers, the task
  \<open>post_blockchain_request\<close> of \<open>v2/blockchain/library.py\<close>, the callback view, and
  the \<open>initialize\<close>/\<open>pre_check\<close> pair every abstract owner class repeats.

  The database part is the record \<open>bc_db\<close>, extensible by the tables of the owners:
  requests, tokens and stored responses by primary key, the queue of committed
  \<open>post_blockchain_request\<close> tasks, and \<open>bc_posted\<close>, the log of what was sent to
  the middleware. The middleware itself is an argument.
\<close>

section \<open>Rows and tables\<close>

datatype bc_status = BC_PENDING | BC_COMPLETED | BC_DISCARDED | BC_FAILED

datatype req_type =
    CreateAccountRequest | CreateTokenRequest | AssociateTokenRequest | KYCTokenRequest
  | MintTokenRequest | TransferTokenRequest | BurnTokenRequest | TransferHBARRequest
  | SubmitMessageRequest

text \<open>The class attribute \<open>action\<close> of each request class.\<close>

fun bc_action :: "req_type \<Rightarrow> nat" where
  "bc_action CreateAccountRequest = 1"
| "bc_action CreateTokenRequest = 2"
| "bc_action AssociateTokenRequest = 3"
| "bc_action KYCTokenRequest = 4"
| "bc_action MintTokenRequest = 5"
| "bc_action TransferTokenRequest = 5"
| "bc_action BurnTokenRequest = 5"
| "bc_action TransferHBARRequest = 6"
| "bc_action SubmitMessageRequest = 8"

datatype param = PStr string | PInt int | PRat rat | PStrs "string list"

text \<open>The query \<open>?token=key&salt=id\<close> of the callback URL is the pair of key and token id.\<close>

record bc_body =
  body_callback :: "string \<times> nat"
  body_action :: nat
  body_ean_no :: "req_type \<times> nat"
  body_params :: "(string \<times> param) list"

record bc_request =
  rq_type :: req_type
  rq_related_name :: string
  rq_password :: string
  rq_body :: "bc_body option"
  rq_callback_token :: "nat option"
  rq_receipt :: "string option"
  rq_status :: bc_status
  rq_last_api_call :: "int option"
  rq_updated_on :: int
  rq_creator :: "nat option"
  rq_response :: "string option"

text \<open>The JSON of a callback: missing keys are \<open>None\<close>; \<open>data\<close> may not be a dictionary
  (a dictionary is its text entries and the number under \<open>initiatorBal\<close>, if any).\<close>

datatype resp_data = Resp_Dict "(string \<times> string) list" "rat option" | Resp_List | Resp_Other

record response =
  rs_success :: "bool option"
  rs_message :: "string option"
  rs_data :: "resp_data option"

record bc_header =
  hd_private :: string
  hd_public :: string

record bc_db =
  bc_requests :: "nat \<rightharpoonup> bc_request"
  bc_tokens :: "nat \<rightharpoonup> cbtoken"
  bc_next_request :: nat
  bc_next_token :: nat
  bc_responses :: "(nat \<times> response \<times> bool) list"
  bc_queue :: "nat list"
  bc_posted :: "(nat \<times> bc_header \<times> bc_body) list"

definition save_request :: "int \<Rightarrow> nat \<Rightarrow> bc_request \<Rightarrow> 'a bc_db_scheme \<Rightarrow> 'a bc_db_scheme" where
  "save_request now rid r db =
     db\<lparr>bc_requests := (bc_requests db)(rid \<mapsto> r\<lparr>rq_updated_on := now\<rparr>)\<rparr>"

definition save_token :: "nat \<Rightarrow> cbtoken \<Rightarrow> 'a bc_db_scheme \<Rightarrow> 'a bc_db_scheme" where
  "save_token tid t db = db\<lparr>bc_tokens := (bc_tokens db)(tid \<mapsto> t)\<rparr>"

text \<open>\<open>Model.objects.filter(id=..).update(..)\<close>: no row, no effect; \<open>updated_on\<close> stays.\<close>

definition update_request ::
    "nat \<Rightarrow> (bc_request \<Rightarrow> bc_request) \<Rightarrow> 'a bc_db_scheme \<Rightarrow> 'a bc_db_scheme" where
  "update_request rid f db =
     (case bc_requests db rid of None \<Rightarrow> db
      | Some r \<Rightarrow> db\<lparr>bc_requests := (bc_requests db)(rid \<mapsto> f r)\<rparr>)"

text \<open>Following \<open>request.callback_token\<close>: the foreign key may be null.\<close>

definition token_of :: "bc_request \<Rightarrow> 'a bc_db_scheme \<Rightarrow> (nat \<times> cbtoken) result" where
  "token_of r db =
     rbind (of_option PyAttributeError (rq_callback_token r)) (\<lambda>tid.
     rbind (of_option DoesNotExist (bc_tokens db tid)) (\<lambda>t. Inr (tid, t)))"

lemmas table_defs = save_request_def save_token_def update_request_def

section \<open>Status predicates and lifecycle methods\<close>

definition rq_is_pending :: "bc_request \<Rightarrow> bool" where
  "rq_is_pending r = (rq_status r = BC_PENDING)"

definition rq_is_completed :: "bc_request \<Rightarrow> bool" where
  "rq_is_completed r = (rq_status r = BC_COMPLETED)"

definition rq_is_discarded :: "bc_request \<Rightarrow> bool" where
  "rq_is_discarded r = (rq_status r = BC_DISCARDED)"

definition rq_is_failed :: "bc_request \<Rightarrow> bool" where
  "rq_is_failed r = (rq_status r = BC_FAILED)"

text \<open>\<open>REQUEST_DELAY_TOLERENCE = {"hours": 12}\<close>.\<close>

definition delay_tolerance :: int where
  "delay_tolerance = 12 * 3600 * 1000000"

definition rq_is_delayed :: "int \<Rightarrow> bc_request \<Rightarrow> bool" where
  "rq_is_delayed now r =
     (if rq_status r = BC_PENDING then (if rq_updated_on r < now - delay_tolerance then True else False)
      else False)"

definition complete_request ::
    "int \<Rightarrow> nat \<Rightarrow> bc_request \<Rightarrow> nat \<Rightarrow> cbtoken \<Rightarrow> 'a bc_db_scheme \<Rightarrow> 'a bc_db_scheme" where
  "complete_request now rid r tid t db =
     save_token tid (cb_mark_as_used t)
       (save_request now rid (r\<lparr>rq_status := BC_COMPLETED\<rparr>) db)"

definition mark_as_failed ::
    "int \<Rightarrow> nat \<Rightarrow> bc_request \<Rightarrow> nat \<Rightarrow> cbtoken \<Rightarrow> 'a bc_db_scheme \<Rightarrow> 'a bc_db_scheme" where
  "mark_as_failed now rid r tid t db =
     save_token tid (cb_invalidate now t)
       (save_request now rid (r\<lparr>rq_status := BC_FAILED\<rparr>) db)"

definition discard_request ::
    "int \<Rightarrow> nat \<Rightarrow> bc_request \<Rightarrow> nat \<Rightarrow> cbtoken \<Rightarrow> 'a bc_db_scheme \<Rightarrow> 'a bc_db_scheme" where
  "discard_request now rid r tid t db =
     save_token tid (cb_invalidate now t)
       (if rq_status r = BC_PENDING
        then save_request now rid (r\<lparr>rq_status := BC_DISCARDED\<rparr>) db else db)"

text \<open>\<open>send\<close> saves the request as pending and queues the posting task on commit.\<close>

definition base_send :: "int \<Rightarrow> nat \<Rightarrow> bc_request \<Rightarrow> 'a bc_db_scheme \<Rightarrow> 'a bc_db_scheme" where
  "base_send now rid r db =
     (let db1 = save_request now rid (r\<lparr>rq_status := BC_PENDING\<rparr>) db
      in db1\<lparr>bc_queue := bc_queue db1 @ [rid]\<rparr>)"

text \<open>
  \<open>AssociateTokenRequest.send\<close> discards itself when its owner has no token to associate;
  the other classes inherit \<open>send\<close>. \<open>tokens\<close> is \<open>related_object.tokens_to_associate\<close>.
\<close>

definition associate_send ::
    "int \<Rightarrow> string list \<Rightarrow> nat \<Rightarrow> bc_request \<Rightarrow> 'a bc_db_scheme \<Rightarrow> ('a bc_db_scheme \<times> bool) result"
where
  "associate_send now tokens rid r db =
     (if tokens = [] then
        rbind (token_of r db) (\<lambda>(tid, t). Inr (discard_request now rid r tid t db, False))
      else Inr (base_send now rid r db, True))"

definition send_request ::
    "int \<Rightarrow> string list \<Rightarrow> nat \<Rightarrow> bc_request \<Rightarrow> 'a bc_db_scheme \<Rightarrow> ('a bc_db_scheme \<times> bool) result"
where
  "send_request now tokens rid r db =
     (if rq_type r = AssociateTokenRequest then associate_send now tokens rid r db
      else Inr (base_send now rid r db, True))"

definition retry_request ::
    "int \<Rightarrow> string \<Rightarrow> string list \<Rightarrow> nat \<Rightarrow> 'a bc_db_scheme \<Rightarrow> 'a bc_db_scheme result" where
  "retry_request now new_key tokens rid db =
     rbind (of_option DoesNotExist (bc_requests db rid)) (\<lambda>r.
     rbind (token_of r db) (\<lambda>(tid, t).
     rbind (send_request now tokens rid r (save_token tid (cb_refresh now new_key t) db)) (\<lambda>(db', _).
       Inr db')))"

section \<open>Headers and bodies\<close>

text \<open>
  What a request reads of its owner (\<open>related_object\<close>); properties that may raise are
  results. \<open>ro_short_message\<close> is an error for classes without that attribute.
\<close>

record rel_object =
  ro_sender_id :: "string result"
  ro_sender_private :: "string result"
  ro_receiver_id :: "string result"
  ro_owner_id :: "string result"
  ro_owner_private :: "string result"
  ro_account_id :: "string result"
  ro_account_private :: "string result"
  ro_quantity :: "rat result"
  ro_quantity_to_burn :: "rat result"
  ro_token_id :: "string result"
  ro_token_name :: "string result"
  ro_tokens_to_associate :: "string list"
  ro_recharge_amount :: rat
  ro_topic_id :: string
  ro_message :: "string result"
  ro_short_message :: "string result"

text \<open>Python's \<open>int(x)\<close> truncates towards zero.\<close>

definition py_int :: "rat \<Rightarrow> int" where
  "py_int x = (if 0 \<le> x then \<lfloor>x\<rfloor> else \<lceil>x\<rceil>)"

record bc_settings =
  treasury_id :: string
  treasury_private :: string

definition base_header :: "bc_settings \<Rightarrow> bc_header" where
  "base_header cfg = \<lparr>hd_private = treasury_private cfg, hd_public = treasury_id cfg\<rparr>"

definition transfer_header :: "rel_object \<Rightarrow> bc_header result" where
  "transfer_header ro =
     rbind (ro_sender_id ro) (\<lambda>pub. rbind (ro_sender_private ro) (\<lambda>prv.
       Inr \<lparr>hd_private = prv, hd_public = pub\<rparr>))"

definition burn_header :: "rel_object \<Rightarrow> bc_header result" where
  "burn_header ro =
     rbind (ro_owner_id ro) (\<lambda>pub. rbind (ro_owner_private ro) (\<lambda>prv.
       Inr \<lparr>hd_private = prv, hd_public = pub\<rparr>))"

definition associate_header :: "rel_object \<Rightarrow> bc_header result" where
  "associate_header ro =
     rbind (ro_account_id ro) (\<lambda>pub. rbind (ro_account_private ro) (\<lambda>prv.
       Inr \<lparr>hd_private = prv, hd_public = pub\<rparr>))"

definition prepare_header :: "bc_settings \<Rightarrow> req_type \<Rightarrow> rel_object \<Rightarrow> bc_header result" where
  "prepare_header cfg ty ro =
     (case ty of
        TransferTokenRequest \<Rightarrow> transfer_header ro
      | BurnTokenRequest \<Rightarrow> burn_header ro
      | AssociateTokenRequest \<Rightarrow> associate_header ro
      | _ \<Rightarrow> Inr (base_header cfg))"

text \<open>The parameters each class puts into the body after \<open>super().prepare_body()\<close>.\<close>

definition create_account_params :: "string \<Rightarrow> (string \<times> param) list result" where
  "create_account_params password =
     Inr [(''init_bal'', PInt 2), (''password'', PStr password)]"

definition create_token_params :: "rel_object \<Rightarrow> (string \<times> param) list result" where
  "create_token_params ro = rbind (ro_token_name ro) (\<lambda>n. Inr [(''name'', PStr n)])"

definition associate_params :: "rel_object \<Rightarrow> (string \<times> param) list result" where
  "associate_params ro = Inr [(''token_ids'', PStrs (ro_tokens_to_associate ro))]"

definition kyc_params :: "rel_object \<Rightarrow> (string \<times> param) list result" where
  "kyc_params ro =
     rbind (ro_token_id ro) (\<lambda>tok. rbind (ro_account_id ro) (\<lambda>acc.
       Inr [(''token_id'', PStr tok), (''distributor_id'', PStr acc)]))"

definition mint_params :: "rel_object \<Rightarrow> (string \<times> param) list result" where
  "mint_params ro =
     rbind (ro_owner_id ro) (\<lambda>own. rbind (ro_quantity ro) (\<lambda>q. rbind (ro_token_id ro) (\<lambda>tok.
       Inr [(''receiver_id'', PStr own), (''amount'', PInt (py_int q)), (''token_id'', PStr tok)])))"

definition transfer_params :: "rel_object \<Rightarrow> (string \<times> param) list result" where
  "transfer_params ro =
     rbind (ro_receiver_id ro) (\<lambda>rcv. rbind (ro_quantity ro) (\<lambda>q. rbind (ro_token_id ro) (\<lambda>tok.
       Inr [(''receiver_id'', PStr rcv), (''amount'', PInt (py_int q)), (''token_id'', PStr tok)])))"

definition burn_params :: "bc_settings \<Rightarrow> rel_object \<Rightarrow> (string \<times> param) list result" where
  "burn_params cfg ro =
     rbind (ro_quantity_to_burn ro) (\<lambda>q. rbind (ro_token_id ro) (\<lambda>tok.
       Inr [(''receiver_id'', PStr (treasury_id cfg)), (''amount'', PInt (py_int q)),
            (''token_id'', PStr tok)]))"

definition transfer_hbar_params :: "rel_object \<Rightarrow> (string \<times> param) list result" where
  "transfer_hbar_params ro =
     rbind (ro_receiver_id ro) (\<lambda>rcv.
       Inr [(''receiver_id'', PStr rcv), (''amount'', PRat (ro_recharge_amount ro))])"

text \<open>\<open>HEDERA_CONSENSUS_MESSAGE_SIZE\<close>.\<close>

definition submit_message_params :: "rel_object \<Rightarrow> (string \<times> param) list result" where
  "submit_message_params ro =
     rbind (ro_message ro) (\<lambda>message.
       let msg = (if length message > 6000
                  then (case ro_short_message ro of Inr m \<Rightarrow> m | Inl _ \<Rightarrow> take 6000 message)
                  else message)
       in Inr [(''topic_id'', PStr (ro_topic_id ro)), (''message'', PStr msg)])"

definition request_params ::
    "bc_settings \<Rightarrow> bc_request \<Rightarrow> rel_object \<Rightarrow> (string \<times> param) list result" where
  "request_params cfg r ro =
     (case rq_type r of
        CreateAccountRequest \<Rightarrow> create_account_params (rq_password r)
      | CreateTokenRequest \<Rightarrow> create_token_params ro
      | AssociateTokenRequest \<Rightarrow> associate_params ro
      | KYCTokenRequest \<Rightarrow> kyc_params ro
      | MintTokenRequest \<Rightarrow> mint_params ro
      | TransferTokenRequest \<Rightarrow> transfer_params ro
      | BurnTokenRequest \<Rightarrow> burn_params cfg ro
      | TransferHBARRequest \<Rightarrow> transfer_hbar_params ro
      | SubmitMessageRequest \<Rightarrow> submit_message_params ro)"

text \<open>\<open>BlockchainRequest.prepare_body\<close>: the body with empty parameters, saved.\<close>

definition base_body :: "nat \<Rightarrow> bc_request \<Rightarrow> 'a bc_db_scheme \<Rightarrow> bc_body result" where
  "base_body rid r db =
     rbind (token_of r db) (\<lambda>(tid, t).
       Inr \<lparr>body_callback = (cb_key t, tid), body_action = bc_action (rq_type r),
            body_ean_no = (rq_type r, rid), body_params = []\<rparr>)"

text \<open>
  A subclass's \<open>prepare_body\<close>: the base body is saved first, then the parameters are
  computed (and may raise), then the body is saved with them.
\<close>

definition prepare_body ::
    "int \<Rightarrow> bc_settings \<Rightarrow> nat \<Rightarrow> bc_request \<Rightarrow> rel_object \<Rightarrow> 'a bc_db_scheme \<Rightarrow>
     'a bc_db_scheme \<times> (bc_request \<times> bc_body) result"
where
  "prepare_body now cfg rid r ro db =
     (case base_body rid r db of
        Inl e \<Rightarrow> (db, Inl e)
      | Inr b \<Rightarrow>
          (let r1 = r\<lparr>rq_body := Some b\<rparr>; db1 = save_request now rid r1 db in
           case request_params cfg r ro of
             Inl e \<Rightarrow> (db1, Inl e)
           | Inr ps \<Rightarrow>
               (let b2 = b\<lparr>body_params := ps\<rparr>; r2 = r1\<lparr>rq_body := Some b2\<rparr>
                in (save_request now rid r2 db1, Inr (r2, b2)))))"

text \<open>
  The expression \<open>request.prepare_body()\<close> in the posting task. In
  \<open>BurnTokenRequest\<close> the method is decorated with \<open>@property\<close>: reading the
  attribute runs the body code and yields the dictionary, and calling the dictionary
  raises \<open>TypeError\<close>.
\<close>

definition call_prepare_body ::
    "int \<Rightarrow> bc_settings \<Rightarrow> nat \<Rightarrow> bc_request \<Rightarrow> rel_object \<Rightarrow> 'a bc_db_scheme \<Rightarrow>
     'a bc_db_scheme \<times> (bc_request \<times> bc_body) result"
where
  "call_prepare_body now cfg rid r ro db =
     (case prepare_body now cfg rid r ro db of
        (db', Inl e) \<Rightarrow> (db', Inl e)
      | (db', Inr rb) \<Rightarrow> (db', if rq_type r = BurnTokenRequest then Inl PyTypeError else Inr rb))"

end
