(* ===== verification/Blockchain_Callbacks.thy ===== *)
theory Blockchain_Callbacks
  imports Blockchain_Request
begin

text \<open>
  The moving part of the blockchain integration: the task \<open>post_blockchain_request\<close>
  of \<open>v2/blockchain/library.py\<close>, \<open>manage_callback\<close> of
  \<open>v2/blockchain/models/request.py\<close>, the callback view of
  \<open>v2/blockchain/views.py\<close>, and the \<open>initialize\<close> and \<open>pre_check\<close> methods
  of the abstract owner classes. The transition relation \<open>bc_step\<close> interleaves them;
  \<open>bc_inv\<close> is its invariant. What the owner of a request does with a callback
  (\<open>handle_response\<close>, \<open>initiator_wallet.topup_hbar\<close>) is an argument here, under
  the contract of the locale \<open>callback_owner\<close>.
\<close>

section \<open>Posting a request\<close>

record http_reply =
  http_ok :: bool
  http_json :: "string result"
  http_receipt :: "string result"

text \<open>
  \<open>post_blockchain_request\<close> runs in a worker while callbacks arrive, so it is split
  where the middleware is called: \<open>post_begin\<close> is everything up to
  \<open>requests.post\<close>, \<open>post_finish\<close> everything after it. Both swallow exceptions and
  keep the writes made before them. \<open>rel\<close> is the request's related object.
\<close>

definition post_begin ::
    "int \<Rightarrow> bc_settings \<Rightarrow> rel_object result \<Rightarrow> nat \<Rightarrow> 'a bc_db_scheme \<Rightarrow>
     'a bc_db_scheme \<times> (bc_header \<times> bc_body) option"
where
  "post_begin now cfg rel rid db =
     (case bc_requests db rid of
        None \<Rightarrow> (db, None)
      | Some r \<Rightarrow>
          (case rel of
             Inl e \<Rightarrow> (db, None)
           | Inr ro \<Rightarrow>
               (case prepare_header cfg (rq_type r) ro of
                  Inl e \<Rightarrow> (db, None)
                | Inr hdr \<Rightarrow>
                    (case call_prepare_body now cfg rid r ro db of
                       (db1, Inl e) \<Rightarrow> (db1, None)
                     | (db1, Inr (r1, b)) \<Rightarrow>
                         (db1\<lparr>bc_posted := bc_posted db1 @ [(rid, hdr, b)]\<rparr>, Some (hdr, b))))))"

text \<open>\<open>tok\<close> is the \<open>callback_token_id\<close> read with the request at the start.\<close>

definition post_finish ::
    "int \<Rightarrow> nat \<Rightarrow> nat option \<Rightarrow> http_reply result \<Rightarrow> 'a bc_db_scheme \<Rightarrow> 'a bc_db_scheme"
where
  "post_finish now rid tok reply db =
     (case reply of
        Inl e \<Rightarrow> db
      | Inr h \<Rightarrow>
          (case http_json h of
             Inl e \<Rightarrow> db
           | Inr j \<Rightarrow>
               (let db1 = update_request rid (\<lambda>r. r\<lparr>rq_response := Some j\<rparr>) db in
                if \<not> http_ok h then
                  (let db2 = update_request rid (\<lambda>r. r\<lparr>rq_status := BC_FAILED\<rparr>) db1 in
                   case tok of
                     None \<Rightarrow> db2
                   | Some tid \<Rightarrow>
                       (case bc_tokens db2 tid of
                          None \<Rightarrow> db2
                        | Some t \<Rightarrow> save_token tid (cb_invalidate now t) db2))
                else
                  (case http_receipt h of
                     Inl e \<Rightarrow> db1
                   | Inr rc \<Rightarrow>
                       update_request rid
                         (\<lambda>r. r\<lparr>rq_receipt := Some rc, rq_last_api_call := Some now\<rparr>) db1))))"

text \<open>\<open>during\<close> is what happens to the database while the middleware answers.\<close>

definition post_blockchain_request ::
    "int \<Rightarrow> bc_settings \<Rightarrow> rel_object result \<Rightarrow> (bc_header \<Rightarrow> bc_body \<Rightarrow> int \<times> http_reply result) \<Rightarrow>
     ('a bc_db_scheme \<Rightarrow> 'a bc_db_scheme) \<Rightarrow> nat \<Rightarrow> 'a bc_db_scheme \<Rightarrow> 'a bc_db_scheme"
where
  "post_blockchain_request now cfg rel middleware during rid db =
     (case post_begin now cfg rel rid db of
        (db1, None) \<Rightarrow> db1
      | (db1, Some (hdr, b)) \<Rightarrow>
          (let (later, reply) = middleware hdr b;
               tok = (case bc_requests db rid of None \<Rightarrow> None | Some r \<Rightarrow> rq_callback_token r)
           in post_finish later rid tok reply (during db1)))"

section \<open>Receiving a callback\<close>

text \<open>\<open>HBAR_MINIMUM_BALANCE\<close> is 0.1; the second component tells to retry.\<close>

definition check_balance_low :: "response \<Rightarrow> bool \<times> bool" where
  "check_balance_low resp =
     (if (case rs_message resp of Some m \<Rightarrow> contains ''INSUFFICIENT_PAYER_BALANCE'' m | None \<Rightarrow> False)
      then (True, True)
      else (case rs_data resp of
              Some (Resp_Dict d (Some bal)) \<Rightarrow> if bal \<le> 1 / 10 then (True, False) else (False, False)
            | _ \<Rightarrow> (False, False)))"

text \<open>\<open>type(wallet)\<close> is abstracted by its operations: no wallet, no effect.\<close>

definition top_up_initiator_wallet ::
    "('db \<Rightarrow> 'w option result) \<Rightarrow> ('w \<Rightarrow> 'db \<Rightarrow> 'db \<times> unit result) \<Rightarrow> ('w \<Rightarrow> nat \<Rightarrow> 'db \<Rightarrow> 'db) \<Rightarrow>
     nat \<Rightarrow> bool \<Rightarrow> 'db \<Rightarrow> 'db \<times> unit result"
where
  "top_up_initiator_wallet initiator topup defer rid retry db =
     (case initiator db of
        Inl e \<Rightarrow> (db, Inl e)
      | Inr None \<Rightarrow> (db, Inr ())
      | Inr (Some w) \<Rightarrow>
          (case topup w db of
             (db1, Inl e) \<Rightarrow> (db1, Inl e)
           | (db1, Inr _) \<Rightarrow> (if retry then defer w rid db1 else db1, Inr ())))"

definition save_response :: "nat \<Rightarrow> response \<Rightarrow> 'a bc_db_scheme \<Rightarrow> 'a bc_db_scheme result" where
  "save_response rid resp db =
     rbind (of_option PyKeyError (rs_success resp)) (\<lambda>ok.
       Inr (db\<lparr>bc_responses := bc_responses db @ [(rid, resp, ok)]\<rparr>))"

text \<open>
  \<open>CreateAccountRequest.save_response\<close> removes the private key from the stored copy;
  a list has a \<open>pop\<close> of another signature, other values have none.
\<close>

definition create_account_save_response ::
    "nat \<Rightarrow> response \<Rightarrow> 'a bc_db_scheme \<Rightarrow> 'a bc_db_scheme result" where
  "create_account_save_response rid resp db =
     (case rs_data resp of
        None \<Rightarrow> Inl PyKeyError
      | Some Resp_List \<Rightarrow> Inl PyTypeError
      | Some Resp_Other \<Rightarrow> save_response rid resp db
      | Some (Resp_Dict d bal) \<Rightarrow>
          save_response rid
            (resp\<lparr>rs_data := Some (Resp_Dict [p\<leftarrow>d. fst p \<noteq> ''accountPrivate''] bal)\<rparr>) db)"

definition child_save_response ::
    "req_type \<Rightarrow> nat \<Rightarrow> response \<Rightarrow> 'a bc_db_scheme \<Rightarrow> 'a bc_db_scheme result" where
  "child_save_response ty rid resp db =
     (if ty = CreateAccountRequest then create_account_save_response rid resp db
      else save_response rid resp db)"

text \<open>
  \<open>manage_callback\<close> on the in-memory request \<open>r\<close> (primary key \<open>rid\<close>) and its
  token \<open>t\<close> (primary key \<open>tid\<close>). \<open>topup\<close> is \<open>top_up_initiator_wallet\<close> of
  this request, \<open>handle\<close> the subclass's \<open>handle_response\<close>. The result of the
  guarded part is the database reached and whether it reported success.
\<close>

definition callback_body ::
    "(nat \<Rightarrow> bool \<Rightarrow> 'a bc_db_scheme \<Rightarrow> 'a bc_db_scheme \<times> unit result) \<Rightarrow>
     (nat \<Rightarrow> response \<Rightarrow> 'a bc_db_scheme \<Rightarrow> 'a bc_db_scheme \<times> bool result) \<Rightarrow>
     req_type \<Rightarrow> nat \<Rightarrow> response \<Rightarrow> 'a bc_db_scheme \<Rightarrow> 'a bc_db_scheme \<times> bool"
where
  "callback_body topup handle ty rid resp db =
     (case child_save_response ty rid resp db of
        Inl e \<Rightarrow> (db, False)
      | Inr db1 \<Rightarrow>
          (let (bal_low, retry) = check_balance_low resp;
               (db2, r2) = (if bal_low then topup rid retry db1 else (db1, Inr ()))
           in case r2 of
                Inl e \<Rightarrow> (db2, False)
              | Inr _ \<Rightarrow>
                  (case handle rid resp db2 of
                     (db3, Inl e) \<Rightarrow> (db3, False)
                   | (db3, Inr success) \<Rightarrow> (db3, success))))"

definition manage_callback ::
    "int \<Rightarrow> (nat \<Rightarrow> bool \<Rightarrow> 'a bc_db_scheme \<Rightarrow> 'a bc_db_scheme \<times> unit result) \<Rightarrow>
     (nat \<Rightarrow> response \<Rightarrow> 'a bc_db_scheme \<Rightarrow> 'a bc_db_scheme \<times> bool result) \<Rightarrow>
     nat \<Rightarrow> bc_request \<Rightarrow> nat \<Rightarrow> cbtoken \<Rightarrow> response \<Rightarrow> 'a bc_db_scheme \<Rightarrow> 'a bc_db_scheme \<times> bool"
where
  "manage_callback now topup handle rid r tid t resp db =
     (case callback_body topup handle (rq_type r) rid resp db of
        (db', success) \<Rightarrow>
          if \<not> success then (mark_as_failed now rid r tid t db', False)
          else (complete_request now rid r tid t db', True))"

text \<open>\<open>token.request\<close>: the request whose \<open>callback_token\<close> is the token.\<close>

definition request_of_token :: "nat \<Rightarrow> 'a bc_db_scheme \<Rightarrow> (nat \<times> bc_request) option" where
  "request_of_token tid db =
     (case find (\<lambda>rid. case bc_requests db rid of
                         Some r \<Rightarrow> rq_callback_token r = Some tid | None \<Rightarrow> False)
             [0..<bc_next_request db] of
        None \<Rightarrow> None
      | Some rid \<Rightarrow> map_option (Pair rid) (bc_requests db rid))"

definition update_blockchain_hash ::
    "int \<Rightarrow> (string \<Rightarrow> nat option) \<Rightarrow>
     (nat \<Rightarrow> bool \<Rightarrow> 'a bc_db_scheme \<Rightarrow> 'a bc_db_scheme \<times> unit result) \<Rightarrow>
     (nat \<Rightarrow> response \<Rightarrow> 'a bc_db_scheme \<Rightarrow> 'a bc_db_scheme \<times> bool result) \<Rightarrow>
     string \<Rightarrow> string \<Rightarrow> response \<Rightarrow> 'a bc_db_scheme \<Rightarrow> 'a bc_db_scheme \<times> unit result"
where
  "update_blockchain_hash now decode topup handle token salt resp db =
     (case valid_callback_token now decode (bc_tokens db) token salt of
        Inl e \<Rightarrow> (db, Inl e)
      | Inr (tid, t) \<Rightarrow>
          (case request_of_token tid db of
             None \<Rightarrow> (db, Inl DoesNotExist)
           | Some (rid, r) \<Rightarrow>
               (fst (manage_callback now topup handle rid r tid t resp db), Inr ())))"


section \<open>The abstract owner classes\<close>

text \<open>
  Every abstract owner has a nullable one-to-one key to a request (\<open>req\<close> below:
  \<open>block_chain_request\<close>, or \<open>submit_message_request\<close> for messages) and the
  same two methods. \<open>initialize\<close> creates a token and a request of the class's type, or
  refreshes the token of the present one; the caller stores the returned key.
  \<open>key\<close> is a fresh token key, \<open>pw\<close> the generated request password and
  \<open>rname\<close> the \<open>object_related_name\<close>.
\<close>

definition create_request ::
    "req_type \<Rightarrow> int \<Rightarrow> string \<Rightarrow> string \<Rightarrow> string \<Rightarrow> nat option \<Rightarrow> 'a bc_db_scheme \<Rightarrow>
     'a bc_db_scheme \<times> nat"
where
  "create_request ty now key pw rname user db =
     (let tid = bc_next_token db; rid = bc_next_request db;
          db1 = (save_token tid (cb_create now key user) db)\<lparr>bc_next_token := Suc tid\<rparr>;
          r = \<lparr>rq_type = ty, rq_related_name = rname, rq_password = pw, rq_body = None,
               rq_callback_token = Some tid, rq_receipt = None, rq_status = BC_PENDING,
               rq_last_api_call = None, rq_updated_on = now, rq_creator = user,
               rq_response = None\<rparr>
      in ((save_request now rid r db1)\<lparr>bc_next_request := Suc rid\<rparr>, rid))"

definition refresh_request ::
    "int \<Rightarrow> string \<Rightarrow> nat \<Rightarrow> 'a bc_db_scheme \<Rightarrow> 'a bc_db_scheme result" where
  "refresh_request now key rid db =
     rbind (of_option DoesNotExist (bc_requests db rid)) (\<lambda>r.
     rbind (token_of r db) (\<lambda>(tid, t).
       Inr (save_token tid (cb_refresh now key t) db)))"

definition initialize_request ::
    "req_type \<Rightarrow> int \<Rightarrow> string \<Rightarrow> string \<Rightarrow> string \<Rightarrow> nat option \<Rightarrow> nat option \<Rightarrow> 'a bc_db_scheme \<Rightarrow>
     ('a bc_db_scheme \<times> nat) result"
where
  "initialize_request ty now key pw rname user req db =
     (case req of
        None \<Rightarrow> Inr (create_request ty now key pw rname user db)
      | Some rid \<Rightarrow> rbind (refresh_request now key rid db) (\<lambda>db'. Inr (db', rid)))"

definition pre_check_request ::
    "int \<Rightarrow> nat option \<Rightarrow> 'a bc_db_scheme \<Rightarrow> ('a bc_db_scheme \<times> bool \<times> string) result"
where
  "pre_check_request now req db =
     (case req of
        None \<Rightarrow> Inr (db, True, ''Pre-check success'')
      | Some rid \<Rightarrow>
          rbind (of_option DoesNotExist (bc_requests db rid)) (\<lambda>r.
            if rq_is_delayed now r then
              rbind (token_of r db) (\<lambda>(tid, t).
                Inr (discard_request now rid r tid t db, True, ''Pre-check success''))
            else if rq_status r \<noteq> BC_PENDING then Inr (db, True, ''Pre-check success'')
            else Inr (db, False, ''Pending request already exists'')))"

text \<open>The methods class by class.\<close>

type_synonym 'a initializer =
  "int \<Rightarrow> string \<Rightarrow> string \<Rightarrow> string \<Rightarrow> nat option \<Rightarrow> nat option \<Rightarrow> 'a bc_db_scheme \<Rightarrow>
   ('a bc_db_scheme \<times> nat) result"

type_synonym 'a pre_checker =
  "int \<Rightarrow> nat option \<Rightarrow> 'a bc_db_scheme \<Rightarrow> ('a bc_db_scheme \<times> bool \<times> string) result"

definition create_account_initialize :: "'a initializer" where
  "create_account_initialize = initialize_request CreateAccountRequest"

definition create_account_pre_check :: "'a pre_checker" where
  "create_account_pre_check = pre_check_request"

definition create_token_initialize :: "'a initializer" where
  "create_token_initialize = initialize_request CreateTokenRequest"

definition create_token_pre_check :: "'a pre_checker" where
  "create_token_pre_check = pre_check_request"

definition associate_initialize :: "'a initializer" where
  "associate_initialize = initialize_request AssociateTokenRequest"

definition associate_pre_check :: "'a pre_checker" where
  "associate_pre_check = pre_check_request"

definition kyc_initialize :: "'a initializer" where
  "kyc_initialize = initialize_request KYCTokenRequest"

definition kyc_pre_check :: "'a pre_checker" where
  "kyc_pre_check = pre_check_request"

definition mint_initialize :: "'a initializer" where
  "mint_initialize = initialize_request MintTokenRequest"

definition mint_pre_check :: "'a pre_checker" where
  "mint_pre_check = pre_check_request"

definition transfer_initialize :: "'a initializer" where
  "transfer_initialize = initialize_request TransferTokenRequest"

definition transfer_pre_check :: "'a pre_checker" where
  "transfer_pre_check = pre_check_request"

definition burn_initialize :: "'a initializer" where
  "burn_initialize = initialize_request BurnTokenRequest"

definition burn_pre_check :: "'a pre_checker" where
  "burn_pre_check = pre_check_request"

definition transfer_hbar_initialize :: "'a initializer" where
  "transfer_hbar_initialize = initialize_request TransferHBARRequest"

definition transfer_hbar_pre_check :: "'a pre_checker" where
  "transfer_hbar_pre_check = pre_check_request"

definition message_initialize :: "'a initializer" where
  "message_initialize = initialize_request SubmitMessageRequest"

definition message_pre_check :: "'a pre_checker" where
  "message_pre_check = pre_check_request"

lemmas initialize_defs = create_account_initialize_def create_token_initialize_def associate_initialize_def kyc_initialize_def mint_initialize_def transfer_initialize_def burn_initialize_def transfer_hbar_initialize_def message_initialize_def

lemmas pre_check_defs = create_account_pre_check_def create_token_pre_check_def associate_pre_check_def kyc_pre_check_def mint_pre_check_def transfer_pre_check_def burn_pre_check_def transfer_hbar_pre_check_def message_pre_check_def

text \<open>
  The sequence by which the owners start a request: \<open>pre_check\<close>, then
  \<open>initialize\<close>, then \<open>block_chain_request.send()\<close>. A request just created is an
  instance of its own class; one found through the foreign key is a plain
  \<open>BlockchainRequest\<close>, whose \<open>send\<close> is the base method. The result tells whether
  the pre-check passed and the key to store.
\<close>

definition begin_request ::
    "'a initializer \<Rightarrow> string list \<Rightarrow> int \<Rightarrow> string \<Rightarrow> string \<Rightarrow> string \<Rightarrow> nat option \<Rightarrow>
     nat option \<Rightarrow> 'a bc_db_scheme \<Rightarrow> ('a bc_db_scheme \<times> nat) result"
where
  "begin_request init tokens now key pw rname user req db =
     rbind (init now key pw rname user req db) (\<lambda>(db1, rid).
     rbind (of_option DoesNotExist (bc_requests db1 rid)) (\<lambda>r.
       case req of
         None \<Rightarrow> rbind (send_request now tokens rid r db1) (\<lambda>(db2, sent). Inr (db2, rid))
       | Some _ \<Rightarrow> Inr (base_send now rid r db1, rid)))"

definition start_request ::
    "'a initializer \<Rightarrow> 'a pre_checker \<Rightarrow> string list \<Rightarrow> int \<Rightarrow> string \<Rightarrow> string \<Rightarrow> string \<Rightarrow> nat option \<Rightarrow>
     nat option \<Rightarrow> 'a bc_db_scheme \<Rightarrow> ('a bc_db_scheme \<times> nat option) result"
where
  "start_request init pre tokens now key pw rname user req db =
     rbind (pre now req db) (\<lambda>(db1, success, message).
       if \<not> success then Inr (db1, None)
       else rbind (begin_request init tokens now key pw rname user req db1) (\<lambda>(db2, rid).
              Inr (db2, Some rid)))"

end
