(* ===== verification/Blockchain_Protocol.thy ===== *)
theory Blockchain_Protocol
  imports Blockchain_Callbacks
begin

text \<open>
  The invariant of the request and token tables and what each operation of
  \<open>Blockchain_Request\<close> and \<open>Blockchain_Callbacks\<close> does to it; the interfaces
  \<open>request_owner\<close> (the methods of the abstract owner classes) and
  \<open>callback_owner\<close> (what an owner may do while a callback is handled); and the
  transition relation \<open>bc_step\<close> in which starts, posts, callbacks, retries and
  discards interleave.
\<close>

section \<open>Invariant and frame\<close>

definition request_ok :: "'a bc_db_scheme \<Rightarrow> nat \<Rightarrow> bc_request \<Rightarrow> bool" where
  "request_ok db rid r \<longleftrightarrow> rid < bc_next_request db \<and>
     (\<exists>tid t. rq_callback_token r = Some tid \<and> bc_tokens db tid = Some t \<and>
       (cb_status t = CBTOKEN_UNUSED \<longrightarrow> rq_status r = BC_PENDING))"

definition bc_inv :: "'a bc_db_scheme \<Rightarrow> bool" where
  "bc_inv db \<longleftrightarrow>
     (\<forall>rid r. bc_requests db rid = Some r \<longrightarrow> request_ok db rid r) \<and>
     (\<forall>rid r rid' r'. bc_requests db rid = Some r \<longrightarrow> bc_requests db rid' = Some r' \<longrightarrow>
        rq_callback_token r = rq_callback_token r' \<longrightarrow> rid = rid') \<and>
     (\<forall>tid t. bc_tokens db tid = Some t \<longrightarrow> tid < bc_next_token db)"

text \<open>What no operation undoes: a request keeps its type and its token.\<close>

definition keeps :: "'a bc_db_scheme \<Rightarrow> 'a bc_db_scheme \<Rightarrow> bool" where
  "keeps db db' \<longleftrightarrow>
     (\<forall>rid r. bc_requests db rid = Some r \<longrightarrow>
        (\<exists>r'. bc_requests db' rid = Some r' \<and> rq_callback_token r' = rq_callback_token r \<and>
              rq_type r' = rq_type r)) \<and>
     (\<forall>tid t. bc_tokens db tid = Some t \<longrightarrow> (\<exists>t'. bc_tokens db' tid = Some t'))"

text \<open>The pair of token and key can no longer authenticate a callback.\<close>

definition consumed :: "nat \<Rightarrow> string \<Rightarrow> 'a bc_db_scheme \<Rightarrow> bool" where
  "consumed tid k db \<longleftrightarrow>
     (\<exists>t. bc_tokens db tid = Some t \<and> (cb_key t = k \<longrightarrow> cb_status t \<noteq> CBTOKEN_UNUSED))"

text \<open>One database follows from another, new token keys being drawn from \<open>ks\<close>.\<close>

definition evolves :: "string set \<Rightarrow> 'a bc_db_scheme \<Rightarrow> 'a bc_db_scheme \<Rightarrow> bool" where
  "evolves ks db db' \<longleftrightarrow> keeps db db' \<and>
     (\<forall>tid k. k \<notin> ks \<longrightarrow> consumed tid k db \<longrightarrow> consumed tid k db')"

lemma evolves_refl [simp]: "evolves ks db db"
  by (simp add: evolves_def keeps_def)

lemma evolves_trans [trans]: "evolves ks a b \<Longrightarrow> evolves ks b c \<Longrightarrow> evolves ks a c"
  by (fastforce simp: evolves_def keeps_def)

lemma evolves_mono: "evolves ks a b \<Longrightarrow> ks \<subseteq> ks' \<Longrightarrow> evolves ks' a b"
  by (auto simp: evolves_def)

lemma keeps_refl [simp]: "keeps db db"
  by (simp add: keeps_def)

lemma keeps_trans [trans]: "keeps a b \<Longrightarrow> keeps b c \<Longrightarrow> keeps a c"
  by (simp add: keeps_def) metis

lemma bc_inv_request:
  assumes "bc_inv db" "bc_requests db rid = Some r"
  obtains tid t where "rq_callback_token r = Some tid" "bc_tokens db tid = Some t"
    "cb_status t = CBTOKEN_UNUSED \<longrightarrow> rq_status r = BC_PENDING" "rid < bc_next_request db"
proof -
  have "request_ok db rid r" using assms unfolding bc_inv_def by blast
  then show thesis using that unfolding request_ok_def by blast
qed

lemma bc_inv_unique:
  assumes "bc_inv db" "bc_requests db rid = Some r" "bc_requests db rid' = Some r'"
    "rq_callback_token r = rq_callback_token r'"
  shows "rid = rid'"
  using assms unfolding bc_inv_def by blast

lemma token_of_Inr:
  "token_of r db = Inr (tid, t) \<longleftrightarrow> rq_callback_token r = Some tid \<and> bc_tokens db tid = Some t"
  by (auto simp: token_of_def rbind_eq_Inr split: option.splits)

lemma token_of_inv:
  assumes "bc_inv db" "bc_requests db rid = Some r"
  obtains tid t where "token_of r db = Inr (tid, t)" "rq_callback_token r = Some tid"
    "bc_tokens db tid = Some t"
  using assms by (metis bc_inv_request token_of_Inr)

text \<open>
  The shape of every lifecycle write: one request row and the row of its own token.
  The two tables of the result are all that matters for the invariant.
\<close>

lemma bc_inv_pair:
  assumes inv: "bc_inv db" and r0: "bc_requests db rid = Some r0"
    and tid: "rq_callback_token r0 = Some tid"
    and reqs: "bc_requests db' = (bc_requests db)(rid \<mapsto> r)"
    and toks: "bc_tokens db' = (bc_tokens db)(tid \<mapsto> t)"
    and nxt: "bc_next_request db' = bc_next_request db" "bc_next_token db' = bc_next_token db"
    and same: "rq_callback_token r = rq_callback_token r0"
    and st: "cb_status t = CBTOKEN_UNUSED \<Longrightarrow> rq_status r = BC_PENDING"
  shows "bc_inv db'"
proof -
  have other: "request_ok db' rid' r'"
    if "rid' \<noteq> rid" "bc_requests db rid' = Some r'" for rid' r'
  proof -
    note hyp = that
    obtain tid' t' where t': "rq_callback_token r' = Some tid'" "bc_tokens db tid' = Some t'"
      "cb_status t' = CBTOKEN_UNUSED \<longrightarrow> rq_status r' = BC_PENDING" "rid' < bc_next_request db"
      using bc_inv_request [OF inv hyp(2)] by blast
    have "tid' \<noteq> tid" using hyp bc_inv_unique [OF inv hyp(2) r0] t'(1) tid by auto
    then show ?thesis using t' by (simp add: request_ok_def toks nxt)
  qed
  obtain t0 where t0: "bc_tokens db tid = Some t0" "rid < bc_next_request db"
    using bc_inv_request [OF inv r0] tid by force
  have mine: "request_ok db' rid r"
    using t0 tid st by (simp add: request_ok_def toks nxt same)
  have tn: "\<forall>tid' t'. bc_tokens db' tid' = Some t' \<longrightarrow> tid' < bc_next_token db'"
    using inv t0 by (simp add: bc_inv_def toks nxt)
  show ?thesis
    unfolding bc_inv_def
  proof (intro conjI allI impI)
    fix a b assume "bc_requests db' a = Some b"
    then show "request_ok db' a b" using other mine by (cases "a = rid") (auto simp: reqs)
  next
    fix a b c d
    assume ab: "bc_requests db' a = Some b" and cd: "bc_requests db' c = Some d"
      and e: "rq_callback_token b = rq_callback_token d"
    obtain b0 where "bc_requests db a = Some b0" "rq_callback_token b0 = rq_callback_token b"
      using ab r0 same by (cases "a = rid") (auto simp: reqs)
    moreover obtain d0 where "bc_requests db c = Some d0" "rq_callback_token d0 = rq_callback_token d"
      using cd r0 same by (cases "c = rid") (auto simp: reqs)
    ultimately show "a = c" using bc_inv_unique [OF inv] e by metis
  next
    fix a b assume "bc_tokens db' a = Some b"
    then show "a < bc_next_token db'" using tn by blast
  qed
qed

lemma keeps_pair:
  assumes "bc_requests db rid = Some r0" "bc_tokens db' = (bc_tokens db)(tid \<mapsto> t)"
    "bc_requests db' = (bc_requests db)(rid \<mapsto> r)" "rq_callback_token r = rq_callback_token r0"
    "rq_type r = rq_type r0"
  shows "keeps db db'"
  using assms by (auto simp: keeps_def)

lemma bc_inv_cong:
  assumes "bc_requests db' = bc_requests db" "bc_tokens db' = bc_tokens db"
    "bc_next_request db' = bc_next_request db" "bc_next_token db' = bc_next_token db"
  shows "bc_inv db' = bc_inv db"
  using assms by (simp add: bc_inv_def request_ok_def)

lemma keeps_cong:
  assumes "bc_requests db' = bc_requests db" "bc_tokens db' = bc_tokens db"
  shows "keeps db db'"
  using assms by (simp add: keeps_def)

text \<open>The tables after each elementary write.\<close>

lemma save_request_sel [simp]:
  "bc_requests (save_request now rid r db) = (bc_requests db)(rid \<mapsto> r\<lparr>rq_updated_on := now\<rparr>)"
  "bc_tokens (save_request now rid r db) = bc_tokens db"
  "bc_next_request (save_request now rid r db) = bc_next_request db"
  "bc_next_token (save_request now rid r db) = bc_next_token db"
  "bc_queue (save_request now rid r db) = bc_queue db"
  "bc_posted (save_request now rid r db) = bc_posted db"
  "bc_responses (save_request now rid r db) = bc_responses db"
  by (simp_all add: save_request_def)

lemma save_token_sel [simp]:
  "bc_requests (save_token tid t db) = bc_requests db"
  "bc_tokens (save_token tid t db) = (bc_tokens db)(tid \<mapsto> t)"
  "bc_next_request (save_token tid t db) = bc_next_request db"
  "bc_next_token (save_token tid t db) = bc_next_token db"
  "bc_queue (save_token tid t db) = bc_queue db"
  "bc_posted (save_token tid t db) = bc_posted db"
  "bc_responses (save_token tid t db) = bc_responses db"
  by (simp_all add: save_token_def)

lemma update_request_sel [simp]:
  "bc_requests (update_request rid f db) =
     (case bc_requests db rid of None \<Rightarrow> bc_requests db | Some r \<Rightarrow> (bc_requests db)(rid \<mapsto> f r))"
  "bc_tokens (update_request rid f db) = bc_tokens db"
  "bc_next_request (update_request rid f db) = bc_next_request db"
  "bc_next_token (update_request rid f db) = bc_next_token db"
  "bc_posted (update_request rid f db) = bc_posted db"
  by (simp_all add: update_request_def split: option.splits)

lemma evolves_pair:
  assumes r0: "bc_requests db rid = Some r0" and tid: "rq_callback_token r0 = Some tid"
    and reqs: "bc_requests db' = (bc_requests db)(rid \<mapsto> r)"
    and toks: "bc_tokens db' = (bc_tokens db)(tid \<mapsto> t)"
    and same: "rq_callback_token r = rq_callback_token r0" "rq_type r = rq_type r0"
    and key: "cb_status t = CBTOKEN_UNUSED \<Longrightarrow> cb_key t \<in> ks \<or>
      (\<exists>t0. bc_tokens db tid = Some t0 \<and> cb_status t0 = CBTOKEN_UNUSED \<and> cb_key t0 = cb_key t)"
  shows "evolves ks db db'"
  unfolding evolves_def
proof (intro conjI allI impI)
  show "keeps db db'" by (rule keeps_pair [OF r0 toks reqs same])
next
  fix a k assume k: "k \<notin> ks" "consumed a k db"
  show "consumed a k db'"
  proof (cases "a = tid")
    case True
    then show ?thesis using k key by (auto simp: consumed_def toks)
  next
    case False
    then show ?thesis using k by (simp add: consumed_def toks)
  qed
qed

lemma evolves_cong:
  assumes "bc_requests db' = bc_requests db" "bc_tokens db' = bc_tokens db"
  shows "evolves ks db db'"
  using assms by (simp add: evolves_def keeps_def consumed_def)

section \<open>The operations\<close>

text \<open>
  \<open>loaded db rid r tid t\<close>: the in-memory objects \<open>r\<close> and \<open>t\<close> belong to the
  rows \<open>rid\<close> and \<open>tid\<close> (other fields may be stale).
\<close>

definition loaded :: "'a bc_db_scheme \<Rightarrow> nat \<Rightarrow> bc_request \<Rightarrow> nat \<Rightarrow> bool" where
  "loaded db rid r tid \<longleftrightarrow> (\<exists>r0. bc_requests db rid = Some r0 \<and> rq_callback_token r0 = Some tid \<and>
     rq_callback_token r = Some tid \<and> rq_type r = rq_type r0)"

lemma loaded_keeps: "loaded db rid r tid \<Longrightarrow> keeps db db' \<Longrightarrow> loaded db' rid r tid"
  by (fastforce simp: loaded_def keeps_def)

lemma complete_request_ok:
  assumes "bc_inv db" "loaded db rid r tid"
  shows "bc_inv (complete_request now rid r tid t db)"
    and "evolves ks db (complete_request now rid r tid t db)"
    and "consumed tid k (complete_request now rid r tid t db)"
proof -
  obtain r0 where r0: "bc_requests db rid = Some r0" "rq_callback_token r0 = Some tid"
    "rq_callback_token r = Some tid" "rq_type r = rq_type r0"
    using assms by (auto simp: loaded_def)
  show "bc_inv (complete_request now rid r tid t db)"
    by (rule bc_inv_pair [OF assms(1) r0(1,2)]) (simp add: complete_request_def r0)+
  show "evolves ks db (complete_request now rid r tid t db)"
    by (rule evolves_pair [OF r0(1,2)]) (simp add: complete_request_def r0)+
  show "consumed tid k (complete_request now rid r tid t db)"
    by (simp add: consumed_def complete_request_def)
qed

lemma mark_as_failed_ok:
  assumes "bc_inv db" "loaded db rid r tid"
  shows "bc_inv (mark_as_failed now rid r tid t db)"
    and "evolves ks db (mark_as_failed now rid r tid t db)"
    and "consumed tid k (mark_as_failed now rid r tid t db)"
proof -
  obtain r0 where r0: "bc_requests db rid = Some r0" "rq_callback_token r0 = Some tid"
    "rq_callback_token r = Some tid" "rq_type r = rq_type r0"
    using assms by (auto simp: loaded_def)
  show "bc_inv (mark_as_failed now rid r tid t db)"
    by (rule bc_inv_pair [OF assms(1) r0(1,2)]) (simp add: mark_as_failed_def r0)+
  show "evolves ks db (mark_as_failed now rid r tid t db)"
    by (rule evolves_pair [OF r0(1,2)]) (simp add: mark_as_failed_def r0)+
  show "consumed tid k (mark_as_failed now rid r tid t db)"
    by (simp add: consumed_def mark_as_failed_def)
qed

lemma discard_request_ok:
  assumes "bc_inv db" "loaded db rid r tid" "bc_requests db rid = Some r"
  shows "bc_inv (discard_request now rid r tid t db)"
    and "evolves ks db (discard_request now rid r tid t db)"
    and "consumed tid k (discard_request now rid r tid t db)"
proof -
  have tid: "rq_callback_token r = Some tid" using assms by (auto simp: loaded_def)
  have upd: "bc_requests (discard_request now rid r tid t db) =
      (bc_requests db)(rid \<mapsto> if rq_status r = BC_PENDING
        then r\<lparr>rq_status := BC_DISCARDED, rq_updated_on := now\<rparr> else r)"
    using assms(3) by (auto simp: discard_request_def fun_upd_idem)
  show "bc_inv (discard_request now rid r tid t db)"
    by (rule bc_inv_pair [OF assms(1,3) tid upd]) (simp add: discard_request_def tid)+
  show "evolves ks db (discard_request now rid r tid t db)"
    by (rule evolves_pair [OF assms(3) tid upd]) (simp add: discard_request_def tid)+
  show "consumed tid k (discard_request now rid r tid t db)"
    by (simp add: consumed_def discard_request_def)
qed

text \<open>\<open>send\<close> makes the row pending; its token is untouched.\<close>

lemma base_send_ok:
  assumes "bc_inv db" "loaded db rid r tid"
  shows "bc_inv (base_send now rid r db)" and "evolves ks db (base_send now rid r db)"
proof -
  obtain r0 where r0: "bc_requests db rid = Some r0" "rq_callback_token r0 = Some tid"
    "rq_callback_token r = Some tid" "rq_type r = rq_type r0"
    using assms by (auto simp: loaded_def)
  obtain t0 where t0: "bc_tokens db tid = Some t0"
    using bc_inv_request [OF assms(1) r0(1)] r0(2) by force
  have same: "bc_tokens (base_send now rid r db) = (bc_tokens db)(tid \<mapsto> t0)"
    using t0 by (simp add: base_send_def Let_def fun_upd_idem)
  show "bc_inv (base_send now rid r db)"
    by (rule bc_inv_pair [OF assms(1) r0(1,2) _ same]) (simp add: base_send_def Let_def r0)+
  show "evolves ks db (base_send now rid r db)"
    by (rule evolves_pair [OF r0(1,2) _ same]) (simp add: base_send_def Let_def r0 t0)+
qed

text \<open>Refreshing the token and sending again, as one step.\<close>

lemma refresh_send_ok:
  assumes "bc_inv db" "bc_requests db rid = Some r" "rq_callback_token r = Some tid"
    "bc_tokens db tid = Some t"
    and db'_def: "db' = base_send now rid r (save_token tid (cb_refresh now key t) db)"
  shows "bc_inv db'" and "evolves {key} db db'"
proof -
  show "bc_inv db'"
    by (rule bc_inv_pair [OF assms(1-3)]) (simp add: db'_def base_send_def Let_def assms)+
  have reqs: "bc_requests db' = (bc_requests db)(rid \<mapsto> r\<lparr>rq_status := BC_PENDING, rq_updated_on := now\<rparr>)"
    and toks: "bc_tokens db' = (bc_tokens db)(tid \<mapsto> cb_refresh now key t)"
    by (simp_all add: db'_def base_send_def Let_def)
  show "evolves {key} db db'"
    by (rule evolves_pair [OF assms(2,3) reqs toks])
      (auto simp: assms(4) cb_refresh_key cb_is_valid_def split: if_splits)
qed

text \<open>A new request on a new token.\<close>

lemma create_request_sel:
  assumes "create_request ty now key pw rname user db = (db', rid)"
  shows "rid = bc_next_request db"
    and "bc_requests db' rid = Some \<lparr>rq_type = ty, rq_related_name = rname, rq_password = pw,
      rq_body = None, rq_callback_token = Some (bc_next_token db), rq_receipt = None,
      rq_status = BC_PENDING, rq_last_api_call = None, rq_updated_on = now, rq_creator = user,
      rq_response = None\<rparr>"
    and "\<And>x. x \<noteq> rid \<Longrightarrow> bc_requests db' x = bc_requests db x"
    and "bc_tokens db' = (bc_tokens db)(bc_next_token db \<mapsto> cb_create now key user)"
    and "bc_next_request db' = Suc rid" and "bc_next_token db' = Suc (bc_next_token db)"
    and "bc_posted db' = bc_posted db"
  using assms by (auto simp: create_request_def Let_def)

lemma create_request_ok:
  assumes "bc_inv db" "create_request ty now key pw rname user db = (db', rid)"
  shows "bc_inv db'" and "evolves {key} db db'"
proof -
  note sel = create_request_sel [OF assms(2)]
  have old: "request_ok db' x r" "rq_callback_token r \<noteq> Some (bc_next_token db)" "x \<noteq> rid"
    if "bc_requests db x = Some r" for x r
  proof -
    note hyp = that
    obtain tid t where "rq_callback_token r = Some tid" "bc_tokens db tid = Some t"
      "cb_status t = CBTOKEN_UNUSED \<longrightarrow> rq_status r = BC_PENDING" "x < bc_next_request db"
      using bc_inv_request [OF assms(1) hyp] by blast
    moreover from this have "tid < bc_next_token db" using assms(1) by (auto simp: bc_inv_def)
    ultimately show "request_ok db' x r" "rq_callback_token r \<noteq> Some (bc_next_token db)" "x \<noteq> rid"
      using sel by (auto simp: request_ok_def)
  qed
  have new: "request_ok db' rid r" "rq_callback_token r = Some (bc_next_token db)"
    if "bc_requests db' rid = Some r" for r
    using that sel by (auto simp: request_ok_def)
  show "bc_inv db'"
    unfolding bc_inv_def
  proof (intro conjI allI impI)
    fix x r assume "bc_requests db' x = Some r"
    then show "request_ok db' x r" using old new sel(3) by (cases "x = rid") auto
  next
    fix x r y q
    assume "bc_requests db' x = Some r" "bc_requests db' y = Some q"
      "rq_callback_token r = rq_callback_token q"
    then show "x = y"
      using old new sel(3) bc_inv_unique [OF assms(1)] by (cases "x = rid"; cases "y = rid") force+
  next
    fix x t assume "bc_tokens db' x = Some t"
    then show "x < bc_next_token db'"
      using assms(1) sel by (auto simp: bc_inv_def less_Suc_eq split: if_splits)
  qed
  have "keeps db db'" using old(3) sel by (auto simp: keeps_def)
  moreover have "consumed x k db'" if "k \<noteq> key" "consumed x k db" for x k
    using that sel(4) by (auto simp: consumed_def cb_create_def)
  ultimately show "evolves {key} db db'" by (auto simp: evolves_def)
qed

text \<open>\<open>send\<close> of a class, and \<open>retry\<close>.\<close>

lemma send_request_ok:
  assumes "bc_inv db" "bc_requests db rid = Some r" "send_request now tokens rid r db = Inr (db', sent)"
  shows "bc_inv db'" and "evolves ks db db'"
proof -
  obtain tid t where t: "token_of r db = Inr (tid, t)" "rq_callback_token r = Some tid"
    "bc_tokens db tid = Some t"
    using token_of_inv [OF assms(1,2)] by blast
  have l: "loaded db rid r tid" using assms(2) t by (auto simp: loaded_def)
  have "db' = base_send now rid r db \<or> db' = discard_request now rid r tid t db"
    using assms(3) t(1) by (auto simp: send_request_def associate_send_def split: if_splits)
  then show "bc_inv db'" "evolves ks db db'"
    using base_send_ok [OF assms(1) l] discard_request_ok [OF assms(1) l assms(2)] by metis+
qed

lemma base_send_posted: "bc_posted (base_send now rid r db) = bc_posted db"
  by (simp add: base_send_def Let_def)

lemma discard_request_posted: "bc_posted (discard_request now rid r tid t db) = bc_posted db"
  by (simp add: discard_request_def)

lemma send_request_posted:
  "send_request now tokens rid r db = Inr (db', sent) \<Longrightarrow> bc_posted db' = bc_posted db"
  by (auto simp: send_request_def associate_send_def rbind_eq_Inr base_send_posted
      discard_request_posted split: if_splits)

lemma retry_request_posted:
  "retry_request now key tokens rid db = Inr db' \<Longrightarrow> bc_posted db' = bc_posted db"
  by (auto simp: retry_request_def rbind_eq_Inr dest!: send_request_posted split: option.splits)

lemma retry_request_ok:
  assumes "bc_inv db" "retry_request now key tokens rid db = Inr db'"
  shows "bc_inv db'" and "evolves {key} db db'"
proof -
  obtain r where r: "bc_requests db rid = Some r"
    using assms(2) by (auto simp: retry_request_def rbind_eq_Inr split: option.splits)
  obtain tid t where t: "token_of r db = Inr (tid, t)" "rq_callback_token r = Some tid"
    "bc_tokens db tid = Some t"
    using token_of_inv [OF assms(1) r] by blast
  define db1 where "db1 = save_token tid (cb_refresh now key t) db"
  have send: "\<exists>sent. send_request now tokens rid r db1 = Inr (db', sent)"
    using assms(2) r t(1) by (auto simp: retry_request_def rbind_eq_Inr db1_def)
  have t1: "token_of r db1 = Inr (tid, cb_refresh now key t)"
    using t by (simp add: token_of_Inr db1_def)
  consider "db' = base_send now rid r db1"
    | "db' = discard_request now rid r tid (cb_refresh now key t) db1"
    using send t1 by (auto simp: send_request_def associate_send_def split: if_splits)
  then have "bc_inv db' \<and> evolves {key} db db'"
  proof cases
    case 1
    then show ?thesis using refresh_send_ok [OF assms(1) r t(2,3)] by (simp add: db1_def)
  next
    case 2
    have upd: "bc_requests db' = (bc_requests db)(rid \<mapsto> if rq_status r = BC_PENDING
        then r\<lparr>rq_status := BC_DISCARDED, rq_updated_on := now\<rparr> else r)"
      using 2 r by (auto simp: discard_request_def db1_def fun_upd_idem)
    have toks: "bc_tokens db' = (bc_tokens db)(tid \<mapsto> cb_invalidate now (cb_refresh now key t))"
      using 2 by (simp add: discard_request_def db1_def)
    have nxt: "bc_next_request db' = bc_next_request db" "bc_next_token db' = bc_next_token db"
      using 2 by (simp_all add: discard_request_def db1_def)
    show ?thesis
      using bc_inv_pair [OF assms(1) r t(2) upd toks nxt] evolves_pair [OF r t(2) upd toks]
      by simp
  qed
  then show "bc_inv db'" "evolves {key} db db'" by auto
qed

text \<open>The pre-check: passing it may discard a request that waited too long.\<close>

lemma pre_check_cases:
  assumes "pre_check_request now req db = Inr (db', success, message)"
  obtains (fresh) "req = None" "db' = db" "success"
    | (delayed) rid r tid t where "req = Some rid" "bc_requests db rid = Some r"
        "rq_is_delayed now r" "token_of r db = Inr (tid, t)"
        "db' = discard_request now rid r tid t db" "success"
    | (settled) rid r where "req = Some rid" "bc_requests db rid = Some r"
        "rq_status r \<noteq> BC_PENDING" "db' = db" "success"
    | (pending) rid r where "req = Some rid" "bc_requests db rid = Some r"
        "rq_status r = BC_PENDING" "\<not> rq_is_delayed now r" "db' = db" "\<not> success"
  using assms
  by (auto simp: pre_check_request_def rbind_eq_Inr split: option.splits if_splits)

lemma pre_check_ok:
  assumes "bc_inv db" "pre_check_request now req db = Inr (db', success, message)"
  shows "bc_inv db'" and "evolves ks db db'"
    and "\<not> success \<Longrightarrow> db' = db"
proof -
  have "bc_inv db' \<and> evolves ks db db' \<and> (\<not> success \<longrightarrow> db' = db)"
    using assms(2)
  proof (cases rule: pre_check_cases)
    case (delayed rid r tid t)
    have l: "loaded db rid r tid" using delayed by (auto simp: loaded_def token_of_Inr)
    show ?thesis using discard_request_ok [OF assms(1) l] delayed by auto
  qed (use assms(1) in auto)
  then show "bc_inv db'" "evolves ks db db'" "\<not> success \<Longrightarrow> db' = db" by auto
qed

lemma pre_check_total:
  assumes "bc_inv db" "\<And>rid. req = Some rid \<Longrightarrow> bc_requests db rid \<noteq> None"
  shows "\<exists>db' success message. pre_check_request now req db = Inr (db', success, message)"
proof (cases req)
  case (Some rid)
  then obtain r where r: "bc_requests db rid = Some r" using assms(2) by auto
  then obtain tid t where "token_of r db = Inr (tid, t)" using token_of_inv [OF assms(1)] by blast
  then show ?thesis using Some r by (auto simp: pre_check_request_def)
qed (auto simp: pre_check_request_def)

section \<open>The interface of the abstract owner classes\<close>

text \<open>
  What the owners rely on: \<open>pre_check\<close> never raises on an existing request, keeps the
  invariant, and on refusal leaves the database alone and the request pending;
  \<open>initialize\<close> yields a request whose token authenticates callbacks, and sending it
  restores the invariant.
\<close>

locale request_starter =
  fixes init :: "int \<Rightarrow> string \<Rightarrow> string \<Rightarrow> string \<Rightarrow> nat option \<Rightarrow> nat option \<Rightarrow> 'a bc_db_scheme \<Rightarrow>
      ('a bc_db_scheme \<times> nat) result"
    and pre :: "int \<Rightarrow> nat option \<Rightarrow> 'a bc_db_scheme \<Rightarrow> ('a bc_db_scheme \<times> bool \<times> string) result"
    and ty :: req_type
  assumes pre_returns: "bc_inv db \<Longrightarrow> (\<And>rid. req = Some rid \<Longrightarrow> bc_requests db rid \<noteq> None) \<Longrightarrow>
      \<exists>db' success message. pre now req db = Inr (db', success, message)"
    and pre_keeps: "bc_inv db \<Longrightarrow> pre now req db = Inr (db', success, message) \<Longrightarrow>
      bc_inv db' \<and> evolves ks db db' \<and> bc_posted db' = bc_posted db"
    and init_new: "bc_inv db \<Longrightarrow> init now key pw rname user None db = Inr (db', rid) \<Longrightarrow>
      bc_inv db' \<and> evolves {key} db db' \<and> bc_requests db rid = None \<and> bc_posted db' = bc_posted db \<and>
      (\<exists>r tid t. bc_requests db' rid = Some r \<and> rq_type r = ty \<and> rq_callback_token r = Some tid \<and>
        bc_tokens db' tid = Some t \<and> cb_is_valid now t)"
    and init_new_returns: "\<exists>db' rid. init now key pw rname user None db = Inr (db', rid)"
    and init_again: "bc_inv db \<Longrightarrow> bc_requests db rid = Some r \<Longrightarrow>
      \<exists>tid t. rq_callback_token r = Some tid \<and> bc_tokens db tid = Some t \<and>
        init now key pw rname user (Some rid) db = Inr (save_token tid (cb_refresh now key t) db, rid)"
    and init_missing: "bc_requests db rid = None \<Longrightarrow>
      init now key pw rname user (Some rid) db = Inl DoesNotExist"
begin

text \<open>Once the pre-check passed, the request is initialised and sent without an error.\<close>

lemma begin_returns:
  assumes inv: "bc_inv db" and req: "\<And>rid. req = Some rid \<Longrightarrow> bc_requests db rid \<noteq> None"
  shows "\<exists>db' rid. begin_request init tokens now key pw rname user req db = Inr (db', rid)"
proof (cases req)
  case None
  obtain db2 rid where i: "init now key pw rname user None db = Inr (db2, rid)"
    using init_new_returns by blast
  obtain r tid t where r: "bc_inv db2" "bc_requests db2 rid = Some r"
      "rq_callback_token r = Some tid" "bc_tokens db2 tid = Some t"
    using init_new [OF inv i] by blast
  then have "token_of r db2 = Inr (tid, t)" by (simp add: token_of_Inr)
  then show ?thesis
    using i r None by (auto simp: begin_request_def send_request_def associate_send_def)
next
  case (Some rid)
  then obtain r where "bc_requests db rid = Some r" using req by blast
  then obtain tid t where "init now key pw rname user (Some rid) db =
      Inr (save_token tid (cb_refresh now key t) db, rid)" "bc_requests db rid = Some r"
    using init_again [OF inv] by blast
  then show ?thesis using Some by (auto simp: begin_request_def)
qed

lemma begin_ok:
  assumes inv: "bc_inv db"
    and b: "begin_request init tokens now key pw rname user req db = Inr (db', rid)"
  shows "bc_inv db' \<and> evolves {key} db db' \<and> bc_posted db' = bc_posted db \<and>
    bc_requests db' rid \<noteq> None"
proof (cases req)
  case None
  then obtain db2 r sent where i: "init now key pw rname user None db = Inr (db2, rid)"
    "bc_requests db2 rid = Some r" "send_request now tokens rid r db2 = Inr (db', sent)"
    using b by (auto simp: begin_request_def rbind_eq_Inr split: option.splits)
  note n = init_new [OF inv i(1)]
  have s: "bc_inv db'" "evolves {key} db2 db'" using send_request_ok [OF _ i(2,3)] n by auto
  then have "bc_requests db' rid \<noteq> None" using i(2) unfolding evolves_def keeps_def by blast
  then show ?thesis
    using s send_request_posted [OF i(3)] n by (auto intro: evolves_trans)
next
  case (Some rid0)
  then obtain db2 r where i: "init now key pw rname user (Some rid0) db = Inr (db2, rid)"
    "bc_requests db2 rid = Some r" "db' = base_send now rid r db2"
    using b by (auto simp: begin_request_def rbind_eq_Inr split: option.splits)
  have "bc_requests db rid0 \<noteq> None" using i(1) init_missing [of db rid0 now key pw rname user] by auto
  then obtain r1 tid t where r1: "bc_requests db rid0 = Some r1" "rq_callback_token r1 = Some tid"
    "bc_tokens db tid = Some t" "db2 = save_token tid (cb_refresh now key t) db" "rid = rid0"
    using i(1) init_again [OF inv, of rid0 _ now key pw rname user] by auto
  then have "r1 = r" using i(2) by simp
  then show ?thesis
    using refresh_send_ok [OF inv r1(1-3)] i(3) r1(4,5)
    by (simp add: base_send_posted) (simp add: base_send_def Let_def)
qed

text \<open>Starting never raises, and keeps the invariant.\<close>

lemma start_returns:
  assumes inv: "bc_inv db" and req: "\<And>rid. req = Some rid \<Longrightarrow> bc_requests db rid \<noteq> None"
  shows "\<exists>db' rq. start_request init pre tokens now key pw rname user req db = Inr (db', rq)"
proof -
  obtain db1 success message where p: "pre now req db = Inr (db1, success, message)"
    using pre_returns inv req by blast
  have k: "bc_inv db1" "evolves {} db db1" using pre_keeps [OF inv p] by auto
  have "\<exists>db' rid. begin_request init tokens now key pw rname user req db1 = Inr (db', rid)"
    using req k(2) unfolding evolves_def keeps_def by (intro begin_returns [OF k(1)]) blast
  then show ?thesis using p by (auto simp: start_request_def)
qed

lemma start_ok:
  assumes inv: "bc_inv db"
    and start: "start_request init pre tokens now key pw rname user req db = Inr (db', rq)"
  shows "bc_inv db'" and "evolves {key} db db'" and "bc_posted db' = bc_posted db"
proof -
  obtain db1 success message where p: "pre now req db = Inr (db1, success, message)"
    and rest: "success \<Longrightarrow> \<exists>rid. begin_request init tokens now key pw rname user req db1 = Inr (db', rid)"
      "\<not> success \<Longrightarrow> db' = db1"
    using start by (auto simp: start_request_def rbind_eq_Inr split: if_splits)
  have k: "bc_inv db1" "evolves {key} db db1" "bc_posted db1 = bc_posted db"
    using pre_keeps [OF inv p] by auto
  have "bc_inv db' \<and> evolves {key} db1 db' \<and> bc_posted db' = bc_posted db1"
    using rest k begin_ok [OF k(1)] by (cases "success") auto
  then show "bc_inv db'" "evolves {key} db db'" "bc_posted db' = bc_posted db"
    using k by (auto intro: evolves_trans)
qed

end

text \<open>The abstract classes promise more: they refuse only for a request still pending.\<close>

locale request_owner = request_starter +
  assumes pre_refuses: "bc_inv db \<Longrightarrow> pre now req db = Inr (db', False, message) \<Longrightarrow>
      db' = db \<and> (\<exists>rid r. req = Some rid \<and> bc_requests db rid = Some r \<and> rq_status r = BC_PENDING)"
begin

lemma start_refused:
  assumes inv: "bc_inv db"
    and start: "start_request init pre tokens now key pw rname user req db = Inr (db', None)"
  shows "db' = db"
  using start pre_refuses [OF inv]
  by (auto simp: start_request_def rbind_eq_Inr split: if_splits)

end

lemma request_owner_methods: "request_owner (initialize_request ty) pre_check_request ty"
proof unfold_locales
  fix db :: "'a bc_db_scheme" and req and now
  assume "bc_inv db" "\<And>rid. req = Some rid \<Longrightarrow> bc_requests db rid \<noteq> None"
  then show "\<exists>db' success message. pre_check_request now req db = Inr (db', success, message)"
    by (rule pre_check_total)
next
  fix db db' :: "'a bc_db_scheme" and req now success message ks
  assume a: "bc_inv db" "pre_check_request now req db = Inr (db', success, message)"
  have "bc_posted db' = bc_posted db"
    using a(2) by (cases rule: pre_check_cases) (auto simp: discard_request_def)
  then show "bc_inv db' \<and> evolves ks db db' \<and> bc_posted db' = bc_posted db"
    using pre_check_ok [OF a] by simp
next
  fix db db' :: "'a bc_db_scheme" and req now message
  assume "bc_inv db" "pre_check_request now req db = Inr (db', False, message)"
  from this(2)
  show "db' = db \<and> (\<exists>rid r. req = Some rid \<and> bc_requests db rid = Some r \<and> rq_status r = BC_PENDING)"
    by (cases rule: pre_check_cases) auto
next
  fix db db' :: "'a bc_db_scheme" and now key pw rname user rid
  assume a: "bc_inv db" "initialize_request ty now key pw rname user None db = Inr (db', rid)"
  then have c: "create_request ty now key pw rname user db = (db', rid)"
    by (simp add: initialize_request_def)
  have "bc_requests db rid = None"
    using a(1) create_request_sel(1) [OF c] by (cases "bc_requests db rid") (auto simp: bc_inv_def request_ok_def)
  then show "bc_inv db' \<and> evolves {key} db db' \<and> bc_requests db rid = None \<and>
      bc_posted db' = bc_posted db \<and>
      (\<exists>r tid t. bc_requests db' rid = Some r \<and> rq_type r = ty \<and> rq_callback_token r = Some tid \<and>
        bc_tokens db' tid = Some t \<and> cb_is_valid now t)"
    using create_request_ok [OF a(1) c] create_request_sel [OF c] by simp
next
  fix db :: "'a bc_db_scheme" and now key pw rname user
  show "\<exists>db' rid. initialize_request ty now key pw rname user None db = Inr (db', rid)"
    by (simp add: initialize_request_def create_request_def Let_def)
next
  fix db :: "'a bc_db_scheme" and rid r now key pw rname user
  assume a: "bc_inv db" "bc_requests db rid = Some r"
  then obtain tid t where "token_of r db = Inr (tid, t)" "rq_callback_token r = Some tid"
    "bc_tokens db tid = Some t" by (rule token_of_inv)
  then show "\<exists>tid t. rq_callback_token r = Some tid \<and> bc_tokens db tid = Some t \<and>
      initialize_request ty now key pw rname user (Some rid) db =
        Inr (save_token tid (cb_refresh now key t) db, rid)"
    using a(2) by (simp add: initialize_request_def refresh_request_def)
next
  fix db :: "'a bc_db_scheme" and rid now key pw rname user
  assume "bc_requests db rid = None"
  then show "initialize_request ty now key pw rname user (Some rid) db = Inl DoesNotExist"
    by (simp add: initialize_request_def refresh_request_def)
qed

interpretation create_account_owner: request_owner create_account_initialize create_account_pre_check CreateAccountRequest
  unfolding create_account_initialize_def create_account_pre_check_def by (rule request_owner_methods)

interpretation create_token_owner: request_owner create_token_initialize create_token_pre_check CreateTokenRequest
  unfolding create_token_initialize_def create_token_pre_check_def by (rule request_owner_methods)

interpretation associate_owner: request_owner associate_initialize associate_pre_check AssociateTokenRequest
  unfolding associate_initialize_def associate_pre_check_def by (rule request_owner_methods)

interpretation kyc_owner: request_owner kyc_initialize kyc_pre_check KYCTokenRequest
  unfolding kyc_initialize_def kyc_pre_check_def by (rule request_owner_methods)

interpretation mint_owner: request_owner mint_initialize mint_pre_check MintTokenRequest
  unfolding mint_initialize_def mint_pre_check_def by (rule request_owner_methods)

interpretation transfer_owner: request_owner transfer_initialize transfer_pre_check TransferTokenRequest
  unfolding transfer_initialize_def transfer_pre_check_def by (rule request_owner_methods)

interpretation burn_owner: request_owner burn_initialize burn_pre_check BurnTokenRequest
  unfolding burn_initialize_def burn_pre_check_def by (rule request_owner_methods)

interpretation transfer_hbar_owner: request_owner transfer_hbar_initialize transfer_hbar_pre_check TransferHBARRequest
  unfolding transfer_hbar_initialize_def transfer_hbar_pre_check_def by (rule request_owner_methods)

interpretation message_owner: request_owner message_initialize message_pre_check SubmitMessageRequest
  unfolding message_initialize_def message_pre_check_def by (rule request_owner_methods)


end
