(* ===== verification/Blockchain_Runs.thy ===== *)
theory Blockchain_Runs
  imports Blockchain_Protocol
begin

text \<open>
  Posting and callbacks against the invariant of \<open>Blockchain_Protocol\<close>, the contract
  \<open>callback_owner\<close> of what a request's owner does with a callback, and the runs of the
  whole protocol: \<open>bc_step\<close>, its reachable states, and what holds in all of them.
\<close>

section \<open>Posting\<close>

lemma request_write_ok:
  assumes inv: "bc_inv db" and r0: "bc_requests db rid = Some r0"
    and same: "rq_callback_token r = rq_callback_token r0" "rq_type r = rq_type r0"
    and st: "rq_status r = rq_status r0"
    and reqs: "bc_requests db' = (bc_requests db)(rid \<mapsto> r)" and toks: "bc_tokens db' = bc_tokens db"
    and nxt: "bc_next_request db' = bc_next_request db" "bc_next_token db' = bc_next_token db"
  shows "bc_inv db'" and "evolves ks db db'"
proof -
  obtain tid t where t: "rq_callback_token r0 = Some tid" "bc_tokens db tid = Some t"
    "cb_status t = CBTOKEN_UNUSED \<longrightarrow> rq_status r0 = BC_PENDING"
    using bc_inv_request [OF inv r0] by blast
  have toks': "bc_tokens db' = (bc_tokens db)(tid \<mapsto> t)" using t toks by (simp add: fun_upd_idem)
  show "bc_inv db'"
    by (rule bc_inv_pair [OF inv r0 t(1) reqs toks' nxt same(1)]) (simp add: t st)
  show "evolves ks db db'"
    by (rule evolves_pair [OF r0 t(1) reqs toks' same]) (simp add: t)
qed

lemma prepare_body_ok:
  assumes inv: "bc_inv db" and r: "bc_requests db rid = Some r"
    and p: "prepare_body now cfg rid r ro db = (db', res)"
  shows "bc_inv db'" and "evolves ks db db'" and "bc_posted db' = bc_posted db"
    and "res = Inr (r', b) \<Longrightarrow> rq_type r' = rq_type r"
proof -
  obtain tid t where t: "token_of r db = Inr (tid, t)" using token_of_inv [OF inv r] by blast
  define b0 where "b0 = \<lparr>body_callback = (cb_key t, tid), body_action = bc_action (rq_type r),
            body_ean_no = (rq_type r, rid), body_params = []\<rparr>"
  define r1 where "r1 = r\<lparr>rq_body := Some b0\<rparr>"
  define db1 where "db1 = save_request now rid r1 db"
  have bb: "base_body rid r db = Inr b0" using t by (simp add: base_body_def b0_def)
  have w1: "bc_inv db1" "\<And>ks. evolves ks db db1"
    by (rule request_write_ok [OF inv r]; simp add: db1_def r1_def)+
  have r1: "bc_requests db1 rid = Some (r1\<lparr>rq_updated_on := now\<rparr>)" by (simp add: db1_def)
  have "bc_inv db' \<and> evolves ks db db' \<and> bc_posted db' = bc_posted db \<and>
      (res = Inr (r', b) \<longrightarrow> rq_type r' = rq_type r)"
  proof (cases "request_params cfg r ro")
    case (Inl e)
    then have "db' = db1" "res = Inl e"
      using p bb by (simp_all add: prepare_body_def Let_def db1_def r1_def)
    then show ?thesis
      using w1 by (simp_all add: db1_def)
  next
    case (Inr ps)
    then have e: "db' = save_request now rid (r1\<lparr>rq_body := Some (b0\<lparr>body_params := ps\<rparr>)\<rparr>) db1"
        "res = Inr (r1\<lparr>rq_body := Some (b0\<lparr>body_params := ps\<rparr>)\<rparr>, b0\<lparr>body_params := ps\<rparr>)"
      using p bb by (simp_all add: prepare_body_def Let_def db1_def r1_def)
    have w2: "bc_inv db'" "evolves ks db1 db'"
      by (rule request_write_ok [OF w1(1) r1]; simp add: e r1_def)+
    then show ?thesis
      using evolves_trans [OF w1(2) w2(2)] by (auto simp: e r1_def db1_def)
  qed
  then show "bc_inv db'" "evolves ks db db'" "bc_posted db' = bc_posted db"
    "res = Inr (r', b) \<Longrightarrow> rq_type r' = rq_type r" by auto
qed

lemma call_prepare_body_fst:
  "fst (call_prepare_body now cfg rid r ro db) = fst (prepare_body now cfg rid r ro db)"
  by (simp add: call_prepare_body_def split: prod.splits sum.splits)

lemma call_prepare_body_burn:
  "rq_type r = BurnTokenRequest \<Longrightarrow> call_prepare_body now cfg rid r ro db = (db', res) \<Longrightarrow> \<exists>e. res = Inl e"
  by (auto simp: call_prepare_body_def split: prod.splits sum.splits)

text \<open>Nothing else is posted than the one body prepared, and no burn request is.\<close>

lemma post_begin_ok:
  assumes inv: "bc_inv db" and p: "post_begin now cfg rel rid db = (db', x)"
  shows "bc_inv db'" and "evolves ks db db'"
    and "bc_posted db' = bc_posted db @ (case x of None \<Rightarrow> [] | Some (hdr, b) \<Rightarrow> [(rid, hdr, b)])"
    and "x \<noteq> None \<Longrightarrow> \<exists>r. bc_requests db rid = Some r \<and> rq_type r \<noteq> BurnTokenRequest"
proof -
  let ?Q = "bc_inv db' \<and> evolves ks db db' \<and>
    bc_posted db' = bc_posted db @ (case x of None \<Rightarrow> [] | Some (hdr, b) \<Rightarrow> [(rid, hdr, b)]) \<and>
    (x \<noteq> None \<longrightarrow> (\<exists>r. bc_requests db rid = Some r \<and> rq_type r \<noteq> BurnTokenRequest))"
  have "?Q"
  proof (cases "\<exists>r ro hdr. bc_requests db rid = Some r \<and> rel = Inr ro \<and>
      prepare_header cfg (rq_type r) ro = Inr hdr")
    case False
    then have "db' = db" "x = None"
      using p by (auto simp: post_begin_def split: option.splits sum.splits)
    then show ?thesis using inv by simp
  next
    case True
    then obtain r ro hdr where r: "bc_requests db rid = Some r" "rel = Inr ro"
      "prepare_header cfg (rq_type r) ro = Inr hdr" by blast
    obtain db1 res where c: "call_prepare_body now cfg rid r ro db = (db1, res)" by fastforce
    obtain res' where pb: "prepare_body now cfg rid r ro db = (db1, res')"
      using call_prepare_body_fst [of now cfg rid r ro db] c by (metis fst_conv surj_pair)
    note ok = prepare_body_ok(1-3) [OF inv r(1) pb]
    show ?thesis
    proof (cases res)
      case (Inl e)
      then show ?thesis using p r c ok by (simp add: post_begin_def)
    next
      case (Inr rb)
      obtain r1 b where rb: "rb = (r1, b)" by fastforce
      have e: "db' = db1\<lparr>bc_posted := bc_posted db1 @ [(rid, hdr, b)]\<rparr>" "x = Some (hdr, b)"
        using p r c Inr rb by (simp_all add: post_begin_def)
      have nb: "rq_type r \<noteq> BurnTokenRequest" using call_prepare_body_burn [OF _ c] Inr by auto
      have "bc_inv db'" using ok(1) by (simp add: e bc_inv_cong [of db' db1] bc_inv_def request_ok_def)
      moreover have "evolves ks db1 db'" by (rule evolves_cong) (simp_all add: e)
      ultimately show ?thesis using ok nb r by (auto intro: evolves_trans simp: e)
    qed
  qed
  then show "bc_inv db'" "evolves ks db db'"
    "bc_posted db' = bc_posted db @ (case x of None \<Rightarrow> [] | Some (hdr, b) \<Rightarrow> [(rid, hdr, b)])"
    "x \<noteq> None \<Longrightarrow> \<exists>r. bc_requests db rid = Some r \<and> rq_type r \<noteq> BurnTokenRequest" by auto
qed

lemma post_finish_ok:
  assumes inv: "bc_inv db" and r0: "bc_requests db rid = Some r0" "rq_callback_token r0 = tok"
  shows "bc_inv (post_finish now rid tok reply db)"
    and "evolves ks db (post_finish now rid tok reply db)"
    and "bc_posted (post_finish now rid tok reply db) = bc_posted db"
proof -
  obtain tid t where t: "rq_callback_token r0 = Some tid" "bc_tokens db tid = Some t"
    "cb_status t = CBTOKEN_UNUSED \<longrightarrow> rq_status r0 = BC_PENDING"
    using bc_inv_request [OF inv r0(1)] by blast
  let ?db = "post_finish now rid tok reply db"
  have "?db = db \<or>
     (\<exists>r. bc_requests ?db = (bc_requests db)(rid \<mapsto> r) \<and> rq_callback_token r = rq_callback_token r0 \<and>
        rq_type r = rq_type r0 \<and> bc_posted ?db = bc_posted db \<and>
        bc_next_request ?db = bc_next_request db \<and> bc_next_token ?db = bc_next_token db \<and>
        (bc_tokens ?db = bc_tokens db \<and> rq_status r = rq_status r0 \<or>
         bc_tokens ?db = (bc_tokens db)(tid \<mapsto> cb_invalidate now t)))"
    using r0 t(1,2)
    by (auto simp: post_finish_def Let_def update_request_def fun_upd_idem split: sum.splits)
  then consider (same) "?db = db"
    | (fields) r where "bc_requests ?db = (bc_requests db)(rid \<mapsto> r)"
        "rq_callback_token r = rq_callback_token r0" "rq_type r = rq_type r0"
        "bc_posted ?db = bc_posted db" "bc_next_request ?db = bc_next_request db"
        "bc_next_token ?db = bc_next_token db" "bc_tokens ?db = bc_tokens db"
        "rq_status r = rq_status r0"
    | (fails) r where "bc_requests ?db = (bc_requests db)(rid \<mapsto> r)"
        "rq_callback_token r = rq_callback_token r0" "rq_type r = rq_type r0"
        "bc_posted ?db = bc_posted db" "bc_next_request ?db = bc_next_request db"
        "bc_next_token ?db = bc_next_token db"
        "bc_tokens ?db = (bc_tokens db)(tid \<mapsto> cb_invalidate now t)"
    by blast
  then have "bc_inv ?db \<and> evolves ks db ?db \<and> bc_posted ?db = bc_posted db"
  proof cases
    case same
    then show ?thesis using inv by simp
  next
    case fields
    then show ?thesis using request_write_ok [OF inv r0(1)] by simp
  next
    case fails
    have "cb_status (cb_invalidate now t) \<noteq> CBTOKEN_UNUSED" by simp
    then show ?thesis
      using fails bc_inv_pair [OF inv r0(1) t(1) fails(1,7,5,6,2)]
        evolves_pair [OF r0(1) t(1) fails(1,7,2,3)] by simp
  qed
  then show "bc_inv ?db" "evolves ks db ?db" "bc_posted ?db = bc_posted db" by auto
qed

section \<open>Runs\<close>

text \<open>
  A state is the database and the posts in flight (request and token id of each). A step
  starts, retries or discards a request, begins or ends a post, or receives a callback;
  keys issued by starts and retries come from the pool \<open>ks\<close>.
\<close>

type_synonym 'a bc_state = "'a bc_db_scheme \<times> (nat \<times> nat option) list"

inductive bc_step ::
    "(nat \<Rightarrow> bool \<Rightarrow> 'a bc_db_scheme \<Rightarrow> 'a bc_db_scheme \<times> unit result) \<Rightarrow>
     (nat \<Rightarrow> response \<Rightarrow> 'a bc_db_scheme \<Rightarrow> 'a bc_db_scheme \<times> bool result) \<Rightarrow>
     bc_settings \<Rightarrow> (string \<Rightarrow> nat option) \<Rightarrow> string set \<Rightarrow> 'a bc_state \<Rightarrow> 'a bc_state \<Rightarrow> bool"
  for topup handle cfg decode ks
where
  step_start:
    "start_request (initialize_request ty) pre_check_request tokens now key pw rname user req db =
       Inr (db', rq) \<Longrightarrow> key \<in> ks \<Longrightarrow> bc_step topup handle cfg decode ks (db, fl) (db', fl)"
| step_retry:
    "retry_request now key tokens rid db = Inr db' \<Longrightarrow> key \<in> ks \<Longrightarrow>
       bc_step topup handle cfg decode ks (db, fl) (db', fl)"
| step_discard:
    "bc_requests db rid = Some r \<Longrightarrow> token_of r db = Inr (tid, t) \<Longrightarrow>
       bc_step topup handle cfg decode ks (db, fl) (discard_request now rid r tid t db, fl)"
| step_post:
    "rid \<in> set (bc_queue db) \<Longrightarrow> post_begin now cfg rel rid db = (db', x) \<Longrightarrow>
       bc_step topup handle cfg decode ks (db, fl)
         (db'\<lparr>bc_queue := remove1 rid (bc_queue db')\<rparr>,
          (case (x, bc_requests db rid) of
             (Some _, Some r) \<Rightarrow> (rid, rq_callback_token r) # fl | _ \<Rightarrow> fl))"
| step_reply:
    "(rid, tok) \<in> set fl \<Longrightarrow>
       bc_step topup handle cfg decode ks (db, fl)
         (post_finish now rid tok reply db, remove1 (rid, tok) fl)"
| step_callback:
    "update_blockchain_hash now decode topup handle token salt resp db = (db', x) \<Longrightarrow>
       bc_step topup handle cfg decode ks (db, fl) (db', fl)"

text \<open>The invariant of states: posted requests and posts in flight are known, and no burn.\<close>

definition run_inv :: "'a bc_state \<Rightarrow> bool" where
  "run_inv s \<longleftrightarrow> bc_inv (fst s) \<and>
     (\<forall>(rid, tok) \<in> set (snd s). \<exists>r. bc_requests (fst s) rid = Some r \<and> rq_callback_token r = tok) \<and>
     (\<forall>(rid, hdr, b) \<in> set (bc_posted (fst s)).
        \<exists>r. bc_requests (fst s) rid = Some r \<and> rq_type r \<noteq> BurnTokenRequest)"

lemma run_inv_step:
  assumes "run_inv (db, fl)" "bc_inv db'" "evolves ks db db'" "bc_posted db' = bc_posted db"
    "set fl' \<subseteq> set fl"
  shows "run_inv (db', fl')"
proof -
  have k: "\<exists>r'. bc_requests db' rid = Some r' \<and> rq_callback_token r' = rq_callback_token r \<and>
      rq_type r' = rq_type r" if "bc_requests db rid = Some r" for rid r
    using assms(3) that by (auto simp: evolves_def keeps_def)
  have "\<And>rid tok. (rid, tok) \<in> set fl \<Longrightarrow>
        \<exists>r. bc_requests db rid = Some r \<and> rq_callback_token r = tok"
    and "\<And>rid hdr b. (rid, hdr, b) \<in> set (bc_posted db) \<Longrightarrow>
        \<exists>r. bc_requests db rid = Some r \<and> rq_type r \<noteq> BurnTokenRequest"
    using assms(1) unfolding run_inv_def by auto
  note old = this
  have "\<exists>r. bc_requests db' rid = Some r \<and> rq_callback_token r = tok" if "(rid, tok) \<in> set fl'" for rid tok
    using old(1) k assms(5) that by (metis subsetD)
  moreover have "\<exists>r. bc_requests db' rid = Some r \<and> rq_type r \<noteq> BurnTokenRequest"
    if "(rid, hdr, b) \<in> set (bc_posted db')" for rid hdr b
    using old(2) k assms(4) that by metis
  ultimately show ?thesis using assms(2) by (auto simp: run_inv_def)
qed

lemma post_step_ok:
  assumes "run_inv (db, fl)" "post_begin now cfg rel rid db = (db1, x)"
  defines "db' \<equiv> db1\<lparr>bc_queue := remove1 rid (bc_queue db1)\<rparr>"
    and "fl' \<equiv> (case (x, bc_requests db rid) of
             (Some _, Some r) \<Rightarrow> (rid, rq_callback_token r) # fl | _ \<Rightarrow> fl)"
  shows "run_inv (db', fl')" and "evolves ks db db'"
proof -
  have inv: "bc_inv db" using assms(1) by (simp add: run_inv_def)
  note k = post_begin_ok [OF inv assms(2)]
  have e1: "evolves ks db1 db'" for ks by (rule evolves_cong) (simp_all add: db'_def)
  show ev: "evolves ks db db'" by (rule evolves_trans [OF k(2) e1])
  have inv': "bc_inv db'" using k(1) by (simp add: db'_def bc_inv_def request_ok_def)
  let ?db0 = "db'\<lparr>bc_posted := bc_posted db\<rparr>"
  have r0: "run_inv (?db0, fl)"
  proof (rule run_inv_step [OF assms(1)])
    show "bc_inv ?db0" using inv' by (simp add: bc_inv_def request_ok_def)
    have "evolves ks db' ?db0" by (rule evolves_cong) simp_all
    then show "evolves ks db ?db0" using ev by (rule evolves_trans [rotated])
  qed simp_all
  show "run_inv (db', fl')"
  proof (cases x)
    case None
    then have "bc_posted db' = bc_posted db" "fl' = fl" using k(3) by (simp_all add: db'_def fl'_def)
    then show ?thesis using r0 inv' by (simp add: run_inv_def)
  next
    case (Some hb)
    obtain r where r: "bc_requests db rid = Some r" "rq_type r \<noteq> BurnTokenRequest"
      using k(4) Some by auto
    obtain r' where r': "bc_requests db' rid = Some r'" "rq_callback_token r' = rq_callback_token r"
      "rq_type r' = rq_type r"
      using ev r(1) unfolding evolves_def keeps_def by blast
    have "set (bc_posted db') \<subseteq> insert (rid, hb) (set (bc_posted db))"
      using k(3) Some by (auto simp: db'_def split: prod.splits)
    moreover have "fl' = (rid, rq_callback_token r) # fl" using Some r by (simp add: fl'_def)
    ultimately show ?thesis
      using r0 inv' r r' by (fastforce simp: run_inv_def)
  qed
qed

section \<open>The contract of the owners of requests\<close>

text \<open>
  While a callback is handled, the owner may top up wallets and start or retry other
  requests, as long as it keeps the invariant, posts nothing itself and issues keys from
  the pool \<open>drawn\<close> only.
\<close>

locale callback_owner =
  fixes topup :: "nat \<Rightarrow> bool \<Rightarrow> 'a bc_db_scheme \<Rightarrow> 'a bc_db_scheme \<times> unit result"
    and handle :: "nat \<Rightarrow> response \<Rightarrow> 'a bc_db_scheme \<Rightarrow> 'a bc_db_scheme \<times> bool result"
    and drawn :: "string set"
  assumes topup_keeps: "bc_inv db \<Longrightarrow> topup rid retry db = (db', x) \<Longrightarrow>
      bc_inv db' \<and> evolves drawn db db' \<and> bc_posted db' = bc_posted db"
    and handle_keeps: "bc_inv db \<Longrightarrow> handle rid resp db = (db', y) \<Longrightarrow>
      bc_inv db' \<and> evolves drawn db db' \<and> bc_posted db' = bc_posted db"
begin

lemma save_response_keeps:
  assumes "bc_inv db" "child_save_response ty rid resp db = Inr db'"
  shows "bc_inv db' \<and> evolves drawn db db' \<and> bc_posted db' = bc_posted db"
proof -
  obtain rs where "db' = db\<lparr>bc_responses := rs\<rparr>"
    using assms(2)
    by (auto simp: child_save_response_def create_account_save_response_def save_response_def
        rbind_eq_Inr split: if_splits option.splits resp_data.splits)
  then show ?thesis
    using assms(1) by (simp add: bc_inv_def request_ok_def evolves_cong)
qed

lemma callback_body_keeps:
  assumes "bc_inv db" "callback_body topup handle ty rid resp db = (db', success)"
  shows "bc_inv db'" and "evolves drawn db db'" and "bc_posted db' = bc_posted db"
proof -
  have "bc_inv db' \<and> evolves drawn db db' \<and> bc_posted db' = bc_posted db"
  proof (cases "child_save_response ty rid resp db")
    case (Inl e)
    then show ?thesis using assms by (simp add: callback_body_def)
  next
    case (Inr db1)
    note s = save_response_keeps [OF assms(1) Inr]
    obtain low again where b: "check_balance_low resp = (low, again)" by fastforce
    obtain db2 x where t: "(if low then topup rid again db1 else (db1, Inr ())) = (db2, x)"
      by fastforce
    have t': "bc_inv db2 \<and> evolves drawn db1 db2 \<and> bc_posted db2 = bc_posted db1"
      using t s topup_keeps [of db1] by (auto split: if_splits)
    show ?thesis
    proof (cases x)
      case (Inl e)
      then show ?thesis
        using assms(2) Inr b t t' s by (auto simp: callback_body_def intro: evolves_trans)
    next
      case x: (Inr u)
      obtain db3 y where h: "handle rid resp db2 = (db3, y)" by fastforce
      have h': "bc_inv db3 \<and> evolves drawn db2 db3 \<and> bc_posted db3 = bc_posted db2"
        using handle_keeps [OF conjunct1 [OF t'] h] .
      have "db' = db3"
        using assms(2) Inr b t h x by (auto simp: callback_body_def split: sum.splits)
      then show ?thesis using s t' h' by (auto intro: evolves_trans)
    qed
  qed
  then show "bc_inv db'" "evolves drawn db db'" "bc_posted db' = bc_posted db" by auto
qed

lemma manage_callback_keeps:
  assumes inv: "bc_inv db" and l: "loaded db rid r tid"
    and m: "manage_callback now topup handle rid r tid t resp db = (db', success)"
  shows "bc_inv db'" and "evolves drawn db db'" and "bc_posted db' = bc_posted db"
    and "consumed tid k db'"
    and "\<exists>q. bc_requests db' rid = Some q \<and>
      rq_status q = (if success then BC_COMPLETED else BC_FAILED)"
proof -
  obtain db1 ok where b: "callback_body topup handle (rq_type r) rid resp db = (db1, ok)"
    by fastforce
  note k = callback_body_keeps [OF inv b]
  have l1: "loaded db1 rid r tid" using l k(2) by (auto simp: evolves_def intro: loaded_keeps)
  have e: "ok = success"
      "db' = (if ok then complete_request now rid r tid t db1 else mark_as_failed now rid r tid t db1)"
    using m b by (auto simp: manage_callback_def split: if_splits)
  show "bc_inv db'" "evolves drawn db db'" "consumed tid k db'"
    using complete_request_ok [OF k(1) l1] mark_as_failed_ok [OF k(1) l1] evolves_trans [OF k(2)]
    by (auto simp: e)
  show "bc_posted db' = bc_posted db" using k(3) by (simp add: e complete_request_def mark_as_failed_def)
  show "\<exists>q. bc_requests db' rid = Some q \<and>
      rq_status q = (if success then BC_COMPLETED else BC_FAILED)"
    using e by (auto simp: complete_request_def mark_as_failed_def)
qed

end

lemma request_of_token_Some:
  "request_of_token tid db = Some (rid, r) \<Longrightarrow>
     bc_requests db rid = Some r \<and> rq_callback_token r = Some tid"
  using find_Some_iff [THEN iffD1] unfolding request_of_token_def
  by (fastforce split: option.splits)

context callback_owner
begin

text \<open>
  A callback that is let in finds a pending request, settles it, and uses its token up;
  one that is refused changes nothing.
\<close>

lemma callback_accepted:
  assumes inv: "bc_inv db"
    and u: "update_blockchain_hash now decode topup handle token salt resp db = (db', Inr ())"
  obtains tid rid r q where "decode salt = Some tid" "bc_requests db rid = Some r"
    "rq_callback_token r = Some tid" "rq_status r = BC_PENDING"
    "bc_requests db' rid = Some q" "rq_status q = BC_COMPLETED \<or> rq_status q = BC_FAILED"
    "bc_inv db'" "evolves drawn db db'" "bc_posted db' = bc_posted db" "consumed tid token db'"
proof -
  obtain tid t rid r where v: "valid_callback_token now decode (bc_tokens db) token salt = Inr (tid, t)"
    "request_of_token tid db = Some (rid, r)"
    and e: "db' = fst (manage_callback now topup handle rid r tid t resp db)"
    using u by (auto simp: update_blockchain_hash_def split: sum.splits option.splits)
  have r: "bc_requests db rid = Some r" "rq_callback_token r = Some tid"
    using request_of_token_Some [OF v(2)] by auto
  have t: "bc_tokens db tid = Some t" "cb_status t = CBTOKEN_UNUSED" "decode salt = Some tid"
    using v(1) by (auto simp: valid_callback_token_Inr cb_is_valid_def split: if_splits)
  have pending: "rq_status r = BC_PENDING" using bc_inv_request [OF inv r(1)] r t by fastforce
  obtain success where m: "manage_callback now topup handle rid r tid t resp db = (db', success)"
    using e by (metis prod.collapse)
  have l: "loaded db rid r tid" using r by (auto simp: loaded_def)
  obtain q where "bc_requests db' rid = Some q"
    "rq_status q = (if success then BC_COMPLETED else BC_FAILED)"
    using manage_callback_keeps(5) [OF inv l m] by blast
  then show thesis
    using that [OF t(3) r pending, of q] manage_callback_keeps(1-4) [OF inv l m]
    by (auto split: if_splits)
qed

lemma callback_refused:
  "update_blockchain_hash now decode topup handle token salt resp db = (db', Inl e) \<Longrightarrow> db' = db"
  by (auto simp: update_blockchain_hash_def split: sum.splits option.splits prod.splits)

lemma callback_keeps:
  assumes "bc_inv db" "update_blockchain_hash now decode topup handle token salt resp db = (db', x)"
  shows "bc_inv db' \<and> evolves drawn db db' \<and> bc_posted db' = bc_posted db"
proof (cases x)
  case (Inl e)
  then have "db' = db" using callback_refused assms(2) by blast
  then show ?thesis using assms(1) by simp
next
  case (Inr u)
  then show ?thesis using assms callback_accepted [OF assms(1)] by (cases u) metis
qed

lemma callback_replay:
  assumes "consumed tid token db" "decode salt = Some tid"
  shows "\<exists>e. update_blockchain_hash now decode topup handle token salt resp db = (db, Inl e)"
proof -
  have "\<not> (\<exists>t. valid_callback_token now decode (bc_tokens db) token salt = Inr (tid, t))"
    using assms by (auto simp: valid_callback_token_Inr consumed_def cb_is_valid_def split: if_splits)
  moreover have "valid_callback_token now decode (bc_tokens db) token salt \<noteq> Inr (tid', t)"
    if "tid' \<noteq> tid" for tid' t
    using assms(2) that by (simp add: valid_callback_token_Inr)
  ultimately have "\<exists>e. valid_callback_token now decode (bc_tokens db) token salt = Inl e"
    by (metis sum.exhaust surj_pair)
  then show ?thesis by (auto simp: update_blockchain_hash_def)
qed

text \<open>The invariant holds in every reachable state, and consumed keys stay consumed.\<close>

lemma step_ok:
  assumes "bc_step topup handle cfg decode ks (db, fl) (db', fl')" "run_inv (db, fl)"
  shows "run_inv (db', fl')" and "evolves (ks \<union> drawn) db db'"
proof -
  have inv: "bc_inv db" using assms(2) by (simp add: run_inv_def)
  have "run_inv (db', fl') \<and> evolves (ks \<union> drawn) db db'"
    using assms(1)
  proof cases
    case (step_start ty tokens now key pw rname user req rq)
    note k = request_starter.start_ok [OF request_owner.axioms(1) [OF request_owner_methods] inv step_start(2)]
    then show ?thesis
      using run_inv_step [OF assms(2) k, of fl'] step_start(1,3) evolves_mono [OF k(2)] by simp
  next
    case (step_retry now key tokens rid)
    note k = retry_request_ok [OF inv step_retry(2)] retry_request_posted [OF step_retry(2)]
    then show ?thesis
      using run_inv_step [OF assms(2) k, of fl'] step_retry(1,3) evolves_mono [OF k(2)] by simp
  next
    case (step_discard rid r tid t now)
    have l: "loaded db rid r tid" using step_discard by (auto simp: loaded_def token_of_Inr)
    note k = discard_request_ok(1,2) [OF inv l step_discard(3)] discard_request_posted
    then show ?thesis
      using run_inv_step [OF assms(2) k, of fl'] step_discard(1,2) k(2) by simp
  next
    case (step_post rid now rel db1 x)
    then show ?thesis using post_step_ok [OF assms(2) step_post(4)] by simp
  next
    case (step_reply rid tok now reply)
    obtain r0 where r0: "bc_requests db rid = Some r0" "rq_callback_token r0 = tok"
      using assms(2) step_reply(3) by (auto simp: run_inv_def)
    note k = post_finish_ok [OF inv r0]
    then show ?thesis
      using run_inv_step [OF assms(2) k, of fl'] step_reply(1,2) k(2)
      by (simp add: set_remove1_subset)
  next
    case (step_callback now token salt resp x)
    note k = callback_keeps [OF inv step_callback(2)]
    then show ?thesis
      using run_inv_step [OF assms(2), of db' drawn fl'] step_callback(1)
      by (auto intro: evolves_mono)
  qed
  then show "run_inv (db', fl')" "evolves (ks \<union> drawn) db db'" by auto
qed

lemma steps_ok:
  assumes "(bc_step topup handle cfg decode ks)\<^sup>*\<^sup>* s s'" "run_inv s"
  shows "run_inv s'" and "evolves (ks \<union> drawn) (fst s) (fst s')"
proof -
  have "run_inv s' \<and> evolves (ks \<union> drawn) (fst s) (fst s')"
    using assms(1)
  proof (induction rule: rtranclp_induct)
    case base
    show ?case using assms(2) by simp
  next
    case (step s1 s2)
    have i: "run_inv s1" "evolves (ks \<union> drawn) (fst s) (fst s1)" using step.IH by auto
    then have "run_inv s2" "evolves (ks \<union> drawn) (fst s1) (fst s2)"
      using step_ok [of cfg decode ks "fst s1" "snd s1" "fst s2" "snd s2"] step.hyps(2) by auto
    then show ?case using i evolves_trans by blast
  qed
  then show "run_inv s'" "evolves (ks \<union> drawn) (fst s) (fst s')" by auto
qed

text \<open>
  A callback URL works once: after it was accepted it is refused in every later state, as
  long as nobody issues the same key again.
\<close>

lemma callback_once:
  assumes "run_inv (db, fl)"
    and "update_blockchain_hash now decode topup handle token salt resp db = (db1, Inr ())"
    and "(bc_step topup handle cfg decode ks)\<^sup>*\<^sup>* (db1, fl) (db2, fl2)"
    and "token \<notin> ks \<union> drawn"
  shows "\<exists>e. update_blockchain_hash later decode topup handle token salt resp2 db2 = (db2, Inl e)"
proof -
  have inv: "bc_inv db" using assms(1) by (simp add: run_inv_def)
  have "bc_step topup handle cfg decode ks (db, fl) (db1, fl)"
    using assms(2) by (rule bc_step.step_callback)
  then have r1: "run_inv (db1, fl)" using step_ok assms(1) by blast
  obtain tid where t: "decode salt = Some tid" "consumed tid token db1"
    using callback_accepted [OF inv assms(2)] by metis
  have "consumed tid token db2"
    using steps_ok(2) [OF assms(3) r1] t(2) assms(4) by (simp add: evolves_def)
  then show ?thesis using callback_replay t(1) by blast
qed

lemma no_burn_posted:
  assumes "(bc_step topup handle cfg decode ks)\<^sup>*\<^sup>* s s'" "run_inv s"
    "(rid, hdr, b) \<in> set (bc_posted (fst s'))"
  shows "\<exists>r. bc_requests (fst s') rid = Some r \<and> rq_type r \<noteq> BurnTokenRequest"
  using steps_ok(1) [OF assms(1,2)] assms(3) by (auto simp: run_inv_def)

end

text \<open>The empty database starts every run.\<close>

lemma run_inv_empty:
  "bc_requests db = Map.empty \<Longrightarrow> bc_tokens db = Map.empty \<Longrightarrow> bc_posted db = [] \<Longrightarrow> run_inv (db, [])"
  by (simp add: run_inv_def bc_inv_def)

end
