(* ===== verification/Wallets.thy ===== *)
theory Wallets
  imports Blockchain_Runs
begin

text \<open>
  Blockchain wallets of the actors: \<open>BlockchainWallet\<close> and \<open>WalletTopUp\<close> of
  \<open>v2/supply_chains/models/profile.py\<close>, \<open>Node.setup_blockchain_account\<close> of
  \<open>v2/supply_chains/models/node.py\<close>, the treasury wallet of
  \<open>v2/blockchain/models/ghost.py\<close>, and the callback handlers of account creation and
  HBAR transfer. The database is \<open>bc_db\<close> with the wallet tables; \<open>wl_assets\<close> stands
  for the tables of all other owners of requests, and \<open>other\<close> for their handlers.

  \<open>enc\<close> and \<open>dec\<close> are the AES routines; \<open>newkey\<close> gives the token key that
  \<open>get_key\<close> draws when the token of a request is refreshed.
\<close>

record wallet =
  wl_node :: nat
  wl_account_id :: string
  wl_public :: string
  wl_private :: string
  wl_hedera :: bool
  wl_default :: bool
  wl_request :: "nat option"

record topup =
  tu_wallet :: nat
  tu_amount :: rat
  tu_blockchain_id :: string
  tu_address :: string
  tu_request :: "nat option"

record 'h wallet_db = bc_db +
  wl_wallets :: "nat \<rightharpoonup> wallet"
  wl_next_wallet :: nat
  wl_topups :: "nat \<rightharpoonup> topup"
  wl_next_topup :: nat
  wl_deferred :: "(nat \<times> nat) list"
  wl_is_test :: "nat \<Rightarrow> bool"
  wl_addresses :: "nat \<rightharpoonup> string"
  wl_assets :: 'h

definition save_wallet :: "nat \<Rightarrow> wallet \<Rightarrow> 'h wallet_db \<Rightarrow> 'h wallet_db" where
  "save_wallet wid w db = db\<lparr>wl_wallets := (wl_wallets db)(wid \<mapsto> w)\<rparr>"

definition save_topup :: "nat \<Rightarrow> topup \<Rightarrow> 'h wallet_db \<Rightarrow> 'h wallet_db" where
  "save_topup uid u db = db\<lparr>wl_topups := (wl_topups db)(uid \<mapsto> u)\<rparr>"

section \<open>Accounts\<close>

definition set_private :: "(string \<Rightarrow> string) \<Rightarrow> string \<Rightarrow> wallet \<Rightarrow> wallet" where
  "set_private enc raw w = w\<lparr>wl_private := enc raw\<rparr>"

text \<open>\<open>BlockchainWallet.pre_check\<close>: the inherited check, then the wallet's own.\<close>

definition wallet_pre_check ::
    "wallet \<Rightarrow> int \<Rightarrow> nat option \<Rightarrow> 'h wallet_db \<Rightarrow> ('h wallet_db \<times> bool \<times> string) result"
where
  "wallet_pre_check w now req db =
     rbind (create_account_pre_check now req db) (\<lambda>(db1, success, message).
       if \<not> success then Inr (db1, success, message)
       else if wl_private w \<noteq> [] \<or> wl_public w \<noteq> []
            then Inr (db1, False, ''Blockchain account has already been set-up'')
            else Inr (db1, True, ''Pre-check success''))"

text \<open>An exception of \<open>initialize\<close> or \<open>send\<close> is captured, one of the pre-check is not.\<close>

definition create_blockchain_account ::
    "int \<Rightarrow> string \<Rightarrow> string \<Rightarrow> nat option \<Rightarrow> nat \<Rightarrow> 'h wallet_db \<Rightarrow> ('h wallet_db \<times> bool) result"
where
  "create_blockchain_account now key pw user wid db =
     rbind (of_option DoesNotExist (wl_wallets db wid)) (\<lambda>w.
     rbind (wallet_pre_check w now (wl_request w) db) (\<lambda>(db1, success, message).
       if \<not> success then Inr (db1, False)
       else (case begin_request create_account_initialize [] now key pw
                    ''supply_chains_BlockchainWallet'' user (wl_request w) db1 of
               Inl e \<Rightarrow> Inr (db1, False)
             | Inr (db2, rid) \<Rightarrow> Inr (save_wallet wid (w\<lparr>wl_request := Some rid\<rparr>) db2, True))))"

definition disable_wallet :: "int \<Rightarrow> nat \<Rightarrow> 'h wallet_db \<Rightarrow> 'h wallet_db result" where
  "disable_wallet now wid db =
     rbind (of_option DoesNotExist (wl_wallets db wid)) (\<lambda>w.
       let db1 = save_wallet wid (w\<lparr>wl_default := False\<rparr>) db in
       case wl_request w of
         None \<Rightarrow> Inr db1
       | Some rid \<Rightarrow>
           rbind (of_option DoesNotExist (bc_requests db1 rid)) (\<lambda>r.
           rbind (token_of r db1) (\<lambda>(tid, t). Inr (discard_request now rid r tid t db1))))"

text \<open>
  \<open>Node.setup_blockchain_account\<close>: the node's default Hedera wallet, or, after all its
  wallets are disabled, a new one whose account is requested.
\<close>

definition node_wallets :: "nat \<Rightarrow> 'h wallet_db \<Rightarrow> nat list" where
  "node_wallets node db =
     [wid\<leftarrow>[0..<wl_next_wallet db]. case wl_wallets db wid of Some w \<Rightarrow> wl_node w = node | None \<Rightarrow> False]"

definition default_wallets :: "nat \<Rightarrow> 'h wallet_db \<Rightarrow> nat list" where
  "default_wallets node db =
     [wid\<leftarrow>node_wallets node db.
        case wl_wallets db wid of Some w \<Rightarrow> wl_hedera w \<and> wl_default w | None \<Rightarrow> False]"

definition new_default_wallet ::
    "int \<Rightarrow> string \<Rightarrow> string \<Rightarrow> nat \<Rightarrow> 'h wallet_db \<Rightarrow> ('h wallet_db \<times> nat) result"
where
  "new_default_wallet now key pw node db =
     (let wid = wl_next_wallet db;
          w = \<lparr>wl_node = node, wl_account_id = [], wl_public = [], wl_private = [],
               wl_hedera = True, wl_default = True, wl_request = None\<rparr>
      in rbind (create_blockchain_account now key pw None wid
                  ((save_wallet wid w db)\<lparr>wl_next_wallet := Suc wid\<rparr>)) (\<lambda>(db', ok).
           Inr (db', wid)))"

definition setup_blockchain_account ::
    "int \<Rightarrow> string \<Rightarrow> string \<Rightarrow> nat \<Rightarrow> bool \<Rightarrow> 'h wallet_db \<Rightarrow> ('h wallet_db \<times> nat) result"
where
  "setup_blockchain_account now key pw node reset db =
     (if default_wallets node db \<noteq> [] \<and> \<not> reset then Inr (db, hd (default_wallets node db))
      else rbind (rfold (disable_wallet now) (node_wallets node db) db)
             (new_default_wallet now key pw node))"

section \<open>Recharging\<close>

text \<open>
  \<open>WalletTopUp.pre_check\<close>. A wallet without an account is not recharged, but its
  account is requested. \<open>key\<close> and \<open>pw\<close> are used by that request only.
\<close>

definition topup_pre_check ::
    "string \<Rightarrow> string \<Rightarrow> nat \<Rightarrow> int \<Rightarrow> nat option \<Rightarrow> 'h wallet_db \<Rightarrow> ('h wallet_db \<times> bool \<times> string) result"
where
  "topup_pre_check key pw wid now req db =
     rbind (transfer_hbar_pre_check now req db) (\<lambda>(db1, success, message).
       if \<not> success then Inr (db1, success, message)
       else
         rbind (of_option DoesNotExist (wl_wallets db1 wid)) (\<lambda>w.
           if \<not> wl_hedera w then Inr (db1, False, ''Can only recharge hedera wallets'')
           else if wl_account_id w = [] then
             rbind (create_blockchain_account now key pw None wid db1) (\<lambda>(db2, ok).
               Inr (db2, False, ''Node wallet not setup''))
           else Inr (db1, True, ''Pre-check success'')))"

definition recharge ::
    "int \<Rightarrow> string \<Rightarrow> string \<Rightarrow> nat option \<Rightarrow> nat \<Rightarrow> 'h wallet_db \<Rightarrow> ('h wallet_db \<times> bool) result"
where
  "recharge now key pw user uid db =
     rbind (of_option DoesNotExist (wl_topups db uid)) (\<lambda>u.
     rbind (topup_pre_check key pw (tu_wallet u) now (tu_request u) db) (\<lambda>(db1, success, message).
       if \<not> success then Inr (db1, False)
       else (case begin_request transfer_hbar_initialize [] now key pw ''supply_chains_WalletTopUp''
                    user (tu_request u) db1 of
               Inl e \<Rightarrow> Inr (db1, False)
             | Inr (db2, rid) \<Rightarrow> Inr (save_topup uid (u\<lparr>tu_request := Some rid\<rparr>) db2, True))))"

text \<open>\<open>BlockchainWallet.topup_hbar\<close>; \<open>HBAR_RECHARGE_AMOUNT\<close> is 1.\<close>

definition topup_hbar :: "int \<Rightarrow> string \<Rightarrow> string \<Rightarrow> nat \<Rightarrow> 'h wallet_db \<Rightarrow> ('h wallet_db \<times> bool) result"
where
  "topup_hbar now key pw wid db =
     rbind (of_option DoesNotExist (wl_wallets db wid)) (\<lambda>w.
       if wl_is_test db (wl_node w) then Inr (db, False)
       else
         (let uid = wl_next_topup db;
              u = \<lparr>tu_wallet = wid, tu_amount = 1, tu_blockchain_id = [], tu_address = [],
                   tu_request = None\<rparr>
          in rbind (recharge now key pw None uid
                      ((save_topup uid u db)\<lparr>wl_next_topup := Suc uid\<rparr>)) (\<lambda>(db', ok).
               Inr (db', True))))"

text \<open>\<open>WalletTopUp.post_success\<close>: the requests the wallet deferred are tried again.\<close>

definition retry_deferred ::
    "int \<Rightarrow> (nat \<Rightarrow> string) \<Rightarrow> (nat \<Rightarrow> string list) \<Rightarrow> nat \<Rightarrow> 'h wallet_db \<Rightarrow> 'h wallet_db result"
where
  "retry_deferred now newkey tokens wid db =
     rfold (\<lambda>rid d. rbind (retry_request now (newkey rid) (tokens rid) rid d) (\<lambda>d'.
              Inr (d'\<lparr>wl_deferred := removeAll (wid, rid) (wl_deferred d')\<rparr>)))
       [rid. (w, rid) \<leftarrow> wl_deferred db, w = wid] db"

definition topup_update_hedera_data ::
    "int \<Rightarrow> (nat \<Rightarrow> string) \<Rightarrow> (nat \<Rightarrow> string list) \<Rightarrow> nat \<Rightarrow> (string \<times> string) list \<Rightarrow>
     'h wallet_db \<Rightarrow> 'h wallet_db result"
where
  "topup_update_hedera_data now newkey tokens uid data db =
     rbind (of_option DoesNotExist (wl_topups db uid)) (\<lambda>u.
     rbind (of_option PyKeyError (map_of data ''transactionId'')) (\<lambda>tx.
     rbind (of_option PyKeyError (map_of data ''transactionHash'')) (\<lambda>hash.
       retry_deferred now newkey tokens (tu_wallet u)
         (save_topup uid (u\<lparr>tu_blockchain_id := tx, tu_address := hash\<rparr>) db))))"

section \<open>Callbacks of the wallets' requests\<close>

definition wallet_of_request :: "nat \<Rightarrow> 'h wallet_db \<Rightarrow> nat option" where
  "wallet_of_request rid db =
     find (\<lambda>wid. case wl_wallets db wid of Some w \<Rightarrow> wl_request w = Some rid | None \<Rightarrow> False)
       [0..<wl_next_wallet db]"

definition topup_of_request :: "nat \<Rightarrow> 'h wallet_db \<Rightarrow> nat option" where
  "topup_of_request rid db =
     find (\<lambda>uid. case wl_topups db uid of Some u \<Rightarrow> tu_request u = Some rid | None \<Rightarrow> False)
       [0..<wl_next_topup db]"

text \<open>\<open>response["data"]\<close> as a dictionary.\<close>

definition response_dict :: "response \<Rightarrow> (string \<times> string) list result" where
  "response_dict resp =
     (case rs_data resp of None \<Rightarrow> Inl PyKeyError
      | Some (Resp_Dict d b) \<Rightarrow> Inr d | Some _ \<Rightarrow> Inl PyTypeError)"

text \<open>
  \<open>CreateAccountRequest.handle_response\<close>: the private key is decrypted with the
  request's password when that works, and taken as it is otherwise.
\<close>

definition account_private :: "(string \<Rightarrow> string \<Rightarrow> string option) \<Rightarrow> string \<Rightarrow> string \<Rightarrow> string" where
  "account_private dec password cipher =
     (case dec password cipher of Some private \<Rightarrow> if private \<noteq> [] then private else cipher
      | None \<Rightarrow> cipher)"

text \<open>
  \<open>BlockchainWallet.update_hedera_data\<close> up to the node's new address; a missing
  private key is noticed after the account id and the public key were saved.
\<close>

definition wallet_update_hedera_data ::
    "(string \<Rightarrow> string) \<Rightarrow> (string \<Rightarrow> string) \<Rightarrow> nat \<Rightarrow> (string \<times> string) list \<Rightarrow> 'h wallet_db \<Rightarrow>
     'h wallet_db \<times> unit result"
where
  "wallet_update_hedera_data enc private_of wid data db =
     (case (wl_wallets db wid, map_of data ''accountID'', map_of data ''accountPublic'') of
        (None, _, _) \<Rightarrow> (db, Inl DoesNotExist)
      | (Some w, Some acc, Some pub) \<Rightarrow>
          (let w1 = w\<lparr>wl_account_id := acc, wl_public := pub\<rparr>; db1 = save_wallet wid w1 db in
           case map_of data ''accountPrivate'' of
             None \<Rightarrow> (db1, Inl PyKeyError)
           | Some prv \<Rightarrow>
               (let db2 = save_wallet wid (set_private enc (private_of prv) w1) db1
                in (db2\<lparr>wl_addresses := (wl_addresses db2)(wl_node w \<mapsto> pub)\<rparr>, Inr ())))
      | (Some w, _, _) \<Rightarrow> (db, Inl PyKeyError))"

text \<open>
  The dispatch \<open>child_class.handle_response(response)\<close>: top-ups, wallets, and the
  owners of all other requests, whose handlers write their own tables.
\<close>

definition wallet_handle ::
    "int \<Rightarrow> (nat \<Rightarrow> string) \<Rightarrow> (nat \<Rightarrow> string list) \<Rightarrow> (string \<Rightarrow> string) \<Rightarrow>
     (string \<Rightarrow> string \<Rightarrow> string option) \<Rightarrow> (nat \<Rightarrow> response \<Rightarrow> 'h \<Rightarrow> 'h \<times> bool result) \<Rightarrow>
     nat \<Rightarrow> response \<Rightarrow> 'h wallet_db \<Rightarrow> 'h wallet_db \<times> bool result"
where
  "wallet_handle now newkey tokens enc dec other rid resp db =
     (case bc_requests db rid of
        None \<Rightarrow> (db, Inl DoesNotExist)
      | Some r \<Rightarrow>
          (if rq_type r = TransferHBARRequest then
             (case rbind (of_option DoesNotExist (topup_of_request rid db)) (\<lambda>uid.
                     rbind (response_dict resp) (\<lambda>data.
                       topup_update_hedera_data now newkey tokens uid data db)) of
                Inl e \<Rightarrow> (db, Inl e) | Inr db' \<Rightarrow> (db', Inr True))
           else if rq_type r = CreateAccountRequest then
             (case rbind (of_option DoesNotExist (wallet_of_request rid db)) (\<lambda>wid.
                     rbind (response_dict resp) (\<lambda>data. Inr (wid, data))) of
                Inl e \<Rightarrow> (db, Inl e)
              | Inr (wid, data) \<Rightarrow>
                  (case wallet_update_hedera_data enc (account_private dec (rq_password r)) wid data db of
                     (db', Inl e) \<Rightarrow> (db', Inl e) | (db', Inr _) \<Rightarrow> (db', Inr True)))
           else
             (case other rid resp (wl_assets db) of (h, y) \<Rightarrow> (db\<lparr>wl_assets := h\<rparr>, y))))"

text \<open>
  The wallet charged for a request: the treasury (whose top-up only reports), or the
  wallet of a node. \<open>initiator\<close> is the owner's property \<open>initiator_wallet\<close>.
\<close>

datatype initiator = TreasuryWallet | NodeWallet nat

definition initiator_topup_hbar ::
    "int \<Rightarrow> string \<Rightarrow> string \<Rightarrow> initiator \<Rightarrow> 'h wallet_db \<Rightarrow> 'h wallet_db \<times> unit result" where
  "initiator_topup_hbar now key pw i db =
     (case i of
        TreasuryWallet \<Rightarrow> (db, Inr ())
      | NodeWallet wid \<Rightarrow>
          (case topup_hbar now key pw wid db of Inl e \<Rightarrow> (db, Inl e) | Inr (db', _) \<Rightarrow> (db', Inr ())))"

definition defer_request :: "initiator \<Rightarrow> nat \<Rightarrow> 'h wallet_db \<Rightarrow> 'h wallet_db" where
  "defer_request i rid db =
     (case i of
        TreasuryWallet \<Rightarrow> db
      | NodeWallet wid \<Rightarrow>
          (if (wid, rid) \<in> set (wl_deferred db) then db
           else db\<lparr>wl_deferred := wl_deferred db @ [(wid, rid)]\<rparr>))"

definition wallet_topup ::
    "int \<Rightarrow> string \<Rightarrow> string \<Rightarrow> (nat \<Rightarrow> 'h wallet_db \<Rightarrow> initiator option result) \<Rightarrow>
     nat \<Rightarrow> bool \<Rightarrow> 'h wallet_db \<Rightarrow> 'h wallet_db \<times> unit result"
where
  "wallet_topup now key pw initiator rid retry db =
     top_up_initiator_wallet (initiator rid) (initiator_topup_hbar now key pw) defer_request rid retry db"

section \<open>The wallets keep the contracts of the protocol\<close>

text \<open>Writes to the wallet tables do not concern the protocol.\<close>

definition same_bc :: "'h wallet_db \<Rightarrow> 'h wallet_db \<Rightarrow> bool" where
  "same_bc db db' \<longleftrightarrow> bc_requests db' = bc_requests db \<and> bc_tokens db' = bc_tokens db \<and>
     bc_next_request db' = bc_next_request db \<and> bc_next_token db' = bc_next_token db \<and>
     bc_posted db' = bc_posted db"

definition follows :: "string set \<Rightarrow> 'a bc_db_scheme \<Rightarrow> 'a bc_db_scheme \<Rightarrow> bool" where
  "follows ks db db' \<longleftrightarrow> bc_inv db' \<and> evolves ks db db' \<and> bc_posted db' = bc_posted db"

lemma follows_refl: "bc_inv db \<Longrightarrow> follows ks db db"
  by (simp add: follows_def)

lemma follows_trans [trans]: "follows ks a b \<Longrightarrow> follows ks b c \<Longrightarrow> follows ks a c"
  by (auto simp: follows_def intro: evolves_trans)

lemma follows_inv: "follows ks a b \<Longrightarrow> bc_inv b"
  by (simp add: follows_def)

lemma follows_mono: "follows ks a b \<Longrightarrow> ks \<subseteq> ks' \<Longrightarrow> follows ks' a b"
  by (auto simp: follows_def intro: evolves_mono)

lemma same_bc_follows: "bc_inv db \<Longrightarrow> same_bc db db' \<Longrightarrow> follows ks db db'"
  by (simp add: follows_def same_bc_def evolves_cong bc_inv_cong [of db' db])

lemma same_bc_writes [simp]:
  "same_bc db (save_wallet wid w db)" "same_bc db (save_topup uid u db)"
  "same_bc db (db\<lparr>wl_next_wallet := n\<rparr>)" "same_bc db (db\<lparr>wl_next_topup := n\<rparr>)"
  "same_bc db (db\<lparr>wl_deferred := d\<rparr>)" "same_bc db (db\<lparr>wl_addresses := a\<rparr>)"
  "same_bc db (db\<lparr>wl_assets := h\<rparr>)"
  by (simp_all add: same_bc_def save_wallet_def save_topup_def)

lemma same_bc_trans: "same_bc a b \<Longrightarrow> same_bc b c \<Longrightarrow> same_bc a c"
  by (simp add: same_bc_def)

lemma follows_same: "follows ks a b \<Longrightarrow> same_bc b c \<Longrightarrow> follows ks a c"
  by (blast intro: follows_trans same_bc_follows follows_inv)

interpretation wallet_account:
  request_starter create_account_initialize "wallet_pre_check w" CreateAccountRequest for w
proof unfold_locales
  fix db :: "'h wallet_db" and req and now
  assume "bc_inv db" "\<And>rid. req = Some rid \<Longrightarrow> bc_requests db rid \<noteq> None"
  then show "\<exists>db' success message. wallet_pre_check w now req db = Inr (db', success, message)"
    using create_account_owner.pre_returns [of db req now] by (auto simp: wallet_pre_check_def)
next
  fix db db' :: "'h wallet_db" and req now success message ks
  assume "bc_inv db" "wallet_pre_check w now req db = Inr (db', success, message)"
  then show "bc_inv db' \<and> evolves ks db db' \<and> bc_posted db' = bc_posted db"
    using create_account_owner.pre_keeps [of db now req]
    by (auto simp: wallet_pre_check_def rbind_eq_Inr split: if_splits)
qed (fact create_account_owner.init_new create_account_owner.init_new_returns
      create_account_owner.init_again create_account_owner.init_missing)+

lemma create_blockchain_account_follows:
  assumes inv: "bc_inv db" and c: "create_blockchain_account now key pw user wid db = Inr (db', ok)"
  shows "follows {key} db db'"
proof -
  obtain w db1 success message where p: "wallet_pre_check w now (wl_request w) db = Inr (db1, success, message)"
    and rest: "db' = db1 \<or> (\<exists>db2 rid. begin_request create_account_initialize [] now key pw
         ''supply_chains_BlockchainWallet'' user (wl_request w) db1 = Inr (db2, rid) \<and>
         db' = save_wallet wid (w\<lparr>wl_request := Some rid\<rparr>) db2)"
    using c
    by (auto simp: create_blockchain_account_def rbind_eq_Inr split: option.splits if_splits sum.splits)
  have f1: "follows {key} db db1"
    using wallet_account.pre_keeps [OF inv p] by (simp add: follows_def)
  from rest show ?thesis
  proof (elim disjE exE conjE)
    fix db2 rid
    assume b: "begin_request create_account_initialize [] now key pw
         ''supply_chains_BlockchainWallet'' user (wl_request w) db1 = Inr (db2, rid)"
      and e: "db' = save_wallet wid (w\<lparr>wl_request := Some rid\<rparr>) db2"
    have "follows {key} db1 db2"
      using wallet_account.begin_ok [OF follows_inv [OF f1] b] by (simp add: follows_def)
    then show ?thesis using f1 e by (auto intro: follows_trans follows_same)
  qed (use f1 in simp)
qed

lemma topup_pre_check_follows:
  assumes inv: "bc_inv db" and p: "topup_pre_check key pw wid now req db = Inr (db', success, message)"
  shows "follows {key} db db'"
proof -
  obtain db1 s m where p1: "transfer_hbar_pre_check now req db = Inr (db1, s, m)"
    and d: "db' = db1 \<or> (\<exists>ok. create_blockchain_account now key pw None wid db1 = Inr (db', ok))"
    using p by (auto simp: topup_pre_check_def rbind_eq_Inr split: if_splits option.splits)
  have f1: "follows {key} db db1"
    using transfer_hbar_owner.pre_keeps [OF inv p1] by (simp add: follows_def)
  show ?thesis
    using d create_blockchain_account_follows [OF follows_inv [OF f1]] f1 by (auto intro: follows_trans)
qed

lemma recharge_follows:
  assumes inv: "bc_inv db" and c: "recharge now key pw user uid db = Inr (db', ok)"
  shows "follows {key} db db'"
proof -
  obtain u db1 success message where
      p: "topup_pre_check key pw (tu_wallet u) now (tu_request u) db = Inr (db1, success, message)"
    and rest: "db' = db1 \<or> (\<exists>db2 rid. begin_request transfer_hbar_initialize [] now key pw
         ''supply_chains_WalletTopUp'' user (tu_request u) db1 = Inr (db2, rid) \<and>
         db' = save_topup uid (u\<lparr>tu_request := Some rid\<rparr>) db2)"
    using c by (auto simp: recharge_def rbind_eq_Inr split: option.splits if_splits sum.splits)
  have f1: "follows {key} db db1" by (rule topup_pre_check_follows [OF inv p])
  from rest show ?thesis
  proof (elim disjE exE conjE)
    fix db2 rid
    assume b: "begin_request transfer_hbar_initialize [] now key pw
         ''supply_chains_WalletTopUp'' user (tu_request u) db1 = Inr (db2, rid)"
      and e: "db' = save_topup uid (u\<lparr>tu_request := Some rid\<rparr>) db2"
    have "follows {key} db1 db2"
      using transfer_hbar_owner.begin_ok [OF follows_inv [OF f1] b] by (simp add: follows_def)
    then show ?thesis using f1 e by (auto intro: follows_trans follows_same)
  qed (use f1 in simp)
qed

lemma topup_hbar_follows:
  assumes inv: "bc_inv db" and c: "topup_hbar now key pw wid db = Inr (db', ok)"
  shows "follows {key} db db'"
proof -
  consider "db' = db"
    | u uid ok' where "recharge now key pw None uid ((save_topup uid u db)\<lparr>wl_next_topup := Suc uid\<rparr>) =
        Inr (db', ok')"
    using c by (auto simp: topup_hbar_def Let_def rbind_eq_Inr split: option.splits if_splits)
  then show ?thesis
  proof cases
    case 1
    then show ?thesis using inv by (simp add: follows_refl)
  next
    case 2
    let ?db = "(save_topup uid u db)\<lparr>wl_next_topup := Suc uid\<rparr>"
    have "follows {key} db ?db"
      by (rule same_bc_follows [OF inv]) (rule same_bc_trans [of _ "save_topup uid u db"]; simp)
    then show ?thesis using recharge_follows [OF _ 2] by (auto intro: follows_trans follows_inv)
  qed
qed

lemma retry_deferred_follows:
  assumes inv: "bc_inv db" and c: "retry_deferred now newkey tokens wid db = Inr db'"
  shows "follows (range newkey) db db'"
proof (rule rfold_invariant [where P = "follows (range newkey) db", OF c [unfolded retry_deferred_def]])
  show "follows (range newkey) db db" using inv by (rule follows_refl)
next
  fix rid d d'
  assume f: "follows (range newkey) db d"
    and "rbind (retry_request now (newkey rid) (tokens rid) rid d) (\<lambda>d'.
              Inr (d'\<lparr>wl_deferred := removeAll (wid, rid) (wl_deferred d')\<rparr>)) = Inr d'"
  then obtain d1 where r: "retry_request now (newkey rid) (tokens rid) rid d = Inr d1"
    and e: "d' = d1\<lparr>wl_deferred := removeAll (wid, rid) (wl_deferred d1)\<rparr>"
    by (auto simp: rbind_eq_Inr)
  have "follows {newkey rid} d d1"
    using retry_request_ok [OF follows_inv [OF f] r] retry_request_posted [OF r] by (simp add: follows_def)
  then have "follows (range newkey) d d1" by (rule follows_mono) auto
  then show "follows (range newkey) db d'"
    unfolding e using f by (blast intro: follows_trans follows_same same_bc_writes)
qed

lemma wallet_update_follows:
  assumes "bc_inv db" "wallet_update_hedera_data enc private_of wid data db = (db', x)"
  shows "follows ks db db'"
proof (rule same_bc_follows [OF assms(1)])
  show "same_bc db db'"
    using assms(2)
    by (auto simp: wallet_update_hedera_data_def Let_def same_bc_def save_wallet_def split: option.splits)
qed

lemma wallet_topup_follows:
  assumes inv: "bc_inv db" and t: "wallet_topup now key pw initiator rid retry db = (db', x)"
  shows "follows {key} db db'"
proof -
  have d: "follows {key} db (defer_request i rid' d)" if "follows {key} db d" for i rid' d
    using follows_same [OF that] follows_same [OF that same_bc_writes(5)] that
    by (auto simp: defer_request_def split: initiator.splits)
  have i: "follows {key} db d" if "initiator_topup_hbar now key pw i db = (d, y)" for i d y
    using that topup_hbar_follows [OF inv] inv
    by (auto simp: initiator_topup_hbar_def follows_refl split: initiator.splits sum.splits)
  show ?thesis
    using t inv d i
    by (auto simp: wallet_topup_def top_up_initiator_wallet_def follows_refl
        split: sum.splits option.splits prod.splits if_splits)
qed

lemma wallet_handle_follows:
  assumes inv: "bc_inv db" and h: "wallet_handle now newkey tokens enc dec other rid resp db = (db', y)"
  shows "follows (range newkey) db db'"
proof -
  have t: "follows (range newkey) db d"
    if u: "topup_update_hedera_data now newkey tokens uid data db = Inr d" for uid data d
  proof -
    obtain w u' where "retry_deferred now newkey tokens w (save_topup uid u' db) = Inr d"
      using u by (auto simp: topup_update_hedera_data_def rbind_eq_Inr split: option.splits)
    moreover have "follows (range newkey) db (save_topup uid u' db)"
      using inv by (simp add: same_bc_follows)
    ultimately show ?thesis using retry_deferred_follows by (blast intro: follows_trans follows_inv)
  qed
  have o: "follows (range newkey) db (db\<lparr>wl_assets := x\<rparr>)" for x
    using inv by (simp add: same_bc_follows)
  show ?thesis
    using h inv t o wallet_update_follows [OF inv]
    by (auto simp: wallet_handle_def follows_refl rbind_eq_Inr
        split: sum.splits option.splits prod.splits if_splits)
qed

interpretation wallets:
  callback_owner "wallet_topup now key pw initiator"
    "wallet_handle now newkey tokens enc dec other" "insert key (range newkey)"
  for now key pw initiator newkey tokens enc dec other
proof unfold_locales
  fix db db' :: "'a wallet_db" and rid retry x
  assume "bc_inv db" "wallet_topup now key pw initiator rid retry db = (db', x)"
  then have "follows (insert key (range newkey)) db db'"
    by (blast intro: follows_mono wallet_topup_follows)
  then show "bc_inv db' \<and> evolves (insert key (range newkey)) db db' \<and> bc_posted db' = bc_posted db"
    by (simp add: follows_def)
next
  fix db db' :: "'a wallet_db" and rid resp y
  assume "bc_inv db" "wallet_handle now newkey tokens enc dec other rid resp db = (db', y)"
  then have "follows (insert key (range newkey)) db db'"
    by (blast intro: follows_mono wallet_handle_follows)
  then show "bc_inv db' \<and> evolves (insert key (range newkey)) db db' \<and> bc_posted db' = bc_posted db"
    by (simp add: follows_def)
qed

section \<open>Properties\<close>

text \<open>The database of a new deployment.\<close>

definition empty_wallet_db :: "'h \<Rightarrow> 'h wallet_db" where
  "empty_wallet_db h =
     \<lparr>bc_requests = Map.empty, bc_tokens = Map.empty, bc_next_request = 1, bc_next_token = 1,
      bc_responses = [], bc_queue = [], bc_posted = [], wl_wallets = Map.empty, wl_next_wallet = 1,
      wl_topups = Map.empty, wl_next_topup = 1, wl_deferred = [], wl_is_test = (\<lambda>_. False),
      wl_addresses = Map.empty, wl_assets = h\<rparr>"

lemma run_inv_empty_wallet_db: "run_inv (empty_wallet_db h, [])"
  by (rule run_inv_empty) (simp_all add: empty_wallet_db_def)

text \<open>A small run used by the examples: a message request is started, posted and answered.\<close>

definition demo_db :: "unit wallet_db" where
  "demo_db =
     (case start_request (initialize_request SubmitMessageRequest) pre_check_request [] 0 ''k'' ''p''
             ''m'' None None (empty_wallet_db ()) of
        Inr (db, _) \<Rightarrow> db | Inl _ \<Rightarrow> empty_wallet_db ())"

definition demo_request :: bc_request where
  "demo_request =
     \<lparr>rq_type = SubmitMessageRequest, rq_related_name = ''m'', rq_password = ''p'', rq_body = None,
      rq_callback_token = Some 1, rq_receipt = None, rq_status = BC_PENDING, rq_last_api_call = None,
      rq_updated_on = 0, rq_creator = None, rq_response = None\<rparr>"

definition demo_response :: response where
  "demo_response = \<lparr>rs_success = Some True, rs_message = None, rs_data = None\<rparr>"

definition demo_object :: rel_object where
  "demo_object =
     \<lparr>ro_sender_id = Inr [], ro_sender_private = Inr [], ro_receiver_id = Inr [], ro_owner_id = Inr [],
      ro_owner_private = Inr [], ro_account_id = Inr [], ro_account_private = Inr [],
      ro_quantity = Inr 0, ro_quantity_to_burn = Inr 0, ro_token_id = Inr [], ro_token_name = Inr [],
      ro_tokens_to_associate = [], ro_recharge_amount = 1, ro_topic_id = ''t'',
      ro_message = Inr ''hi'', ro_short_message = Inl PyAttributeError\<rparr>"

abbreviation "demo_topup \<equiv> wallet_topup 1 ''x'' [] (\<lambda>_ _. Inr None)"

abbreviation "demo_handle \<equiv>
  wallet_handle 1 (\<lambda>_. ''x'') (\<lambda>_. []) id (\<lambda>_ _. None) (\<lambda>_ _ h. (h, Inr True))"

abbreviation "demo_settings \<equiv> \<lparr>treasury_id = ''t'', treasury_private = ''p''\<rparr>"

lemmas demo_defs = demo_db_def empty_wallet_db_def start_request_def begin_request_def
  initialize_request_def create_request_def pre_check_request_def send_request_def base_send_def
  save_request_def save_token_def demo_request_def demo_response_def

lemma demo_start:
  "start_request (initialize_request SubmitMessageRequest) pre_check_request [] 0 ''k'' ''p'' ''m''
     None None (empty_wallet_db ()) = Inr (demo_db, Some 1)"
  by (simp add: demo_defs Let_def)

lemma demo_rows:
  "bc_requests demo_db = [1 \<mapsto> demo_request]"
  "bc_tokens demo_db = [1 \<mapsto> cb_create 0 ''k'' None]"
  "bc_queue demo_db = [1]" "bc_next_request demo_db = 2" "bc_posted demo_db = []"
  "bc_responses demo_db = []" "wl_assets demo_db = ()"
  by (simp_all add: demo_defs Let_def)

lemma demo_reachable:
  "bc_step demo_topup demo_handle demo_settings (\<lambda>_. Some 1) {''k''} (empty_wallet_db (), []) (demo_db, [])"
  by (rule bc_step.step_start [OF demo_start]) simp

lemma demo_run:
  "(bc_step demo_topup demo_handle demo_settings (\<lambda>_. Some 1) {''k''})\<^sup>*\<^sup>*
     (empty_wallet_db (), []) (demo_db, [])"
  using demo_reachable by (rule r_into_rtranclp)

lemma demo_run_inv: "run_inv (demo_db, [])"
  by (rule wallets.steps_ok(1) [OF demo_run run_inv_empty_wallet_db])

definition demo_posted :: "unit wallet_db" where
  "demo_posted = fst (post_begin 0 demo_settings (Inr demo_object) 1 demo_db)"

definition demo_settled :: "unit wallet_db" where
  "demo_settled = fst (update_blockchain_hash 1 (\<lambda>_. Some 1) demo_topup demo_handle ''k'' ''s''
     demo_response demo_db)"

lemma demo_callback:
  "update_blockchain_hash 1 (\<lambda>_. Some 1) demo_topup demo_handle ''k'' ''s'' demo_response demo_db =
     (demo_settled, Inr ())"
proof -
  have "valid_callback_token 1 (\<lambda>_. Some 1) (bc_tokens demo_db) ''k'' ''s'' =
      Inr (1, cb_create 0 ''k'' None)"
    by (simp add: valid_callback_token_Inr demo_rows cb_op_defs)
  moreover have "request_of_token 1 demo_db = Some (1, demo_request)"
    by (simp add: request_of_token_def demo_rows upt_rec demo_request_def)
  ultimately show ?thesis by (simp add: update_blockchain_hash_def demo_settled_def)
qed

lemma demo_post:
  obtains b where
    "post_begin 0 demo_settings (Inr demo_object) 1 demo_db = (demo_posted, Some (base_header demo_settings, b))"
    "bc_posted demo_posted = [(1, base_header demo_settings, b)]"
  by (simp add: demo_posted_def post_begin_def demo_rows demo_request_def prepare_header_def
      call_prepare_body_def prepare_body_def base_body_def token_of_def request_params_def
      submit_message_params_def demo_object_def Let_def)

text \<open>whatever sequence of starts, posts, replies, callbacks, retries and discards has
  run since deployment, every request still has a callback token of its own, and the token
  of a request that is not pending cannot authenticate a callback.\<close>

theorem reachable_requests_consistent:
  assumes "(bc_step (wallet_topup now key pw initiator) (wallet_handle now newkey tokens enc dec other)
              cfg decode ks)\<^sup>*\<^sup>* (empty_wallet_db h, []) (db, fl)"
    and "bc_requests db rid = Some r"
  shows "\<exists>tid t. rq_callback_token r = Some tid \<and> bc_tokens db tid = Some t \<and>
      (rq_status r \<noteq> BC_PENDING \<longrightarrow> \<not> cb_is_valid now' t) \<and>
      (\<forall>rid' r'. bc_requests db rid' = Some r' \<and> rq_callback_token r' = Some tid \<longrightarrow> rid' = rid)"
proof -
  have inv: "bc_inv db"
    using wallets.steps_ok(1) [OF assms(1) run_inv_empty_wallet_db] by (simp add: run_inv_def)
  obtain tid t where t: "rq_callback_token r = Some tid" "bc_tokens db tid = Some t"
    "cb_status t = CBTOKEN_UNUSED \<longrightarrow> rq_status r = BC_PENDING"
    using bc_inv_request [OF inv assms(2)] by blast
  moreover have "rid' = rid" if "bc_requests db rid' = Some r'" "rq_callback_token r' = Some tid" for rid' r'
    using bc_inv_unique [OF inv that(1) assms(2)] that(2) t(1) by simp
  ultimately show ?thesis using cb_not_unused_invalid by blast
qed

theorem reachable_requests_consistent_witness:
  "\<exists>tid t. rq_callback_token demo_request = Some tid \<and> bc_tokens demo_db tid = Some t"
proof -
  have "bc_requests demo_db 1 = Some demo_request" by (simp add: demo_rows)
  from reachable_requests_consistent [OF demo_run this]
  show ?thesis by blast
qed


text \<open>C6: a callback URL works once. After a callback was let in, the same token and salt are
  refused with an error in every later state, as long as no later start or retry draws the
  same key again; the refused callback changes nothing.\<close>

theorem callback_url_works_once:
  assumes "run_inv (db, fl)"
    and "update_blockchain_hash now decode (wallet_topup now key pw initiator)
           (wallet_handle now newkey tokens enc dec other) token salt resp db = (db1, Inr ())"
    and "(bc_step (wallet_topup now key pw initiator) (wallet_handle now newkey tokens enc dec other)
            cfg decode ks)\<^sup>*\<^sup>* (db1, fl) (db2, fl2)"
    and "token \<notin> ks \<union> insert key (range newkey)"
  shows "\<exists>e. update_blockchain_hash later decode (wallet_topup now key pw initiator)
           (wallet_handle now newkey tokens enc dec other) token salt resp2 db2 = (db2, Inl e)"
  by (rule wallets.callback_once [OF assms])

theorem callback_url_works_once_witness:
  "\<exists>e. update_blockchain_hash 2 (\<lambda>_. Some 1) demo_topup demo_handle ''k'' ''s'' demo_response
      demo_settled = (demo_settled, Inl e)"
proof -
  from demo_run_inv show ?thesis
    by (rule callback_url_works_once [OF _ demo_callback, where ks = "{}"]) auto
qed


text \<open>C7: a callback that is let in belongs to exactly the request it settles: the request was
  pending, afterwards it is completed or failed, and its token cannot be used again.\<close>

theorem callback_settles_pending:
  assumes "bc_inv db"
    and "update_blockchain_hash now decode (wallet_topup now key pw initiator)
           (wallet_handle now newkey tokens enc dec other) token salt resp db = (db', Inr ())"
  shows "\<exists>tid rid r q t. decode salt = Some tid \<and> bc_requests db rid = Some r \<and>
      rq_callback_token r = Some tid \<and> rq_status r = BC_PENDING \<and>
      bc_requests db' rid = Some q \<and> rq_status q \<in> {BC_COMPLETED, BC_FAILED} \<and>
      bc_tokens db' tid = Some t \<and> (cb_key t = token \<longrightarrow> \<not> cb_is_valid later t)"
proof (rule wallets.callback_accepted [OF assms])
  fix tid rid r q
  assume a: "decode salt = Some tid" "bc_requests db rid = Some r" "rq_callback_token r = Some tid"
    "rq_status r = BC_PENDING" "bc_requests db' rid = Some q"
    "rq_status q = BC_COMPLETED \<or> rq_status q = BC_FAILED" "consumed tid token db'"
  then obtain t where "bc_tokens db' tid = Some t" "cb_key t = token \<longrightarrow> \<not> cb_is_valid later t"
    using cb_not_unused_invalid by (auto simp: consumed_def)
  then show ?thesis using a by blast
qed

theorem callback_settles_pending_witness:
  "\<exists>rid q. bc_requests demo_settled rid = Some q \<and> rq_status q \<in> {BC_COMPLETED, BC_FAILED}"
proof -
  have "bc_inv demo_db" using demo_run_inv by (simp add: run_inv_def)
  from callback_settles_pending [OF this demo_callback] show ?thesis by blast
qed


text \<open>no burn request is ever sent to the middleware: every request that was posted since
  deployment is of another type.\<close>

theorem burn_request_never_posted:
  assumes "(bc_step (wallet_topup now key pw initiator) (wallet_handle now newkey tokens enc dec other)
              cfg decode ks)\<^sup>*\<^sup>* (empty_wallet_db h, []) (db, fl)"
    and "(rid, hdr, b) \<in> set (bc_posted db)"
  shows "\<exists>r. bc_requests db rid = Some r \<and> rq_type r \<noteq> BurnTokenRequest"
  using wallets.no_burn_posted [OF assms(1) run_inv_empty_wallet_db] assms(2) by simp

theorem burn_request_never_posted_witness:
  "\<exists>db hdr b r. (1, hdr, b) \<in> set (bc_posted (db :: unit wallet_db)) \<and> bc_requests db 1 = Some r \<and>
     rq_type r \<noteq> BurnTokenRequest"
proof -
  obtain b where p: "post_begin 0 demo_settings (Inr demo_object) 1 demo_db =
      (demo_posted, Some (base_header demo_settings, b))"
    "bc_posted demo_posted = [(1, base_header demo_settings, b)]" by (rule demo_post)
  let ?db = "demo_posted\<lparr>bc_queue := remove1 1 (bc_queue demo_posted)\<rparr>"
  have "\<exists>fl. bc_step demo_topup demo_handle demo_settings (\<lambda>_. Some 1) {''k''} (demo_db, []) (?db, fl)"
    using bc_step.step_post [OF _ p(1)] by (fastforce simp: demo_rows)
  then obtain fl where r: "(bc_step demo_topup demo_handle demo_settings (\<lambda>_. Some 1) {''k''})\<^sup>*\<^sup>*
      (empty_wallet_db (), []) (?db, fl)"
    using demo_reachable by (meson converse_rtranclp_into_rtranclp r_into_rtranclp)
  have m: "(1, base_header demo_settings, b) \<in> set (bc_posted ?db)" using p(2) by simp
  from burn_request_never_posted [OF r m] m show ?thesis by blast
qed


text \<open>what a callback wrote while the middleware was still answering the post survives the
  end of the posting task when the answer is a success: the task updates the response, the
  receipt and the time of the call, and neither the status nor the token.\<close>

theorem post_reply_keeps_callback_result:
  assumes "post_begin now cfg rel rid db = (db1, Some (hdr, b))"
    and "middleware hdr b = (later, Inr h)" and "http_ok h"
    and "bc_requests (during db1) rid = Some q"
  shows "\<exists>q'. bc_requests (post_blockchain_request now cfg rel middleware during rid db) rid = Some q' \<and>
      rq_status q' = rq_status q \<and> rq_callback_token q' = rq_callback_token q \<and> rq_body q' = rq_body q \<and>
      bc_tokens (post_blockchain_request now cfg rel middleware during rid db) = bc_tokens (during db1)"
  using assms
  by (simp add: post_blockchain_request_def post_finish_def Let_def update_request_def split: sum.splits)

theorem post_reply_keeps_callback_result_witness:
  "\<exists>q'. bc_requests (post_blockchain_request 0 demo_settings (Inr demo_object)
        (\<lambda>_ _. (2, Inr \<lparr>http_ok = True, http_json = Inr ''{}'', http_receipt = Inr ''r''\<rparr>))
        (\<lambda>_. demo_settled) 1 demo_db) 1 = Some q' \<and> rq_status q' \<in> {BC_COMPLETED, BC_FAILED}"
proof -
  obtain b where p: "post_begin 0 demo_settings (Inr demo_object) 1 demo_db =
      (demo_posted, Some (base_header demo_settings, b))" by (rule demo_post)
  have "bc_inv demo_db" using demo_run_inv by (simp add: run_inv_def)
  then obtain tid rid r q where q: "bc_requests demo_db rid = Some r" "bc_requests demo_settled rid = Some q"
    "rq_status q = BC_COMPLETED \<or> rq_status q = BC_FAILED"
    using wallets.callback_accepted [OF _ demo_callback] by metis
  then have "rid = 1" by (simp add: demo_rows split: if_splits)
  with q have "bc_requests ((\<lambda>_. demo_settled) demo_posted) 1 = Some q" by simp
  from post_reply_keeps_callback_result [where during = "\<lambda>_. demo_settled" and
      middleware = "\<lambda>_ _. (2, Inr \<lparr>http_ok = True, http_json = Inr ''{}'', http_receipt = Inr ''r''\<rparr>)",
      OF p _ _ this] q(3)
  show ?thesis by auto
qed

end
