(* ===== verification/Blockchain_Progress.thy ===== *)
theory Blockchain_Progress
  imports Wallets
begin

text \<open>
  Progress of the blockchain protocol: no request is stuck. The callback of the token of a
  request is let in, and from every consistent state a retry gives the request a token whose
  callback settles it.
\<close>

lemma request_of_token_inv:
  assumes inv: "bc_inv db" and r: "bc_requests db rid = Some r" "rq_callback_token r = Some tid"
  shows "request_of_token tid db = Some (rid, r)"
proof -
  let ?p = "\<lambda>rid. case bc_requests db rid of Some r \<Rightarrow> rq_callback_token r = Some tid | None \<Rightarrow> False"
  have "rid < bc_next_request db" by (rule bc_inv_request [OF inv r(1)])
  then obtain i where i: "find ?p [0..<bc_next_request db] = Some i"
    using r find_None_iff [of ?p "[0..<bc_next_request db]"] by (cases "find ?p [0..<bc_next_request db]") auto
  then have "?p i" by (auto simp: find_Some_iff)
  then have "i = rid" using bc_inv_unique [OF inv _ r(1)] r(2) by (auto split: option.splits)
  then show ?thesis using i r(1) by (simp add: request_of_token_def)
qed

context callback_owner
begin

text \<open>A callback with the key of a valid token settles the request of the token.\<close>

lemma callback_lets_in:
  assumes inv: "bc_inv db" and r: "bc_requests db rid = Some r" "rq_callback_token r = Some tid"
    and t: "bc_tokens db tid = Some t" "cb_is_valid now t" "cb_key t \<noteq> []"
    and d: "decode salt = Some tid" "tid \<noteq> 0"
  shows "\<exists>db' q. update_blockchain_hash now decode topup handle (cb_key t) salt resp db = (db', Inr ()) \<and>
    bc_inv db' \<and> bc_requests db' rid = Some q \<and> rq_status q \<in> {BC_COMPLETED, BC_FAILED}"
proof -
  have v: "valid_callback_token now decode (bc_tokens db) (cb_key t) salt = Inr (tid, t)"
    using t d by (simp add: valid_callback_token_Inr)
  obtain db' success where m: "manage_callback now topup handle rid r tid t resp db = (db', success)" by fastforce
  have l: "loaded db rid r tid" using r by (auto simp: loaded_def)
  obtain q where "bc_requests db' rid = Some q" "rq_status q = (if success then BC_COMPLETED else BC_FAILED)"
    using manage_callback_keeps(5) [OF inv l m] by blast
  then show ?thesis
    using v m manage_callback_keeps(1) [OF inv l m] request_of_token_inv [OF inv r]
    by (auto simp: update_blockchain_hash_def)
qed

end

text \<open>A retry leaves the request pending and its token valid for thirty days.\<close>

lemma retry_request_renews:
  assumes inv: "bc_inv db" and r: "bc_requests db rid = Some r" "rq_callback_token r = Some tid"
    and ty: "rq_type r \<noteq> AssociateTokenRequest \<or> tokens \<noteq> []"
  obtains t db' r' where "bc_tokens db tid = Some t" "retry_request now key tokens rid db = Inr db'"
    "bc_tokens db' tid = Some (cb_refresh now key t)" "bc_requests db' rid = Some r'"
    "rq_callback_token r' = Some tid" "rq_status r' = BC_PENDING"
proof -
  obtain t where t: "bc_tokens db tid = Some t" using bc_inv_request [OF inv r(1)] r(2) by force
  have "token_of r db = Inr (tid, t)" using r(2) t by (simp add: token_of_Inr)
  then have "retry_request now key tokens rid db =
      Inr (base_send now rid r (save_token tid (cb_refresh now key t) db))"
    using r(1) ty by (auto simp: retry_request_def send_request_def associate_send_def)
  then show thesis
    by (rule that [OF t, where r' = "r\<lparr>rq_status := BC_PENDING, rq_updated_on := now\<rparr>"])
      (simp_all add: base_send_def save_token_def save_request_def Let_def r(2))
qed

lemma cb_refresh_lasts:
  "now \<le> later \<Longrightarrow> later < now + token_validity \<Longrightarrow> cb_is_valid later (cb_refresh now key t)"
  by (auto simp: cb_op_defs Let_def)



end
