(* ===== verification/Owner_Tables.thy ===== *)
theory Owner_Tables
  imports Wallets
begin

text \<open>
  The requests of the blockchain, the wallets and the callbacks on them write the protocol's
  and the wallets' tables: the tables of the other owners of requests are only written by
  the handlers of those owners.
\<close>

section \<open>What the protocol leaves of the owners' tables\<close>

named_theorems assets_same

lemma assets_writes [simp]:
  "wl_assets (save_request now rid r db) = wl_assets db" "wl_assets (save_token tid t db) = wl_assets db"
  "wl_assets (update_request rid f db) = wl_assets db" "wl_assets (save_wallet wid w wdb) = wl_assets wdb"
  "wl_assets (save_topup uid u wdb) = wl_assets wdb" "wl_assets (complete_request now rid r tid t db) = wl_assets db"
  "wl_assets (mark_as_failed now rid r tid t db) = wl_assets db" "wl_assets (discard_request now rid r tid t db) = wl_assets db"
  "wl_assets (base_send now rid r db) = wl_assets db"
  by (simp_all add: table_defs save_wallet_def save_topup_def complete_request_def mark_as_failed_def
      discard_request_def base_send_def Let_def split: option.split)

lemma send_assets [assets_same]: "send_request now tokens rid r db = Inr (db', ok) \<Longrightarrow> wl_assets db' = wl_assets db"
  by (auto simp: send_request_def associate_send_def rbind_eq_Inr split: if_split_asm)

lemma retry_assets [assets_same]: "retry_request now key tokens rid db = Inr db' \<Longrightarrow> wl_assets db' = wl_assets db"
  by (auto simp: retry_request_def rbind_eq_Inr dest!: send_assets)

lemma initialize_assets [assets_same]:
  "initialize_request ty now key pw rname user req db = Inr (db', rid) \<Longrightarrow> wl_assets db' = wl_assets db"
  by (auto simp: initialize_request_def create_request_def refresh_request_def rbind_eq_Inr Let_def split: option.split_asm)

lemma pre_check_assets [assets_same]:
  "pre_check_request now req db = Inr (db', success, message) \<Longrightarrow> wl_assets db' = wl_assets db"
  by (auto simp: pre_check_request_def rbind_eq_Inr split: option.split_asm if_split_asm)

lemma begin_assets [assets_same]:
  "begin_request (initialize_request ty) tokens now key pw rname user req db = Inr (db', rid) \<Longrightarrow> wl_assets db' = wl_assets db"
  by (auto simp: begin_request_def rbind_eq_Inr dest!: initialize_assets send_assets split: option.split_asm)

lemma start_assets:
  "start_request (initialize_request ty) pre_check_request tokens now key pw rname user req db = Inr (db', rq) \<Longrightarrow>
     wl_assets db' = wl_assets db"
  by (auto simp: start_request_def rbind_eq_Inr dest!: pre_check_assets begin_assets split: if_split_asm)

lemma account_assets [assets_same]:
  "create_blockchain_account now key pw user wid db = Inr (db', ok) \<Longrightarrow> wl_assets db' = wl_assets db"
  by (auto simp: create_blockchain_account_def wallet_pre_check_def create_account_pre_check_def
      create_account_initialize_def rbind_eq_Inr dest!: pre_check_assets begin_assets split: if_split_asm sum.split_asm)

lemma recharge_assets [assets_same]:
  "recharge now key pw user uid db = Inr (db', ok) \<Longrightarrow> wl_assets db' = wl_assets db"
  by (auto simp: recharge_def topup_pre_check_def transfer_hbar_pre_check_def transfer_hbar_initialize_def rbind_eq_Inr
      dest!: pre_check_assets begin_assets account_assets split: if_split_asm sum.split_asm)

lemma topup_hbar_assets [assets_same]:
  "topup_hbar now key pw wid db = Inr (db', ok) \<Longrightarrow> wl_assets db' = wl_assets db"
  by (auto simp: topup_hbar_def Let_def rbind_eq_Inr dest!: recharge_assets split: if_split_asm)

lemma retry_deferred_assets [assets_same]:
  assumes "retry_deferred now newkey tokens wid db = Inr db'"
  shows "wl_assets db' = wl_assets db"
  by (rule rfold_invariant [where P = "\<lambda>d. wl_assets d = wl_assets db", OF assms [unfolded retry_deferred_def]])
    (auto simp: rbind_eq_Inr dest!: retry_assets)

lemma topup_assets: "wallet_topup now key pw initiator rid retry db = (db', x) \<Longrightarrow> wl_assets db' = wl_assets db"
  by (auto simp: wallet_topup_def top_up_initiator_wallet_def initiator_topup_hbar_def defer_request_def
      dest!: topup_hbar_assets split: sum.split_asm option.split_asm prod.split_asm initiator.split_asm if_split_asm)

lemma handle_assets:
  assumes P: "\<And>rid h. P h \<Longrightarrow> P (fst (other rid resp h))" and "P (wl_assets db)"
    and h: "wallet_handle now newkey tokens enc dec other rid resp db = (db', y)"
  shows "P (wl_assets db')"
proof -
  have t: "wl_assets d = wl_assets db" if "topup_update_hedera_data now newkey tokens uid data db = Inr d" for uid data d
    using that by (auto simp: topup_update_hedera_data_def rbind_eq_Inr dest!: retry_deferred_assets)
  have w: "wl_assets (fst (wallet_update_hedera_data enc prv wid data db)) = wl_assets db" for prv wid data
    by (simp add: wallet_update_hedera_data_def Let_def split: option.split)
  have o: "P (fst (other rid resp (wl_assets db)))" using P assms(2) .
  show ?thesis
    using h o assms(2) unfolding wallet_handle_def
    by (auto simp: rbind_eq_Inr dest!: t split: option.split_asm if_split_asm sum.split_asm prod.split_asm)
      (metis fst_conv w)+
qed

lemma post_begin_assets: "wl_assets (fst (post_begin now cfg rel rid db)) = wl_assets db"
proof -
  have b: "wl_assets (fst (prepare_body now cfg rid r ro db)) = wl_assets db" for r ro
    by (simp add: prepare_body_def Let_def split: sum.split)
  have "wl_assets (fst (call_prepare_body now cfg rid r ro db)) = wl_assets db" for r ro
    by (simp add: call_prepare_body_fst b)
  then have "call_prepare_body now cfg rid r ro db = (d, x) \<Longrightarrow> wl_assets d = wl_assets db" for r ro d x
    by (metis fst_conv)
  then show ?thesis by (auto simp: post_begin_def split: option.split sum.split prod.split)
qed

lemma post_finish_assets: "wl_assets (post_finish now rid tok reply db) = wl_assets db"
  by (simp add: post_finish_def Let_def split: sum.split option.split)

lemma save_response_assets: "child_save_response ty rid resp db = Inr db' \<Longrightarrow> wl_assets db' = wl_assets db"
  by (auto simp: child_save_response_def create_account_save_response_def save_response_def rbind_eq_Inr
      split: if_split_asm option.split_asm resp_data.split_asm)

lemma callback_assets:
  assumes P: "\<And>rid h. P h \<Longrightarrow> P (fst (other rid resp h))" and "P (wl_assets db)"
    and u: "update_blockchain_hash now decode (wallet_topup tn key pw initiator)
      (wallet_handle hn newkey tokens enc dec other) token salt resp db = (db', x)"
  shows "P (wl_assets db')"
proof -
  have b: "P (wl_assets (fst (callback_body (wallet_topup tn key pw initiator)
      (wallet_handle hn newkey tokens enc dec other) ty rid resp db)))" for ty rid
  proof (cases "child_save_response ty rid resp db")
    case (Inr db1)
    obtain low again where l: "check_balance_low resp = (low, again)" by fastforce
    obtain db2 r where t: "(if low then wallet_topup tn key pw initiator rid again db1 else (db1, Inr ())) = (db2, r)"
      by fastforce
    have a2: "P (wl_assets db2)"
      using t assms(2) save_response_assets [OF Inr] topup_assets [of tn key pw initiator rid again db1 db2 r]
      by (auto split: if_split_asm)
    obtain db3 y where h: "wallet_handle hn newkey tokens enc dec other rid resp db2 = (db3, y)" by fastforce
    have "P (wl_assets db3)" by (rule handle_assets [OF P a2 h])
    then show ?thesis using Inr l t h a2 by (auto simp: callback_body_def split: sum.split)
  qed (use assms(2) in \<open>simp add: callback_body_def\<close>)
  show ?thesis
    using u b assms(2)
    by (auto simp: update_blockchain_hash_def manage_callback_def split: sum.split_asm option.split_asm prod.splits if_splits)
      (metis fst_conv assets_writes(6,7))+
qed

lemma bc_step_assets:
  assumes "bc_step (wallet_topup tn key pw initiator) (wallet_handle hn newkey tokens enc dec other)
      cfg decode ks s s'" and P: "\<And>rid resp h. P h \<Longrightarrow> P (fst (other rid resp h))" and "P (wl_assets (fst s))"
  shows "P (wl_assets (fst s'))"
  using assms(1)
proof cases
  case step_start
  then show ?thesis using assms(3) by (auto dest!: start_assets)
next
  case step_retry
  then show ?thesis using assms(3) by (auto dest!: retry_assets)
next
  case step_discard
  then show ?thesis using assms(3) by simp
next
  case (step_post rid db now rel db' x fl)
  then show ?thesis using assms(3) post_begin_assets [of now cfg rel rid db] by simp
next
  case step_reply
  then show ?thesis using assms(3) by (simp add: post_finish_assets)
next
  case step_callback
  then show ?thesis using callback_assets [of P, OF P] assms(3) by simp
qed

section \<open>The accounts of the parties\<close>

lemma disable_wallet_follows:
  assumes inv: "bc_inv db" and d: "disable_wallet now wid db = Inr db'"
  shows "follows ks db db' \<and> wl_assets db' = wl_assets db"
proof -
  obtain w where w: "(case wl_request w of
         None \<Rightarrow> Inr (save_wallet wid (w\<lparr>wl_default := False\<rparr>) db)
       | Some rid \<Rightarrow>
           rbind (of_option DoesNotExist (bc_requests (save_wallet wid (w\<lparr>wl_default := False\<rparr>) db) rid)) (\<lambda>r.
           rbind (token_of r (save_wallet wid (w\<lparr>wl_default := False\<rparr>) db)) (\<lambda>(tid, t).
             Inr (discard_request now rid r tid t (save_wallet wid (w\<lparr>wl_default := False\<rparr>) db))))) = Inr db'"
    using d by (auto simp: disable_wallet_def rbind_eq_Inr Let_def)
  define db1 where "db1 = save_wallet wid (w\<lparr>wl_default := False\<rparr>) db"
  have f1: "follows ks db db1" unfolding db1_def by (rule same_bc_follows [OF inv]) simp
  note inv1 = follows_inv [OF f1]
  have "follows ks db1 db' \<and> wl_assets db' = wl_assets db1"
  proof (cases "wl_request w")
    case None
    then show ?thesis using w inv1 by (simp add: db1_def [symmetric] follows_refl)
  next
    case (Some rid)
    then obtain r tid t where r: "bc_requests db1 rid = Some r" "token_of r db1 = Inr (tid, t)"
      and e: "db' = discard_request now rid r tid t db1"
      using w by (auto simp: db1_def [symmetric] rbind_eq_Inr)
    have l: "loaded db1 rid r tid" using r by (auto simp: loaded_def token_of_Inr)
    show ?thesis
      using discard_request_ok(1,2) [OF inv1 l r(1)] by (simp add: e follows_def discard_request_posted)
  qed
  then show ?thesis using f1 follows_trans by (simp add: db1_def) blast
qed

lemma setup_follows:
  assumes inv: "bc_inv db" and s: "setup_blockchain_account now key pw node reset db = Inr (db', wid)"
  shows "follows {key} db db' \<and> wl_assets db' = wl_assets db"
proof (cases "default_wallets node db \<noteq> [] \<and> \<not> reset")
  case True
  then show ?thesis using s inv by (simp add: setup_blockchain_account_def follows_refl)
next
  case False
  then obtain db1 where d: "rfold (disable_wallet now) (node_wallets node db) db = Inr db1"
    and n: "new_default_wallet now key pw node db1 = Inr (db', wid)"
    using s by (auto simp: setup_blockchain_account_def rbind_eq_Inr)
  have f1: "follows {key} db db1 \<and> wl_assets db1 = wl_assets db"
  proof (rule rfold_invariant [OF d])
    fix w a b assume a: "follows {key} db a \<and> wl_assets a = wl_assets db" and d: "disable_wallet now w a = Inr b"
    then show "follows {key} db b \<and> wl_assets b = wl_assets db"
      using disable_wallet_follows [OF _ d] follows_inv follows_trans by metis
  qed (simp add: inv follows_refl)
  obtain w ok where c: "create_blockchain_account now key pw None wid
      ((save_wallet wid w db1)\<lparr>wl_next_wallet := Suc wid\<rparr>) = Inr (db', ok)"
    using n by (auto simp: new_default_wallet_def Let_def rbind_eq_Inr)
  let ?db2 = "(save_wallet wid w db1)\<lparr>wl_next_wallet := Suc wid\<rparr>"
  have "same_bc db1 ?db2" using same_bc_trans [OF same_bc_writes(1) same_bc_writes(3)] .
  then have f2: "follows {key} db ?db2" using f1 follows_same by blast
  have "follows {key} ?db2 db'" by (rule create_blockchain_account_follows [OF follows_inv [OF f2] c])
  then show ?thesis using f1 follows_trans [OF f2] account_assets [OF c] by simp
qed

end
