(* ===== verification/Assets.thy ===== *)
theory Assets
  imports Owner_Tables
begin

text \<open>
  What is logged on the blockchain: tokens of products, the association and admission (KYC) of
  wallets, minted batches, transferred and burned quantities and the messages that describe
  them, from \<open>v2/products/models.py\<close>, \<open>v2/transactions/models.py\<close>,
  \<open>WalletTokenAssociation\<close> of \<open>v2/supply_chains/models/supply_chain.py\<close> and \<open>post_success\<close> of the
  wallet. Every object starts requests of \<open>Blockchain_Callbacks\<close>; the tables of the objects
  are the \<open>wl_assets\<close> of the wallets' database. Who created a request, payments, caches and
  the texts of the messages are left out.
\<close>

section \<open>Tables\<close>

text \<open>The hash and the request of an object, and those of the message about it. Blank columns are empty.\<close>

record chain_mark =
  mk_id :: string
  mk_address :: string
  mk_msg_id :: string
  mk_msg_address :: string
  mk_request :: "nat option"
  mk_msg_request :: "nat option"

record asset_batch =
  ab_product :: nat
  ab_node :: nat
  ab_wallet :: "nat option"
  ab_source :: "nat option"
  ab_current :: int
  ab_mark :: chain_mark

text \<open>Of an internal transaction both nodes and both wallets are its own.\<close>

record asset_tx =
  ax_external :: bool
  ax_incoming :: bool
  ax_source :: nat
  ax_destination :: nat
  ax_source_wallet :: "nat option"
  ax_destination_wallet :: "nat option"
  ax_mark :: chain_mark

record asset_source =
  az_tx :: nat
  az_batch :: nat
  az_mark :: chain_mark

record batch_migration =
  bm_batch :: nat
  bm_old :: "nat option"
  bm_new :: nat
  bm_quantity :: int
  bm_prev :: chain_mark
  bm_mark :: chain_mark

record node_product =
  np_product :: nat
  np_wallet :: nat
  np_association :: "nat option"
  np_associated :: bool
  np_kyc :: bool
  np_request :: "nat option"

record token_association =
  ta_wallet :: nat
  ta_chain :: nat
  ta_success :: bool
  ta_confirmed :: bool
  ta_request :: "nat option"

record asset_product =
  pr_chain :: nat
  pr_token :: string
  pr_request :: "nat option"

record assets =
  as_batches :: "nat \<rightharpoonup> asset_batch"
  as_next_batch :: nat
  as_txs :: "nat \<rightharpoonup> asset_tx"
  as_next_tx :: nat
  as_sources :: "nat \<rightharpoonup> asset_source"
  as_next_source :: nat
  as_migrations :: "nat \<rightharpoonup> batch_migration"
  as_next_migration :: nat
  as_nps :: "nat \<rightharpoonup> node_product"
  as_next_np :: nat
  as_associations :: "nat \<rightharpoonup> token_association"
  as_next_association :: nat
  as_products :: "nat \<rightharpoonup> asset_product"
  as_next_product :: nat

type_synonym asset_db = "assets wallet_db"

text \<open>
  What does not change: the instant, the keys drawn (for the request named, or a new one, when
  that many tokens exist), the password of new requests, and the nodes with their kind and chains.
\<close>

record asset_env =
  ae_now :: int
  ae_key :: "nat option \<Rightarrow> nat \<Rightarrow> string"
  ae_pw :: string
  ae_company :: "nat \<Rightarrow> bool"
  ae_farm :: "nat \<Rightarrow> bool"
  ae_chains :: "nat \<Rightarrow> nat list"

definition save_assets :: "(assets \<Rightarrow> assets) \<Rightarrow> asset_db \<Rightarrow> asset_db" where
  "save_assets f db = db\<lparr>wl_assets := f (wl_assets db)\<rparr>"

definition newest :: "('r \<Rightarrow> bool) \<Rightarrow> (nat \<rightharpoonup> 'r) \<Rightarrow> nat \<Rightarrow> nat list" where
  "newest p rows n = [i\<leftarrow>rev [0..<n]. case rows i of Some r \<Rightarrow> p r | None \<Rightarrow> False]"

text \<open>\<open>save\<close> of an object in memory writes all its columns.\<close>

definition put_batch :: "nat \<Rightarrow> asset_batch \<Rightarrow> asset_db \<Rightarrow> asset_db" where
  "put_batch b x = save_assets (\<lambda>a. a\<lparr>as_batches := (as_batches a)(b \<mapsto> x)\<rparr>)"

definition put_tx :: "nat \<Rightarrow> asset_tx \<Rightarrow> asset_db \<Rightarrow> asset_db" where
  "put_tx t x = save_assets (\<lambda>a. a\<lparr>as_txs := (as_txs a)(t \<mapsto> x)\<rparr>)"

definition put_source :: "nat \<Rightarrow> asset_source \<Rightarrow> asset_db \<Rightarrow> asset_db" where
  "put_source s x = save_assets (\<lambda>a. a\<lparr>as_sources := (as_sources a)(s \<mapsto> x)\<rparr>)"

definition put_migration :: "nat \<Rightarrow> batch_migration \<Rightarrow> asset_db \<Rightarrow> asset_db" where
  "put_migration m x = save_assets (\<lambda>a. a\<lparr>as_migrations := (as_migrations a)(m \<mapsto> x)\<rparr>)"

definition put_np :: "nat \<Rightarrow> node_product \<Rightarrow> asset_db \<Rightarrow> asset_db" where
  "put_np n x = save_assets (\<lambda>a. a\<lparr>as_nps := (as_nps a)(n \<mapsto> x)\<rparr>)"

definition put_association :: "nat \<Rightarrow> token_association \<Rightarrow> asset_db \<Rightarrow> asset_db" where
  "put_association i x = save_assets (\<lambda>a. a\<lparr>as_associations := (as_associations a)(i \<mapsto> x)\<rparr>)"

definition put_product :: "nat \<Rightarrow> asset_product \<Rightarrow> asset_db \<Rightarrow> asset_db" where
  "put_product p x = save_assets (\<lambda>a. a\<lparr>as_products := (as_products a)(p \<mapsto> x)\<rparr>)"

text \<open>The objects of a query, in memory; it is evaluated before the loop over them begins.\<close>

definition loaded_rows :: "(nat \<rightharpoonup> 'r) \<Rightarrow> nat list \<Rightarrow> (nat \<times> 'r) list" where
  "loaded_rows rows ids = [(i, x). i \<leftarrow> ids, x \<leftarrow> (case rows i of Some x \<Rightarrow> [x] | None \<Rightarrow> [])]"

definition row :: "(assets \<Rightarrow> nat \<rightharpoonup> 'r) \<Rightarrow> nat \<Rightarrow> asset_db \<Rightarrow> 'r result" where
  "row t i db = of_option DoesNotExist (t (wl_assets db) i)"

definition wallet_row :: "nat \<Rightarrow> asset_db \<Rightarrow> wallet result" where
  "wallet_row w db = of_option DoesNotExist (wl_wallets db w)"

section \<open>Actions\<close>

text \<open>An action keeps what it wrote before it raised.\<close>

type_synonym 'a act = "asset_db \<Rightarrow> asset_db \<times> 'a result"

definition give :: "'a \<Rightarrow> 'a act" where
  "give x db = (db, Inr x)"

definition bind :: "'a act \<Rightarrow> ('a \<Rightarrow> 'b act) \<Rightarrow> 'b act" where
  "bind m f db = (case m db of (db', Inl e) \<Rightarrow> (db', Inl e) | (db', Inr x) \<Rightarrow> f x db')"

definition reads :: "(asset_db \<Rightarrow> 'a result) \<Rightarrow> ('a \<Rightarrow> 'b act) \<Rightarrow> 'b act" where
  "reads f g db = (case f db of Inl e \<Rightarrow> (db, Inl e) | Inr x \<Rightarrow> g x db)"

definition writes :: "(asset_db \<Rightarrow> asset_db) \<Rightarrow> 'b act \<Rightarrow> 'b act" where
  "writes f m db = m (f db)"

fun every :: "('x \<Rightarrow> 'a act) \<Rightarrow> 'x list \<Rightarrow> 'a list act" where
  "every f [] = give []"
| "every f (x # xs) = bind (f x) (\<lambda>y. bind (every f xs) (\<lambda>ys. give (y # ys)))"

text \<open>
  The inherited check; and \<open>initialize\<close> with \<open>send\<close>, whose exceptions the callers capture. The
  owner is saved when the request is new.
\<close>

definition check :: "asset_env \<Rightarrow> (assets, unit) wallet_db_ext pre_checker \<Rightarrow> nat option \<Rightarrow> bool act" where
  "check env pre req db =
     (case pre (ae_now env) req db of Inl e \<Rightarrow> (db, Inl e) | Inr (db', success, message) \<Rightarrow> (db', Inr success))"

definition begin_send ::
    "asset_env \<Rightarrow> (assets, unit) wallet_db_ext initializer \<Rightarrow> string list \<Rightarrow> string \<Rightarrow> nat option \<Rightarrow>
     (nat \<Rightarrow> asset_db \<Rightarrow> asset_db) \<Rightarrow> bool act"
where
  "begin_send env init tokens name req store db =
     (case begin_request init tokens (ae_now env) (ae_key env req (bc_next_token db)) (ae_pw env) name None req db of
        Inl e \<Rightarrow> (db, Inr False)
      | Inr (db', rid) \<Rightarrow> (if req = None then store rid db' else db', Inr True))"

section \<open>Wallets and tokens\<close>

text \<open>\<open>Node.hedera_wallet\<close>, \<open>Node.blockchain_wallet\<close> and \<open>Node.setup_blockchain_account\<close>.\<close>

definition hedera_wallet :: "nat \<Rightarrow> asset_db \<Rightarrow> nat option" where
  "hedera_wallet node db = (case default_wallets node db of [] \<Rightarrow> None | w # ws \<Rightarrow> Some w)"

definition blockchain_wallet :: "nat \<Rightarrow> asset_db \<Rightarrow> nat result" where
  "blockchain_wallet node db =
     (case [w\<leftarrow>node_wallets node db. \<exists>x\<in>set_option (wl_wallets db w). wl_default x] of
        [] \<Rightarrow> Inl (AssertionError ''Wallet not found'')
      | [w] \<Rightarrow> Inr w
      | _ \<Rightarrow> Inl (AssertionError ''Multiple default wallets found''))"

definition setup_wallet :: "asset_env \<Rightarrow> nat \<Rightarrow> unit act" where
  "setup_wallet env node db =
     (case setup_blockchain_account (ae_now env) (ae_key env None (bc_next_token db)) (ae_pw env) node False db of
        Inl e \<Rightarrow> (db, Inl e)
      | Inr (db', w) \<Rightarrow> (db', Inr ()))"

text \<open>What a missing wallet column is filled with; no result when an account is being set up.\<close>

definition own_wallet :: "asset_env \<Rightarrow> nat \<Rightarrow> (nat \<Rightarrow> asset_db \<Rightarrow> asset_db) \<Rightarrow> nat option act" where
  "own_wallet env node store db =
     (if hedera_wallet node db = None then bind (setup_wallet env node) (\<lambda>_. give None) db
      else reads (blockchain_wallet node) (\<lambda>w. writes (store w) (give (Some w))) db)"

definition create_token :: "asset_env \<Rightarrow> nat \<Rightarrow> bool act" where
  "create_token env p =
     reads (row as_products p) (\<lambda>x.
     bind (check env create_token_pre_check (pr_request x)) (\<lambda>ok.
       if \<not> ok \<or> pr_token x \<noteq> [] then give False
       else begin_send env create_token_initialize [] ''products_Product'' (pr_request x)
              (\<lambda>rid. put_product p (x\<lparr>pr_request := Some rid\<rparr>))))"

text \<open>\<open>WalletTokenAssociation.associate_tokens\<close> of an association that has not succeeded.\<close>

definition associated_products :: "nat \<Rightarrow> assets \<Rightarrow> nat list" where
  "associated_products i a = newest (\<lambda>n. np_association n = Some i) (as_nps a) (as_next_np a)"

definition product_token :: "nat \<Rightarrow> assets \<Rightarrow> string" where
  "product_token p a = (case as_products a p of Some x \<Rightarrow> pr_token x | None \<Rightarrow> [])"

definition products_to_associate :: "nat \<Rightarrow> assets \<Rightarrow> nat list" where
  "products_to_associate i a = [np_product n. k \<leftarrow> associated_products i a, n \<leftarrow> (case as_nps a k of Some n \<Rightarrow> [n] | None \<Rightarrow> [])]"

definition tokens_to_associate :: "nat \<Rightarrow> assets \<Rightarrow> string list" where
  "tokens_to_associate i a = remdups (map (\<lambda>p. product_token p a) (products_to_associate i a))"

definition start_association :: "asset_env \<Rightarrow> nat \<Rightarrow> bool act" where
  "start_association env i =
     reads (row as_associations i) (\<lambda>x.
     bind (check env associate_pre_check (ta_request x)) (\<lambda>ok.
       if \<not> ok \<or> ta_confirmed x then give False
       else reads (wallet_row (ta_wallet x)) (\<lambda>w.
         if wl_public w = [] then give False
         else reads (\<lambda>db. Inr (wl_assets db)) (\<lambda>a.
           case [p\<leftarrow>products_to_associate i a. product_token p a = []] of
             p # ps \<Rightarrow> bind (create_token env p) (\<lambda>_. give False)
           | [] \<Rightarrow> begin_send env associate_initialize (tokens_to_associate i a)
                     ''supply_chains_WalletTokenAssociation'' (ta_request x)
                     (\<lambda>rid. put_association i (x\<lparr>ta_request := Some rid\<rparr>))))))"

text \<open>\<open>NodeProduct.objects.get_or_create\<close>; a wallet has one row per product.\<close>

definition get_node_product :: "nat \<Rightarrow> nat \<Rightarrow> nat act" where
  "get_node_product w p db =
     (let a = wl_assets db; i = as_next_np a
      in case newest (\<lambda>n. np_wallet n = w \<and> np_product n = p) (as_nps a) i of
           n # ns \<Rightarrow> (db, Inr n)
         | [] \<Rightarrow>
             (save_assets (\<lambda>a. a\<lparr>as_nps := (as_nps a)(i \<mapsto>
                \<lparr>np_product = p, np_wallet = w, np_association = None, np_associated = False, np_kyc = False,
                 np_request = None\<rparr>), as_next_np := Suc i\<rparr>) db, Inr i))"

text \<open>
  \<open>WalletTokenAssociation.create_association\<close>. The result of a product tells whether it
  belongs to the new association \<open>i\<close>, which is deleted if none does.
\<close>

definition associate_product :: "asset_env \<Rightarrow> nat \<Rightarrow> nat \<Rightarrow> nat \<Rightarrow> bool act" where
  "associate_product env i w p =
     bind (get_node_product w p) (\<lambda>n.
     reads (row as_nps n) (\<lambda>x.
       case np_association x of
         Some j \<Rightarrow>
           if np_associated x then give False
           else reads (row as_associations j) (\<lambda>y.
                  writes (put_association j (y\<lparr>ta_success := False\<rparr>))
                    (bind (start_association env j) (\<lambda>_. give False)))
       | None \<Rightarrow> writes (put_np n (x\<lparr>np_association := Some i\<rparr>)) (give True)))"

definition new_association :: "nat \<Rightarrow> nat \<Rightarrow> nat act" where
  "new_association w chain db =
     (let i = as_next_association (wl_assets db)
      in (save_assets (\<lambda>a. a\<lparr>as_associations := (as_associations a)(i \<mapsto>
            \<lparr>ta_wallet = w, ta_chain = chain, ta_success = False, ta_confirmed = False, ta_request = None\<rparr>),
            as_next_association := Suc i\<rparr>) db, Inr i))"

definition create_association :: "asset_env \<Rightarrow> nat \<Rightarrow> nat \<Rightarrow> unit act" where
  "create_association env w chain =
     reads (wallet_row w) (\<lambda>x.
       if \<not> wl_hedera x then give ()
       else bind (new_association w chain) (\<lambda>i.
         reads (\<lambda>db. Inr (newest (\<lambda>p. pr_chain p = chain) (as_products (wl_assets db)) (as_next_product (wl_assets db)))) (\<lambda>ps.
         bind (every (associate_product env i w) ps) (\<lambda>used.
           if True \<notin> set used
           then writes (save_assets (\<lambda>a. a\<lparr>as_associations := (as_associations a)(i := None)\<rparr>)) (give ())
           else bind (start_association env i) (\<lambda>_. give ())))))"

text \<open>\<open>NodeProduct.perform_kyc\<close> with its \<open>pre_check\<close>.\<close>

definition perform_kyc :: "asset_env \<Rightarrow> nat \<Rightarrow> node_product \<Rightarrow> bool act" where
  "perform_kyc env n x =
     bind (check env kyc_pre_check (np_request x)) (\<lambda>ok.
     reads (wallet_row (np_wallet x)) (\<lambda>w.
     reads (\<lambda>db. Inr (newest (\<lambda>b. ab_product b = np_product x \<and> ab_node b = wl_node w)
                   (as_batches (wl_assets db)) (as_next_batch (wl_assets db)))) (\<lambda>batches.
       if \<not> ok \<or> batches = [] \<or> \<not> wl_hedera w then give False
       else if \<not> np_associated x then
         reads (row as_products (np_product x)) (\<lambda>p.
           bind (create_association env (np_wallet x) (pr_chain p)) (\<lambda>_. give False))
       else begin_send env kyc_initialize [] ''products_NodeProduct'' (np_request x)
              (\<lambda>rid. put_np n (x\<lparr>np_request := Some rid\<rparr>)))))"

text \<open>\<open>NodeProduct.associate(retry=True)\<close>.\<close>

definition associate_anew :: "asset_env \<Rightarrow> nat \<Rightarrow> node_product \<Rightarrow> bool act" where
  "associate_anew env n x =
     reads (wallet_row (np_wallet x)) (\<lambda>w.
       if \<not> wl_hedera w then give False
       else reads (row as_products (np_product x)) (\<lambda>p.
         bind (new_association (np_wallet x) (pr_chain p)) (\<lambda>i.
         writes (put_np n (x\<lparr>np_association := Some i\<rparr>))
           (bind (start_association env i) (\<lambda>_. give True)))))"

definition retry_association :: "asset_env \<Rightarrow> nat \<Rightarrow> nat \<Rightarrow> bool act" where
  "retry_association env i rid db =
     (case retry_request (ae_now env) (ae_key env (Some rid) (bc_next_token db)) (tokens_to_associate i (wl_assets db)) rid db of
        Inl e \<Rightarrow> (db, Inl e)
      | Inr db' \<Rightarrow> (db', Inr True))"

definition associate_again :: "asset_env \<Rightarrow> nat \<Rightarrow> node_product \<Rightarrow> bool act" where
  "associate_again env n x =
      (case np_association x of
         None \<Rightarrow> associate_anew env n x
       | Some i \<Rightarrow>
           reads (row as_associations i) (\<lambda>y.
           reads (\<lambda>db. of_option PyAttributeError (ta_request y)) (\<lambda>rid.
           reads (\<lambda>db. of_option DoesNotExist (bc_requests db rid)) (\<lambda>r.
             if rq_is_pending r then give False
             else reads (\<lambda>db. Inr (associated_products i (wl_assets db))) (\<lambda>ns.
               if length ns \<le> 1 then retry_association env i rid else associate_anew env n x)))))"

section \<open>Messages about an object\<close>

datatype mark_owner =
    OfBatch nat asset_batch | OfTx nat asset_tx | OfSource nat asset_source | OfMigration nat batch_migration

fun mark_of :: "mark_owner \<Rightarrow> chain_mark" where
  "mark_of (OfBatch b x) = ab_mark x"
| "mark_of (OfTx t x) = ax_mark x"
| "mark_of (OfSource s x) = az_mark x"
| "mark_of (OfMigration m x) = bm_mark x"

fun put_mark :: "mark_owner \<Rightarrow> chain_mark \<Rightarrow> asset_db \<Rightarrow> asset_db" where
  "put_mark (OfBatch b x) m = put_batch b (x\<lparr>ab_mark := m\<rparr>)"
| "put_mark (OfTx t x) m = put_tx t (x\<lparr>ax_mark := m\<rparr>)"
| "put_mark (OfSource s x) m = put_source s (x\<lparr>az_mark := m\<rparr>)"
| "put_mark (OfMigration k x) m = put_migration k (x\<lparr>bm_mark := m\<rparr>)"

fun message_name :: "mark_owner \<Rightarrow> string" where
  "message_name (OfBatch b x) = ''products_Batch_msg_req''"
| "message_name (OfTx t x) =
     (if ax_external x then ''transactions_ExternalTransaction_msg_req''
      else ''transactions_InternalTransaction_msg_req'')"
| "message_name (OfSource s x) = ''transactions_SourceBatch_msg_req''"
| "message_name (OfMigration m x) = ''products_BatchMigration_msg_req''"

text \<open>The request that is started for an object, and the one for its message.\<close>

definition begin_mark ::
    "asset_env \<Rightarrow> (assets, unit) wallet_db_ext initializer \<Rightarrow> string \<Rightarrow> mark_owner \<Rightarrow> bool act"
where
  "begin_mark env init name x =
     begin_send env init [] name (mk_request (mark_of x))
       (\<lambda>rid. put_mark x ((mark_of x)\<lparr>mk_request := Some rid\<rparr>))"

definition begin_message :: "asset_env \<Rightarrow> mark_owner \<Rightarrow> bool act" where
  "begin_message env x =
     begin_send env message_initialize [] (message_name x) (mk_msg_request (mark_of x))
       (\<lambda>rid. put_mark x ((mark_of x)\<lparr>mk_msg_request := Some rid\<rparr>))"

definition submit_info_message :: "asset_env \<Rightarrow> mark_owner \<Rightarrow> bool act" where
  "submit_info_message env x =
     bind (check env message_pre_check (mk_msg_request (mark_of x))) (\<lambda>ok.
       if \<not> ok \<or> mk_address (mark_of x) = [] \<or> mk_msg_address (mark_of x) \<noteq> [] then give False
       else begin_message env x)"

section \<open>Logging batches and transactions\<close>

text \<open>
  Creating the asset of a batch logs transactions and logging a transaction creates assets.
  The definitions have as \<open>go\<close> what they call of one another; \<open>log_assets\<close> ties the knot on
  fuel, as deep as Python's stack. Batches, source batches and external transactions of a
  query are objects in memory; a \<open>Transaction\<close> looks its \<open>transaction_object\<close> up when it is
  logged.
\<close>

datatype call = CreateAsset nat asset_batch | LogTransaction nat | LogExternal nat asset_tx

definition links :: "nat \<Rightarrow> nat \<Rightarrow> assets \<Rightarrow> nat" where
  "links t b a = length (newest (\<lambda>x. az_tx x = t \<and> az_batch x = b) (as_sources a) (as_next_source a))"

definition outgoing :: "nat \<Rightarrow> assets \<Rightarrow> nat list" where
  "outgoing b a = concat (map (\<lambda>t. replicate (links t b a) t) (newest (\<lambda>_. True) (as_txs a) (as_next_tx a)))"

definition unlogged_sources :: "nat \<Rightarrow> assets \<Rightarrow> nat list" where
  "unlogged_sources t a =
     concat (map (\<lambda>b. replicate (links t b a) b)
       (newest (\<lambda>x. mk_id (ab_mark x) = []) (as_batches a) (as_next_batch a)))"

definition results_of :: "nat \<Rightarrow> assets \<Rightarrow> nat list" where
  "results_of t a = newest (\<lambda>x. ab_source x = Some t) (as_batches a) (as_next_batch a)"

definition sources_of :: "nat \<Rightarrow> assets \<Rightarrow> nat list" where
  "sources_of t a = newest (\<lambda>x. az_tx x = t) (as_sources a) (as_next_source a)"

definition batch_post_success :: "asset_env \<Rightarrow> (call \<Rightarrow> unit act) \<Rightarrow> nat \<Rightarrow> asset_batch \<Rightarrow> unit act" where
  "batch_post_success env go b x =
     bind (submit_info_message env (OfBatch b x)) (\<lambda>_.
     reads (\<lambda>db. Inr (outgoing b (wl_assets db))) (\<lambda>ts.
     bind (every (\<lambda>t. go (LogTransaction t)) ts) (\<lambda>_. give ())))"

text \<open>A company's batch that did not come out of an internal transaction is logged through the transaction.\<close>

definition through_transaction :: "asset_env \<Rightarrow> (call \<Rightarrow> unit act) \<Rightarrow> asset_batch \<Rightarrow> bool act" where
  "through_transaction env go x =
     (if \<not> ae_company env (ab_node x) then give False
      else case ab_source x of
        None \<Rightarrow> give False
      | Some t \<Rightarrow> reads (row as_txs t) (\<lambda>y.
          if ax_external y then bind (go (LogTransaction t)) (\<lambda>_. give True) else give False))"

definition batch_wallet :: "asset_env \<Rightarrow> nat \<Rightarrow> asset_batch \<Rightarrow> nat option act" where
  "batch_wallet env b x =
     (case ab_wallet x of
        Some w \<Rightarrow> give (Some w)
      | None \<Rightarrow> own_wallet env (ab_node x) (\<lambda>w. put_batch b (x\<lparr>ab_wallet := Some w\<rparr>)))"

definition create_asset :: "asset_env \<Rightarrow> (call \<Rightarrow> unit act) \<Rightarrow> nat \<Rightarrow> asset_batch \<Rightarrow> bool act" where
  "create_asset env go b x =
     (if mk_address (ab_mark x) \<noteq> [] then bind (batch_post_success env go b x) (\<lambda>_. give True)
      else bind (check env mint_pre_check (mk_request (ab_mark x))) (\<lambda>ok.
        if \<not> ok then give False
        else bind (through_transaction env go x) (\<lambda>logged.
          if logged then give False
          else bind (batch_wallet env b x) (\<lambda>w.
            case w of
              None \<Rightarrow> give False
            | Some w \<Rightarrow>
                bind (get_node_product w (ab_product x)) (\<lambda>n.
                reads (row as_nps n) (\<lambda>np.
                  if \<not> np_associated np \<or> \<not> np_kyc np then bind (perform_kyc env n np) (\<lambda>_. give False)
                  else begin_mark env mint_initialize ''products_Batch'' (OfBatch b (x\<lparr>ab_wallet := Some w\<rparr>))))))))"

text \<open>\<open>ExternalTransaction.log_blockchain_transaction\<close>: a wallet that is set must be of Hedera.\<close>

definition party_wallet :: "asset_env \<Rightarrow> nat \<Rightarrow> nat option \<Rightarrow> (nat \<Rightarrow> asset_db \<Rightarrow> asset_db) \<Rightarrow> nat option act" where
  "party_wallet env node w store =
     (case w of
        None \<Rightarrow> own_wallet env node store
      | Some w \<Rightarrow> reads (wallet_row w) (\<lambda>x. give (if wl_hedera x then Some w else None)))"

definition result_batch :: "nat \<Rightarrow> asset_db \<Rightarrow> (nat \<times> asset_batch) result" where
  "result_batch t db =
     (case results_of t (wl_assets db) of
        [] \<Rightarrow> Inl PyAttributeError
      | b # bs \<Rightarrow> rbind (row as_batches b db) (\<lambda>x. Inr (b, x)))"

definition create_sources :: "(call \<Rightarrow> unit act) \<Rightarrow> nat \<Rightarrow> asset_tx \<Rightarrow> bool act" where
  "create_sources go t x =
     (if \<not> ax_incoming x then give False
      else reads (\<lambda>db. Inr (loaded_rows (as_batches (wl_assets db)) (unlogged_sources t (wl_assets db)))) (\<lambda>bs.
        bind (every (\<lambda>(b, y). go (CreateAsset b y)) bs) (\<lambda>_. give (bs \<noteq> []))))"

definition log_external :: "asset_env \<Rightarrow> (call \<Rightarrow> unit act) \<Rightarrow> nat \<Rightarrow> asset_tx \<Rightarrow> bool act" where
  "log_external env go t x =
     bind (check env transfer_pre_check (mk_request (ax_mark x))) (\<lambda>ok.
       if \<not> ok \<or> mk_address (ax_mark x) \<noteq> [] \<or> mk_id (ax_mark x) \<noteq> [] then give False
       else bind (create_sources go t x) (\<lambda>pending.
         if pending then give False
         else bind (party_wallet env (ax_destination x) (ax_destination_wallet x)
                      (\<lambda>w. put_tx t (x\<lparr>ax_destination_wallet := Some w\<rparr>))) (\<lambda>d.
           case d of
             None \<Rightarrow> give False
           | Some d \<Rightarrow>
               bind (party_wallet env (ax_source x) (ax_source_wallet x)
                      (\<lambda>w. put_tx t (x\<lparr>ax_destination_wallet := Some d, ax_source_wallet := Some w\<rparr>))) (\<lambda>s.
                 case s of
                   None \<Rightarrow> give False
                 | Some s \<Rightarrow>
                     reads (result_batch t) (\<lambda>(rb, y).
                     bind (get_node_product d (ab_product y)) (\<lambda>n.
                     reads (row as_nps n) (\<lambda>np.
                       if \<not> np_kyc np then bind (perform_kyc env n np) (\<lambda>_. give False)
                       else begin_mark env transfer_initialize ''transactions_ExternalTransaction''
                              (OfTx t (x\<lparr>ax_destination_wallet := Some d, ax_source_wallet := Some s\<rparr>)))))))))"

text \<open>
  \<open>InternalTransaction.log_blockchain_transaction\<close>: its sources are burned, its results
  minted, and there is no transaction to log but the message about it.
\<close>

definition burn_source_asset :: "asset_env \<Rightarrow> (call \<Rightarrow> unit act) \<Rightarrow> nat \<Rightarrow> asset_source \<Rightarrow> bool act" where
  "burn_source_asset env go s x =
     bind (check env burn_pre_check (mk_request (az_mark x))) (\<lambda>ok.
       if \<not> ok \<or> mk_id (az_mark x) \<noteq> [] \<or> mk_address (az_mark x) \<noteq> [] then give False
       else reads (row as_txs (az_tx x)) (\<lambda>t.
         if ax_external t then give False
         else reads (row as_batches (az_batch x)) (\<lambda>b.
           if mk_address (ab_mark b) = [] then bind (go (CreateAsset (az_batch x) b)) (\<lambda>_. give False)
           else begin_mark env burn_initialize ''transactions_SourceBatch'' (OfSource s x))))"

definition log_internal :: "asset_env \<Rightarrow> (call \<Rightarrow> unit act) \<Rightarrow> nat \<Rightarrow> asset_tx \<Rightarrow> bool act" where
  "log_internal env go t x =
     reads (\<lambda>db. Inr (loaded_rows (as_sources (wl_assets db)) (sources_of t (wl_assets db)))) (\<lambda>ss.
     bind (every (\<lambda>(s, y). burn_source_asset env go s y) ss) (\<lambda>_.
     reads (\<lambda>db. Inr (loaded_rows (as_batches (wl_assets db)) (results_of t (wl_assets db)))) (\<lambda>bs.
     bind (every (\<lambda>(b, y). go (CreateAsset b y)) bs) (\<lambda>_.
     bind (check env message_pre_check (mk_msg_request (ax_mark x))) (\<lambda>ok.
       if \<not> ok then give False else begin_message env (OfTx t x))))))"

text \<open>\<open>Transaction.log_blockchain_transaction\<close>.\<close>

definition log_transaction :: "asset_env \<Rightarrow> (call \<Rightarrow> unit act) \<Rightarrow> nat \<Rightarrow> bool act" where
  "log_transaction env go t =
     reads (row as_txs t) (\<lambda>x. if ax_external x then log_external env go t x else log_internal env go t x)"

definition one_call :: "asset_env \<Rightarrow> (call \<Rightarrow> unit act) \<Rightarrow> call \<Rightarrow> unit act" where
  "one_call env go c =
     bind (case c of
             CreateAsset b x \<Rightarrow> create_asset env go b x
           | LogTransaction t \<Rightarrow> log_transaction env go t
           | LogExternal t x \<Rightarrow> log_external env go t x) (\<lambda>_. give ())"

fun log_assets :: "asset_env \<Rightarrow> nat \<Rightarrow> call \<Rightarrow> unit act" where
  "log_assets env 0 c = (\<lambda>db. (db, Inl PyRecursionError))"
| "log_assets env (Suc n) c = one_call env (log_assets env n) c"

section \<open>Moving a batch to a new wallet\<close>

definition migration_post_success :: "asset_env \<Rightarrow> nat \<Rightarrow> batch_migration \<Rightarrow> bool act" where
  "migration_post_success env m x =
     reads (row as_batches (bm_batch x)) (\<lambda>b.
       writes (put_batch (bm_batch x) (b\<lparr>ab_wallet := Some (bm_new x)\<rparr>))
         (bind (submit_info_message env (OfMigration m x)) (\<lambda>_. give True)))"

definition perform_migration :: "asset_env \<Rightarrow> nat \<Rightarrow> batch_migration \<Rightarrow> bool act" where
  "perform_migration env m x =
     (if mk_address (bm_mark x) \<noteq> [] then migration_post_success env m x
      else bind (check env mint_pre_check (mk_request (bm_mark x))) (\<lambda>ok.
        reads (wallet_row (bm_new x)) (\<lambda>w.
          if \<not> ok \<or> mk_id (bm_prev x) = [] \<or> \<not> wl_hedera w then give False
          else reads (row as_batches (bm_batch x)) (\<lambda>b.
            bind (get_node_product (bm_new x) (ab_product b)) (\<lambda>n.
            reads (row as_nps n) (\<lambda>np.
              if \<not> np_associated np \<or> \<not> np_kyc np then bind (perform_kyc env n np) (\<lambda>_. give False)
              else begin_mark env mint_initialize ''products_BatchMigration'' (OfMigration m x)))))))"

definition no_mark :: chain_mark where
  "no_mark = \<lparr>mk_id = [], mk_address = [], mk_msg_id = [], mk_msg_address = [], mk_request = None, mk_msg_request = None\<rparr>"

definition new_migration :: "nat \<Rightarrow> asset_batch \<Rightarrow> nat \<Rightarrow> batch_migration" where
  "new_migration b x w =
     \<lparr>bm_batch = b, bm_old = ab_wallet x, bm_new = w, bm_quantity = ab_current x,
      bm_prev = (ab_mark x)\<lparr>mk_request := None, mk_msg_request := None\<rparr>, bm_mark = no_mark\<rparr>"

definition migrate_balance_asset :: "asset_env \<Rightarrow> nat \<Rightarrow> asset_batch \<Rightarrow> bool act" where
  "migrate_balance_asset env b x =
     reads (blockchain_wallet (ab_node x)) (\<lambda>w.
     reads (wallet_row w) (\<lambda>y.
       if Some w = ab_wallet x \<or> \<not> wl_hedera y \<or> \<not> 0 < ab_current x then give False
       else reads (\<lambda>db. Inr (as_next_migration (wl_assets db))) (\<lambda>m.
         writes (save_assets (\<lambda>a. a\<lparr>as_migrations := (as_migrations a)(m \<mapsto> new_migration b x w), as_next_migration := Suc m\<rparr>))
           (bind (perform_migration env m (new_migration b x w)) (\<lambda>_.
             writes (put_batch b x) (give True))))))"

section \<open>Callbacks\<close>

text \<open>
  \<open>validate_callback\<close> of batches, transactions and migrations, with the wallet and the
  product whose admission is redone.
\<close>

definition redo_admission :: "asset_env \<Rightarrow> (asset_db \<Rightarrow> (nat \<times> nat) result) \<Rightarrow> bool \<Rightarrow> bool act" where
  "redo_admission env target associated =
     reads target (\<lambda>(w, p).
     bind (get_node_product w p) (\<lambda>n.
     reads (row as_nps n) (\<lambda>x.
       if associated
       then writes (put_np n (x\<lparr>np_kyc := False\<rparr>)) (perform_kyc env n (x\<lparr>np_kyc := False\<rparr>))
       else writes (put_np n (x\<lparr>np_associated := False, np_kyc := False\<rparr>))
              (associate_again env n (x\<lparr>np_associated := False, np_kyc := False\<rparr>)))))"

definition validate_callback :: "asset_env \<Rightarrow> (asset_db \<Rightarrow> (nat \<times> nat) result) \<Rightarrow> response \<Rightarrow> bool act" where
  "validate_callback env target resp =
     (case rs_message resp of
        None \<Rightarrow> give True
      | Some m \<Rightarrow>
          if contains ''TOKEN_NOT_ASSOCIATED_TO_ACCOUNT'' m then bind (redo_admission env target False) (\<lambda>_. give False)
          else if contains ''ACCOUNT_KYC_NOT_GRANTED_FOR_TOKEN'' m then bind (redo_admission env target True) (\<lambda>_. give False)
          else give False)"

definition data_field :: "string \<Rightarrow> response \<Rightarrow> string result" where
  "data_field k resp = rbind (response_dict resp) (\<lambda>d. of_option PyKeyError (map_of d k))"

text \<open>The id and the address an object is given, or the message about it.\<close>

definition logged_as :: "response \<Rightarrow> chain_mark \<Rightarrow> chain_mark result" where
  "logged_as resp m =
     rbind (data_field ''transactionId'' resp) (\<lambda>i. rbind (data_field ''transactionHash'' resp) (\<lambda>h.
       Inr (m\<lparr>mk_id := i, mk_address := h\<rparr>)))"

definition told_as :: "response \<Rightarrow> chain_mark \<Rightarrow> chain_mark result" where
  "told_as resp m =
     rbind (data_field ''transactionId'' resp) (\<lambda>i. rbind (data_field ''transactionHash'' resp) (\<lambda>h.
       Inr (m\<lparr>mk_msg_id := i, mk_msg_address := h\<rparr>)))"

definition batch_update_hash :: "asset_env \<Rightarrow> (call \<Rightarrow> unit act) \<Rightarrow> nat \<Rightarrow> response \<Rightarrow> bool act" where
  "batch_update_hash env go b resp =
     reads (row as_batches b) (\<lambda>x.
     bind (validate_callback env (\<lambda>db. rbind (of_option IntegrityError (ab_wallet x)) (\<lambda>w. Inr (w, ab_product x))) resp) (\<lambda>ok.
       if \<not> ok then give False
       else reads (\<lambda>db. of_option PyKeyError (rs_success resp)) (\<lambda>success.
         if \<not> success then give False
         else reads (\<lambda>db. logged_as resp (ab_mark x)) (\<lambda>m.
           writes (put_batch b (x\<lparr>ab_mark := m\<rparr>))
             (bind (batch_post_success env go b (x\<lparr>ab_mark := m\<rparr>)) (\<lambda>_. give True))))))"

text \<open>\<open>BatchMigration.update_hash\<close>; the message is started with the batch in the new wallet.\<close>

definition migration_update_hash :: "asset_env \<Rightarrow> nat \<Rightarrow> response \<Rightarrow> bool act" where
  "migration_update_hash env m resp =
     reads (row as_migrations m) (\<lambda>x.
     bind (validate_callback env
             (\<lambda>db. rbind (row as_batches (bm_batch x) db) (\<lambda>b. Inr (bm_new x, ab_product b))) resp) (\<lambda>ok.
       if \<not> ok then give False
       else reads (\<lambda>db. logged_as resp (bm_mark x)) (\<lambda>k.
         writes (put_migration m (x\<lparr>bm_mark := k\<rparr>))
           (reads (row as_batches (bm_batch x)) (\<lambda>b.
             writes (put_batch (bm_batch x) (b\<lparr>ab_mark := (ab_mark b)\<lparr>mk_id := mk_id k, mk_address := mk_address k\<rparr>\<rparr>))
               (migration_post_success env m (x\<lparr>bm_mark := k\<rparr>)))))))"

text \<open>\<open>ExternalTransaction.update_hedera_data\<close> and \<open>post_success\<close>. Only the newest result batch is given the hash.\<close>

definition hash_result_batch :: "nat \<Rightarrow> asset_tx \<Rightarrow> unit act" where
  "hash_result_batch t x =
     reads (result_batch t) (\<lambda>(b, y).
       if mk_address (ab_mark y) \<noteq> [] \<or> mk_id (ab_mark y) \<noteq> [] then give ()
       else writes (put_batch b (y\<lparr>ab_wallet := ax_destination_wallet x,
                     ab_mark := (ab_mark y)\<lparr>mk_id := mk_id (ax_mark x), mk_address := mk_address (ax_mark x)\<rparr>\<rparr>))
              (give ()))"

definition hash_source :: "asset_tx \<Rightarrow> nat \<times> asset_source \<Rightarrow> unit act" where
  "hash_source x = (\<lambda>(s, y). writes (put_source s (y\<lparr>az_mark := (az_mark y)\<lparr>mk_id := mk_id (ax_mark x),
     mk_address := mk_address (ax_mark x)\<rparr>\<rparr>)) (give ()))"

definition tx_post_success :: "asset_env \<Rightarrow> (call \<Rightarrow> unit act) \<Rightarrow> nat \<Rightarrow> asset_tx \<Rightarrow> bool act" where
  "tx_post_success env go t x =
     bind (submit_info_message env (OfTx t x)) (\<lambda>_.
     reads (\<lambda>db. Inr (results_of t (wl_assets db))) (\<lambda>bs.
     bind (every (\<lambda>b. reads (\<lambda>db. Inr (outgoing b (wl_assets db))) (every (\<lambda>u. go (LogTransaction u)))) bs) (\<lambda>_.
     reads (\<lambda>db. Inr (loaded_rows (as_sources (wl_assets db)) (sources_of t (wl_assets db)))) (\<lambda>ss.
     bind (every (hash_source x) ss) (\<lambda>_. give True)))))"

definition tx_update_hedera_data :: "asset_env \<Rightarrow> (call \<Rightarrow> unit act) \<Rightarrow> nat \<Rightarrow> response \<Rightarrow> bool act" where
  "tx_update_hedera_data env go t resp =
     reads (row as_txs t) (\<lambda>x.
     bind (validate_callback env
             (\<lambda>db. rbind (result_batch t db) (\<lambda>(b, y).
                rbind (of_option IntegrityError (ax_destination_wallet x)) (\<lambda>w. Inr (w, ab_product y)))) resp) (\<lambda>ok.
       if \<not> ok then give False
       else reads (\<lambda>db. logged_as resp (ax_mark x)) (\<lambda>m.
         writes (put_tx t (x\<lparr>ax_mark := m\<rparr>))
           (bind (hash_result_batch t (x\<lparr>ax_mark := m\<rparr>)) (\<lambda>_. tx_post_success env go t (x\<lparr>ax_mark := m\<rparr>))))))"

definition source_update_hedera_data :: "asset_env \<Rightarrow> nat \<Rightarrow> response \<Rightarrow> bool act" where
  "source_update_hedera_data env s resp =
     reads (row as_sources s) (\<lambda>x.
     reads (\<lambda>db. logged_as resp (az_mark x)) (\<lambda>m.
       writes (put_source s (x\<lparr>az_mark := m\<rparr>))
         (bind (submit_info_message env (OfSource s (x\<lparr>az_mark := m\<rparr>))) (\<lambda>_. give True))))"

definition np_post_success :: "asset_env \<Rightarrow> (call \<Rightarrow> unit act) \<Rightarrow> node_product \<Rightarrow> bool act" where
  "np_post_success env go x =
     reads (\<lambda>db. Inr (loaded_rows (as_batches (wl_assets db))
             (newest (\<lambda>b. ab_wallet b = Some (np_wallet x) \<and> ab_product b = np_product x)
               (as_batches (wl_assets db)) (as_next_batch (wl_assets db))))) (\<lambda>bs.
     bind (every (\<lambda>(b, y). go (CreateAsset b y)) bs) (\<lambda>_.
     reads (\<lambda>db. Inr (loaded_rows (as_txs (wl_assets db))
             (newest (\<lambda>t. ax_external t \<and> ax_destination_wallet t = Some (np_wallet x) \<and> mk_address (ax_mark t) = [])
               (as_txs (wl_assets db)) (as_next_tx (wl_assets db))))) (\<lambda>ts.
     bind (every (\<lambda>(t, y). go (LogExternal t y)) ts) (\<lambda>_.
     reads (\<lambda>db. Inr (loaded_rows (as_migrations (wl_assets db))
             (newest (\<lambda>m. bm_new m = np_wallet x \<and> mk_address (bm_mark m) = [] \<and>
                 (\<exists>b\<in>set_option (as_batches (wl_assets db) (bm_batch m)). ab_product b = np_product x))
               (as_migrations (wl_assets db)) (as_next_migration (wl_assets db))))) (\<lambda>ms.
     bind (every (\<lambda>(m, y). perform_migration env m y) ms) (\<lambda>_. give True))))))"

definition handle_kyc_success :: "asset_env \<Rightarrow> (call \<Rightarrow> unit act) \<Rightarrow> nat \<Rightarrow> response \<Rightarrow> bool act" where
  "handle_kyc_success env go n resp =
     reads (row as_nps n) (\<lambda>x.
     reads (\<lambda>db. of_option PyKeyError (rs_success resp)) (\<lambda>success.
       if \<not> success then (if rs_message resp = None then reads (\<lambda>db. Inl PyKeyError) give else give False)
       else writes (put_np n (x\<lparr>np_kyc := True\<rparr>)) (np_post_success env go x)))"

text \<open>
  \<open>WalletTokenAssociation.handle_success\<close>; a complaint that a token is associated already
  counts as success.
\<close>

definition handle_association :: "asset_env \<Rightarrow> nat \<Rightarrow> response \<Rightarrow> bool act" where
  "handle_association env i resp =
     reads (row as_associations i) (\<lambda>x.
       if (\<forall>m\<in>set_option (rs_message resp). contains ''TokenAlreadyAssociatedToAccount'' m)
       then reads (\<lambda>db. Inr (loaded_rows (as_nps (wl_assets db)) (associated_products i (wl_assets db)))) (\<lambda>ns.
         writes (put_association i (x\<lparr>ta_success := True, ta_confirmed := ta_confirmed x \<or> length ns = 1\<rparr>))
           (bind (every (\<lambda>(n, y). writes (put_np n (y\<lparr>np_associated := True\<rparr>)) (give ())) ns) (\<lambda>_.
            bind (every (\<lambda>(n, y). perform_kyc env n (y\<lparr>np_associated := True\<rparr>)) ns) (\<lambda>_. give True))))
       else give False)"

text \<open>
  \<open>Product.update_token_id\<close>. When the token belongs to a product already the request is
  deleted, which empties the column; \<open>create_token\<close> refuses, for the object in memory is
  pending, and the request is stored again when it is marked as failed.
\<close>

definition update_token_id :: "(call \<Rightarrow> unit act) \<Rightarrow> nat \<Rightarrow> response \<Rightarrow> bool act" where
  "update_token_id go p resp =
     reads (row as_products p) (\<lambda>x.
     reads (\<lambda>db. data_field ''tokenId'' resp) (\<lambda>token.
     reads (\<lambda>db. Inr (newest (\<lambda>y. pr_token y = token) (as_products (wl_assets db)) (as_next_product (wl_assets db)))) (\<lambda>same.
       if same \<noteq> [] then writes (put_product p (x\<lparr>pr_request := None\<rparr>)) (give False)
       else writes (put_product p (x\<lparr>pr_token := token\<rparr>))
         (reads (\<lambda>db. Inr (loaded_rows (as_batches (wl_assets db))
                    (newest (\<lambda>b. ab_product b = p) (as_batches (wl_assets db)) (as_next_batch (wl_assets db))))) (\<lambda>bs.
          bind (every (\<lambda>(b, y). go (CreateAsset b y)) bs) (\<lambda>_. give True))))))"

text \<open>\<open>update_message_hash\<close>; an internal transaction takes the hash of its message as its own.\<close>

definition update_message_hash :: "mark_owner \<Rightarrow> response \<Rightarrow> bool act" where
  "update_message_hash x resp =
     reads (\<lambda>db. response_dict resp) (\<lambda>d.
       if rs_data resp = Some (Resp_Dict [] None) then give False
       else reads (\<lambda>db. told_as resp (mark_of x)) (\<lambda>m.
         reads (\<lambda>db. case x of OfTx t y \<Rightarrow> if ax_external y then Inr m else logged_as resp m | _ \<Rightarrow> Inr m) (\<lambda>m.
           writes (put_mark x m) (give True))))"

section \<open>A new wallet\<close>

definition retry_pending :: "asset_env \<Rightarrow> (call \<Rightarrow> unit act) \<Rightarrow> nat \<Rightarrow> unit act" where
  "retry_pending env go node =
     reads (\<lambda>db. Inr (if ae_farm env node
         then loaded_rows (as_batches (wl_assets db))
                (newest (\<lambda>b. ab_node b = node) (as_batches (wl_assets db)) (as_next_batch (wl_assets db)))
         else [])) (\<lambda>bs.
     bind (every (\<lambda>(b, y). go (CreateAsset b y)) bs) (\<lambda>_.
     reads (\<lambda>db. Inr (loaded_rows (as_txs (wl_assets db))
             (newest (\<lambda>t. ax_external t \<and> ax_destination t = node) (as_txs (wl_assets db)) (as_next_tx (wl_assets db))))) (\<lambda>ts.
     bind (every (\<lambda>(t, y). go (LogExternal t y)) ts) (\<lambda>_. give ()))))"

text \<open>\<open>BlockchainWallet.post_success\<close>, after the address of the node was written.\<close>

definition wallet_post_success :: "asset_env \<Rightarrow> (call \<Rightarrow> unit act) \<Rightarrow> nat \<Rightarrow> unit act" where
  "wallet_post_success env go w =
     reads (wallet_row w) (\<lambda>x.
     bind (every (create_association env w) (ae_chains env (wl_node x))) (\<lambda>_.
     reads (\<lambda>db. Inr (loaded_rows (as_batches (wl_assets db))
             (newest (\<lambda>b. ab_node b = wl_node x \<and> \<not> (ab_wallet b \<in> {Some w, None} \<and> 0 < ab_current b))
               (as_batches (wl_assets db)) (as_next_batch (wl_assets db))))) (\<lambda>bs.
     bind (every (\<lambda>(b, y). migrate_balance_asset env b y) bs) (\<lambda>_.
       retry_pending env go (wl_node x)))))"

section \<open>The answers of the middleware\<close>

text \<open>\<open>related_object\<close>: the row whose column refers to the request.\<close>

definition owner_of :: "nat list \<Rightarrow> nat result" where
  "owner_of ids = (case ids of [] \<Rightarrow> Inl DoesNotExist | i # is' \<Rightarrow> Inr i)"

definition message_owners :: "nat \<Rightarrow> assets \<Rightarrow> mark_owner list" where
  "message_owners rid a =
     [OfBatch b x. (b, x) \<leftarrow> loaded_rows (as_batches a) (newest (\<lambda>x. mk_msg_request (ab_mark x) = Some rid) (as_batches a) (as_next_batch a))] @
     [OfTx t x. (t, x) \<leftarrow> loaded_rows (as_txs a) (newest (\<lambda>x. mk_msg_request (ax_mark x) = Some rid) (as_txs a) (as_next_tx a))] @
     [OfSource s x. (s, x) \<leftarrow> loaded_rows (as_sources a) (newest (\<lambda>x. mk_msg_request (az_mark x) = Some rid) (as_sources a) (as_next_source a))] @
     [OfMigration m x. (m, x) \<leftarrow> loaded_rows (as_migrations a) (newest (\<lambda>x. mk_msg_request (bm_mark x) = Some rid) (as_migrations a) (as_next_migration a))]"

definition wallet_answer ::
    "asset_env \<Rightarrow> (call \<Rightarrow> unit act) \<Rightarrow> (nat \<Rightarrow> string) \<Rightarrow> (nat \<Rightarrow> string list) \<Rightarrow> (string \<Rightarrow> string) \<Rightarrow>
     (string \<Rightarrow> string \<Rightarrow> string option) \<Rightarrow> req_type \<Rightarrow> nat \<Rightarrow> response \<Rightarrow> bool act"
where
  "wallet_answer env go newkey tokens enc dec ty rid resp =
     bind (wallet_handle (ae_now env) newkey tokens enc dec (\<lambda>_ _ a. (a, Inl DoesNotExist)) rid resp) (\<lambda>ok.
       if ty = CreateAccountRequest then
         reads (\<lambda>db. of_option DoesNotExist (wallet_of_request rid db)) (\<lambda>w.
           bind (wallet_post_success env go w) (\<lambda>_. give ok))
       else give ok)"

definition asset_answer :: "asset_env \<Rightarrow> (call \<Rightarrow> unit act) \<Rightarrow> bc_request \<Rightarrow> nat \<Rightarrow> response \<Rightarrow> bool act" where
  "asset_answer env go r rid resp =
     reads (\<lambda>db. Inr (wl_assets db)) (\<lambda>a.
       case rq_type r of
         MintTokenRequest \<Rightarrow>
           (if rq_related_name r = ''products_Batch''
            then reads (\<lambda>db. owner_of (newest (\<lambda>x. mk_request (ab_mark x) = Some rid) (as_batches a) (as_next_batch a)))
                   (\<lambda>b. batch_update_hash env go b resp)
            else reads (\<lambda>db. owner_of (newest (\<lambda>x. mk_request (bm_mark x) = Some rid) (as_migrations a) (as_next_migration a)))
                   (\<lambda>m. migration_update_hash env m resp))
       | TransferTokenRequest \<Rightarrow>
           reads (\<lambda>db. owner_of (newest (\<lambda>x. mk_request (ax_mark x) = Some rid) (as_txs a) (as_next_tx a)))
             (\<lambda>t. tx_update_hedera_data env go t resp)
       | BurnTokenRequest \<Rightarrow>
           reads (\<lambda>db. owner_of (newest (\<lambda>x. mk_request (az_mark x) = Some rid) (as_sources a) (as_next_source a)))
             (\<lambda>s. source_update_hedera_data env s resp)
       | KYCTokenRequest \<Rightarrow>
           reads (\<lambda>db. owner_of (newest (\<lambda>x. np_request x = Some rid) (as_nps a) (as_next_np a)))
             (\<lambda>n. handle_kyc_success env go n resp)
       | AssociateTokenRequest \<Rightarrow>
           reads (\<lambda>db. owner_of (newest (\<lambda>x. ta_request x = Some rid) (as_associations a) (as_next_association a)))
             (\<lambda>i. handle_association env i resp)
       | CreateTokenRequest \<Rightarrow>
           reads (\<lambda>db. owner_of (newest (\<lambda>x. pr_request x = Some rid) (as_products a) (as_next_product a)))
             (\<lambda>p. update_token_id go p resp)
       | _ \<Rightarrow>
           (case message_owners rid a of
              [] \<Rightarrow> reads (\<lambda>db. Inl DoesNotExist) give
            | x # xs \<Rightarrow> update_message_hash x resp))"

definition asset_handle ::
    "asset_env \<Rightarrow> nat \<Rightarrow> (nat \<Rightarrow> string) \<Rightarrow> (nat \<Rightarrow> string list) \<Rightarrow> (string \<Rightarrow> string) \<Rightarrow>
     (string \<Rightarrow> string \<Rightarrow> string option) \<Rightarrow> nat \<Rightarrow> response \<Rightarrow> bool act"
where
  "asset_handle env fuel newkey tokens enc dec rid resp =
     reads (\<lambda>db. of_option DoesNotExist (bc_requests db rid)) (\<lambda>r.
       if rq_type r \<in> {CreateAccountRequest, TransferHBARRequest}
       then wallet_answer env (log_assets env fuel) newkey tokens enc dec (rq_type r) rid resp
       else asset_answer env (log_assets env fuel) r rid resp)"

end
