(* ===== verification/Asset_Runs.thy ===== *)
theory Asset_Runs
  imports Assets
begin

text \<open>
  What logging on the blockchain keeps. The locale \<open>asset_moves\<close> names the writes that all
  actions are composed of and follows the calls; it is interpreted for the protocol of
  requests and for the hashes and links of the objects. Then logging is shown to return.
\<close>

section \<open>Relations along actions\<close>

definition leads :: "(asset_db \<Rightarrow> asset_db \<Rightarrow> bool) \<Rightarrow> 'a act \<Rightarrow> asset_db \<Rightarrow> bool" where
  "leads R m db \<longleftrightarrow> R db (fst (m db))"

lemma bind_Inr: "m db = (db', Inr x) \<Longrightarrow> bind m f db = f x db'"
  by (simp add: bind_def)

lemma bind_eq_Inr: "bind m f db = (db', Inr y) \<longleftrightarrow> (\<exists>d x. m db = (d, Inr x) \<and> f x d = (db', Inr y))"
  by (auto simp: bind_def split: prod.splits sum.splits)

lemma reads_eq_Inr: "reads f g db = (db', Inr y) \<longleftrightarrow> (\<exists>x. f db = Inr x \<and> g x db = (db', Inr y))"
  by (auto simp: reads_def split: sum.splits)

lemma give_eq [simp]: "give x db = (db', r) \<longleftrightarrow> db' = db \<and> r = Inr x"
  by (auto simp: give_def)

lemma writes_eq: "writes f m db = m (f db)"
  by (simp add: writes_def)

lemma row_Inr [simp]: "row t i db = Inr x \<longleftrightarrow> t (wl_assets db) i = Some x"
  by (simp add: row_def of_option_def split: option.splits)

lemma wallet_row_Inr [simp]: "wallet_row w db = Inr x \<longleftrightarrow> wl_wallets db w = Some x"
  by (simp add: wallet_row_def of_option_def split: option.splits)

lemma check_pre [simp]:
  "check env create_token_pre_check = check env pre_check_request"
  "check env associate_pre_check = check env pre_check_request"
  "check env kyc_pre_check = check env pre_check_request"
  "check env mint_pre_check = check env pre_check_request"
  "check env transfer_pre_check = check env pre_check_request"
  "check env burn_pre_check = check env pre_check_request"
  "check env message_pre_check = check env pre_check_request"
  by (simp_all add: pre_check_defs)

lemma save_assets_sel [simp]:
  "wl_assets (save_assets f db) = f (wl_assets db)" "wl_wallets (save_assets f db) = wl_wallets db"
  "bc_requests (save_assets f db) = bc_requests db" "bc_tokens (save_assets f db) = bc_tokens db"
  "bc_queue (save_assets f db) = bc_queue db" "same_bc db (save_assets f db)"
  by (simp_all add: save_assets_def)

lemma loaded_rows_in: "(i, x) \<in> set (loaded_rows rows ids) \<Longrightarrow> rows i = Some x \<and> i \<in> set ids"
  by (auto simp: loaded_rows_def split: option.splits)

lemma setup_assets:
  assumes "setup_blockchain_account now key pw node reset db = Inr (db', wid)"
  shows "wl_assets db' = wl_assets db"
proof (cases "default_wallets node db \<noteq> [] \<and> \<not> reset")
  case False
  then obtain db1 where d: "rfold (disable_wallet now) (node_wallets node db) db = Inr db1"
    and n: "new_default_wallet now key pw node db1 = Inr (db', wid)"
    using assms by (auto simp: setup_blockchain_account_def rbind_eq_Inr)
  have "wl_assets db1 = wl_assets db"
    by (rule rfold_invariant [OF d, where P = "\<lambda>d. wl_assets d = wl_assets db"])
      (auto simp: disable_wallet_def rbind_eq_Inr Let_def split: option.split_asm)
  then show ?thesis using n by (auto simp: new_default_wallet_def Let_def rbind_eq_Inr dest!: account_assets)
qed (use assms in \<open>simp add: setup_blockchain_account_def\<close>)

section \<open>Moves\<close>

text \<open>What logging leaves of an object: all but its wallets and the requests it started.\<close>

definition static_mark :: "chain_mark \<Rightarrow> string \<times> string \<times> string \<times> string" where
  "static_mark m = (mk_id m, mk_address m, mk_msg_id m, mk_msg_address m)"

fun alike :: "mark_owner \<Rightarrow> mark_owner \<Rightarrow> bool" where
  "alike (OfBatch b x) (OfBatch c y) \<longleftrightarrow>
     c = b \<and> ab_product y = ab_product x \<and> ab_node y = ab_node x \<and> ab_source y = ab_source x \<and>
     ab_current y = ab_current x \<and> static_mark (ab_mark y) = static_mark (ab_mark x)"
| "alike (OfTx t x) (OfTx u y) \<longleftrightarrow>
     u = t \<and> ax_external y = ax_external x \<and> ax_incoming y = ax_incoming x \<and> ax_source y = ax_source x \<and>
     ax_destination y = ax_destination x \<and> static_mark (ax_mark y) = static_mark (ax_mark x)"
| "alike (OfSource s x) (OfSource r y) \<longleftrightarrow>
     r = s \<and> az_tx y = az_tx x \<and> az_batch y = az_batch x \<and> static_mark (az_mark y) = static_mark (az_mark x)"
| "alike (OfMigration m x) (OfMigration k y) \<longleftrightarrow>
     k = m \<and> bm_batch y = bm_batch x \<and> bm_new y = bm_new x \<and> bm_prev y = bm_prev x \<and>
     static_mark (bm_mark y) = static_mark (bm_mark x)"
| "alike x y \<longleftrightarrow> False"

fun stored :: "mark_owner \<Rightarrow> asset_db \<Rightarrow> bool" where
  "stored (OfBatch b x) db \<longleftrightarrow> as_batches (wl_assets db) b = Some x"
| "stored (OfTx t x) db \<longleftrightarrow> as_txs (wl_assets db) t = Some x"
| "stored (OfSource s x) db \<longleftrightarrow> as_sources (wl_assets db) s = Some x"
| "stored (OfMigration m x) db \<longleftrightarrow> as_migrations (wl_assets db) m = Some x"

lemma alike_refl [simp]: "alike x x"
  by (cases x) simp_all

lemma alike_trans: "alike x y \<Longrightarrow> alike y z \<Longrightarrow> alike x z"
  by (cases x; cases y; cases z) simp_all

lemma alike_sym: "alike x y \<Longrightarrow> alike y x"
  by (cases x; cases y) simp_all

fun put_owner :: "mark_owner \<Rightarrow> asset_db \<Rightarrow> asset_db" where
  "put_owner (OfBatch b x) = put_batch b x"
| "put_owner (OfTx t x) = put_tx t x"
| "put_owner (OfSource s x) = put_source s x"
| "put_owner (OfMigration m x) = put_migration m x"

lemma put_mark_owner:
  assumes "static_mark m = static_mark (mark_of x)"
  obtains y where "put_mark x m = put_owner y" and "alike x y"
proof (cases x)
  case (OfBatch b r) then show ?thesis using assms that [of "OfBatch b (r\<lparr>ab_mark := m\<rparr>)"] by simp
next
  case (OfTx b r) then show ?thesis using assms that [of "OfTx b (r\<lparr>ax_mark := m\<rparr>)"] by simp
next
  case (OfSource b r) then show ?thesis using assms that [of "OfSource b (r\<lparr>az_mark := m\<rparr>)"] by simp
next
  case (OfMigration b r) then show ?thesis using assms that [of "OfMigration b (r\<lparr>bm_mark := m\<rparr>)"] by simp
qed

text \<open>The tables that the admission of wallets does not touch.\<close>

definition static_product :: "asset_product \<Rightarrow> nat \<times> string" where
  "static_product x = (pr_chain x, pr_token x)"

definition same_objects :: "assets \<Rightarrow> assets \<Rightarrow> bool" where
  "same_objects a a' \<longleftrightarrow>
     as_batches a' = as_batches a \<and> as_next_batch a' = as_next_batch a \<and> as_txs a' = as_txs a \<and>
     as_next_tx a' = as_next_tx a \<and> as_sources a' = as_sources a \<and> as_next_source a' = as_next_source a \<and>
     as_migrations a' = as_migrations a \<and> as_next_migration a' = as_next_migration a \<and>
     as_next_product a' = as_next_product a \<and>
     (\<forall>p. map_option static_product (as_products a' p) = map_option static_product (as_products a p))"

definition call_ok :: "(mark_owner \<Rightarrow> asset_db \<Rightarrow> bool) \<Rightarrow> call \<Rightarrow> asset_db \<Rightarrow> bool" where
  "call_ok ok c db =
     (case c of CreateAsset b x \<Rightarrow> ok (OfBatch b x) db | LogExternal t x \<Rightarrow> ok (OfTx t x) db | LogTransaction t \<Rightarrow> True)"

locale asset_moves =
  fixes R :: "asset_db \<Rightarrow> asset_db \<Rightarrow> bool" and ok :: "mark_owner \<Rightarrow> asset_db \<Rightarrow> bool" and env :: asset_env
  assumes move_refl: "R db db"
    and move_trans: "R a b \<Longrightarrow> R b c \<Longrightarrow> R a c"
    and ok_keep: "R db db' \<Longrightarrow> ok x db \<Longrightarrow> ok x db'"
    and ok_stored: "stored x db \<Longrightarrow> ok x db"
    and ok_alike: "ok x db \<Longrightarrow> alike x y \<Longrightarrow> ok y db"
    and move_bc: "wl_assets db' = wl_assets db \<Longrightarrow> (bc_inv db \<Longrightarrow> follows {ae_key env r n | r n. True} db db') \<Longrightarrow> R db db'"
    and move_put: "ok x db \<Longrightarrow> R db (put_owner x db)"
    and move_side: "same_objects (wl_assets db) (f (wl_assets db)) \<Longrightarrow> R db (save_assets f db)"
begin

lemma bind_leads:
  assumes "leads R m db" and "\<And>db' x. R db db' \<Longrightarrow> m db = (db', Inr x) \<Longrightarrow> leads R (f x) db'"
  shows "leads R (bind m f) db"
proof (cases "m db")
  case (Pair db' r)
  then show ?thesis
    using assms by (cases r) (auto simp: leads_def bind_def intro: move_trans)
qed

lemma reads_leads: "(\<And>x. f db = Inr x \<Longrightarrow> leads R (g x) db) \<Longrightarrow> leads R (reads f g) db"
  by (simp add: leads_def reads_def move_refl split: sum.split)

lemma writes_leads: "R db (f db) \<Longrightarrow> leads R m (f db) \<Longrightarrow> leads R (writes f m) db"
  by (auto simp: leads_def writes_def intro: move_trans)

lemma give_leads [simp]: "leads R (give x) db"
  by (simp add: leads_def give_def move_refl)

lemma every_leads:
  assumes "\<And>x db'. x \<in> set xs \<Longrightarrow> R db db' \<Longrightarrow> leads R (f x) db'"
  shows "leads R (every f xs) db"
  using assms
proof (induction xs arbitrary: db)
  case (Cons x xs)
  show ?case
    unfolding every.simps
  proof (rule bind_leads)
    show "leads R (f x) db" using Cons.prems move_refl by simp
    fix db' y assume "R db db'"
    then show "leads R (bind (every f xs) (\<lambda>ys. give (y # ys))) db'"
      by (intro bind_leads Cons.IH) (auto intro: Cons.prems move_trans)
  qed
qed simp

lemmas leads_rules = bind_leads reads_leads writes_leads give_leads

lemma check_leads [simp]: "leads R (check env pre_check_request req) db"
proof (cases "pre_check_request (ae_now env) req db")
  case (Inr z)
  obtain db' s msg where z: "z = (db', s, msg)" by (cases z)
  have "R db db'"
  proof (rule move_bc)
    show "wl_assets db' = wl_assets db" using Inr by (auto simp: z dest: pre_check_assets)
    assume "bc_inv db"
    then show "follows {ae_key env r n | r n. True} db db'"
      using create_account_owner.pre_keeps [of db "ae_now env" req db' s msg] Inr
      by (simp add: z follows_def create_account_pre_check_def)
  qed
  then show ?thesis using Inr by (simp add: leads_def check_def z)
qed (simp add: leads_def check_def move_refl)

lemma begin_send_leads:
  assumes store: "\<And>db' rid. wl_assets db' = wl_assets db \<Longrightarrow> R db db' \<Longrightarrow> R db' (store rid db')"
  shows "leads R (begin_send env (initialize_request ty) tokens name req store) db"
proof (cases "begin_request (initialize_request ty) tokens (ae_now env) (ae_key env req (bc_next_token db)) (ae_pw env)
    name None req db")
  case (Inr z)
  obtain db' rid where z: "z = (db', rid)" by (cases z)
  note b = Inr [unfolded z]
  have a: "wl_assets db' = wl_assets db" by (rule begin_assets [OF b])
  have "R db db'"
  proof (rule move_bc [OF a])
    assume "bc_inv db"
    from request_starter.begin_ok [OF request_owner.axioms(1) [OF request_owner_methods] this b]
    have "follows {ae_key env req (bc_next_token db)} db db'" by (simp add: follows_def)
    then show "follows {ae_key env r n | r n. True} db db'" by (rule follows_mono) auto
  qed
  then show ?thesis using store [OF a] b by (auto simp: leads_def begin_send_def intro: move_trans)
qed (simp add: leads_def begin_send_def move_refl)

lemma put_mark_leads: "ok x db \<Longrightarrow> static_mark m = static_mark (mark_of x) \<Longrightarrow> R db (put_mark x m db)"
  by (erule put_mark_owner) (auto intro: move_put ok_alike)

lemma begin_mark_leads: "ok x db \<Longrightarrow> leads R (begin_mark env (initialize_request ty) name x) db"
  unfolding begin_mark_def
  by (rule begin_send_leads) (auto intro!: put_mark_leads simp: static_mark_def intro: ok_keep)

lemma begin_message_leads: "ok x db \<Longrightarrow> leads R (begin_message env x) db"
  unfolding begin_message_def message_initialize_def
  by (rule begin_send_leads) (auto intro!: put_mark_leads simp: static_mark_def intro: ok_keep)

lemma submit_info_message_leads: "ok x db \<Longrightarrow> leads R (submit_info_message env x) db"
  unfolding submit_info_message_def check_pre
  by (rule bind_leads) (auto intro: begin_message_leads ok_keep)

text \<open>Wallets, tokens and admission.\<close>

lemma setup_wallet_leads: "leads R (setup_wallet env node) db"
proof (cases "setup_blockchain_account (ae_now env) (ae_key env None (bc_next_token db)) (ae_pw env) node False db")
  case (Inr z)
  obtain db' w where z: "z = (db', w)" by (cases z)
  have "R db db'"
  proof (rule move_bc)
    show "wl_assets db' = wl_assets db" using Inr by (simp add: z setup_assets)
    assume "bc_inv db"
    then have "follows {ae_key env None (bc_next_token db)} db db'" using setup_follows Inr unfolding z by blast
    then show "follows {ae_key env r n | r n. True} db db'" by (rule follows_mono) auto
  qed
  then show ?thesis using Inr by (simp add: leads_def setup_wallet_def z)
qed (simp add: leads_def setup_wallet_def move_refl)

lemma own_wallet_leads:
  assumes "\<And>w. R db (store w db)"
  shows "leads R (own_wallet env node store) db"
proof -
  have "leads R (bind (setup_wallet env node) (\<lambda>_. give (None :: nat option))) db"
    by (rule bind_leads [OF setup_wallet_leads]) simp
  moreover have "leads R (reads (blockchain_wallet node) (\<lambda>w. writes (store w) (give (Some w)))) db"
    by (intro reads_leads writes_leads assms give_leads)
  ultimately show ?thesis by (simp add: leads_def own_wallet_def)
qed

lemma put_side:
  "R db (put_np n x db)" "R db (put_association i y db)"
  "as_products (wl_assets db) p = Some u \<Longrightarrow> static_product v = static_product u \<Longrightarrow> R db (put_product p v db)"
  unfolding put_np_def put_association_def put_product_def by (auto intro!: move_side simp: same_objects_def)

lemma check_same: "check env pre_check_request req db = (db', Inr x) \<Longrightarrow> wl_assets db' = wl_assets db"
  by (auto simp: check_def dest: pre_check_assets split: sum.split_asm prod.split_asm)

lemma create_token_leads: "leads R (create_token env p) db"
  unfolding create_token_def check_pre create_token_initialize_def
proof (intro reads_leads bind_leads)
  fix x db' and c :: bool assume "row as_products p db = Inr x" and "check env pre_check_request (pr_request x) db = (db', Inr c)"
  then have "as_products (wl_assets db') p = Some x" by (simp add: check_same)
  then show "leads R (if \<not> c \<or> pr_token x \<noteq> [] then give False
      else begin_send env (initialize_request CreateTokenRequest) [] ''products_Product'' (pr_request x)
             (\<lambda>rid. put_product p (x\<lparr>pr_request := Some rid\<rparr>))) db'"
    by (auto intro!: begin_send_leads put_side(3) simp: static_product_def)
qed simp

lemma start_association_leads: "leads R (start_association env i) db"
  unfolding start_association_def check_pre associate_initialize_def
  by (intro leads_rules impI check_leads)
    (auto intro!: leads_rules begin_send_leads create_token_leads put_side(2) split: list.split)

lemma get_node_product_leads: "leads R (get_node_product w p) db"
  by (auto simp: leads_def get_node_product_def Let_def intro!: move_refl move_side simp: same_objects_def split: list.split)

lemma associate_product_leads: "leads R (associate_product env i w p) db"
  unfolding associate_product_def
  by (intro leads_rules get_node_product_leads)
    (auto intro!: leads_rules start_association_leads put_side(1,2) split: option.split)

lemma new_association_leads: "leads R (new_association w chain) db"
  by (auto simp: leads_def new_association_def Let_def intro!: move_side simp: same_objects_def)

lemma create_association_leads: "leads R (create_association env w chain) db"
proof -
  have d: "R db (save_assets (\<lambda>a. a\<lparr>as_associations := (as_associations a)(i := None)\<rparr>) db)" for i db
    by (rule move_side) (simp add: same_objects_def)
  show ?thesis
    unfolding create_association_def
    by (auto intro!: leads_rules new_association_leads every_leads associate_product_leads start_association_leads d)
qed

lemma perform_kyc_leads: "leads R (perform_kyc env n x) db"
  unfolding perform_kyc_def check_pre kyc_initialize_def
  by (auto intro!: leads_rules create_association_leads begin_send_leads put_side(1))

text \<open>The calls, given that what they call of one another keeps the relation.\<close>

lemma put_owner_alike: "ok x db \<Longrightarrow> alike x y \<Longrightarrow> R db (put_owner y db)"
  by (rule move_put [OF ok_alike])

lemma loaded_ok:
  "(b, x) \<in> set (loaded_rows (as_batches (wl_assets db)) ids) \<Longrightarrow> R db db' \<Longrightarrow> ok (OfBatch b x) db'"
  "(t, y) \<in> set (loaded_rows (as_txs (wl_assets db)) ids) \<Longrightarrow> R db db' \<Longrightarrow> ok (OfTx t y) db'"
  "(s, z) \<in> set (loaded_rows (as_sources (wl_assets db)) ids) \<Longrightarrow> R db db' \<Longrightarrow> ok (OfSource s z) db'"
  by (rule ok_keep, assumption, rule ok_stored, simp add: loaded_rows_in)+

lemma batch_wallet_leads: "ok (OfBatch b x) db \<Longrightarrow> leads R (batch_wallet env b x) db"
  unfolding batch_wallet_def
  using put_owner_alike [of "OfBatch b x" db "OfBatch b (x\<lparr>ab_wallet := Some w\<rparr>)" for w]
  by (auto split: option.split intro!: own_wallet_leads)

lemma party_wallet_leads: "(\<And>w. R db (store w db)) \<Longrightarrow> leads R (party_wallet env node w store) db"
  unfolding party_wallet_def by (auto split: option.split intro!: own_wallet_leads reads_leads)

lemma row_ok:
  "as_batches (wl_assets db) b = Some x \<Longrightarrow> ok (OfBatch b x) db" "as_txs (wl_assets db) t = Some y \<Longrightarrow> ok (OfTx t y) db"
  by (rule ok_stored, simp)+

lemma put_tx_leads: "ok (OfTx t x) db \<Longrightarrow> alike (OfTx t x) (OfTx t y) \<Longrightarrow> R db (put_tx t y db)"
  using put_owner_alike [of "OfTx t x" db "OfTx t y"] by simp

text \<open>An object in memory stays good along a sequence of actions.\<close>

lemma bind_ok: "leads R m db \<Longrightarrow> ok x db \<Longrightarrow> (\<And>db' y. ok x db' \<Longrightarrow> leads R (f y) db') \<Longrightarrow> leads R (bind m f) db"
  by (rule bind_leads) (auto intro: ok_keep)

lemma go_every:
  assumes "\<And>c db. call_ok ok c db \<Longrightarrow> leads R (go c) db" and "\<And>x db'. x \<in> set xs \<Longrightarrow> R db db' \<Longrightarrow> call_ok ok (f x) db'"
  shows "leads R (every (\<lambda>x. go (f x)) xs) db"
  by (rule every_leads) (intro assms)

lemma transactions_leads:
  "(\<And>c db. call_ok ok c db \<Longrightarrow> leads R (go c) db) \<Longrightarrow> leads R (every (\<lambda>t. go (LogTransaction t)) ts) db"
  by (rule go_every) (auto simp: call_ok_def)

lemma batches_leads:
  assumes "\<And>c db. call_ok ok c db \<Longrightarrow> leads R (go c) db"
  shows "leads R (every (\<lambda>(b, y). go (CreateAsset b y)) (loaded_rows (as_batches (wl_assets db)) ids)) db"
  by (rule every_leads) (auto simp: call_ok_def intro!: assms loaded_ok(1))

lemma batch_post_success_leads:
  "(\<And>c db. call_ok ok c db \<Longrightarrow> leads R (go c) db) \<Longrightarrow> ok (OfBatch b x) db \<Longrightarrow> leads R (batch_post_success env go b x) db"
  unfolding batch_post_success_def
  by (intro leads_rules submit_info_message_leads transactions_leads)

lemma create_asset_leads:
  assumes go: "\<And>c db. call_ok ok c db \<Longrightarrow> leads R (go c) db" and x: "ok (OfBatch b x) db"
  shows "leads R (create_asset env go b x) db"
proof -
  have t: "leads R (through_transaction env go x) d" for d
    unfolding through_transaction_def
    by (auto intro!: leads_rules go simp: call_ok_def split: option.split)
  have m: "leads R (begin_mark env mint_initialize ''products_Batch'' (OfBatch b (x\<lparr>ab_wallet := Some w\<rparr>))) d"
    if "ok (OfBatch b x) d" for w d
    unfolding mint_initialize_def by (rule begin_mark_leads, rule ok_alike [OF that]) simp
  note ok_bind = bind_ok [where x = "OfBatch b x"]
  show ?thesis
    unfolding create_asset_def check_pre
    by (auto intro!: ok_bind reads_leads batch_post_success_leads go t batch_wallet_leads get_node_product_leads
        perform_kyc_leads m x split: option.split)
qed

lemma log_external_leads:
  assumes go: "\<And>c db. call_ok ok c db \<Longrightarrow> leads R (go c) db" and x: "ok (OfTx t x) db"
  shows "leads R (log_external env go t x) db"
proof -
  have c: "leads R (create_sources go t x) d" for d
    unfolding create_sources_def by (auto intro!: leads_rules batches_leads go)
  have m: "leads R (begin_mark env transfer_initialize ''transactions_ExternalTransaction''
      (OfTx t (x\<lparr>ax_destination_wallet := Some w, ax_source_wallet := Some v\<rparr>))) d" if "ok (OfTx t x) d" for w v d
    unfolding transfer_initialize_def by (rule begin_mark_leads, rule ok_alike [OF that]) simp
  have p: "R d (put_tx t (x\<lparr>ax_destination_wallet := Some w\<rparr>) d)"
    "R d (put_tx t (x\<lparr>ax_destination_wallet := Some v, ax_source_wallet := Some w\<rparr>) d)" if "ok (OfTx t x) d" for d w v
    by (rule put_tx_leads [OF that], simp)+
  note ok_bind = bind_ok [where x = "OfTx t x"]
  show ?thesis
    unfolding log_external_def check_pre
    by (auto intro!: ok_bind reads_leads c party_wallet_leads p get_node_product_leads perform_kyc_leads m x
        split: option.split)
qed

lemma burn_source_asset_leads:
  assumes go: "\<And>c db. call_ok ok c db \<Longrightarrow> leads R (go c) db" and x: "ok (OfSource s x) db"
  shows "leads R (burn_source_asset env go s x) db"
  unfolding burn_source_asset_def check_pre burn_initialize_def
  by (rule bind_ok [OF check_leads x])
    (auto intro!: leads_rules go begin_mark_leads row_ok simp: call_ok_def)

lemma log_internal_leads:
  assumes go: "\<And>c db. call_ok ok c db \<Longrightarrow> leads R (go c) db" and x: "ok (OfTx t x) db"
  shows "leads R (log_internal env go t x) db"
proof -
  have b: "leads R (every (\<lambda>(s, y). burn_source_asset env go s y) (loaded_rows (as_sources (wl_assets d)) ids)) d" for d ids
    by (rule every_leads) (auto intro!: burn_source_asset_leads go loaded_ok(3))
  note ok_bind = bind_ok [where x = "OfTx t x"]
  show ?thesis
    unfolding log_internal_def check_pre
    by (auto intro!: ok_bind reads_leads b batches_leads go begin_message_leads x)
qed

lemma one_call_leads:
  assumes go: "\<And>c db. call_ok ok c db \<Longrightarrow> leads R (go c) db" and "call_ok ok c db"
  shows "leads R (one_call env go c) db"
proof -
  have "leads R (log_transaction env go t) db" for t
    unfolding log_transaction_def
    by (auto intro!: reads_leads log_external_leads log_internal_leads go row_ok)
  then show ?thesis
    using assms(2) unfolding one_call_def call_ok_def
    by (auto intro!: leads_rules create_asset_leads log_external_leads go split: call.split_asm)
qed

text \<open>Logging keeps the relation, whether or not the stack is deep enough.\<close>

lemma log_assets_leads: "call_ok ok c db \<Longrightarrow> leads R (log_assets env n c) db"
proof (induction n arbitrary: c db)
  case 0
  then show ?case by (simp add: leads_def move_refl)
next
  case (Suc n)
  then show ?case by (simp add: one_call_leads)
qed

end

section \<open>The protocol and the objects\<close>

definition asset_keys :: "asset_env \<Rightarrow> string set" where
  "asset_keys env = {ae_key env r n | r n. True}"

lemma put_owner_bc: "same_bc db (put_owner x db)"
  by (cases x) (simp_all add: put_batch_def put_tx_def put_source_def put_migration_def)

definition lawful :: "string set \<Rightarrow> asset_db \<Rightarrow> asset_db \<Rightarrow> bool" where
  "lawful ks db db' \<longleftrightarrow> (bc_inv db \<longrightarrow> follows ks db db')"

lemma lawful_same: "same_bc db db' \<Longrightarrow> lawful ks db db'"
  by (simp add: lawful_def same_bc_follows)

interpretation protocol: asset_moves "lawful (asset_keys env \<union> ks)" "\<lambda>_ _. True" env for env ks
proof unfold_locales
  fix db db' :: asset_db
  assume "bc_inv db \<Longrightarrow> follows {ae_key env r n | r n. True} db db'"
  then show "lawful (asset_keys env \<union> ks) db db'"
    unfolding lawful_def asset_keys_def by (blast intro: follows_mono)
qed (auto simp: lawful_def put_owner_bc intro: follows_refl follows_trans follows_inv same_bc_follows)

text \<open>Objects and links are kept; of an object all but its wallets and requests.\<close>

definition static_row :: "mark_owner option \<Rightarrow> mark_owner option \<Rightarrow> bool" where
  "static_row r r' \<longleftrightarrow> (case (r, r') of (None, None) \<Rightarrow> True | (Some x, Some y) \<Rightarrow> alike x y | _ \<Rightarrow> False)"

definition same_static :: "assets \<Rightarrow> assets \<Rightarrow> bool" where
  "same_static a a' \<longleftrightarrow>
     as_next_batch a' = as_next_batch a \<and> as_next_tx a' = as_next_tx a \<and> as_next_source a' = as_next_source a \<and>
     (\<forall>b. static_row (map_option (OfBatch b) (as_batches a b)) (map_option (OfBatch b) (as_batches a' b))) \<and>
     (\<forall>t. static_row (map_option (OfTx t) (as_txs a t)) (map_option (OfTx t) (as_txs a' t))) \<and>
     (\<forall>s. static_row (map_option (OfSource s) (as_sources a s)) (map_option (OfSource s) (as_sources a' s))) \<and>
     (\<forall>m. static_row (map_option (OfMigration m) (as_migrations a m)) (map_option (OfMigration m) (as_migrations a' m))) \<and>
     (\<forall>p. map_option static_product (as_products a' p) = map_option static_product (as_products a p))"

definition remembered :: "mark_owner \<Rightarrow> asset_db \<Rightarrow> bool" where
  "remembered x db \<longleftrightarrow> (\<exists>y. stored y db \<and> alike y x)"

lemma static_row_refl [simp]: "static_row r r"
  by (simp add: static_row_def split: option.split)

lemma static_row_trans: "static_row a b \<Longrightarrow> static_row b c \<Longrightarrow> static_row a c"
  by (auto simp: static_row_def intro: alike_trans split: option.split_asm)

lemma same_static_refl [simp]: "same_static a a"
  by (simp add: same_static_def)

lemma same_static_trans: "same_static a b \<Longrightarrow> same_static b c \<Longrightarrow> same_static a c"
  unfolding same_static_def by (simp, blast intro: static_row_trans)

lemma static_row_sym: "static_row a b \<Longrightarrow> static_row b a"
  by (auto simp: static_row_def intro: alike_sym split: option.split_asm)

lemma same_static_sym: "same_static a b \<Longrightarrow> same_static b a"
  unfolding same_static_def by (simp add: static_row_sym)

lemma static_row_Some: "static_row (Some x) r \<Longrightarrow> \<exists>y. r = Some y \<and> alike x y"
  by (auto simp: static_row_def split: option.split_asm)

lemma same_static_rows:
  assumes "same_static a a'"
  shows "as_batches a b = Some x \<Longrightarrow> \<exists>y. as_batches a' b = Some y \<and> alike (OfBatch b x) (OfBatch b y)"
    and "as_txs a t = Some u \<Longrightarrow> \<exists>y. as_txs a' t = Some y \<and> alike (OfTx t u) (OfTx t y)"
    and "as_sources a s = Some v \<Longrightarrow> \<exists>y. as_sources a' s = Some y \<and> alike (OfSource s v) (OfSource s y)"
    and "as_migrations a m = Some w \<Longrightarrow> \<exists>y. as_migrations a' m = Some y \<and> alike (OfMigration m w) (OfMigration m y)"
proof -
  have r: "static_row (map_option (OfBatch b) (as_batches a b)) (map_option (OfBatch b) (as_batches a' b))"
    "static_row (map_option (OfTx t) (as_txs a t)) (map_option (OfTx t) (as_txs a' t))"
    "static_row (map_option (OfSource s) (as_sources a s)) (map_option (OfSource s) (as_sources a' s))"
    "static_row (map_option (OfMigration m) (as_migrations a m)) (map_option (OfMigration m) (as_migrations a' m))"
    using assms unfolding same_static_def by blast+
  show "as_batches a b = Some x \<Longrightarrow> \<exists>y. as_batches a' b = Some y \<and> alike (OfBatch b x) (OfBatch b y)"
    using r(1) by (auto dest: static_row_Some)
  show "as_txs a t = Some u \<Longrightarrow> \<exists>y. as_txs a' t = Some y \<and> alike (OfTx t u) (OfTx t y)"
    using r(2) by (auto dest: static_row_Some)
  show "as_sources a s = Some v \<Longrightarrow> \<exists>y. as_sources a' s = Some y \<and> alike (OfSource s v) (OfSource s y)"
    using r(3) by (auto dest: static_row_Some)
  show "as_migrations a m = Some w \<Longrightarrow> \<exists>y. as_migrations a' m = Some y \<and> alike (OfMigration m w) (OfMigration m y)"
    using r(4) by (auto dest: static_row_Some)
qed

lemma same_static_stored:
  assumes s: "same_static (wl_assets db) (wl_assets db')" and x: "stored x db"
  shows "\<exists>y. stored y db' \<and> alike x y"
proof (cases x)
  case (OfBatch b r)
  with x same_static_rows(1) [OF s, of b r] obtain y where "as_batches (wl_assets db') b = Some y" "alike x (OfBatch b y)" by auto
  then show ?thesis by (intro exI [of _ "OfBatch b y"]) simp
next
  case (OfTx b r)
  with x same_static_rows(2) [OF s, of b r] obtain y where "as_txs (wl_assets db') b = Some y" "alike x (OfTx b y)" by auto
  then show ?thesis by (intro exI [of _ "OfTx b y"]) simp
next
  case (OfSource b r)
  with x same_static_rows(3) [OF s, of b r] obtain y where "as_sources (wl_assets db') b = Some y" "alike x (OfSource b y)" by auto
  then show ?thesis by (intro exI [of _ "OfSource b y"]) simp
next
  case (OfMigration b r)
  with x same_static_rows(4) [OF s, of b r] obtain y where "as_migrations (wl_assets db') b = Some y" "alike x (OfMigration b y)" by auto
  then show ?thesis by (intro exI [of _ "OfMigration b y"]) simp
qed

lemma same_static_put:
  assumes "remembered x db"
  shows "same_static (wl_assets db) (wl_assets (put_owner x db))"
proof -
  obtain y where y: "stored y db" "alike y x" using assms by (auto simp: remembered_def)
  then show ?thesis
    by (cases x; cases y)
      (auto simp: same_static_def static_row_def put_batch_def put_tx_def put_source_def put_migration_def split: option.split)
qed

interpretation objects: asset_moves "\<lambda>db db'. same_static (wl_assets db) (wl_assets db')" remembered env for env
proof unfold_locales
  fix db db' and x y :: mark_owner
  show "remembered x db'" if "same_static (wl_assets db) (wl_assets db')" "remembered x db"
    using that same_static_stored unfolding remembered_def by (meson alike_trans alike_sym)
  show "remembered y db" if "remembered x db" "alike x y" using that by (auto simp: remembered_def intro: alike_trans)
next
  fix f and db :: asset_db
  assume "same_objects (wl_assets db) (f (wl_assets db))"
  then show "same_static (wl_assets db) (wl_assets (save_assets f db))" by (simp add: same_objects_def same_static_def)
qed (auto simp: remembered_def same_static_put intro: same_static_trans)

end
