(* ===== verification/Asset_Logging.thy ===== *)
theory Asset_Logging
  imports Asset_Runs
begin

text \<open>
  Logging a batch or a transaction returns: between batches and transactions it first goes up,
  to what has no hash yet, or down, from what has one, and never turns down again.
\<close>

section \<open>Actions that do not overflow the stack\<close>

definition returns :: "'a act \<Rightarrow> asset_db \<Rightarrow> bool" where
  "returns m db \<longleftrightarrow> snd (m db) \<noteq> Inl PyRecursionError"

definition lasting :: "asset_db \<Rightarrow> asset_db \<Rightarrow> bool" where
  "lasting db db' \<longleftrightarrow> same_static (wl_assets db) (wl_assets db')"

lemma lasting_refl [simp]: "lasting db db"
  by (simp add: lasting_def)

lemma returns_bind:
  assumes "returns m db" and "\<And>db' x. m db = (db', Inr x) \<Longrightarrow> returns (f x) db'"
  shows "returns (bind m f) db"
  using assms by (auto simp: returns_def bind_def split: prod.split sum.split)

lemma returns_reads:
  "f db \<noteq> Inl PyRecursionError \<Longrightarrow> (\<And>x. f db = Inr x \<Longrightarrow> returns (g x) db) \<Longrightarrow> returns (reads f g) db"
  by (auto simp: returns_def reads_def split: sum.split)

lemma returns_writes: "returns m (f db) \<Longrightarrow> returns (writes f m) db"
  by (simp add: returns_def writes_def)

lemma returns_give [simp]: "returns (give x) db"
  by (simp add: returns_def give_def)

lemma returns_every: "(\<And>x db. x \<in> set xs \<Longrightarrow> returns (f x) db) \<Longrightarrow> returns (every f xs) db"
  by (induction xs arbitrary: db) (auto intro!: returns_bind)

lemma rows_no_overflow [simp]:
  "row t i db \<noteq> Inl PyRecursionError" "wallet_row w db \<noteq> Inl PyRecursionError"
  "of_option DoesNotExist z \<noteq> Inl PyRecursionError" "of_option PyAttributeError z \<noteq> Inl PyRecursionError"
  by (auto simp: row_def wallet_row_def of_option_def split: option.split)

lemma token_no_overflow [simp]: "token_of r db \<noteq> Inl PyRecursionError"
  by (auto simp: token_of_def rbind_eq_Inl of_option_def split: option.split_asm)

lemma blockchain_wallet_no_overflow [simp]: "blockchain_wallet node db \<noteq> Inl PyRecursionError"
  by (simp add: blockchain_wallet_def split: list.split)

lemma result_batch_no_overflow [simp]: "result_batch t db \<noteq> Inl PyRecursionError"
  by (auto simp: result_batch_def rbind_eq_Inl split: list.split)

lemma pre_check_no_overflow [simp]: "pre_check_request now req db \<noteq> Inl PyRecursionError"
  by (auto simp: pre_check_request_def rbind_eq_Inl split: option.split)

lemma check_returns [simp]: "returns (check env pre_check_request req) db"
  using pre_check_no_overflow [of "ae_now env" req db] by (auto simp: returns_def check_def split: sum.split prod.split)

lemma begin_send_returns [simp]: "returns (begin_send env init tokens name req store) db"
  by (simp add: returns_def begin_send_def split: sum.split prod.split)

lemma account_no_overflow [simp]: "create_blockchain_account now key pw user wid db \<noteq> Inl PyRecursionError"
  by (auto simp: create_blockchain_account_def wallet_pre_check_def create_account_pre_check_def rbind_eq_Inl
      split: if_split_asm sum.split_asm prod.split_asm)

lemma rfold_no_overflow: "(\<And>x s. f x s \<noteq> Inl e) \<Longrightarrow> rfold f xs s \<noteq> Inl e"
  by (induction xs arbitrary: s) (auto simp: rbind_eq_Inl)

lemma disable_no_overflow: "disable_wallet now w db \<noteq> Inl PyRecursionError"
  by (auto simp: disable_wallet_def rbind_eq_Inl Let_def split: option.split_asm)

lemma setup_no_overflow [simp]: "setup_blockchain_account now key pw node reset db \<noteq> Inl PyRecursionError"
  using rfold_no_overflow [of "disable_wallet now" PyRecursionError, OF disable_no_overflow]
  by (auto simp: setup_blockchain_account_def new_default_wallet_def rbind_eq_Inl Let_def split: if_split_asm prod.split_asm)

lemma own_wallet_returns [simp]: "returns (own_wallet env node store) db"
proof -
  have "returns (setup_wallet env node) db"
    using setup_no_overflow by (auto simp: returns_def setup_wallet_def split: sum.split prod.split)
  then have "returns (bind (setup_wallet env node) (\<lambda>_. give (None :: nat option))) db"
    by (rule returns_bind) simp
  moreover have "returns (reads (blockchain_wallet node) (\<lambda>w. writes (store w) (give (Some w)))) db"
    by (intro returns_reads returns_writes) simp_all
  ultimately show ?thesis by (simp add: returns_def own_wallet_def)
qed

lemma create_token_returns [simp]: "returns (create_token env p) db"
  unfolding create_token_def check_pre by (auto intro!: returns_reads returns_bind)

lemma start_association_returns [simp]: "returns (start_association env i) db"
  unfolding start_association_def check_pre
  by (auto intro!: returns_reads returns_bind split: list.split)

lemma get_node_product_returns [simp]: "returns (get_node_product w p) db"
  by (auto simp: returns_def get_node_product_def Let_def split: list.split)

lemma associate_product_returns [simp]: "returns (associate_product env i w p) db"
  unfolding associate_product_def
  by (auto intro!: returns_reads returns_bind returns_writes split: option.split)

lemma create_association_returns [simp]: "returns (create_association env w chain) db"
proof -
  have "returns (new_association w chain) db" for db by (simp add: returns_def new_association_def Let_def)
  then show ?thesis
    unfolding create_association_def
    by (auto intro!: returns_reads returns_bind returns_writes returns_every)
qed

lemma perform_kyc_returns [simp]: "returns (perform_kyc env n x) db"
  unfolding perform_kyc_def check_pre by (auto intro!: returns_reads returns_bind)

lemma submit_info_message_returns [simp]: "returns (submit_info_message env x) db"
  unfolding submit_info_message_def begin_message_def check_pre by (auto intro!: returns_bind)

lemma party_wallet_returns [simp]: "returns (party_wallet env node w store) db"
  unfolding party_wallet_def by (auto intro!: returns_reads split: option.split)

lemma batch_wallet_returns [simp]: "returns (batch_wallet env b x) db"
  unfolding batch_wallet_def by (auto split: option.split)

section \<open>Along the trade\<close>

text \<open>
  \<open>rb\<close> and \<open>rt\<close> rank batches and transactions: sources come before their transaction, and a
  transaction before its results, as they do when rows refer to older ones. A batch is given its
  id and its address together.
\<close>

definition in_order :: "(nat \<Rightarrow> nat) \<Rightarrow> (nat \<Rightarrow> nat) \<Rightarrow> nat \<Rightarrow> assets \<Rightarrow> bool" where
  "in_order rb rt n a \<longleftrightarrow>
     (\<forall>s x. as_sources a s = Some x \<longrightarrow> rb (az_batch x) < rt (az_tx x)) \<and>
     (\<forall>b x. as_batches a b = Some x \<longrightarrow> rb b \<le> n \<and> (\<forall>t. ab_source x = Some t \<longrightarrow> rt t < rb b) \<and>
        (mk_id (ab_mark x) = [] \<longrightarrow> mk_address (ab_mark x) = [])) \<and>
     (\<forall>t x. as_txs a t = Some x \<longrightarrow> rt t \<le> n)"

text \<open>How deep a call goes. \<open>2 * n + 3\<close> is always enough.\<close>

definition depth :: "(nat \<Rightarrow> nat) \<Rightarrow> (nat \<Rightarrow> nat) \<Rightarrow> nat \<Rightarrow> assets \<Rightarrow> call \<Rightarrow> nat" where
  "depth rb rt n a c =
     (case c of
        CreateAsset b x \<Rightarrow> if mk_address (ab_mark x) = [] then Suc (rb b) else n + 2 + (n - rb b)
      | LogExternal t x \<Rightarrow> Suc (rt t)
      | LogTransaction t \<Rightarrow>
          (case as_txs a t of
             None \<Rightarrow> 1
           | Some x \<Rightarrow> if ax_external x then Suc (rt t) else n + 2 + (n - rt t)))"

lemma lasting_in_order:
  assumes "lasting db db'" and "in_order rb rt n (wl_assets db)"
  shows "in_order rb rt n (wl_assets db')"
proof -
  have k: "same_static (wl_assets db') (wl_assets db)" using assms(1) by (simp add: lasting_def same_static_sym)
  show ?thesis
    unfolding in_order_def
  proof (intro conjI allI impI)
    fix s x assume "as_sources (wl_assets db') s = Some x"
    then show "rb (az_batch x) < rt (az_tx x)"
      using same_static_rows(3) [OF k] assms(2) unfolding in_order_def by fastforce
  next
    fix b x assume "as_batches (wl_assets db') b = Some x"
    then obtain y where y: "as_batches (wl_assets db) b = Some y" "alike (OfBatch b x) (OfBatch b y)"
      using same_static_rows(1) [OF k] by blast
    then have o: "rb b \<le> n" "ab_source x = Some t \<longrightarrow> rt t < rb b" "mk_id (ab_mark x) = [] \<longrightarrow> mk_address (ab_mark x) = []" for t
      using assms(2) unfolding in_order_def by (auto simp: static_mark_def)
    show "rb b \<le> n" by (rule o(1))
    show "rt t < rb b" if "ab_source x = Some t" for t using o(2) that by simp
    show "mk_address (ab_mark x) = []" if "mk_id (ab_mark x) = []" using o(3) that by simp
  next
    fix t x assume "as_txs (wl_assets db') t = Some x"
    then show "rt t \<le> n" using same_static_rows(2) [OF k] assms(2) unfolding in_order_def by fastforce
  qed
qed

lemma lasting_depth:
  assumes "lasting db db'"
  shows "depth rb rt n (wl_assets db') c = depth rb rt n (wl_assets db) c"
proof (cases c)
  case (LogTransaction t)
  show ?thesis
  proof (cases "as_txs (wl_assets db) t")
    case None
    then have "as_txs (wl_assets db') t = None"
      using same_static_rows(2) [of "wl_assets db'" "wl_assets db" t] same_static_sym assms
      by (cases "as_txs (wl_assets db') t") (auto simp: lasting_def)
    then show ?thesis using None LogTransaction by (simp add: depth_def)
  next
    case (Some x)
    then obtain y where "as_txs (wl_assets db') t = Some y" "ax_external y = ax_external x"
      using same_static_rows(2) assms unfolding lasting_def by fastforce
    then show ?thesis using Some LogTransaction by (simp add: depth_def)
  qed
qed (simp_all add: depth_def)

section \<open>Depth\<close>

lemma bind_from:
  assumes "returns m d" and "leads lasting m d" and "lasting db d" and "\<And>x d'. lasting db d' \<Longrightarrow> m d = (d', Inr x) \<Longrightarrow> returns (f x) d'"
  shows "returns (bind m f) d"
proof (rule returns_bind [OF assms(1)])
  fix d' x assume m: "m d = (d', Inr x)"
  then have "lasting d d'" using assms(2) by (simp add: leads_def)
  then show "returns (f x) d'" using assms(3,4) m by (auto simp: lasting_def intro: same_static_trans)
qed

lemma every_from:
  assumes "lasting db d" and "\<And>x d'. x \<in> set xs \<Longrightarrow> lasting db d' \<Longrightarrow> returns (f x) d' \<and> leads lasting (f x) d'"
  shows "returns (every f xs) d"
  using assms
proof (induction xs arbitrary: d)
  case (Cons x xs)
  have x: "returns (f x) d" "leads lasting (f x) d" using Cons.prems by auto
  show ?case
    unfolding every.simps
  proof (rule bind_from [OF x Cons.prems(1)])
    fix y d' assume k: "lasting db d'"
    have "returns (every f xs) d'" using Cons.IH [OF k] Cons.prems(2) by simp
    then show "returns (bind (every f xs) (\<lambda>ys. give (y # ys))) d'" by (rule returns_bind) simp
  qed
qed simp

lemma lasting_leads: "leads (\<lambda>db db'. same_static (wl_assets db) (wl_assets db')) = leads lasting"
  by (simp add: lasting_def [abs_def])

lemmas lasting_actions =
  objects.check_leads [unfolded lasting_leads] objects.submit_info_message_leads [unfolded lasting_leads]
  objects.get_node_product_leads [unfolded lasting_leads] objects.perform_kyc_leads [unfolded lasting_leads]
  objects.batch_wallet_leads [unfolded lasting_leads] objects.log_assets_leads [unfolded lasting_leads]

lemma remembered_lasting: "lasting db db' \<Longrightarrow> remembered x db \<Longrightarrow> remembered x db'"
  unfolding lasting_def by (rule objects.ok_keep)

text \<open>
  \<open>shallow k db go\<close>: calls less deep than \<open>k\<close> return, wherever the objects are those of \<open>db\<close>.
\<close>

definition shallow :: "(nat \<Rightarrow> nat) \<Rightarrow> (nat \<Rightarrow> nat) \<Rightarrow> nat \<Rightarrow> nat \<Rightarrow> asset_db \<Rightarrow> (call \<Rightarrow> unit act) \<Rightarrow> bool" where
  "shallow rb rt n k db go \<longleftrightarrow>
     (\<forall>c d. call_ok remembered c d \<longrightarrow>
        leads lasting (go c) d \<and> (lasting db d \<longrightarrow> depth rb rt n (wl_assets d) c < k \<longrightarrow> returns (go c) d))"

lemma shallowD:
  assumes "shallow rb rt n k db go" and "lasting db d" and "call_ok remembered c d"
  shows "leads lasting (go c) d" and "depth rb rt n (wl_assets db) c < k \<Longrightarrow> returns (go c) d"
  using assms lasting_depth [OF assms(2), of rb rt n c] unfolding shallow_def by auto

lemma go_from:
  assumes "shallow rb rt n k db go" and "lasting db d"
    and "\<And>x. x \<in> set xs \<Longrightarrow> call_ok remembered (f x) db \<and> depth rb rt n (wl_assets db) (f x) < k"
  shows "returns (every (\<lambda>x. go (f x)) xs) d"
proof (rule every_from [OF assms(2)])
  fix x d' assume "x \<in> set xs" and k: "lasting db d'"
  then have "call_ok remembered (f x) db" "depth rb rt n (wl_assets db) (f x) < k" using assms(3) by auto
  moreover have "call_ok remembered (f x) d'"
    using calculation(1) remembered_lasting [OF k] unfolding call_ok_def by (auto split: call.split)
  ultimately show "returns (go (f x)) d' \<and> leads lasting (go (f x)) d'" using shallowD [OF assms(1) k] by blast
qed

lemma shallow_lasting: "shallow rb rt n k db go \<Longrightarrow> lasting db d \<Longrightarrow> shallow rb rt n k d go"
  unfolding shallow_def lasting_def by (blast intro: same_static_trans)

lemma newest_in: "i \<in> set (newest p rows n) \<Longrightarrow> \<exists>r. rows i = Some r \<and> p r \<and> i < n"
  by (auto simp: newest_def split: option.split_asm)

lemma links_order:
  assumes "0 < links t b a" and "in_order rb rt n a"
  shows "rb b < rt t"
proof -
  obtain s where "s \<in> set (newest (\<lambda>x. az_tx x = t \<and> az_batch x = b) (as_sources a) (as_next_source a))"
    using assms(1) by (cases "newest (\<lambda>x. az_tx x = t \<and> az_batch x = b) (as_sources a) (as_next_source a)") (auto simp: links_def)
  then obtain x where "as_sources a s = Some x" "az_tx x = t" "az_batch x = b" using newest_in by fast
  then show ?thesis using assms(2) unfolding in_order_def by blast
qed

lemma outgoing_order:
  assumes "t \<in> set (outgoing b a)" and "in_order rb rt n a"
  shows "rb b < rt t \<and> rt t \<le> n"
proof -
  obtain x where "as_txs a t = Some x" "0 < links t b a"
    using assms(1) newest_in unfolding outgoing_def by fastforce
  then show ?thesis using links_order [OF _ assms(2)] assms(2) unfolding in_order_def by blast
qed

lemma unlogged_order:
  assumes "b \<in> set (unlogged_sources t a)" and "in_order rb rt n a" and "as_batches a b = Some y"
  shows "rb b < rt t \<and> mk_address (ab_mark y) = []"
proof -
  obtain x where "as_batches a b = Some x" "mk_id (ab_mark x) = []" "0 < links t b a"
    using assms(1) newest_in unfolding unlogged_sources_def by fastforce
  then show ?thesis using links_order [OF _ assms(2)] assms(2,3) unfolding in_order_def by auto
qed

lemma stored_remembered: "stored x db \<Longrightarrow> remembered x db"
  by (auto simp: remembered_def)

lemma create_sources_returns:
  assumes o: "in_order rb rt n (wl_assets db)" and g: "shallow rb rt n (Suc (rt t)) db go"
  shows "returns (create_sources go t x) db"
proof -
  have "returns (every (\<lambda>y. go (case y of (b, x) \<Rightarrow> CreateAsset b x))
      (loaded_rows (as_batches (wl_assets db)) (unlogged_sources t (wl_assets db)))) db"
  proof (rule go_from [OF g lasting_refl])
    fix y assume y: "y \<in> set (loaded_rows (as_batches (wl_assets db)) (unlogged_sources t (wl_assets db)))"
    obtain b r where [simp]: "y = (b, r)" by (cases y)
    have r: "as_batches (wl_assets db) b = Some r" "b \<in> set (unlogged_sources t (wl_assets db))"
      using y loaded_rows_in by fastforce+
    then show "call_ok remembered (case y of (b, x) \<Rightarrow> CreateAsset b x) db \<and>
        depth rb rt n (wl_assets db) (case y of (b, x) \<Rightarrow> CreateAsset b x) < Suc (rt t)"
      using unlogged_order [OF r(2) o r(1)] by (simp add: call_ok_def depth_def stored_remembered)
  qed
  then show ?thesis
    unfolding create_sources_def by (auto intro!: returns_reads returns_bind simp: case_prod_beta' prod.case_distrib)
qed

lemma log_external_returns:
  assumes o: "in_order rb rt n (wl_assets db)" and g: "shallow rb rt n (Suc (rt t)) db go"
  shows "returns (log_external env go t x) db"
proof -
  have c: "returns (create_sources go t x) d" if "lasting db d" for d
    by (rule create_sources_returns [OF lasting_in_order [OF that o] shallow_lasting [OF g that]])
  show ?thesis
    unfolding log_external_def check_pre
    by (rule bind_from [OF check_returns lasting_actions(1) lasting_refl])
      (auto intro!: returns_bind returns_reads c simp: begin_mark_def split: option.split)
qed

lemma create_asset_returns:
  assumes o: "in_order rb rt n (wl_assets db)" and x: "remembered (OfBatch b x) db"
    and g: "shallow rb rt n (depth rb rt n (wl_assets db) (CreateAsset b x)) db go"
  shows "returns (create_asset env go b x) db"
proof (cases "mk_address (ab_mark x) = []")
  case True
  obtain y where y: "as_batches (wl_assets db) b = Some y" "alike (OfBatch b y) (OfBatch b x)"
  proof -
    obtain z where z: "stored z db" "alike z (OfBatch b x)" using x by (auto simp: remembered_def)
    then show ?thesis using that by (cases z) auto
  qed
  have t: "returns (through_transaction env go x) d" if k: "lasting db d" for d
  proof -
    have "returns (go (LogTransaction t)) d" if "ab_source x = Some t" "as_txs (wl_assets d) t = Some z" "ax_external z" for t z
    proof (rule shallowD(2) [OF g k])
      have "depth rb rt n (wl_assets d) (LogTransaction t) = Suc (rt t)" using that by (simp add: depth_def)
      then show "depth rb rt n (wl_assets db) (LogTransaction t) < depth rb rt n (wl_assets db) (CreateAsset b x)"
        using o y that(1) True lasting_depth [OF k, of rb rt n "LogTransaction t"] unfolding in_order_def by (auto simp: depth_def)
    qed (simp add: call_ok_def)
    then show ?thesis
      unfolding through_transaction_def by (auto intro!: returns_reads returns_bind split: option.split)
  qed
  show ?thesis
    unfolding create_asset_def check_pre using True
    by (auto intro!: bind_from [OF check_returns lasting_actions(1) lasting_refl] returns_bind returns_reads t
        simp: begin_mark_def split: option.split)
next
  case False
  have p: "returns (batch_post_success env go b x) db"
    unfolding batch_post_success_def
  proof (rule bind_from [OF submit_info_message_returns lasting_actions(2) [OF x] lasting_refl], rule returns_reads)
    fix u d ts assume k: "lasting db d" and ts: "Inr (outgoing b (wl_assets d)) = Inr ts"
    have "returns (every (\<lambda>t. go (LogTransaction t)) ts) d"
    proof (rule go_from [OF shallow_lasting [OF g k] lasting_refl])
      fix t assume "t \<in> set ts"
      then have "rb b < rt t" "rt t \<le> n" using outgoing_order [OF _ lasting_in_order [OF k o]] ts by auto
      then show "call_ok remembered (LogTransaction t) d \<and>
          depth rb rt n (wl_assets d) (LogTransaction t) < depth rb rt n (wl_assets db) (CreateAsset b x)"
        using False by (auto simp: call_ok_def depth_def split: option.split)
    qed
    then show "returns (bind (every (\<lambda>t. go (LogTransaction t)) ts) (\<lambda>_. give ())) d" by (rule returns_bind) simp
  qed simp
  show ?thesis unfolding create_asset_def using False by (auto intro!: returns_bind p)
qed

lemma burn_source_asset_returns:
  assumes o: "in_order rb rt n (wl_assets db)" and g: "shallow rb rt n (n + 2) db go"
  shows "returns (burn_source_asset env go s x) db"
proof -
  have b: "returns (go (CreateAsset b y)) d"
    if k: "lasting db d" and y: "as_batches (wl_assets d) b = Some y" "mk_address (ab_mark y) = []" for b y d
  proof (rule shallowD(2) [OF g k])
    show "call_ok remembered (CreateAsset b y) d" using y by (simp add: call_ok_def stored_remembered)
    have "rb b \<le> n" using lasting_in_order [OF k o] y unfolding in_order_def by blast
    then show "depth rb rt n (wl_assets db) (CreateAsset b y) < n + 2" using y by (simp add: depth_def)
  qed
  show ?thesis
    unfolding burn_source_asset_def check_pre
    by (rule bind_from [OF check_returns lasting_actions(1) lasting_refl])
      (auto intro!: returns_bind returns_reads b simp: begin_mark_def)
qed

lemma log_internal_returns:
  assumes o: "in_order rb rt n (wl_assets db)" and x: "as_txs (wl_assets db) t = Some x"
    and g: "shallow rb rt n (n + 2 + (n - rt t)) db go"
  shows "returns (log_internal env go t x) db"
proof -
  have t: "rt t \<le> n" using o x unfolding in_order_def by blast
  have g2: "shallow rb rt n (n + 2) db go" using g unfolding shallow_def by fastforce
  have G: "\<And>c d. call_ok remembered c d \<Longrightarrow> leads lasting (go c) d" using g unfolding shallow_def by blast
  have burn: "returns (burn_source_asset env go s y) d" if "lasting db d" for s y d
    by (rule burn_source_asset_returns [OF lasting_in_order [OF that o] shallow_lasting [OF g2 that]])
  have results: "returns (every (\<lambda>(b, y). go (CreateAsset b y)) (loaded_rows (as_batches (wl_assets d)) (results_of t (wl_assets d)))) d"
    if k: "lasting db d" for d
  proof -
    have "returns (every (\<lambda>y. go (case y of (b, x) \<Rightarrow> CreateAsset b x))
        (loaded_rows (as_batches (wl_assets d)) (results_of t (wl_assets d)))) d"
    proof (rule go_from [OF shallow_lasting [OF g k] lasting_refl])
      fix z assume z: "z \<in> set (loaded_rows (as_batches (wl_assets d)) (results_of t (wl_assets d)))"
      obtain b r where [simp]: "z = (b, r)" by (cases z)
      have r: "as_batches (wl_assets d) b = Some r" "b \<in> set (results_of t (wl_assets d))"
        using z loaded_rows_in by fastforce+
      then have "ab_source r = Some t" using newest_in unfolding results_of_def by fastforce
      then have "rt t < rb b" "rb b \<le> n" using lasting_in_order [OF k o] r(1) unfolding in_order_def by blast+
      then show "call_ok remembered (case z of (b, x) \<Rightarrow> CreateAsset b x) d \<and>
          depth rb rt n (wl_assets d) (case z of (b, x) \<Rightarrow> CreateAsset b x) < n + 2 + (n - rt t)"
        using r(1) by (auto simp: call_ok_def depth_def stored_remembered)
    qed
    then show ?thesis by (simp add: case_prod_beta' prod.case_distrib)
  qed
  have burns: "returns (every (\<lambda>(s, y). burn_source_asset env go s y) (loaded_rows (as_sources (wl_assets db)) ids)) db \<and>
      leads lasting (every (\<lambda>(s, y). burn_source_asset env go s y) (loaded_rows (as_sources (wl_assets db)) ids)) db" for ids
  proof
    have b: "leads lasting (burn_source_asset env go s y) d"
      if "lasting db d" "(s, y) \<in> set (loaded_rows (as_sources (wl_assets db)) ids)" for s y d
      by (rule objects.burn_source_asset_leads [unfolded lasting_leads])
        (use that objects.loaded_ok(3) G in \<open>auto simp: lasting_def\<close>)
    show "returns (every (\<lambda>(s, y). burn_source_asset env go s y) (loaded_rows (as_sources (wl_assets db)) ids)) db"
      by (rule every_from [OF lasting_refl]) (auto intro: burn b)
    show "leads lasting (every (\<lambda>(s, y). burn_source_asset env go s y) (loaded_rows (as_sources (wl_assets db)) ids)) db"
      by (rule objects.every_leads [unfolded lasting_leads]) (auto intro!: b simp: lasting_def)
  qed
  show ?thesis
    unfolding log_internal_def check_pre
    by (auto intro!: returns_reads bind_from [OF burns [THEN conjunct1] burns [THEN conjunct2] lasting_refl] returns_bind results
        simp: begin_message_def)
qed

lemma one_call_returns:
  assumes o: "in_order rb rt n (wl_assets db)" and c: "call_ok remembered c db"
    and g: "shallow rb rt n (depth rb rt n (wl_assets db) c) db go"
  shows "returns (one_call env go c) db"
proof (cases c)
  case (CreateAsset b x)
  then have "returns (create_asset env go b x) db"
    using c g by (intro create_asset_returns [OF o]) (simp_all add: call_ok_def)
  then show ?thesis by (auto simp: CreateAsset one_call_def intro: returns_bind)
next
  case (LogExternal t x)
  then have "returns (log_external env go t x) db"
    using g by (intro log_external_returns [OF o]) (simp add: depth_def)
  then show ?thesis by (auto simp: LogExternal one_call_def intro: returns_bind)
next
  case (LogTransaction t)
  have "returns (log_transaction env go t) db"
    unfolding log_transaction_def
  proof (rule returns_reads)
    fix x assume "row as_txs t db = Inr x"
    then have x: "as_txs (wl_assets db) t = Some x" by simp
    show "returns (if ax_external x then log_external env go t x else log_internal env go t x) db"
      using log_external_returns [OF o, of t go env x] log_internal_returns [OF o x, of go env] g
      by (cases "ax_external x") (simp_all add: depth_def LogTransaction x)
  qed simp
  then show ?thesis by (auto simp: LogTransaction one_call_def intro: returns_bind)
qed

lemma log_assets_returns:
  "in_order rb rt n (wl_assets db) \<Longrightarrow> call_ok remembered c db \<Longrightarrow> depth rb rt n (wl_assets db) c \<le> fuel \<Longrightarrow>
     returns (log_assets env fuel c) db"
proof (induction fuel arbitrary: c db)
  case 0
  then show ?case by (auto simp: depth_def split: call.split_asm if_split_asm option.split_asm)
next
  case (Suc fuel)
  have "shallow rb rt n (depth rb rt n (wl_assets db) c) db (log_assets env fuel)"
    unfolding shallow_def
  proof (intro allI impI conjI)
    fix c' d assume c: "call_ok remembered c' d"
    show "leads lasting (log_assets env fuel c') d" using c by (rule lasting_actions(6))
    assume "lasting db d" and "depth rb rt n (wl_assets d) c' < depth rb rt n (wl_assets db) c"
    then show "returns (log_assets env fuel c') d"
      using Suc.prems c by (intro Suc.IH lasting_in_order [OF _ Suc.prems(1)]) auto
  qed
  then show ?case using one_call_returns [OF Suc.prems(1,2)] by simp
qed

section \<open>Properties\<close>

text \<open>
  C11: Logging a stored batch or transaction never exceeds Python's stack: with batches and
  transactions ranked up to \<open>n\<close> in the order of trade, calls nest at most \<open>2 * n + 3\<close> deep. Whatever
  happens, no object is lost and none is given or loses a hash.
\<close>

theorem logging_returns:
  assumes "in_order rb rt n (wl_assets db)" and "call_ok stored c db" and "2 * n + 3 \<le> fuel"
    and "log_assets env fuel c db = (db', r)"
  shows "r \<noteq> Inl PyRecursionError \<and>
    (\<forall>b x. as_batches (wl_assets db) b = Some x \<longrightarrow> (\<exists>y. as_batches (wl_assets db') b = Some y \<and>
       mk_id (ab_mark y) = mk_id (ab_mark x) \<and> mk_address (ab_mark y) = mk_address (ab_mark x))) \<and>
    (\<forall>t x. as_txs (wl_assets db) t = Some x \<longrightarrow> (\<exists>y. as_txs (wl_assets db') t = Some y \<and>
       mk_id (ax_mark y) = mk_id (ax_mark x) \<and> mk_address (ax_mark y) = mk_address (ax_mark x)))"
proof (intro conjI allI impI)
  have c: "call_ok remembered c db"
    using assms(2) unfolding call_ok_def by (auto intro: stored_remembered split: call.split_asm)
  have "depth rb rt n (wl_assets db) c \<le> 2 * n + 3"
    using assms(1,2) unfolding in_order_def call_ok_def depth_def
    by (fastforce split: call.split option.split)
  then show "r \<noteq> Inl PyRecursionError"
    using log_assets_returns [OF assms(1) c, of fuel env] assms(3,4) by (simp add: returns_def)
  have k: "same_static (wl_assets db) (wl_assets db')"
    using lasting_actions(6) [OF c, of env fuel] by (simp add: leads_def lasting_def assms(4))
  show "\<exists>y. as_batches (wl_assets db') b = Some y \<and>
      mk_id (ab_mark y) = mk_id (ab_mark x) \<and> mk_address (ab_mark y) = mk_address (ab_mark x)"
    if "as_batches (wl_assets db) b = Some x" for b x
    using same_static_rows(1) [OF k that] by (auto simp: static_mark_def)
  show "\<exists>y. as_txs (wl_assets db') t = Some y \<and>
      mk_id (ax_mark y) = mk_id (ax_mark x) \<and> mk_address (ax_mark y) = mk_address (ax_mark x)"
    if "as_txs (wl_assets db) t = Some x" for t x
    using same_static_rows(2) [OF k that] by (auto simp: static_mark_def)
qed

section \<open>A purchase from a farmer\<close>

definition demo_env_asset :: asset_env where
  "demo_env_asset =
     \<lparr>ae_now = 0, ae_key = (\<lambda>r n. ''k''), ae_pw = ''p'', ae_company = (\<lambda>n. n = 6), ae_farm = (\<lambda>n. n = 5), ae_chains = (\<lambda>_. [3])\<rparr>"

definition demo_wallet :: "nat \<Rightarrow> wallet" where
  "demo_wallet node =
     \<lparr>wl_node = node, wl_account_id = ''a'', wl_public = ''b'', wl_private = ''c'', wl_hedera = True, wl_default = True,
      wl_request = None\<rparr>"

text \<open>Company 6 bought batch 2 of farmer 5 in transaction 2, which \<open>copies\<close> source rows name; batch 3 is the result.\<close>

definition demo_purchase :: "nat \<Rightarrow> assets" where
  "demo_purchase copies =
     \<lparr>as_batches = [2 \<mapsto> \<lparr>ab_product = 2, ab_node = 5, ab_wallet = Some 2, ab_source = None, ab_current = 0, ab_mark = no_mark\<rparr>,
                    3 \<mapsto> \<lparr>ab_product = 2, ab_node = 6, ab_wallet = None, ab_source = Some 2, ab_current = 9, ab_mark = no_mark\<rparr>],
      as_next_batch = 4,
      as_txs = [2 \<mapsto> \<lparr>ax_external = True, ax_incoming = True, ax_source = 5, ax_destination = 6, ax_source_wallet = None,
                        ax_destination_wallet = None, ax_mark = no_mark\<rparr>],
      as_next_tx = 3,
      as_sources = (\<lambda>s. if s < copies then Some \<lparr>az_tx = 2, az_batch = 2, az_mark = no_mark\<rparr> else None), as_next_source = copies,
      as_migrations = Map.empty, as_next_migration = 2,
      as_nps = [2 \<mapsto> \<lparr>np_product = 2, np_wallet = 2, np_association = None, np_associated = True, np_kyc = True,
                        np_request = None\<rparr>],
      as_next_np = 3, as_associations = Map.empty, as_next_association = 2,
      as_products = [2 \<mapsto> \<lparr>pr_chain = 3, pr_token = ''t'', pr_request = None\<rparr>], as_next_product = 3\<rparr>"

definition demo_assets :: "nat \<Rightarrow> asset_db" where
  "demo_assets copies =
     (empty_wallet_db (demo_purchase copies))\<lparr>wl_wallets := [2 \<mapsto> demo_wallet 5, 3 \<mapsto> demo_wallet 6], wl_next_wallet := 4\<rparr>"

theorem logging_returns_witness:
  "snd (log_assets demo_env_asset 9 (LogTransaction 2) (demo_assets 2)) \<noteq> Inl PyRecursionError"
proof -
  have o: "in_order (\<lambda>b. if b = 2 then 0 else 2) (\<lambda>t. 1) 2 (wl_assets (demo_assets 2))"
    by (auto simp: in_order_def demo_assets_def demo_purchase_def empty_wallet_db_def no_mark_def split: if_split_asm)
  have "call_ok stored (LogTransaction 2) (demo_assets 2)" and "2 * 2 + 3 \<le> (9 :: nat)" by (simp_all add: call_ok_def)
  from logging_returns [OF o this, of demo_env_asset] show ?thesis
    by (cases "log_assets demo_env_asset 9 (LogTransaction 2) (demo_assets 2)") simp
qed

text \<open>
  A batch named by two source rows of a purchase is loaded twice, and two requests to mint it
  are sent: its quantity is minted twice.
\<close>

lemma repeated_source_minted_twice:
  "map (\<lambda>rid. map_option rq_type (bc_requests (fst (log_assets demo_env_asset 9 (LogTransaction 2) (demo_assets 2))) rid))
      (bc_queue (fst (log_assets demo_env_asset 9 (LogTransaction 2) (demo_assets 2)))) =
    [Some MintTokenRequest, Some MintTokenRequest]"
  by code_simp

end
