(* ===== verification/Asset_Answers.thy ===== *)
theory Asset_Answers
  imports Asset_Logging
begin

text \<open>
  The answers of the middleware about assets keep the protocol, so that the theorems on
  callbacks hold with them, and what an answer writes.
\<close>

section \<open>Answers keep the protocol\<close>

lemma lawful_trans: "lawful ks a b \<Longrightarrow> lawful ks b c \<Longrightarrow> lawful ks a c"
  by (auto simp: lawful_def intro: follows_trans follows_inv)

lemma lawful_save [simp]: "lawful ks db (save_assets f db)"
  by (simp add: lawful_same)

lemma lawful_put [simp]:
  "lawful ks db (put_batch b x db)" "lawful ks db (put_tx t u db)" "lawful ks db (put_source s v db)"
  "lawful ks db (put_migration m w db)" "lawful ks db (put_np n y db)" "lawful ks db (put_association i z db)"
  "lawful ks db (put_product p q db)"
  by (simp_all add: put_batch_def put_tx_def put_source_def put_migration_def put_np_def put_association_def put_product_def)

lemma lawful_put_mark [simp]: "lawful ks db (put_mark x m db)"
  by (cases x) simp_all

text \<open>\<open>obeys\<close>: an action keeps the protocol from every state.\<close>

definition obeys :: "string set \<Rightarrow> 'a act \<Rightarrow> bool" where
  "obeys ks m \<longleftrightarrow> (\<forall>db. lawful ks db (fst (m db)))"

lemma obeys_leads: "(\<And>db. leads (lawful ks) m db) \<Longrightarrow> obeys ks m"
  by (simp add: obeys_def leads_def)

lemma obeys_bind:
  assumes "obeys ks m" and "\<And>x. obeys ks (f x)"
  shows "obeys ks (bind m f)"
  unfolding obeys_def
proof
  fix db
  obtain d r where m: "m db = (d, r)" by (cases "m db")
  then have d: "lawful ks db d" using assms(1) unfolding obeys_def by (metis fst_conv)
  show "lawful ks db (fst (bind m f db))"
  proof (cases r)
    case (Inr x)
    have "lawful ks d (fst (f x d))" using assms(2) unfolding obeys_def by blast
    then show ?thesis using lawful_trans [OF d] by (simp add: bind_def m Inr)
  qed (simp add: bind_def m d)
qed

lemma lawful_refl [simp]: "lawful ks db db"
  by (simp add: lawful_def follows_refl)

lemma obeys_reads: "(\<And>x. obeys ks (g x)) \<Longrightarrow> obeys ks (reads f g)"
  by (auto simp: obeys_def reads_def split: sum.split)

lemma obeys_writes: "(\<And>db. lawful ks db (f db)) \<Longrightarrow> obeys ks m \<Longrightarrow> obeys ks (writes f m)"
  by (auto simp: obeys_def writes_def intro: lawful_trans)

lemma obeys_give [simp]: "obeys ks (give x)"
  by (simp add: obeys_def give_def)

lemma obeys_every: "(\<And>x. obeys ks (f x)) \<Longrightarrow> obeys ks (every f xs)"
  by (induction xs) (auto intro!: obeys_bind)

named_theorems obeying

lemmas [obeying] = obeys_bind obeys_reads obeys_writes obeys_give obeys_every

definition answer_keys :: "asset_env \<Rightarrow> (nat \<Rightarrow> string) \<Rightarrow> string set" where
  "answer_keys env newkey = asset_keys env \<union> range newkey"

lemma obeys_logging [obeying]:
  "obeys (answer_keys env newkey) (perform_kyc env n x)"
  "obeys (answer_keys env newkey) (start_association env i)"
  "obeys (answer_keys env newkey) (create_association env w chain)"
  "obeys (answer_keys env newkey) (get_node_product w p)"
  "obeys (answer_keys env newkey) (new_association w chain)"
  "obeys (answer_keys env newkey) (submit_info_message env y)"
  "obeys (answer_keys env newkey) (log_assets env fuel c)"
  "obeys (answer_keys env newkey) (check env pre_check_request req)"
  "obeys (answer_keys env newkey) (begin_mark env (initialize_request ty) name y)"
  unfolding answer_keys_def
  by (rule obeys_leads,
      rule protocol.perform_kyc_leads protocol.start_association_leads protocol.create_association_leads
        protocol.get_node_product_leads protocol.new_association_leads protocol.submit_info_message_leads
        protocol.log_assets_leads protocol.check_leads protocol.begin_mark_leads,
      (simp add: call_ok_def split: call.split)?)+

lemma obeys_retry_association [obeying]: "obeys (answer_keys env newkey) (retry_association env i rid)"
proof -
  have "follows (answer_keys env newkey) db db'"
    if "bc_inv db" and r: "retry_request (ae_now env) (ae_key env (Some rid) (bc_next_token db)) toks rid db = Inr db'" for db db' toks
  proof -
    have "follows {ae_key env (Some rid) (bc_next_token db)} db db'"
      using retry_request_ok [OF that] retry_request_posted [OF r] by (simp add: follows_def)
    then show ?thesis by (rule follows_mono) (auto simp: answer_keys_def asset_keys_def)
  qed
  then show ?thesis by (auto simp: obeys_def retry_association_def lawful_def follows_refl split: sum.split)
qed

lemma obeys_associate_anew [obeying]: "obeys (answer_keys env newkey) (associate_anew env n x)"
  unfolding associate_anew_def by (auto intro!: obeying)

lemma obeys_associate_again [obeying]: "obeys (answer_keys env newkey) (associate_again env n x)"
  unfolding associate_again_def by (auto intro!: obeying split: option.split)

lemma obeys_validate [obeying]: "obeys (answer_keys env newkey) (validate_callback env target resp)"
  unfolding validate_callback_def redo_admission_def by (auto intro!: obeying split: option.split prod.split)

lemma obeys_migrations [obeying]:
  "obeys (answer_keys env newkey) (migration_post_success env m x)"
  "obeys (answer_keys env newkey) (perform_migration env m x)"
  "obeys (answer_keys env newkey) (migrate_balance_asset env b y)"
proof -
  show 1: "obeys (answer_keys env newkey) (migration_post_success env m x)" for m x
    unfolding migration_post_success_def by (auto intro!: obeying)
  show 2: "obeys (answer_keys env newkey) (perform_migration env m x)" for m x
    unfolding perform_migration_def check_pre mint_initialize_def by (auto intro!: obeying 1)
  show "obeys (answer_keys env newkey) (migrate_balance_asset env b y)"
    unfolding migrate_balance_asset_def by (auto intro!: obeying 2)
qed

lemma obeys_answers [obeying]:
  fixes env fuel newkey
  defines "K \<equiv> answer_keys env newkey" and "go \<equiv> log_assets env fuel"
  shows "obeys K (batch_update_hash env go b resp)" "obeys K (migration_update_hash env m resp)"
    and "obeys K (tx_update_hedera_data env go t resp)" "obeys K (source_update_hedera_data env s resp)"
    and "obeys K (handle_kyc_success env go n resp)" "obeys K (handle_association env i resp)"
    and "obeys K (update_token_id go p resp)" "obeys K (update_message_hash y resp)"
    and "obeys K (wallet_post_success env go w)"
  unfolding K_def go_def batch_update_hash_def migration_update_hash_def tx_update_hedera_data_def
    source_update_hedera_data_def handle_kyc_success_def handle_association_def update_token_id_def
    update_message_hash_def wallet_post_success_def batch_post_success_def hash_result_batch_def hash_source_def tx_post_success_def
    np_post_success_def retry_pending_def
  by (auto intro!: obeying split: prod.split)

lemma obeys_wallet_answer [obeying]:
  "obeys (answer_keys env newkey) (wallet_answer env (log_assets env fuel) newkey tokens enc dec ty rid resp)"
proof -
  have w: "obeys (answer_keys env newkey)
      (wallet_handle (ae_now env) newkey tokens enc dec (\<lambda>_ _ a. (a, Inl DoesNotExist)) rid resp)"
    unfolding obeys_def lawful_def answer_keys_def
    by (metis Un_upper2 follows_mono prod.collapse wallet_handle_follows)
  show ?thesis unfolding wallet_answer_def by (auto intro!: obeying w)
qed

lemma obeys_asset_handle: "obeys (answer_keys env newkey) (asset_handle env fuel newkey tokens enc dec rid resp)"
  unfolding asset_handle_def asset_answer_def
  by (auto intro!: obeying split: req_type.split list.split)

interpretation assets:
  callback_owner "wallet_topup now key pw initiator" "asset_handle env fuel newkey tokens enc dec"
    "insert key (answer_keys env newkey)"
  for now key pw initiator env fuel newkey tokens enc dec
proof unfold_locales
  fix db db' :: asset_db and rid retry x
  assume "bc_inv db" "wallet_topup now key pw initiator rid retry db = (db', x)"
  then have "follows (insert key (answer_keys env newkey)) db db'"
    by (blast intro: follows_mono wallet_topup_follows)
  then show "bc_inv db' \<and> evolves (insert key (answer_keys env newkey)) db db' \<and> bc_posted db' = bc_posted db"
    by (simp add: follows_def)
next
  fix db db' :: asset_db and rid resp y
  assume "bc_inv db" "asset_handle env fuel newkey tokens enc dec rid resp db = (db', y)"
  then have "follows (answer_keys env newkey) db db'"
    using obeys_asset_handle [of env newkey fuel tokens enc dec rid resp] unfolding obeys_def lawful_def by (metis fst_conv)
  then have "follows (insert key (answer_keys env newkey)) db db'" by (rule follows_mono) auto
  then show "bc_inv db' \<and> evolves (insert key (answer_keys env newkey)) db db' \<and> bc_posted db' = bc_posted db"
    by (simp add: follows_def)
qed

section \<open>What an answer writes\<close>

lemma lasting_trans: "lasting a b \<Longrightarrow> lasting b c \<Longrightarrow> lasting a c"
  by (auto simp: lasting_def intro: same_static_trans)

lemma valid_answer: "validate_callback env target resp db = (db', Inr True) \<Longrightarrow> db' = db \<and> rs_message resp = None"
  by (auto simp: validate_callback_def bind_eq_Inr split: option.split_asm if_split_asm)

text \<open>The sources of a transaction take its id and address.\<close>

lemma hash_source_written:
  assumes "every (hash_source x) ss db = (db', Inr ys)" and "distinct (map fst ss)"
  shows "as_batches (wl_assets db') = as_batches (wl_assets db)" and "as_txs (wl_assets db') = as_txs (wl_assets db)"
    and "s \<notin> fst ` set ss \<Longrightarrow> as_sources (wl_assets db') s = as_sources (wl_assets db) s"
    and "(s, y) \<in> set ss \<Longrightarrow> \<exists>z. as_sources (wl_assets db') s = Some z \<and> az_tx z = az_tx y \<and>
      mk_id (az_mark z) = mk_id (ax_mark x) \<and> mk_address (az_mark z) = mk_address (ax_mark x)"
proof -
  have "as_batches (wl_assets db') = as_batches (wl_assets db) \<and> as_txs (wl_assets db') = as_txs (wl_assets db) \<and>
      (\<forall>s. s \<notin> fst ` set ss \<longrightarrow> as_sources (wl_assets db') s = as_sources (wl_assets db) s) \<and>
      (\<forall>s y. (s, y) \<in> set ss \<longrightarrow> (\<exists>z. as_sources (wl_assets db') s = Some z \<and> az_tx z = az_tx y \<and>
        mk_id (az_mark z) = mk_id (ax_mark x) \<and> mk_address (az_mark z) = mk_address (ax_mark x)))"
    using assms
  proof (induction ss arbitrary: db ys)
    case (Cons p ss)
    obtain s y where p: "p = (s, y)" by (cases p)
    define d where "d = put_source s (y\<lparr>az_mark := (az_mark y)\<lparr>mk_id := mk_id (ax_mark x), mk_address := mk_address (ax_mark x)\<rparr>\<rparr>) db"
    obtain zs where e: "every (hash_source x) ss d = (db', Inr zs)"
      using Cons.prems(1) by (auto simp: bind_eq_Inr hash_source_def p writes_def give_def d_def)
    have d: "as_batches (wl_assets d) = as_batches (wl_assets db)" "as_txs (wl_assets d) = as_txs (wl_assets db)"
      "as_sources (wl_assets d) = (as_sources (wl_assets db))(s \<mapsto> y\<lparr>az_mark := (az_mark y)\<lparr>mk_id := mk_id (ax_mark x),
        mk_address := mk_address (ax_mark x)\<rparr>\<rparr>)" by (simp_all add: d_def put_source_def)
    show ?case using Cons.IH [OF e] Cons.prems(2) d by (auto simp: p)
  qed simp
  then show "as_batches (wl_assets db') = as_batches (wl_assets db)" "as_txs (wl_assets db') = as_txs (wl_assets db)"
    "s \<notin> fst ` set ss \<Longrightarrow> as_sources (wl_assets db') s = as_sources (wl_assets db) s"
    "(s, y) \<in> set ss \<Longrightarrow> \<exists>z. as_sources (wl_assets db') s = Some z \<and> az_tx z = az_tx y \<and>
      mk_id (az_mark z) = mk_id (ax_mark x) \<and> mk_address (az_mark z) = mk_address (ax_mark x)" by blast+
qed

lemma loaded_rows_newest:
  "fst ` set (loaded_rows rows (newest p rows n)) = set (newest p rows n)" "distinct (map fst (loaded_rows rows (newest p rows n)))"
proof -
  have "map fst (loaded_rows rows ids) = ids" if "\<forall>i\<in>set ids. rows i \<noteq> None" for ids
    using that by (induction ids) (auto simp: loaded_rows_def)
  moreover have "\<forall>i\<in>set (newest p rows n). rows i \<noteq> None" using newest_in by fastforce
  ultimately have m: "map fst (loaded_rows rows (newest p rows n)) = newest p rows n" by blast
  then show "fst ` set (loaded_rows rows (newest p rows n)) = set (newest p rows n)" by (metis list.set_map)
  show "distinct (map fst (loaded_rows rows (newest p rows n)))" unfolding m by (simp add: newest_def)
qed

lemma post_logging_lasting:
  assumes "every (\<lambda>b. reads (\<lambda>db. Inr (outgoing b (wl_assets db))) (every (\<lambda>u. log_assets env fuel (LogTransaction u)))) bs db = (db', r)"
  shows "lasting db db'"
proof -
  have "leads lasting (every (\<lambda>b. reads (\<lambda>db. Inr (outgoing b (wl_assets db))) (every (\<lambda>u. log_assets env fuel (LogTransaction u)))) bs) db"
    by (intro objects.every_leads [unfolded lasting_leads] objects.reads_leads [unfolded lasting_leads])
      (auto intro!: objects.every_leads [unfolded lasting_leads] lasting_actions(6) simp: lasting_def call_ok_def)
  then show ?thesis by (simp add: leads_def assms)
qed

text \<open>
  C10: When the middleware reports that a transaction was transferred, the transaction and all
  its source rows get the id and the address of the answer, and so does its newest result
  batch, if it has none; of the other batches none is given or loses an address.
\<close>

theorem transfer_answer_settles:
  assumes a: "tx_update_hedera_data env (log_assets env fuel) t resp db = (db', Inr True)"
    and x: "as_txs (wl_assets db) t = Some x" and results: "results_of t (wl_assets db) = b # bs"
    and y: "as_batches (wl_assets db) b = Some y" and blank: "mk_id (ab_mark y) = []" "mk_address (ab_mark y) = []"
  shows "\<exists>i h. data_field ''transactionId'' resp = Inr i \<and> data_field ''transactionHash'' resp = Inr h \<and>
    (\<exists>x'. as_txs (wl_assets db') t = Some x' \<and> mk_id (ax_mark x') = i \<and> mk_address (ax_mark x') = h) \<and>
    (\<exists>y'. as_batches (wl_assets db') b = Some y' \<and> mk_id (ab_mark y') = i \<and> mk_address (ab_mark y') = h) \<and>
    (\<forall>s\<in>set (sources_of t (wl_assets db)). \<exists>z. as_sources (wl_assets db') s = Some z \<and> az_tx z = t \<and>
       mk_id (az_mark z) = i \<and> mk_address (az_mark z) = h) \<and>
    (\<forall>c z. c \<noteq> b \<and> as_batches (wl_assets db) c = Some z \<longrightarrow>
       (\<exists>z'. as_batches (wl_assets db') c = Some z' \<and> mk_address (ab_mark z') = mk_address (ab_mark z)))"
proof -
  obtain ok d0 m where v: "validate_callback env
        (\<lambda>db. rbind (result_batch t db) (\<lambda>(b, y). rbind (of_option IntegrityError (ax_destination_wallet x)) (\<lambda>w. Inr (w, ab_product y))))
        resp db = (d0, Inr ok)" and ok: "ok" and m: "logged_as resp (ax_mark x) = Inr m"
    and r: "bind (hash_result_batch t (x\<lparr>ax_mark := m\<rparr>)) (\<lambda>_. tx_post_success env (log_assets env fuel) t (x\<lparr>ax_mark := m\<rparr>))
        (put_tx t (x\<lparr>ax_mark := m\<rparr>) d0) = (db', Inr True)"
    using a x by (auto simp: tx_update_hedera_data_def reads_eq_Inr bind_eq_Inr writes_eq split: if_split_asm)
  have d0: "d0 = db" using v ok by (auto dest: valid_answer)
  obtain i h where f: "data_field ''transactionId'' resp = Inr i" "data_field ''transactionHash'' resp = Inr h"
    and mk: "mk_id m = i" "mk_address m = h"
    using m by (auto simp: logged_as_def rbind_eq_Inr)
  define x' where "x' = x\<lparr>ax_mark := m\<rparr>"
  define y' where "y' = y\<lparr>ab_wallet := ax_destination_wallet x', ab_mark := (ab_mark y)\<lparr>mk_id := i, mk_address := h\<rparr>\<rparr>"
  define d2 where "d2 = put_batch b y' (put_tx t x' db)"
  have rb: "result_batch t (put_tx t x' db) = Inr (b, y)"
    using results y by (simp add: result_batch_def results_of_def put_tx_def row_def of_option_def)
  have hx: "mk_id (ax_mark x') = i" "mk_address (ax_mark x') = h" using mk by (simp_all add: x'_def)
  have "hash_result_batch t x' (put_tx t x' db) = (d2, Inr ())"
    by (simp add: hash_result_batch_def reads_def rb blank hx writes_def give_def d2_def y'_def)
  then have p: "tx_post_success env (log_assets env fuel) t x' d2 = (db', Inr True)"
    using r by (auto simp: d0 bind_eq_Inr x'_def)
  have rows: "as_txs (wl_assets d2) t = Some x'" "as_batches (wl_assets d2) = (as_batches (wl_assets db))(b \<mapsto> y')"
    "as_sources (wl_assets d2) = as_sources (wl_assets db)" "as_next_source (wl_assets d2) = as_next_source (wl_assets db)"
    by (simp_all add: d2_def put_batch_def put_tx_def)
  obtain d3 u d4 us ys where s: "submit_info_message env (OfTx t x') d2 = (d3, Inr u)"
    and l: "every (\<lambda>b. reads (\<lambda>db. Inr (outgoing b (wl_assets db))) (every (\<lambda>u. log_assets env fuel (LogTransaction u))))
        (results_of t (wl_assets d3)) d3 = (d4, Inr us)"
    and e: "every (hash_source x') (loaded_rows (as_sources (wl_assets d4)) (sources_of t (wl_assets d4))) d4 = (db', Inr ys)"
    using p by (auto simp: tx_post_success_def reads_eq_Inr bind_eq_Inr)
  have "lasting d2 d3"
    using lasting_actions(2) [of "OfTx t x'" d2 env] s rows(1) by (simp add: leads_def stored_remembered)
  then have k: "same_static (wl_assets d2) (wl_assets d4)" using post_logging_lasting [OF l] lasting_trans by (simp add: lasting_def)
  have dist: "distinct (map fst (loaded_rows (as_sources (wl_assets d4)) (sources_of t (wl_assets d4))))"
    unfolding sources_of_def by (rule loaded_rows_newest)
  note w = hash_source_written [OF e dist]
  have 1: "\<exists>z. as_txs (wl_assets db') t = Some z \<and> mk_id (ax_mark z) = i \<and> mk_address (ax_mark z) = h"
    using same_static_rows(2) [OF k rows(1)] mk by (auto simp: w(2) static_mark_def x'_def)
  have 2: "\<exists>z. as_batches (wl_assets db') b = Some z \<and> mk_id (ab_mark z) = i \<and> mk_address (ab_mark z) = h"
    using same_static_rows(1) [OF k, of b y'] rows(2) by (auto simp: w(1) static_mark_def y'_def)
  have 3: "\<exists>z. as_sources (wl_assets db') s = Some z \<and> az_tx z = t \<and> mk_id (az_mark z) = i \<and> mk_address (az_mark z) = h"
    if s: "s \<in> set (sources_of t (wl_assets db))" for s
  proof -
    obtain z where z: "as_sources (wl_assets d2) s = Some z" "az_tx z = t" "s < as_next_source (wl_assets d2)"
      using newest_in [OF s [unfolded sources_of_def]] rows(3,4) by auto
    obtain z' where "as_sources (wl_assets d4) s = Some z'" "az_tx z' = t"
      using same_static_rows(3) [OF k z(1)] z(2) by auto
    moreover have "s < as_next_source (wl_assets d4)" using z(3) k by (simp add: same_static_def)
    ultimately have z': "as_sources (wl_assets d4) s = Some z'" "az_tx z' = t" "s < as_next_source (wl_assets d4)" by simp_all
    then have "s \<in> set (sources_of t (wl_assets d4))" by (simp add: sources_of_def newest_def)
    then have "(s, z') \<in> set (loaded_rows (as_sources (wl_assets d4)) (sources_of t (wl_assets d4)))"
      using z' by (force simp: loaded_rows_def)
    then show ?thesis using w(4) z'(2) mk by (auto simp: x'_def)
  qed
  have 4: "\<exists>z'. as_batches (wl_assets db') c = Some z' \<and> mk_address (ab_mark z') = mk_address (ab_mark z)"
    if "c \<noteq> b" "as_batches (wl_assets db) c = Some z" for c z
    using same_static_rows(1) [OF k, of c z] that rows(2) by (auto simp: w(1) static_mark_def)
  show ?thesis using f 1 2 3 4 by blast
qed

definition demo_transferred :: response where
  "demo_transferred = \<lparr>rs_success = Some True, rs_message = None,
     rs_data = Some (Resp_Dict [(''transactionId'', ''i''), (''transactionHash'', ''h'')] None)\<rparr>"

theorem transfer_answer_settles_witness:
  "\<exists>db' y. tx_update_hedera_data demo_env_asset (log_assets demo_env_asset 9) 2 demo_transferred (demo_assets 2) = (db', Inr True) \<and>
     as_batches (wl_assets db') 3 = Some y \<and> mk_address (ab_mark y) = ''h''"
proof -
  define out where "out = tx_update_hedera_data demo_env_asset (log_assets demo_env_asset 9) 2 demo_transferred (demo_assets 2)"
  have "(case snd out of Inr ok \<Rightarrow> ok | Inl e \<Rightarrow> False)" unfolding out_def by code_simp
  then obtain db' where a: "tx_update_hedera_data demo_env_asset (log_assets demo_env_asset 9) 2 demo_transferred (demo_assets 2) = (db', Inr True)"
    by (cases out) (auto simp: out_def [symmetric] split: sum.split_asm)
  have x: "as_txs (wl_assets (demo_assets 2)) 2 = Some \<lparr>ax_external = True, ax_incoming = True, ax_source = 5, ax_destination = 6,
      ax_source_wallet = None, ax_destination_wallet = None, ax_mark = no_mark\<rparr>"
    and y: "as_batches (wl_assets (demo_assets 2)) 3 = Some \<lparr>ab_product = 2, ab_node = 6, ab_wallet = None, ab_source = Some 2,
      ab_current = 9, ab_mark = no_mark\<rparr>"
    by (simp_all add: demo_assets_def demo_purchase_def empty_wallet_db_def)
  have r: "results_of 2 (wl_assets (demo_assets 2)) = 3 # []" by code_simp
  have "data_field ''transactionHash'' demo_transferred = Inr ''h''"
    by (simp add: data_field_def response_dict_def demo_transferred_def of_option_def)
  with transfer_answer_settles [OF a x r y] show ?thesis using a by (auto simp: no_mark_def)
qed

section \<open>What a started request needs\<close>

lemma get_node_product_row:
  assumes "get_node_product w p db = (db', Inr n)" and "as_nps (wl_assets db') n = Some x"
  shows "np_wallet x = w \<and> np_product x = p"
proof (cases "newest (\<lambda>n. np_wallet n = w \<and> np_product n = p) (as_nps (wl_assets db)) (as_next_np (wl_assets db))")
  case Nil
  then show ?thesis using assms by (auto simp: get_node_product_def Let_def save_assets_def)
next
  case (Cons m ms)
  then have "m \<in> set (newest (\<lambda>n. np_wallet n = w \<and> np_product n = p) (as_nps (wl_assets db)) (as_next_np (wl_assets db)))" by simp
  from newest_in [OF this] show ?thesis using assms Cons by (auto simp: get_node_product_def Let_def)
qed

lemma begin_mark_new:
  assumes "begin_mark env (initialize_request ty) name y db = (db', Inr True)" and "mk_request (mark_of y) = None"
    and "ty \<noteq> AssociateTokenRequest"
  shows "\<exists>rid r. bc_requests db' rid = Some r \<and> rq_type r = ty \<and> rq_status r = BC_PENDING \<and> bc_queue db' = bc_queue db @ [rid] \<and>
    wl_assets db' = wl_assets (put_mark y ((mark_of y)\<lparr>mk_request := Some rid\<rparr>) db)"
  using assms
  by (cases y) (auto simp: begin_mark_def begin_send_def begin_request_def initialize_request_def create_request_def send_request_def
      base_send_def save_request_def save_token_def Let_def rbind_eq_Inr put_batch_def put_tx_def put_source_def put_migration_def
      save_assets_def split: sum.split_asm)

text \<open>
  C9: A batch is only minted in a wallet that is associated with the token of its product and
  admitted to it: a request to mint it is started, pending and queued for posting, only when
  the wallet's row of the product says both, and the batch then names the wallet and the request.
\<close>

theorem minting_needs_admission:
  assumes "create_asset env (log_assets env fuel) b x db = (db', Inr True)"
    and "mk_address (ab_mark x) = []" and "mk_request (ab_mark x) = None"
  shows "\<exists>w n np y rid r. as_nps (wl_assets db') n = Some np \<and> np_wallet np = w \<and> np_product np = ab_product x \<and>
    np_associated np \<and> np_kyc np \<and> as_batches (wl_assets db') b = Some y \<and> ab_wallet y = Some w \<and>
    mk_request (ab_mark y) = Some rid \<and> bc_requests db' rid = Some r \<and> rq_type r = MintTokenRequest \<and>
    rq_status r = BC_PENDING \<and> last (bc_queue db') = rid"
proof -
  obtain w d n d2 np where n: "get_node_product w (ab_product x) d = (d2, Inr n)" "as_nps (wl_assets d2) n = Some np"
    and ok: "np_associated np" "np_kyc np"
    and m: "begin_mark env (initialize_request MintTokenRequest) ''products_Batch'' (OfBatch b (x\<lparr>ab_wallet := Some w\<rparr>)) d2 = (db', Inr True)"
    using assms(1,2) by (auto simp: create_asset_def check_pre bind_eq_Inr reads_eq_Inr give_def mint_initialize_def
        split: if_split_asm option.split_asm)
  obtain rid r where r: "bc_requests db' rid = Some r" "rq_type r = MintTokenRequest" "rq_status r = BC_PENDING"
    "bc_queue db' = bc_queue d2 @ [rid]"
    "wl_assets db' = (wl_assets d2)\<lparr>as_batches := (as_batches (wl_assets d2))(b \<mapsto>
       x\<lparr>ab_wallet := Some w, ab_mark := (ab_mark x)\<lparr>mk_request := Some rid\<rparr>\<rparr>)\<rparr>"
    using begin_mark_new [OF m] assms(3) by (auto simp: put_batch_def save_assets_def)
  have "as_nps (wl_assets db') n = Some np" using n(2) r(5) by simp
  then show ?thesis using get_node_product_row [OF n] ok r by fastforce
qed

definition demo_farm_batch :: asset_batch where
  "demo_farm_batch = \<lparr>ab_product = 2, ab_node = 5, ab_wallet = Some 2, ab_source = None, ab_current = 0, ab_mark = no_mark\<rparr>"

theorem minting_needs_admission_witness:
  "\<exists>db' rid r. create_asset demo_env_asset (log_assets demo_env_asset 9) 2 demo_farm_batch (demo_assets 2) = (db', Inr True) \<and>
     bc_requests db' rid = Some r \<and> rq_type r = MintTokenRequest"
proof -
  define out where "out = create_asset demo_env_asset (log_assets demo_env_asset 9) 2 demo_farm_batch (demo_assets 2)"
  have "(case snd out of Inr ok \<Rightarrow> ok | Inl e \<Rightarrow> False)" unfolding out_def by code_simp
  then obtain db' where a: "create_asset demo_env_asset (log_assets demo_env_asset 9) 2 demo_farm_batch (demo_assets 2) = (db', Inr True)"
    by (cases out) (auto simp: out_def [symmetric] split: sum.split_asm)
  from minting_needs_admission [OF a] show ?thesis using a by (auto simp: demo_farm_batch_def no_mark_def)
qed

section \<open>Runs\<close>


definition demo_new_db :: asset_db where
  "demo_new_db = (case start_request (initialize_request SubmitMessageRequest) pre_check_request [] 0 ''k'' ''p'' ''m''
     None None (empty_wallet_db (demo_purchase 2)) of Inr (db, rid) \<Rightarrow> db | Inl e \<Rightarrow> empty_wallet_db (demo_purchase 2))"

lemma demo_new_db:
  "start_request (initialize_request SubmitMessageRequest) pre_check_request [] 0 ''k'' ''p'' ''m'' None None
     (empty_wallet_db (demo_purchase 2)) = Inr (demo_new_db, Some 1)"
  "bc_requests demo_new_db 1 = Some demo_request"
  by (simp_all add: demo_new_db_def demo_defs Let_def)


section \<open>The second result of a transaction\<close>

text \<open>
  A company's batch that came out of a logged external transaction and was not given its hash,
  because it is not the newest result, is never minted: nothing is written or sent for it.
\<close>

definition parked :: "asset_db \<Rightarrow> asset_db \<Rightarrow> bool" where
  "parked db d \<longleftrightarrow> wl_assets d = wl_assets db \<and> bc_queue d = bc_queue db"

lemma pre_check_request_parked:
  assumes "pre_check_request now req d = Inr (d', s, msg)"
  shows "wl_assets d' = wl_assets d \<and> bc_queue d' = bc_queue d"
  using assms by (auto simp: pre_check_request_def rbind_eq_Inr discard_request_def save_request_def save_token_def Let_def
      split: option.split_asm if_split_asm)

lemma check_parked: "parked db d \<Longrightarrow> parked db (fst (check env pre_check_request req d))"
proof (cases "pre_check_request (ae_now env) req d")
  case (Inr x)
  assume "parked db d"
  moreover obtain d' s m where x: "x = (d', s, m)" by (cases x)
  ultimately show ?thesis
    using pre_check_request_parked [OF Inr [unfolded x]] by (simp add: parked_def check_def Inr x)
qed (simp add: parked_def check_def)

lemma logged_transaction_parked:
  assumes "parked db d" and "as_txs (wl_assets db) t = Some u" and "ax_external u" and "mk_address (ax_mark u) \<noteq> []"
  shows "parked db (fst (log_assets env (Suc n) (LogTransaction t) d))"
proof -
  obtain d' r where c: "check env pre_check_request (mk_request (ax_mark u)) d = (d', r)"
    by (cases "check env pre_check_request (mk_request (ax_mark u)) d")
  have "parked db d'" using check_parked [OF assms(1), of env "mk_request (ax_mark u)"] by (simp add: c)
  moreover have "as_txs (wl_assets d) t = Some u" using assms(1,2) by (simp add: parked_def)
  ultimately show ?thesis
    using assms(3,4) by (auto simp: one_call_def log_transaction_def log_external_def check_pre c bind_def reads_def row_def of_option_def
        give_def split: sum.split)
qed

lemma second_result_stuck:
  assumes "ae_company env (ab_node x)" and "ab_source x = Some t" and "mk_address (ab_mark x) = []"
    and t: "as_txs (wl_assets db) t = Some u" "ax_external u" "mk_address (ax_mark u) \<noteq> []"
    and l: "log_assets env (Suc (Suc n)) (CreateAsset b x) db = (db', r)"
  shows "wl_assets db' = wl_assets db \<and> bc_queue db' = bc_queue db"
proof -
  obtain d s where c: "check env pre_check_request (mk_request (ab_mark x)) db = (d, s)"
    by (cases "check env pre_check_request (mk_request (ab_mark x)) db")
  have d: "parked db d" using check_parked [of db db env "mk_request (ab_mark x)"] by (simp add: c parked_def)
  obtain d' s' where e: "log_assets env (Suc n) (LogTransaction t) d = (d', s')"
    by (cases "log_assets env (Suc n) (LogTransaction t) d")
  have d': "parked db d'" using logged_transaction_parked [OF d t, of env n] by (simp only: e fst_conv)
  have "as_txs (wl_assets d) t = Some u" using d t(1) by (simp add: parked_def)
  then have "parked db db'"
    using l assms(1-3) t(2) d d'
    by (subst (asm) log_assets.simps) (auto simp del: log_assets.simps simp: one_call_def create_asset_def check_pre c bind_def through_transaction_def reads_def
        row_def of_option_def e give_def split: sum.split_asm if_split_asm)
  then show ?thesis by (simp add: parked_def)
qed

end
