(* ===== verification/Transaction_Graph.thy ===== *)
theory Transaction_Graph
  imports Common_Library
begin

text \<open>
  The graph of transactions: \<open>GraphModel\<close> of \<open>common/models.py\<close> and the walks of
  \<open>Transaction\<close> in \<open>v2/transactions/models.py\<close>. The many-to-many field
  \<open>parents\<close> is a function from primary keys to lists of primary keys. The code recurses
  without a bound; the fuel of the walks is the recursion limit, and running out of it is
  \<open>PyRecursionError\<close>. \<open>ranked\<close> (parents have smaller keys) is what the ledger
  maintains, and under it a fuel above the key is always enough.
\<close>

section \<open>Walks\<close>

text \<open>The parents, and the ancestors of each parent.\<close>

fun get_ancestors :: "nat \<Rightarrow> (nat \<Rightarrow> nat list) \<Rightarrow> nat \<Rightarrow> nat set result" where
  "get_ancestors 0 par n = Inl PyRecursionError"
| "get_ancestors (Suc k) par n =
     rfold (\<lambda>p acc. rbind (get_ancestors k par p) (\<lambda>s. Inr (acc \<union> s))) (par n) (set (par n))"

definition ancestors_with_self :: "nat \<Rightarrow> (nat \<Rightarrow> nat list) \<Rightarrow> nat \<Rightarrow> nat set result" where
  "ancestors_with_self k par n = rbind (get_ancestors k par n) (\<lambda>s. Inr (insert n s))"

text \<open>\<open>children\<close> is the reverse of the field, over the keys below \<open>bound\<close>.\<close>

definition children_of :: "nat \<Rightarrow> (nat \<Rightarrow> nat list) \<Rightarrow> nat \<Rightarrow> nat list" where
  "children_of bound par n = [m\<leftarrow>[0..<bound]. n \<in> set (par m)]"

text \<open>\<open>get_descendants\<close> is the same walk along the children.\<close>

definition get_descendants :: "nat \<Rightarrow> nat \<Rightarrow> (nat \<Rightarrow> nat list) \<Rightarrow> nat \<Rightarrow> nat set result" where
  "get_descendants k bound par n = get_ancestors k (children_of bound par) n"

fun get_root_nodes :: "nat \<Rightarrow> (nat \<Rightarrow> nat list) \<Rightarrow> nat \<Rightarrow> nat set result" where
  "get_root_nodes 0 par n = Inl PyRecursionError"
| "get_root_nodes (Suc k) par n =
     (if par n = [] then Inr {n}
      else rfold (\<lambda>p acc. rbind (get_root_nodes k par p) (\<lambda>s. Inr (acc \<union> s))) (par n) {})"

definition get_leaf_nodes :: "nat \<Rightarrow> nat \<Rightarrow> (nat \<Rightarrow> nat list) \<Rightarrow> nat \<Rightarrow> nat set result" where
  "get_leaf_nodes k bound par n = get_root_nodes k (children_of bound par) n"

definition is_island :: "nat \<Rightarrow> (nat \<Rightarrow> nat list) \<Rightarrow> nat \<Rightarrow> bool" where
  "is_island bound par n = (\<not> (par n \<noteq> [] \<or> children_of bound par n \<noteq> []))"

text \<open>
  The variant with \<open>batches\<close>: a parent counts only if one of its result batches is a
  parent of one of the given batches, and the walk goes on from those parent batches. An
  empty set of batches is falsy and filters nothing.
\<close>

fun get_ancestors_of_batches ::
    "nat \<Rightarrow> (nat \<Rightarrow> nat list) \<Rightarrow> (nat \<Rightarrow> nat list) \<Rightarrow> (nat \<Rightarrow> nat list) \<Rightarrow> nat list \<Rightarrow> nat \<Rightarrow> nat set result"
where
  "get_ancestors_of_batches 0 par results bpar bs n = Inl PyRecursionError"
| "get_ancestors_of_batches (Suc k) par results bpar bs n =
     (let sb = (if bs = [] then [] else concat (map bpar bs));
          ps = (if bs = [] then par n else [p\<leftarrow>par n. \<exists>b\<in>set (results p). b \<in> set sb])
      in rfold (\<lambda>p acc. rbind (get_ancestors_of_batches k par results bpar sb p) (\<lambda>s. Inr (acc \<union> s)))
           ps (set ps))"

section \<open>Adding and removing links\<close>

text \<open>
  Model instances are equal when their concrete classes and keys are. The field
  \<open>parents\<close> and every walk yield instances of \<open>Transaction\<close>.
\<close>

datatype tx_class = TransactionCls | ExternalTransactionCls | InternalTransactionCls

definition circular_checker ::
    "nat \<Rightarrow> (nat \<Rightarrow> nat list) \<Rightarrow> tx_class \<times> nat \<Rightarrow> tx_class \<times> nat \<Rightarrow> unit result" where
  "circular_checker k par parent child =
     (if parent = child then Inl (ValidationError ''Self links are not allowed.'')
      else rbind (get_ancestors k par (snd parent)) (\<lambda>s.
             if child \<in> Pair TransactionCls ` s
             then Inl (ValidationError ''The object is an ancestor.'') else Inr ()))"

definition add_parent ::
    "nat \<Rightarrow> (nat \<Rightarrow> nat list) \<Rightarrow> tx_class \<times> nat \<Rightarrow> tx_class \<times> nat \<Rightarrow> (nat \<Rightarrow> nat list) result" where
  "add_parent k par self ancestor =
     rbind (circular_checker k par ancestor self) (\<lambda>_.
       Inr (if snd ancestor \<in> set (par (snd self)) then par
            else par(snd self := par (snd self) @ [snd ancestor])))"

definition add_child ::
    "nat \<Rightarrow> (nat \<Rightarrow> nat list) \<Rightarrow> tx_class \<times> nat \<Rightarrow> tx_class \<times> nat \<Rightarrow> (nat \<Rightarrow> nat list) result" where
  "add_child k par self child = add_parent k par child self"

definition remove_parent :: "(nat \<Rightarrow> nat list) \<Rightarrow> nat \<Rightarrow> nat \<Rightarrow> (nat \<Rightarrow> nat list)" where
  "remove_parent par self ancestor = par(self := removeAll ancestor (par self))"

definition remove_child :: "(nat \<Rightarrow> nat list) \<Rightarrow> nat \<Rightarrow> nat \<Rightarrow> (nat \<Rightarrow> nat list)" where
  "remove_child par self child = remove_parent par child self"

section \<open>The supply-chain levels above a transaction\<close>

text \<open>What the level walk reads of a transaction.\<close>

record chain_tx =
  ct_external :: bool
  ct_reversal :: bool
  ct_declined :: bool
  ct_source :: nat
  ct_destination :: nat

definition includable_in_chain :: "chain_tx \<Rightarrow> bool" where
  "includable_in_chain t =
     (if \<not> ct_external t then False
      else if ct_reversal t then False
      else if ct_declined t then False
      else True)"

type_synonym level_dict = "(nat \<times> (string \<times> nat set)) list"

definition node_query :: "nat \<Rightarrow> string \<times> nat set" where
  "node_query n = (''Node'', {n})"

definition own_levels :: "chain_tx \<Rightarrow> nat \<Rightarrow> level_dict result" where
  "own_levels t level =
     (if includable_in_chain t then
        rbind (if level = 0 then safe_join_to_query [] 0 (node_query (ct_destination t)) else Inr [])
          (\<lambda>d. safe_join_to_query d (level + 1) (node_query (ct_source t)))
      else Inr [])"

definition join_levels :: "level_dict \<Rightarrow> level_dict \<Rightarrow> level_dict result" where
  "join_levels sub acc = rfold (\<lambda>(lvl, actors) d. safe_join_to_query d lvl actors) sub acc"

fun get_parent_actors_levels ::
    "nat \<Rightarrow> (nat \<Rightarrow> nat list) \<Rightarrow> (nat \<Rightarrow> chain_tx) \<Rightarrow> nat \<Rightarrow> nat \<Rightarrow> level_dict result"
where
  "get_parent_actors_levels 0 par tx n level = Inl PyRecursionError"
| "get_parent_actors_levels (Suc k) par tx n level =
     (let next_level = (if includable_in_chain (tx n) then level + 1 else level) in
      rbind (own_levels (tx n) level)
        (rfold (\<lambda>p acc. rbind (get_parent_actors_levels k par tx p next_level) (\<lambda>sub. join_levels sub acc))
           (par n)))"

text \<open>\<open>Batch.get_parent_actors_levels\<close>: a batch without transaction is at level 0.\<close>

definition batch_parent_actors_levels ::
    "nat \<Rightarrow> (nat \<Rightarrow> nat list) \<Rightarrow> (nat \<Rightarrow> chain_tx) \<Rightarrow> nat option \<Rightarrow> nat \<Rightarrow> level_dict result"
where
  "batch_parent_actors_levels k par tx source_transaction node =
     (case source_transaction of
        Some n \<Rightarrow> get_parent_actors_levels k par tx n 0
      | None \<Rightarrow> Inr [(0, node_query node)])"

text \<open>\<open>get_parent_transactions\<close>, the transactions a trace shows.\<close>

definition get_parent_transactions ::
    "nat \<Rightarrow> (nat \<Rightarrow> nat list) \<Rightarrow> (nat \<Rightarrow> chain_tx) \<Rightarrow> nat \<Rightarrow> bool \<Rightarrow> nat set result"
where
  "get_parent_transactions k par tx n only_internal =
     rbind (ancestors_with_self k par n) (\<lambda>ps.
       if only_internal then Inr {p\<in>ps. \<not> ct_external (tx p)}
       else Inr ({p\<in>ps. ct_external (tx p) \<and> \<not> ct_reversal (tx p) \<and> \<not> ct_declined (tx p)} \<union>
                 (if \<not> ct_external (tx n) then {n} else {})))"

section \<open>The walks compute the transitive closure\<close>

definition parent_rel :: "(nat \<Rightarrow> nat list) \<Rightarrow> (nat \<times> nat) set" where
  "parent_rel par = {(n, p). p \<in> set (par n)}"

definition ranked :: "(nat \<Rightarrow> nat list) \<Rightarrow> bool" where
  "ranked par \<longleftrightarrow> (\<forall>n. \<forall>p\<in>set (par n). p < n)"

lemma parent_rel_iff [simp]: "(n, p) \<in> parent_rel par \<longleftrightarrow> p \<in> set (par n)"
  by (simp add: parent_rel_def)

lemma rfold_union:
  "rfold (\<lambda>p acc. rbind (f p) (\<lambda>s. Inr (acc \<union> s))) ps acc = Inr S \<Longrightarrow>
     S = acc \<union> (\<Union>p\<in>set ps. case f p of Inr s \<Rightarrow> s | Inl _ \<Rightarrow> {}) \<and> (\<forall>p\<in>set ps. \<exists>s. f p = Inr s)"
proof (induction ps arbitrary: acc)
  case (Cons p ps)
  then obtain s where s: "f p = Inr s"
    "rfold (\<lambda>p acc. rbind (f p) (\<lambda>s. Inr (acc \<union> s))) ps (acc \<union> s) = Inr S"
    by (auto simp: rbind_eq_Inr)
  from Cons.IH [OF s(2)] show ?case by (simp add: s(1) Un_assoc)
qed simp

lemma rfold_union_returns:
  assumes "\<And>p. p \<in> set ps \<Longrightarrow> \<exists>s. f p = Inr s"
  shows "\<exists>S. rfold (\<lambda>p acc. rbind (f p) (\<lambda>s. Inr (acc \<union> s))) ps acc = Inr S"
  using assms
proof (induction ps arbitrary: acc)
  case (Cons p ps)
  obtain s where "f p = Inr s" using Cons.prems [of p] by auto
  then show ?case using Cons by simp
qed simp

lemma trancl_parents:
  "{p. (n, p) \<in> (parent_rel par)\<^sup>+} = set (par n) \<union> (\<Union>q\<in>set (par n). {p. (q, p) \<in> (parent_rel par)\<^sup>+})"
  by (auto intro: trancl_into_trancl2 dest: tranclD simp: rtrancl_eq_or_trancl)

lemma get_ancestors_sound:
  "get_ancestors k par n = Inr S \<Longrightarrow> S = {p. (n, p) \<in> (parent_rel par)\<^sup>+}"
proof (induction k arbitrary: n S)
  case (Suc k)
  note s = rfold_union [OF Suc.prems [unfolded get_ancestors.simps]]
  have "(case get_ancestors k par p of Inr s \<Rightarrow> s | Inl _ \<Rightarrow> {}) = {q. (p, q) \<in> (parent_rel par)\<^sup>+}"
    if "p \<in> set (par n)" for p
    using s that Suc.IH by fastforce
  then show ?case using s trancl_parents [of n par] by simp
qed simp

lemma get_ancestors_returns:
  assumes "ranked par"
  shows "n < k \<Longrightarrow> \<exists>S. get_ancestors k par n = Inr S"
proof (induction k arbitrary: n)
  case (Suc k)
  have "\<exists>S. get_ancestors k par p = Inr S" if "p \<in> set (par n)" for p
    using Suc assms that by (force simp: ranked_def)
  then show ?case by (simp add: rfold_union_returns)
qed simp

lemma ranked_trancl: "ranked par \<Longrightarrow> (n, p) \<in> (parent_rel par)\<^sup>+ \<Longrightarrow> p < n"
  by (erule trancl_induct) (auto simp: ranked_def, fastforce)

lemma get_ancestors_ranked:
  assumes "ranked par" "n < k"
  shows "get_ancestors k par n = Inr {p. (n, p) \<in> (parent_rel par)\<^sup>+}"
  using get_ancestors_returns [OF assms] get_ancestors_sound by metis

lemma parent_rel_children:
  assumes "\<And>m. par m \<noteq> [] \<Longrightarrow> m < bound"
  shows "parent_rel (children_of bound par) = (parent_rel par)\<inverse>"
  using assms by (force simp: parent_rel_def children_of_def)

lemma get_descendants_returns:
  assumes "ranked par"
  shows "bound - n < k \<Longrightarrow> \<exists>S. get_descendants k bound par n = Inr S"
  unfolding get_descendants_def
proof (induction k arbitrary: n)
  case (Suc k)
  have "\<exists>S. get_ancestors k (children_of bound par) m = Inr S" if "m \<in> set (children_of bound par n)" for m
  proof (rule Suc.IH)
    have "n < m" "m < bound" using that assms by (auto simp: ranked_def children_of_def)
    then show "bound - m < k" using Suc.prems by linarith
  qed
  then show ?case by (simp add: rfold_union_returns)
qed simp

lemma get_descendants_ranked:
  assumes "ranked par" "\<And>m. par m \<noteq> [] \<Longrightarrow> m < bound" "bound - n < k"
  shows "get_descendants k bound par n = Inr {m. (m, n) \<in> (parent_rel par)\<^sup>+}"
proof -
  obtain S where S: "get_descendants k bound par n = Inr S"
    using get_descendants_returns [OF assms(1,3)] by blast
  then have "S = {m. (n, m) \<in> (parent_rel (children_of bound par))\<^sup>+}"
    unfolding get_descendants_def by (rule get_ancestors_sound)
  then show ?thesis
    using S by (simp add: parent_rel_children [OF assms(2)] trancl_converse)
qed

text \<open>The roots of a transaction are the parentless transactions above it, and there are some.\<close>

lemma get_root_nodes_sound:
  "get_root_nodes k par n = Inr S \<Longrightarrow> S = {r. (n, r) \<in> (parent_rel par)\<^sup>* \<and> par r = []} \<and> S \<noteq> {}"
proof (induction k arbitrary: n S)
  case (Suc k)
  show ?case
  proof (cases "par n = []")
    case True
    then have "{r. (n, r) \<in> (parent_rel par)\<^sup>*} = {n}"
      by (auto elim: converse_rtranclE)
    then show ?thesis using Suc.prems True by auto
  next
    case False
    then have u: "rfold (\<lambda>p acc. rbind (get_root_nodes k par p) (\<lambda>s. Inr (acc \<union> s))) (par n) {} = Inr S"
      using Suc.prems by simp
    note s = rfold_union [OF u]
    have p: "(case get_root_nodes k par p of Inr s \<Rightarrow> s | Inl _ \<Rightarrow> {}) =
        {r. (p, r) \<in> (parent_rel par)\<^sup>* \<and> par r = []} \<and>
        {r. (p, r) \<in> (parent_rel par)\<^sup>* \<and> par r = []} \<noteq> {}" if "p \<in> set (par n)" for p
      using s that Suc.IH by fastforce
    have "{r. (n, r) \<in> (parent_rel par)\<^sup>* \<and> par r = []} =
        (\<Union>p\<in>set (par n). {r. (p, r) \<in> (parent_rel par)\<^sup>* \<and> par r = []})"
    proof (intro set_eqI iffI)
      fix r assume r: "r \<in> {r. (n, r) \<in> (parent_rel par)\<^sup>* \<and> par r = []}"
      then have "n \<noteq> r" using False by auto
      then obtain p where "(n, p) \<in> parent_rel par" "(p, r) \<in> (parent_rel par)\<^sup>*"
        using r by (auto elim: converse_rtranclE)
      then show "r \<in> (\<Union>p\<in>set (par n). {r. (p, r) \<in> (parent_rel par)\<^sup>* \<and> par r = []})"
        using r by auto
    qed (auto intro: converse_rtrancl_into_rtrancl)
    then show ?thesis using s p False by (auto simp: neq_Nil_conv)
  qed
qed simp

lemma get_root_nodes_returns:
  assumes "ranked par"
  shows "n < k \<Longrightarrow> \<exists>S. get_root_nodes k par n = Inr S"
proof (induction k arbitrary: n)
  case (Suc k)
  have "\<exists>S. get_root_nodes k par p = Inr S" if "p \<in> set (par n)" for p
    using Suc assms that by (force simp: ranked_def)
  then show ?case by (simp add: rfold_union_returns)
qed simp

section \<open>Links and cycles\<close>

lemma add_parent_Inr:
  assumes "add_parent k par self ancestor = Inr par'"
  shows "parent_rel par' = insert (snd self, snd ancestor) (parent_rel par)" and "self \<noteq> ancestor"
    and "self \<notin> Pair TransactionCls ` {p. (snd ancestor, p) \<in> (parent_rel par)\<^sup>+}"
proof -
  obtain S where S: "ancestor \<noteq> self" "get_ancestors k par (snd ancestor) = Inr S"
    "self \<notin> Pair TransactionCls ` S"
    "par' = (if snd ancestor \<in> set (par (snd self)) then par
            else par(snd self := par (snd self) @ [snd ancestor]))"
    using assms by (auto simp: add_parent_def circular_checker_def rbind_eq_Inr split: if_splits)
  show "parent_rel par' = insert (snd self, snd ancestor) (parent_rel par)"
    by (auto simp: S(4) parent_rel_def split: if_splits)
  show "self \<noteq> ancestor" using S by simp
  show "self \<notin> Pair TransactionCls ` {p. (snd ancestor, p) \<in> (parent_rel par)\<^sup>+}"
    using S get_ancestors_sound [OF S(2)] by simp
qed



text \<open>the check is blind for instances of the subclasses. The serializers link an external
  or internal transaction, which is never equal to the \<open>Transaction\<close> instances the walk
  yields, so a link that closes a cycle, or one of a transaction to itself, is accepted.\<close>

theorem subclass_links_unchecked:
  assumes "cls \<noteq> TransactionCls" and "ranked par" and "p < k"
  shows "\<exists>par'. add_parent k par (cls, n) (TransactionCls, p) = Inr par' \<and>
      (n, p) \<in> parent_rel par' \<and> (n \<in> {p} \<union> {a. (p, a) \<in> (parent_rel par)\<^sup>+} \<longrightarrow> \<not> acyclic (parent_rel par'))"
proof -
  have anc: "get_ancestors k par p = Inr {a. (p, a) \<in> (parent_rel par)\<^sup>+}"
    by (rule get_ancestors_ranked [OF assms(2,3)])
  have "(cls, n) \<notin> Pair TransactionCls ` {a. (p, a) \<in> (parent_rel par)\<^sup>+}" using assms(1) by auto
  then obtain par' where par': "add_parent k par (cls, n) (TransactionCls, p) = Inr par'"
    using assms(1) anc by (simp add: add_parent_def circular_checker_def)
  have e: "parent_rel par' = insert (n, p) (parent_rel par)"
    using add_parent_Inr(1) [OF par'] by simp
  have "\<not> acyclic (parent_rel par')" if "n \<in> {p} \<union> {a. (p, a) \<in> (parent_rel par)\<^sup>+}"
    using that unfolding e acyclic_insert by (auto intro: trancl_into_rtrancl)
  moreover have "p \<in> set (par' n)" using e by (metis insertI1 parent_rel_iff)
  ultimately show ?thesis using par' by auto
qed

theorem subclass_links_unchecked_witness:
  "\<exists>par'. add_parent 3 (\<lambda>n. if n = 2 then [1] else []) (ExternalTransactionCls, 1) (TransactionCls, 2) = Inr par' \<and>
     \<not> acyclic (parent_rel par')"
proof -
  let ?par = "\<lambda>n::nat. if n = 2 then [1::nat] else []"
  have r: "ranked ?par" by (simp add: ranked_def)
  have "(2, 1) \<in> (parent_rel ?par)\<^sup>+" by (rule r_into_trancl) simp
  then show ?thesis
    using subclass_links_unchecked [of ExternalTransactionCls ?par 2 3 1, OF _ r] by auto
qed

section \<open>The levels of a trace\<close>

definition actors_at :: "level_dict \<Rightarrow> nat \<Rightarrow> nat set" where
  "actors_at d l = (case map_of d l of None \<Rightarrow> {} | Some q \<Rightarrow> snd q)"

definition level_dict_ok :: "level_dict \<Rightarrow> bool" where
  "level_dict_ok d \<longleftrightarrow> distinct (map fst d) \<and> (\<forall>e\<in>set d. fst (snd e) = ''Node'')"

lemma safe_join_levels:
  assumes "level_dict_ok d" "fst q = ''Node''"
  obtains d' where "safe_join_to_query d l q = Inr d'" "level_dict_ok d'"
    "\<And>j. actors_at d' j = actors_at d j \<union> (if j = l then snd q else {})"
proof -
  have "\<exists>d'. safe_join_to_query d l q = Inr d'"
    using assms by (auto simp: safe_join_to_query_def combine_queries_def level_dict_ok_def
        split: option.splits dest!: map_of_SomeD)
  then obtain d' where d': "safe_join_to_query d l q = Inr d'" by blast
  have "\<exists>u. d' = AList.update l u d \<and> fst u = ''Node''"
  proof (cases "map_of d l")
    case None
    then show ?thesis
      using d' assms(2) by (intro exI [of _ q]) (simp add: safe_join_to_query_def)
  next
    case (Some r)
    then have "fst r = ''Node''" using assms(1) map_of_SomeD [OF Some] by (force simp: level_dict_ok_def)
    then show ?thesis
      using d' Some assms(2) by (auto simp: safe_join_to_query_def combine_queries_def)
  qed
  then obtain u where u: "d' = AList.update l u d" "fst u = ''Node''" by blast
  have "set d' \<subseteq> insert (l, u) (set d)" unfolding u(1) by (induction d) auto
  moreover have "distinct (map fst d')" using assms(1) u by (simp add: level_dict_ok_def distinct_update)
  ultimately have "level_dict_ok d'" using assms(1) u(2) by (fastforce simp: level_dict_ok_def)
  moreover have "actors_at d' j = actors_at d j \<union> (if j = l then snd q else {})" for j
    using map_of_safe_join [OF d', of j] by (auto simp: actors_at_def split: option.splits)
  ultimately show thesis using that d' by blast
qed

lemma join_levels_ok:
  assumes "level_dict_ok acc" "level_dict_ok sub"
  obtains d where "join_levels sub acc = Inr d" "level_dict_ok d"
    "\<And>j. actors_at d j = actors_at acc j \<union> actors_at sub j"
proof -
  have "\<exists>d. join_levels sub acc = Inr d \<and> level_dict_ok d \<and>
      (\<forall>j. actors_at d j = actors_at acc j \<union> actors_at sub j)"
    using assms
  proof (induction sub arbitrary: acc)
    case Nil
    then show ?case by (simp add: join_levels_def actors_at_def)
  next
    case (Cons e sub)
    obtain l q where e: "e = (l, q)" by (cases e)
    have ok: "level_dict_ok sub" "fst q = ''Node''" "l \<notin> fst ` set sub"
      using Cons.prems(2) by (auto simp: level_dict_ok_def e)
    obtain d1 where d1: "safe_join_to_query acc l q = Inr d1" "level_dict_ok d1"
      "\<And>j. actors_at d1 j = actors_at acc j \<union> (if j = l then snd q else {})"
      using safe_join_levels [OF Cons.prems(1) ok(2)] by blast
    obtain d where d: "join_levels sub d1 = Inr d" "level_dict_ok d"
      "\<And>j. actors_at d j = actors_at d1 j \<union> actors_at sub j"
      using Cons.IH [OF d1(2) ok(1)] by blast
    have "map_of sub l = None" using ok(3) by (simp add: map_of_eq_None_iff)
    then have "actors_at (e # sub) j = (if j = l then snd q else {}) \<union> actors_at sub j" for j
      by (simp add: actors_at_def e)
    then show ?case using d d1 e by (auto simp: join_levels_def)
  qed
  then show thesis using that by blast
qed

definition upper_actors :: "level_dict \<Rightarrow> nat set" where
  "upper_actors d = (\<Union>j\<in>{1..}. actors_at d j)"

lemma rfold_join_levels:
  assumes "\<And>p. p \<in> set ps \<Longrightarrow> \<exists>sub. f p = Inr sub \<and> level_dict_ok sub \<and> upper_actors sub = U p"
    and "level_dict_ok acc"
  shows "\<exists>d. rfold (\<lambda>p acc. rbind (f p) (\<lambda>sub. join_levels sub acc)) ps acc = Inr d \<and>
    level_dict_ok d \<and> upper_actors d = upper_actors acc \<union> (\<Union>p\<in>set ps. U p)"
  using assms
proof (induction ps arbitrary: acc)
  case (Cons p ps)
  obtain sub where sub: "f p = Inr sub" "level_dict_ok sub" "upper_actors sub = U p"
    using Cons.prems(1) [of p] by auto
  obtain d1 where d1: "join_levels sub acc = Inr d1" "level_dict_ok d1"
    "\<And>j. actors_at d1 j = actors_at acc j \<union> actors_at sub j"
    using join_levels_ok [OF Cons.prems(2) sub(2)] by blast
  have u: "upper_actors d1 = upper_actors acc \<union> U p"
    using d1(3) sub(3) by (auto simp: upper_actors_def)
  obtain d where "rfold (\<lambda>p acc. rbind (f p) (\<lambda>sub. join_levels sub acc)) ps d1 = Inr d"
    "level_dict_ok d" "upper_actors d = upper_actors d1 \<union> (\<Union>p\<in>set ps. U p)"
    using Cons.IH [OF _ d1(2)] Cons.prems(1) by auto
  then show ?case using sub d1 u by (auto simp: Un_assoc)
qed simp

lemma own_levels_ok:
  "\<exists>d. own_levels t level = Inr d \<and> level_dict_ok d \<and>
     upper_actors d = (if includable_in_chain t then {ct_source t} else {})"
proof (cases "includable_in_chain t")
  case False
  then show ?thesis by (simp add: own_levels_def level_dict_ok_def upper_actors_def actors_at_def)
next
  case True
  have "\<exists>d0. (if level = 0 then safe_join_to_query [] 0 (node_query (ct_destination t)) else Inr []) = Inr d0 \<and>
      level_dict_ok d0 \<and> upper_actors d0 = {}"
    by (simp add: safe_join_to_query_def level_dict_ok_def node_query_def upper_actors_def actors_at_def)
  then obtain d0 where d0:
    "(if level = 0 then safe_join_to_query [] 0 (node_query (ct_destination t)) else Inr []) = Inr d0"
    "level_dict_ok d0" "upper_actors d0 = {}" by blast
  obtain d where d: "safe_join_to_query d0 (level + 1) (node_query (ct_source t)) = Inr d" "level_dict_ok d"
    "\<And>j. actors_at d j = actors_at d0 j \<union> (if j = level + 1 then snd (node_query (ct_source t)) else {})"
    using safe_join_levels [OF d0(2)] by (metis fst_conv node_query_def)
  have "upper_actors d = {ct_source t}"
    using d(3) d0(3) by (auto simp: upper_actors_def node_query_def)
  then show ?thesis using d d0 True by (simp add: own_levels_def)
qed

lemma get_parent_actors_levels_ok:
  assumes "ranked par"
  shows "n < k \<Longrightarrow> \<exists>d. get_parent_actors_levels k par tx n level = Inr d \<and> level_dict_ok d \<and>
    upper_actors d = {ct_source (tx m) | m. (n, m) \<in> (parent_rel par)\<^sup>* \<and> includable_in_chain (tx m)}"
proof (induction k arbitrary: n level)
  case (Suc k)
  let ?U = "\<lambda>p. {ct_source (tx m) | m. (p, m) \<in> (parent_rel par)\<^sup>* \<and> includable_in_chain (tx m)}"
  let ?nl = "if includable_in_chain (tx n) then level + 1 else level"
  obtain d0 where d0: "own_levels (tx n) level = Inr d0" "level_dict_ok d0"
    "upper_actors d0 = (if includable_in_chain (tx n) then {ct_source (tx n)} else {})"
    using own_levels_ok by blast
  have "\<exists>sub. get_parent_actors_levels k par tx p ?nl = Inr sub \<and> level_dict_ok sub \<and> upper_actors sub = ?U p"
    if "p \<in> set (par n)" for p
    using Suc.IH [of p ?nl] Suc.prems assms that by (force simp: ranked_def)
  note sub = this
  obtain d where
    d: "rfold (\<lambda>p acc. rbind (get_parent_actors_levels k par tx p ?nl) (\<lambda>sub. join_levels sub acc)) (par n) d0 = Inr d"
    "level_dict_ok d" "upper_actors d = upper_actors d0 \<union> (\<Union>p\<in>set (par n). ?U p)"
    using rfold_join_levels [where ps = "par n" and U = ?U and acc = d0 and
        f = "\<lambda>p. get_parent_actors_levels k par tx p ?nl", OF sub d0(2)] by blast
  have split: "(n, m) \<in> (parent_rel par)\<^sup>* \<longleftrightarrow> m = n \<or> (\<exists>p\<in>set (par n). (p, m) \<in> (parent_rel par)\<^sup>*)" for m
    by (auto elim: converse_rtranclE intro: converse_rtrancl_into_rtrancl)
  have "upper_actors d = ?U n"
    unfolding d(3) d0(3) using split by auto
  then show ?case using d d0 by (simp add: Let_def)
qed simp

text \<open>C13: the trace of a transaction ends and misses nobody: with parents always older than
  their children, the level walk returns, and the actors above level 0 are exactly the
  sources of the transaction and all its ancestors that belong to the chain (external, not
  a reversal and not declined).\<close>

theorem levels_cover_sources:
  assumes "ranked par" and "n < k"
  shows "\<exists>d. get_parent_actors_levels k par tx n 0 = Inr d \<and>
    (\<Union>j\<in>{1..}. actors_at d j) =
      {ct_source (tx m) | m. m \<in> insert n {a. (n, a) \<in> (parent_rel par)\<^sup>+} \<and> includable_in_chain (tx m)}"
  using get_parent_actors_levels_ok [OF assms(1), of n k tx 0] assms(2)
  by (auto simp: upper_actors_def rtrancl_eq_or_trancl)

theorem levels_cover_sources_witness:
  "\<exists>d. get_parent_actors_levels 3 (\<lambda>n. if n = 2 then [1] else [])
       (\<lambda>n. \<lparr>ct_external = True, ct_reversal = False, ct_declined = False, ct_source = n, ct_destination = 7\<rparr>)
       2 0 = Inr d \<and> 1 \<in> (\<Union>j\<in>{1..}. actors_at d j)"
proof -
  let ?par = "\<lambda>n::nat. if n = 2 then [1::nat] else []"
  let ?tx = "\<lambda>n::nat. \<lparr>ct_external = True, ct_reversal = False, ct_declined = False, ct_source = n, ct_destination = 7\<rparr>"
  have r: "ranked ?par" by (simp add: ranked_def)
  have "(2, 1) \<in> (parent_rel ?par)\<^sup>+" by (rule r_into_trancl) simp
  moreover have "includable_in_chain (?tx 1)" by (simp add: includable_in_chain_def)
  ultimately show ?thesis
    using levels_cover_sources [OF r, of 2 3 ?tx] by force
qed

section \<open>The interface the ledger uses\<close>

text \<open>
  The ledger only links a transaction it has just created to older ones. What it relies on:
  such a link is never refused and touches the parents of the new transaction only.
\<close>

locale tx_linker =
  fixes link :: "nat \<Rightarrow> (nat \<Rightarrow> nat list) \<Rightarrow> tx_class \<times> nat \<Rightarrow> tx_class \<times> nat \<Rightarrow> (nat \<Rightarrow> nat list) result"
  assumes link_older: "ranked par \<Longrightarrow> p < n \<Longrightarrow> n < k \<Longrightarrow>
      \<exists>par'. link k par (cls, n) (TransactionCls, p) = Inr par' \<and> ranked par' \<and>
        p \<in> set (par' n) \<and> (\<forall>m. m \<noteq> n \<longrightarrow> par' m = par m) \<and> set (par' n) = insert p (set (par n))"
begin

lemma link_all_older:
  assumes "ranked par" "\<And>p. p \<in> set ps \<Longrightarrow> p < n" "n < k"
  shows "\<exists>par'. rfold (\<lambda>p par. link k par (cls, n) (TransactionCls, p)) ps par = Inr par' \<and> ranked par' \<and>
    (\<forall>m. m \<noteq> n \<longrightarrow> par' m = par m) \<and> set (par' n) = set ps \<union> set (par n)"
  using assms(1,2)
proof (induction ps arbitrary: par)
  case (Cons p ps)
  obtain par1 where 1: "link k par (cls, n) (TransactionCls, p) = Inr par1" "ranked par1"
    "\<forall>m. m \<noteq> n \<longrightarrow> par1 m = par m" "set (par1 n) = insert p (set (par n))"
    using link_older [OF Cons.prems(1) _ assms(3), of p cls] Cons.prems(2) by auto
  obtain par2 where "rfold (\<lambda>p par. link k par (cls, n) (TransactionCls, p)) ps par1 = Inr par2" "ranked par2"
    "\<forall>m. m \<noteq> n \<longrightarrow> par2 m = par1 m" "set (par2 n) = set ps \<union> set (par1 n)"
    using Cons.IH [OF 1(2)] Cons.prems(2) by auto
  then show ?case using 1 by auto
qed simp

end

interpretation graph: tx_linker add_parent
proof unfold_locales
  fix par :: "nat \<Rightarrow> nat list" and p n k :: nat and cls
  assume a: "ranked par" "p < n" "n < k"
  have anc: "get_ancestors k par p = Inr {q. (p, q) \<in> (parent_rel par)\<^sup>+}"
    using a by (intro get_ancestors_ranked) auto
  have "(cls, n) \<notin> Pair TransactionCls ` {q. (p, q) \<in> (parent_rel par)\<^sup>+}"
    using ranked_trancl [OF a(1), of p n] a(2) by auto
  then have "add_parent k par (cls, n) (TransactionCls, p) =
      Inr (if p \<in> set (par n) then par else par(n := par n @ [p]))"
    using a anc by (simp add: add_parent_def circular_checker_def)
  then show "\<exists>par'. add_parent k par (cls, n) (TransactionCls, p) = Inr par' \<and> ranked par' \<and>
        p \<in> set (par' n) \<and> (\<forall>m. m \<noteq> n \<longrightarrow> par' m = par m) \<and> set (par' n) = insert p (set (par n))"
    using a by (auto simp: ranked_def)
qed

end
