(* ===== verification/Stock_Ledger.thy ===== *)
theory Stock_Ledger
  imports Transaction_Graph
begin

text \<open>
  The stock ledger: batches of \<open>v2/products/models.py\<close>, transactions and source batches
  of \<open>v2/transactions/models.py\<close>, and the serializers that create internal and
  external transactions and reject them (\<open>v2/transactions/serializers/internal.py\<close>,
  \<open>external.py\<close>, \<open>v2/products/serializers/batch.py\<close>).

  Quantities are decimals with three places; the model counts thousandths in \<open>int\<close>.
  A batch object in memory is a snapshot of its row taken when it was loaded, and
  \<open>save\<close> writes the whole snapshot back; this is what makes two items on one batch
  interfere. Every \<open>create\<close> is atomic: an error is a result without a database. The
  tables of other components are the field \<open>st_rest\<close>; what this component calls of them
  is in \<open>stock_env\<close>.
\<close>

section \<open>Tables\<close>

datatype node_type = NODE_COMPANY | NODE_FARM | NODE_VERIFIER
datatype batch_type = BATCH_INTERMEDIATE | BATCH_SOLID
datatype tx_status = TX_CREATED | TX_DECLINED
datatype tx_mode = MODE_MANUAL | MODE_SYSTEM

text \<open>The request's \<open>type\<close> is any integer; only the named ones are told apart.\<close>

datatype int_type = PROCESSING | LOSS | MERGE | OTHER_INTERNAL int
datatype ext_type = OUTGOING | INCOMING | REVERSAL | OTHER_EXTERNAL int

datatype attr = ANone | AInt int | ARat rat | AStr string | ABool bool | ARef nat

record product =
  pr_supply_chain :: nat
  pr_local :: bool

record batch =
  b_product :: nat
  b_node :: nat
  b_initial :: int
  b_current :: int
  b_unit :: int
  b_type :: batch_type
  b_source_tx :: "nat option"
  b_parents :: "nat list"
  b_number :: nat
  b_name :: string
  b_note :: string
  b_archived :: bool
  b_buyer_ref :: attr
  b_seller_ref :: attr

datatype tx_kind = Internal int_type tx_mode nat nat | External ext_type nat nat

record tx =
  tx_kind :: tx_kind
  tx_status :: tx_status
  tx_comment :: string
  tx_attrs :: "(string \<times> attr) list"

record source_batch =
  sb_tx :: nat
  sb_batch :: nat
  sb_quantity :: int

datatype request_status = TR_PENDING | TR_DECLINED | TR_COMPLETED

record stock_request =
  sr_buyer :: nat
  sr_supplier :: nat
  sr_product :: nat
  sr_quantity :: int
  sr_unit :: int
  sr_currency :: string
  sr_price :: "rat option"
  sr_status :: request_status
  sr_transaction :: "nat option"
  sr_updater :: "nat option"

record 'c stock_db =
  st_batches :: "nat \<rightharpoonup> batch"
  st_next_batch :: nat
  st_txs :: "nat \<rightharpoonup> tx"
  st_next_tx :: nat
  st_parents :: "nat \<Rightarrow> nat list"
  st_sources :: "source_batch list"
  st_farmers :: "(nat \<times> nat) list"
  st_products :: "nat \<rightharpoonup> product"
  st_owners :: "(nat \<times> nat) list"
  st_node_type :: "nat \<Rightarrow> node_type"
  st_requests :: "nat \<rightharpoonup> stock_request"
  st_followups :: "nat list"
  st_rest :: 'c

text \<open>
  What is called in other components: \<open>Node.setup_blockchain_account\<close> (the wallet),
  \<open>Batch.inherit_claims\<close>, \<open>Node.get_connections\<close>, and the removal of the
  notifications of a rejected transaction.
\<close>

record 'c stock_env =
  se_now :: int
  se_setup :: "nat \<Rightarrow> 'c \<Rightarrow> ('c \<times> nat) result"
  se_inherit :: "nat \<Rightarrow> 'c stock_db \<Rightarrow> 'c result"
  se_connections :: "'c \<Rightarrow> nat \<Rightarrow> nat \<Rightarrow> nat list"
  se_remove_notifications :: "nat \<Rightarrow> 'c stock_db \<Rightarrow> 'c"

section \<open>Batches\<close>

definition save_batch :: "nat \<Rightarrow> batch \<Rightarrow> 'c stock_db \<Rightarrow> 'c stock_db" where
  "save_batch bid b db = db\<lparr>st_batches := (st_batches db)(bid \<mapsto> b)\<rparr>"

definition get_batch :: "nat \<Rightarrow> 'c stock_db \<Rightarrow> batch result" where
  "get_batch bid db = of_option DoesNotExist (st_batches db bid)"

definition is_used :: "batch \<Rightarrow> bool" where
  "is_used b = (if b_initial b = b_current b then False else True)"

definition add_farmer :: "nat \<Rightarrow> nat \<Rightarrow> 'c stock_db \<Rightarrow> 'c stock_db" where
  "add_farmer bid f db =
     (if (bid, f) \<in> set (st_farmers db) then db else db\<lparr>st_farmers := st_farmers db @ [(bid, f)]\<rparr>)"

text \<open>
  \<open>Batch.save\<close> of a new row: a farm's batch is mapped to that farmer, and the batch
  number is the key plus 1200.
\<close>

definition create_batch :: "batch \<Rightarrow> 'c stock_db \<Rightarrow> 'c stock_db \<times> nat" where
  "create_batch b db =
     (let bid = st_next_batch db;
          db1 = (save_batch bid b db)\<lparr>st_next_batch := Suc bid\<rparr>;
          db2 = (if st_node_type db1 (b_node b) = NODE_FARM then add_farmer bid (b_node b) db1 else db1);
          db3 = (if b_number b = 0 then save_batch bid (b\<lparr>b_number := bid + 1200\<rparr>) db2 else db2)
      in (db3, bid))"

definition add_batch_parent :: "nat \<Rightarrow> nat \<Rightarrow> 'c stock_db \<Rightarrow> 'c stock_db" where
  "add_batch_parent bid p db =
     (case st_batches db bid of None \<Rightarrow> db
      | Some b \<Rightarrow> if p \<in> set (b_parents b) then db
                 else save_batch bid (b\<lparr>b_parents := b_parents b @ [p]\<rparr>) db)"

definition copy_farmers :: "nat \<Rightarrow> nat \<Rightarrow> 'c stock_db \<Rightarrow> 'c stock_db" where
  "copy_farmers bid new db =
     fold (add_farmer new) [f. (b, f) \<leftarrow> st_farmers db, b = bid] db"

definition update_batch_farmers :: "nat \<Rightarrow> 'c stock_db \<Rightarrow> 'c stock_db" where
  "update_batch_farmers bid db =
     (case st_batches db bid of None \<Rightarrow> db
      | Some b \<Rightarrow>
          if st_node_type db (b_node b) = NODE_COMPANY
          then fold (\<lambda>p. copy_farmers p bid) (b_parents b) db else db)"

text \<open>\<open>result_batches.all()\<close>, newest first (\<open>ordering = ("-created_on",)\<close>).\<close>

definition result_batches :: "nat \<Rightarrow> 'c stock_db \<Rightarrow> nat list" where
  "result_batches t db =
     [bid\<leftarrow>rev [0..<st_next_batch db].
        case st_batches db bid of Some b \<Rightarrow> b_source_tx b = Some t | None \<Rightarrow> False]"

section \<open>Transactions\<close>

definition create_tx :: "tx \<Rightarrow> 'c stock_db \<Rightarrow> 'c stock_db \<times> nat" where
  "create_tx t db =
     (let tid = st_next_tx db
      in (db\<lparr>st_txs := (st_txs db)(tid \<mapsto> t), st_next_tx := Suc tid\<rparr>, tid))"

definition create_source_batch :: "nat \<Rightarrow> nat \<Rightarrow> int \<Rightarrow> 'c stock_db \<Rightarrow> 'c stock_db" where
  "create_source_batch t bid qty db =
     db\<lparr>st_sources := st_sources db @ [\<lparr>sb_tx = t, sb_batch = bid, sb_quantity = qty\<rparr>]\<rparr>"

definition tx_class_of :: "tx \<Rightarrow> tx_class" where
  "tx_class_of t = (case tx_kind t of Internal _ _ _ _ \<Rightarrow> InternalTransactionCls
                    | External _ _ _ \<Rightarrow> ExternalTransactionCls)"

text \<open>\<open>transaction.add_parent(batch.source_transaction)\<close>, when the batch has one.\<close>

definition link_source :: "tx_class \<times> nat \<Rightarrow> batch \<Rightarrow> 'c stock_db \<Rightarrow> 'c stock_db result" where
  "link_source t b db =
     (case b_source_tx b of
        None \<Rightarrow> Inr db
      | Some p \<Rightarrow>
          rbind (add_parent (Suc (st_next_tx db)) (st_parents db) t (TransactionCls, p)) (\<lambda>par.
            Inr (db\<lparr>st_parents := par\<rparr>)))"

text \<open>\<open>source_quantity\<close> and \<open>destination_quantity\<close> as aggregates.\<close>

definition source_quantity :: "nat \<Rightarrow> 'c stock_db \<Rightarrow> int" where
  "source_quantity t db = sum_list [sb_quantity s. s \<leftarrow> st_sources db, sb_tx s = t]"

definition destination_quantity :: "nat \<Rightarrow> 'c stock_db \<Rightarrow> int" where
  "destination_quantity t db =
     sum_list (map (\<lambda>bid. case st_batches db bid of Some b \<Rightarrow> b_initial b | None \<Rightarrow> 0) (result_batches t db))"

section \<open>Internal transactions\<close>

text \<open>A validated source item: the loaded batch and the quantity to take.\<close>

record item =
  it_id :: nat
  it_batch :: batch
  it_qty :: int

record dest_item =
  di_product :: nat
  di_quantity :: int
  di_unit :: int

text \<open>
  \<open>SourceBatchSerializer\<close>: the field loads the batch, \<open>validate\<close> compares the
  quantity with what the batch has now. There is no lower bound on the quantity.
\<close>

definition validate_source_item :: "'c stock_db \<Rightarrow> nat \<times> int \<Rightarrow> item result" where
  "validate_source_item db raw =
     rbind (of_option (ValidationError ''Invalid id/pk'') (st_batches db (fst raw))) (\<lambda>b.
     rbind (ensure (\<not> b_current b < snd raw) (ValidationError ''Batch quantity mismatch'')) (\<lambda>_.
       Inr \<lparr>it_id = fst raw, it_batch = b, it_qty = snd raw\<rparr>))"

fun validate_items :: "'c stock_db \<Rightarrow> (nat \<times> int) list \<Rightarrow> item list result" where
  "validate_items db [] = Inr []"
| "validate_items db (r # rs) =
     rbind (validate_source_item db r) (\<lambda>i. rbind (validate_items db rs) (\<lambda>rest. Inr (i # rest)))"

text \<open>The request data after validation; an absent key is \<open>None\<close>.\<close>

record int_data =
  id_type :: "int_type option"
  id_mode :: "tx_mode option"
  id_comment :: "string option"
  id_batch_type :: "batch_type option"
  id_select_all :: bool
  id_sources :: "item list option"
  id_dests :: "dest_item list option"
  id_attrs :: "(string \<times> attr) list"

definition internal_validate :: "int_data \<Rightarrow> int_data result" where
  "internal_validate d =
     (case id_type d of
        None \<Rightarrow> Inr d
      | Some ty \<Rightarrow>
          if ty \<noteq> LOSS \<and> id_dests d = None
          then Inl (ValidationError ''destination_batches is required.'') else Inr d)"

text \<open>\<open>_get_only_batches_to_batches\<close>: the other batches of the node that have stock.\<close>

definition get_only_batches_to_batches :: "nat \<Rightarrow> 'c stock_db \<Rightarrow> item list \<Rightarrow> item list" where
  "get_only_batches_to_batches node db items =
     items @ [\<lparr>it_id = bid, it_batch = b, it_qty = b_current b\<rparr>.
                bid \<leftarrow> [0..<st_next_batch db],
                b \<leftarrow> (case st_batches db bid of Some b \<Rightarrow> [b] | None \<Rightarrow> []),
                b_node b = node \<and> 0 < b_current b \<and> bid \<notin> it_id ` set items \<and> \<not> b_archived b]"

text \<open>One round of the loop over the source batches: check, subtract, save, log, link.\<close>

definition take_source :: "tx_class \<times> nat \<Rightarrow> item \<Rightarrow> 'c stock_db \<Rightarrow> 'c stock_db result" where
  "take_source t i db =
     (let b = it_batch i; qty = it_qty i in
      if b_current b < qty then Inl (ValidationError ''Not enough quantity in Batch'')
      else (let b' = b\<lparr>b_current := b_current b - qty\<rparr>
            in link_source t b' (create_source_batch (snd t) (it_id i) qty (save_batch (it_id i) b' db))))"

text \<open>\<open>str\<close> of an integer, which \<open>get_type_display\<close> falls back to.\<close>

fun show_nat :: "nat \<Rightarrow> string" where
  "show_nat n = (if n < 10 then [char_of (48 + n)] else show_nat (n div 10) @ [char_of (48 + n mod 10)])"

declare show_nat.simps [simp del]

definition show_int :: "int \<Rightarrow> string" where
  "show_int k = (if k < 0 then CHR ''-'' # show_nat (nat (- k)) else show_nat (nat k))"

definition internal_name :: "int_type \<Rightarrow> string" where
  "internal_name ty =
     ''Created by '' @ (case ty of PROCESSING \<Rightarrow> ''Processing'' | LOSS \<Rightarrow> ''Loss'' | MERGE \<Rightarrow> ''Merge''
                       | OTHER_INTERNAL n \<Rightarrow> show_int n)"

definition add_parents_and_farmers :: "nat \<Rightarrow> nat list \<Rightarrow> 'c stock_db \<Rightarrow> 'c stock_db" where
  "add_parents_and_farmers bid ps db =
     fold (\<lambda>p d. update_batch_farmers bid (add_batch_parent bid p d)) ps db"

definition make_dest ::
    "'c stock_env \<Rightarrow> nat \<Rightarrow> nat \<Rightarrow> int_type \<Rightarrow> tx_mode \<Rightarrow> batch_type \<Rightarrow> string \<Rightarrow> nat list \<Rightarrow> dest_item \<Rightarrow>
     'c stock_db \<Rightarrow> 'c stock_db result"
where
  "make_dest env t node ty mode btype note ps d db =
     (let b = \<lparr>b_product = di_product d, b_node = node, b_initial = di_quantity d,
               b_current = di_quantity d, b_unit = di_unit d, b_type = btype, b_source_tx = Some t,
               b_parents = [], b_number = 0, b_name = internal_name ty, b_note = note,
               b_archived = False, b_buyer_ref = AStr [], b_seller_ref = AStr []\<rparr>;
          (db1, bid) = create_batch b db;
          db2 = add_parents_and_farmers bid ps db1
      in if mode = MODE_SYSTEM
         then rbind (se_inherit env bid db2) (\<lambda>c. Inr (db2\<lparr>st_rest := c\<rparr>))
         else Inr db2)"

text \<open>A creation time in the request overrides the date.\<close>

definition with_date :: "(string \<times> attr) list \<Rightarrow> (string \<times> attr) list" where
  "with_date attrs =
     (case map_of attrs ''created_on'' of Some v \<Rightarrow> AList.update ''date'' v attrs | None \<Rightarrow> attrs)"

text \<open>
  What a new row stores: the creation time is always the present, and fields not given have
  the defaults of the model.
\<close>

definition default_attr :: "string \<Rightarrow> attr" where
  "default_attr k =
     (if k \<in> {''invoice_number'', ''buyer_ref_number'', ''seller_ref_number'', ''comment''} then AStr []
      else if k \<in> {''client_type'', ''verification_method''} then AInt 1
      else if k \<in> {''archived'', ''deleted''} then ABool False
      else ANone)"

definition stored_attrs :: "int \<Rightarrow> (string \<times> attr) list \<Rightarrow> (string \<times> attr) list" where
  "stored_attrs now attrs =
     (''created_on'', AInt now) # [p\<leftarrow>attrs. fst p \<noteq> ''created_on''] @ [(''date'', AInt now)]"

definition tx_attr :: "tx \<Rightarrow> string \<Rightarrow> attr" where
  "tx_attr t k = (case map_of (tx_attrs t) k of Some v \<Rightarrow> v | None \<Rightarrow> default_attr k)"

text \<open>\<open>create\<close> after \<open>prepare_batches\<close>; \<open>wallet\<close> is the node's wallet.\<close>

definition execute_internal ::
    "'c stock_env \<Rightarrow> nat \<Rightarrow> nat \<Rightarrow> int_data \<Rightarrow> int_type \<Rightarrow> item list \<Rightarrow> 'c stock_db \<Rightarrow>
     ('c stock_db \<times> nat) result"
where
  "execute_internal env node wallet d ty items db =
     (let mode = (case id_mode d of Some m \<Rightarrow> m | None \<Rightarrow> MODE_MANUAL);
          btype = (case id_batch_type d of Some bt \<Rightarrow> bt | None \<Rightarrow> BATCH_SOLID);
          comment = (case id_comment d of Some c \<Rightarrow> c | None \<Rightarrow> []);
          (db1, t) = create_tx \<lparr>tx_kind = Internal ty mode node wallet, tx_status = TX_CREATED,
                                tx_comment = comment,
                                tx_attrs = stored_attrs (se_now env) (with_date (id_attrs d))\<rparr> db
      in rbind (rfold (take_source (InternalTransactionCls, t)) items db1) (\<lambda>db2.
         rbind (if ty = LOSS then Inr db2
                else rbind (of_option PyTypeError (id_dests d)) (\<lambda>ds.
                       rfold (make_dest env t node ty mode btype comment (map it_id items)) ds db2)) (\<lambda>db3.
           Inr (db3\<lparr>st_followups := st_followups db3 @ [t]\<rparr>, t))))"

text \<open>
  The internal transaction the system creates to convert a batch: the nested serializer
  loads and validates the batch again.
\<close>

definition system_conversion ::
    "'c stock_env \<Rightarrow> nat \<Rightarrow> string \<Rightarrow> (string \<times> attr) list \<Rightarrow> batch_type option \<Rightarrow> (nat \<times> int) list \<Rightarrow>
     dest_item \<Rightarrow> 'c stock_db \<Rightarrow> ('c stock_db \<times> nat) result"
where
  "system_conversion env node comment attrs btype raws dest db =
     rbind (validate_items db raws) (\<lambda>items.
     rbind (se_setup env node (st_rest db)) (\<lambda>(c, wallet).
     rbind (ensure (items \<noteq> []) (ValidationError ''source_batches is required.'')) (\<lambda>_.
       execute_internal env node wallet
         \<lparr>id_type = Some PROCESSING, id_mode = Some MODE_SYSTEM, id_comment = Some comment,
          id_batch_type = btype, id_select_all = False, id_sources = Some items,
          id_dests = Some [dest], id_attrs = attrs\<rparr>
         PROCESSING items (db\<lparr>st_rest := c\<rparr>))))"

text \<open>The newest result batch of a transaction, freshly loaded, with its whole quantity.\<close>

definition first_result_item :: "nat \<Rightarrow> 'c stock_db \<Rightarrow> item result" where
  "first_result_item t db =
     (case result_batches t db of
        [] \<Rightarrow> Inl PyAttributeError
      | bid # _ \<Rightarrow>
          rbind (get_batch bid db) (\<lambda>b. Inr \<lparr>it_id = bid, it_batch = b, it_qty = b_initial b\<rparr>))"

text \<open>A merge converts each item of another product than the destination's first.\<close>

definition merge_item ::
    "'c stock_env \<Rightarrow> nat \<Rightarrow> int_data \<Rightarrow> dest_item \<Rightarrow> item \<Rightarrow> 'c stock_db \<times> item list \<Rightarrow>
     ('c stock_db \<times> item list) result"
where
  "merge_item env node d dest i acc =
     (let (db, done_items) = acc in
      if b_product (it_batch i) \<noteq> di_product dest then
        rbind (system_conversion env node (case id_comment d of Some c \<Rightarrow> c | None \<Rightarrow> [])
                 [p\<leftarrow>id_attrs d. fst p = ''date''] (Some BATCH_INTERMEDIATE) [(it_id i, it_qty i)]
                 \<lparr>di_product = di_product dest, di_quantity = it_qty i, di_unit = b_unit (it_batch i)\<rparr> db)
          (\<lambda>(db1, t). rbind (first_result_item t db1) (\<lambda>r. Inr (db1, done_items @ [r])))
      else Inr (db, done_items @ [i]))"

definition internal_prepare_batches ::
    "'c stock_env \<Rightarrow> nat \<Rightarrow> int_data \<Rightarrow> 'c stock_db \<Rightarrow> ('c stock_db \<times> int_type \<times> item list) result"
where
  "internal_prepare_batches env node d db =
     (let sources = (case id_sources d of Some s \<Rightarrow> s | None \<Rightarrow> []);
          items = (if id_select_all d then get_only_batches_to_batches node db sources else sources)
      in rbind (ensure (items \<noteq> []) (ValidationError ''source_batches is required.'')) (\<lambda>_.
         rbind (of_option PyKeyError (id_type d)) (\<lambda>ty.
           if ty \<noteq> MERGE then Inr (db, ty, items)
           else if card (set (map (b_product \<circ> it_batch) items)) = 1 then Inr (db, ty, items)
           else
             rbind (of_option PyKeyError (id_dests d)) (\<lambda>ds.
               case ds of
                 [dest] \<Rightarrow>
                   rbind (rfold (merge_item env node d dest) items (db, [])) (\<lambda>(db1, items1).
                     Inr (db1, ty, items1))
               | _ \<Rightarrow> Inl (ValidationError ''Merging transaction can have only one destination batch'')))))"

definition internal_create ::
    "'c stock_env \<Rightarrow> nat \<Rightarrow> int_data \<Rightarrow> 'c stock_db \<Rightarrow> ('c stock_db \<times> nat) result"
where
  "internal_create env node d db =
     rbind (se_setup env node (st_rest db)) (\<lambda>(c, wallet).
     rbind (internal_prepare_batches env node d (db\<lparr>st_rest := c\<rparr>)) (\<lambda>(db1, ty, items).
       execute_internal env node wallet d ty items db1))"

text \<open>A request: the fields are validated against the database, then the data is saved.\<close>

definition validate_optional :: "'c stock_db \<Rightarrow> (nat \<times> int) list option \<Rightarrow> item list option result" where
  "validate_optional db raws =
     (case raws of None \<Rightarrow> Inr None
      | Some rs \<Rightarrow> rbind (validate_items db rs) (\<lambda>items. Inr (Some items)))"

definition internal_request ::
    "'c stock_env \<Rightarrow> nat \<Rightarrow> (nat \<times> int) list option \<Rightarrow> int_data \<Rightarrow> 'c stock_db \<Rightarrow> ('c stock_db \<times> nat) result"
where
  "internal_request env node raws d db =
     rbind (validate_optional db raws) (\<lambda>items.
     rbind (internal_validate (d\<lparr>id_sources := items\<rparr>)) (\<lambda>d'. internal_create env node d' db))"

section \<open>External transactions\<close>

text \<open>
  The validated data of \<open>ExternalTransactionSerializer\<close>. \<open>ed_attrs\<close> are the model
  fields that are stored as they come (price, currency, date, invoice number and so on).
\<close>

record ext_data =
  ed_type :: ext_type
  ed_node :: nat
  ed_product :: nat
  ed_quantity :: int
  ed_unit :: int
  ed_batches :: "item list option"
  ed_select_all :: bool
  ed_send_seperately :: bool
  ed_force_create :: bool
  ed_comment :: "string option"
  ed_currency :: "string option"
  ed_price :: "rat option option"
  ed_request :: "(nat \<times> stock_request) option"
  ed_buyer_ref :: "attr option"
  ed_seller_ref :: "attr option"
  ed_attrs :: "(string \<times> attr) list"

text \<open>Buyer and supplier: an incoming transaction is entered by the buyer.\<close>

definition get_buyer_supplier :: "ext_type \<Rightarrow> nat \<Rightarrow> nat \<Rightarrow> nat \<times> nat" where
  "get_buyer_supplier ty current node = (if ty = INCOMING then (current, node) else (node, current))"

definition validate_buyer_supplier :: "ext_type \<Rightarrow> nat \<Rightarrow> nat \<Rightarrow> 'c stock_db \<Rightarrow> unit result" where
  "validate_buyer_supplier ty supplier product db =
     (if ty = INCOMING \<and> st_node_type db supplier \<noteq> NODE_FARM
      then Inl (ValidationError ''Incoming transaction can only be created from farmer'')
      else rbind (of_option DoesNotExist (st_products db product)) (\<lambda>_. Inr ()))"

definition validate_node :: "ext_type \<Rightarrow> nat \<Rightarrow> nat \<Rightarrow> nat \<Rightarrow> 'c stock_db \<Rightarrow> unit result" where
  "validate_node ty current node product db =
     (let (buyer, supplier) = get_buyer_supplier ty current node in
      if ty \<noteq> REVERSAL then validate_buyer_supplier ty supplier product db else Inr ())"

text \<open>The match with the stock request it answers; assertion errors become validation errors.\<close>

definition check_request :: "nat \<Rightarrow> nat \<Rightarrow> ext_data \<Rightarrow> stock_request \<Rightarrow> unit result" where
  "check_request buyer supplier d r =
     rbind (ensure (sr_buyer r = buyer) (ValidationError ''Buyer Mismatch'')) (\<lambda>_.
     rbind (ensure (sr_supplier r = supplier) (ValidationError ''Supplier mismatch'')) (\<lambda>_.
     rbind (ensure (sr_product r = ed_product d) (ValidationError ''Product Mismatch'')) (\<lambda>_.
     rbind (ensure (sr_quantity r = ed_quantity d) (ValidationError ''Quantity Mismatch'')) (\<lambda>_.
     rbind (ensure (sr_unit r = ed_unit d) (ValidationError ''Unit mismatch'')) (\<lambda>_.
     rbind (of_option PyKeyError (ed_currency d)) (\<lambda>cur.
     rbind (ensure (sr_currency r = cur) (ValidationError ''Currency Mismatch'')) (\<lambda>_.
       case sr_price r of
         None \<Rightarrow> Inr ()
       | Some p \<Rightarrow>
           if p = 0 then Inr ()
           else rbind (of_option PyKeyError (ed_price d)) (\<lambda>q.
                  ensure (q = Some p) (ValidationError ''Price Mismatch'')))))))))"

text \<open>
  The serializer's field \<open>transparency_request\<close> is declared with
  \<open>source="stockrequest"\<close>, so the validated data holds the request under that key;
  \<open>attrs_request key d\<close> is what the validated data has under a key.
\<close>

definition attrs_request :: "string \<Rightarrow> ext_data \<Rightarrow> (nat \<times> stock_request) option" where
  "attrs_request key d = (if key = ''stockrequest'' then ed_request d else None)"

definition external_validate :: "nat \<Rightarrow> ext_data \<Rightarrow> unit result" where
  "external_validate current d =
     (let (buyer, supplier) = get_buyer_supplier (ed_type d) current (ed_node d) in
      rbind (ensure (\<forall>i\<in>set (case ed_batches d of Some is' \<Rightarrow> is' | None \<Rightarrow> []). b_node (it_batch i) = supplier)
               (ValidationError ''does not own batch(s)'')) (\<lambda>_.
        case attrs_request ''transparency_request'' d of
          None \<Rightarrow> Inr () | Some (rid, r) \<Rightarrow> check_request buyer supplier d r))"

text \<open>
  \<open>prepare_batches\<close>: several batches that are not sent separately, or one of another
  product, are first converted by the system into a batch of the product sent. Only the
  first batch's product is looked at.
\<close>

definition result_items :: "nat \<Rightarrow> 'c stock_db \<Rightarrow> item list" where
  "result_items t db =
     [\<lparr>it_id = bid, it_batch = b, it_qty = b_initial b\<rparr>. bid \<leftarrow> result_batches t db,
        b \<leftarrow> (case st_batches db bid of Some b \<Rightarrow> [b] | None \<Rightarrow> [])]"

definition create_internal_transaction ::
    "'c stock_env \<Rightarrow> nat \<Rightarrow> ext_data \<Rightarrow> (string \<times> attr) list \<Rightarrow> item list \<Rightarrow> 'c stock_db \<Rightarrow>
     ('c stock_db \<times> nat) result"
where
  "create_internal_transaction env current d attrs items db =
     system_conversion env current (case ed_comment d of Some c \<Rightarrow> c | None \<Rightarrow> [])
       [p\<leftarrow>attrs. fst p = ''date''] None (map (\<lambda>i. (it_id i, it_qty i)) items)
       \<lparr>di_product = ed_product d, di_quantity = ed_quantity d, di_unit = ed_unit d\<rparr> db"

definition external_prepare_batches ::
    "'c stock_env \<Rightarrow> nat \<Rightarrow> ext_data \<Rightarrow> (string \<times> attr) list \<Rightarrow> 'c stock_db \<Rightarrow>
     ('c stock_db \<times> item list option) result"
where
  "external_prepare_batches env current d attrs db =
     (if ed_type d = INCOMING then Inr (db, ed_batches d)
      else
        (let given = (case ed_batches d of Some is' \<Rightarrow> is' | None \<Rightarrow> []);
             items = (if ed_select_all d then get_only_batches_to_batches current db given else given);
             convert = (\<lambda>_. rbind (create_internal_transaction env current d attrs items db) (\<lambda>(db1, t).
                          Inr (db1, Some (result_items t db1))))
         in if length items > 1 \<and> \<not> ed_send_seperately d then convert ()
            else (case items of
                    [] \<Rightarrow> Inl PyIndexError
                  | i # _ \<Rightarrow> if b_product (it_batch i) \<noteq> ed_product d then convert ()
                             else Inr (db, Some items))))"

text \<open>\<open>prepare_incoming_batches\<close>: a farmer's batch is created just to be transferred.\<close>

definition prepare_incoming_batches :: "nat \<Rightarrow> ext_data \<Rightarrow> string \<Rightarrow> 'c stock_db \<Rightarrow> 'c stock_db \<times> item list" where
  "prepare_incoming_batches source d name db =
     (let b = \<lparr>b_product = ed_product d, b_node = source, b_initial = ed_quantity d,
               b_current = ed_quantity d, b_unit = ed_unit d, b_type = BATCH_INTERMEDIATE,
               b_source_tx = None, b_parents = [], b_number = 0, b_name = name, b_note = [],
               b_archived = False, b_buyer_ref = AStr [], b_seller_ref = AStr []\<rparr>;
          (db1, bid) = create_batch b db
      in (db1, [\<lparr>it_id = bid, it_batch = b\<lparr>b_number := bid + 1200\<rparr>, it_qty = ed_quantity d\<rparr>]))"

text \<open>One round of \<open>create_source_destination_batches\<close>; the source is saved at the end.\<close>

definition send_item ::
    "bool \<Rightarrow> nat \<Rightarrow> ext_data \<Rightarrow> nat \<Rightarrow> string \<Rightarrow> item \<Rightarrow> 'c stock_db \<Rightarrow> 'c stock_db result"
where
  "send_item seperately t d buyer name i db =
     (let qty = it_qty i;
          db1 = create_source_batch t (it_id i) qty db
      in rbind (link_source (ExternalTransactionCls, t) (it_batch i) db1) (\<lambda>db2.
           let amount = (if seperately then qty else ed_quantity d);
               b = \<lparr>b_product = ed_product d, b_node = buyer, b_initial = amount, b_current = amount,
                    b_unit = ed_unit d, b_type = BATCH_SOLID, b_source_tx = Some t, b_parents = [],
                    b_number = 0, b_name = name,
                    b_note = (case ed_comment d of Some c \<Rightarrow> c | None \<Rightarrow> []), b_archived = False,
                    b_buyer_ref = AStr [], b_seller_ref = AStr []\<rparr>;
               (db3, bid) = create_batch b db2
           in Inr (update_batch_farmers bid (add_batch_parent bid (it_id i) db3))))"

text \<open>
  \<open>bulk_update(selected_batches, ["current_quantity"])\<close> is one statement with a
  \<open>CASE\<close> over the keys: for a key given twice the first object counts.
\<close>

definition set_current :: "nat \<Rightarrow> int \<Rightarrow> 'c stock_db \<Rightarrow> 'c stock_db" where
  "set_current bid q db =
     (case st_batches db bid of None \<Rightarrow> db | Some b \<Rightarrow> save_batch bid (b\<lparr>b_current := q\<rparr>) db)"

definition bulk_update_current :: "item list \<Rightarrow> 'c stock_db \<Rightarrow> 'c stock_db" where
  "bulk_update_current items db =
     fold (\<lambda>i. set_current (it_id i) (b_current (it_batch i) - it_qty i)) (rev items) db"

definition create_source_destination_batches ::
    "bool \<Rightarrow> nat \<Rightarrow> ext_data \<Rightarrow> nat \<Rightarrow> string \<Rightarrow> item list \<Rightarrow> 'c stock_db \<Rightarrow> 'c stock_db result"
where
  "create_source_destination_batches seperately t d buyer name items db =
     rbind (rfold (send_item seperately t d buyer name) items db) (\<lambda>db1.
       Inr (bulk_update_current items db1))"

text \<open>
  \<open>filter_for_duplicate_txn\<close>: a stored external transaction that agrees on every field
  given (the quantity is not one of them) and has a source batch of the product.
\<close>

record ext_fields =
  ef_type :: ext_type
  ef_source :: nat
  ef_destination :: nat
  ef_comment :: "string option"
  ef_attrs :: "(string \<times> attr) list"

definition tx_matches :: "ext_fields \<Rightarrow> tx \<Rightarrow> bool" where
  "tx_matches f t \<longleftrightarrow>
     tx_kind t = External (ef_type f) (ef_source f) (ef_destination f) \<and>
     (case ef_comment f of None \<Rightarrow> True | Some c \<Rightarrow> tx_comment t = c) \<and>
     (\<forall>(k, v) \<in> set (ef_attrs f). tx_attr t k = v)"

definition has_source_product :: "'c stock_db \<Rightarrow> nat \<Rightarrow> nat \<Rightarrow> bool" where
  "has_source_product db product t \<longleftrightarrow>
     (\<exists>s \<in> set (st_sources db). sb_tx s = t \<and>
        (case st_batches db (sb_batch s) of Some b \<Rightarrow> b_product b = product | None \<Rightarrow> False))"

definition find_duplicate :: "ext_fields \<Rightarrow> nat \<Rightarrow> 'c stock_db \<Rightarrow> nat option" where
  "find_duplicate f product db =
     find (\<lambda>t. (case st_txs db t of Some x \<Rightarrow> tx_matches f x | None \<Rightarrow> False) \<and> has_source_product db product t)
       (rev [0..<st_next_tx db])"

definition create_external_tx :: "int \<Rightarrow> ext_fields \<Rightarrow> 'c stock_db \<Rightarrow> 'c stock_db \<times> nat" where
  "create_external_tx now f db =
     create_tx \<lparr>tx_kind = External (ef_type f) (ef_source f) (ef_destination f), tx_status = TX_CREATED,
                tx_comment = (case ef_comment f of Some c \<Rightarrow> c | None \<Rightarrow> []), 
                tx_attrs = stored_attrs now (ef_attrs f)\<rparr> db"

definition filter_for_duplicate_txn :: "int \<Rightarrow> ext_fields \<Rightarrow> nat \<Rightarrow> 'c stock_db \<Rightarrow> 'c stock_db \<times> nat \<times> bool" where
  "filter_for_duplicate_txn now f product db =
     (case find_duplicate f product db of
        Some t \<Rightarrow> (db, t, False)
      | None \<Rightarrow> (case create_external_tx now f db of (db1, t) \<Rightarrow> (db1, t, True)))"

text \<open>
  \<open>create\<close>. \<open>user\<close> is the current user, \<open>full_name\<close> the supplier's and the
  buyer's names. The result is the transaction and whether it was created. \<open>post_commit\<close>
  sets up the wallets of both parties and queues the follow-up.
\<close>

definition external_fields :: "nat \<Rightarrow> nat \<Rightarrow> ext_data \<Rightarrow> ext_fields" where
  "external_fields user current d =
     (let (buyer, supplier) = get_buyer_supplier (ed_type d) current (ed_node d)
      in \<lparr>ef_type = ed_type d, ef_source = supplier, ef_destination = buyer, ef_comment = ed_comment d,
          ef_attrs = with_date (ed_attrs d) @ [(''creator'', ARef user), (''updater'', ARef user)]\<rparr>)"

definition set_owner :: "nat \<Rightarrow> nat \<Rightarrow> 'c stock_db \<Rightarrow> 'c stock_db" where
  "set_owner product node db =
     (case st_products db product of
        Some p \<Rightarrow> if pr_local p \<and> (product, node) \<notin> set (st_owners db)
                  then db\<lparr>st_owners := st_owners db @ [(product, node)]\<rparr> else db
      | None \<Rightarrow> db)"

definition complete_stock_request :: "nat \<Rightarrow> nat \<Rightarrow> (nat \<times> stock_request) option \<Rightarrow> 'c stock_db \<Rightarrow> 'c stock_db" where
  "complete_stock_request t user req db =
     (case req of
        None \<Rightarrow> db
      | Some (rid, r) \<Rightarrow>
          db\<lparr>st_requests := (st_requests db)(rid \<mapsto>
               r\<lparr>sr_transaction := Some t, sr_updater := Some user, sr_status := TR_COMPLETED\<rparr>)\<rparr>)"

definition set_references :: "nat \<Rightarrow> attr \<Rightarrow> attr \<Rightarrow> 'c stock_db \<Rightarrow> 'c stock_db" where
  "set_references t buyer_ref seller_ref db =
     fold (\<lambda>bid d. case st_batches d bid of None \<Rightarrow> d
                   | Some b \<Rightarrow> save_batch bid (b\<lparr>b_buyer_ref := buyer_ref, b_seller_ref := seller_ref\<rparr>) d)
       (result_batches t db) db"

definition post_commit :: "'c stock_env \<Rightarrow> nat \<Rightarrow> nat \<Rightarrow> nat \<Rightarrow> 'c stock_db \<Rightarrow> 'c stock_db result" where
  "post_commit env t supplier buyer db =
     rbind (se_setup env supplier (st_rest db)) (\<lambda>(c1, w1).
     rbind (se_setup env buyer c1) (\<lambda>(c2, w2).
       Inr (db\<lparr>st_rest := c2, st_followups := st_followups db @ [t],
               st_txs := (st_txs db)(t := map_option
                 (\<lambda>x. x\<lparr>tx_attrs := AList.update ''source_wallet'' (ARef w1)
                                 (AList.update ''destination_wallet'' (ARef w2) (tx_attrs x))\<rparr>)
                 (st_txs db t))\<rparr>)))"

definition execute_external ::
    "'c stock_env \<Rightarrow> nat \<Rightarrow> (nat \<Rightarrow> string) \<Rightarrow> nat \<Rightarrow> ext_data \<Rightarrow> nat \<Rightarrow> item list \<Rightarrow> 'c stock_db \<Rightarrow>
     'c stock_db result"
where
  "execute_external env user full_name current d t items db =
     (let (buyer, supplier) = get_buyer_supplier (ed_type d) current (ed_node d) in
      rbind (create_source_destination_batches (ed_send_seperately d) t d buyer
               (''Purchased from '' @ full_name supplier) items db) (\<lambda>db1.
        Inr (set_references t (case ed_buyer_ref d of Some a \<Rightarrow> a | None \<Rightarrow> ANone)
               (case ed_seller_ref d of Some a \<Rightarrow> a | None \<Rightarrow> ANone)
               (complete_stock_request t user (attrs_request ''stockrequest'' d) (set_owner (ed_product d) buyer db1)))))"

definition external_create ::
    "'c stock_env \<Rightarrow> nat \<Rightarrow> (nat \<Rightarrow> string) \<Rightarrow> nat \<Rightarrow> ext_data \<Rightarrow> 'c stock_db \<Rightarrow>
     ('c stock_db \<times> nat \<times> bool) result"
where
  "external_create env user full_name current d db =
     rbind (of_option DoesNotExist (st_products db (ed_product d))) (\<lambda>p.
     rbind (ensure (ed_node d \<in> set (se_connections env (st_rest db) (pr_supply_chain p) current))
              (BadRequest ''Only connected companies can create transaction.'')) (\<lambda>_.
       let f = external_fields user current d in
       rbind (external_prepare_batches env current d (with_date (ed_attrs d)) db) (\<lambda>(db1, batches).
         let (db2, t, created) =
               (if ed_force_create d
                then (case create_external_tx (se_now env) f db1 of (db2, t) \<Rightarrow> (db2, t, True))
                else filter_for_duplicate_txn (se_now env) f (ed_product d) db1)
         in if \<not> created then Inr (db2, t, False)
            else
              (let given = (case batches of Some is' \<Rightarrow> is' | None \<Rightarrow> []);
                   (db3, items) =
                     (if given = [] \<and> ed_type d = INCOMING
                      then prepare_incoming_batches (ef_source f) d
                             (''Created for transferring to '' @ full_name (ef_destination f)) db2
                      else (db2, given))
               in rbind (execute_external env user full_name current d t items db3) (\<lambda>db4.
                    Inr (db4, t, True))))))"

definition external_request ::
    "'c stock_env \<Rightarrow> nat \<Rightarrow> (nat \<Rightarrow> string) \<Rightarrow> nat \<Rightarrow> (nat \<times> int) list option \<Rightarrow> ext_data \<Rightarrow> 'c stock_db \<Rightarrow>
     ('c stock_db \<times> nat \<times> bool) result"
where
  "external_request env user full_name current raws d db =
     rbind (validate_node (ed_type d) current (ed_node d) (ed_product d) db) (\<lambda>_.
     rbind (ensure (10 \<le> ed_quantity d) (ValidationError ''quantity'')) (\<lambda>_.
     rbind (validate_optional db raws) (\<lambda>items.
     rbind (external_validate current (d\<lparr>ed_batches := items\<rparr>)) (\<lambda>_.
       external_create env user full_name current (d\<lparr>ed_batches := items\<rparr>) db))))"

section \<open>Rejecting an external transaction\<close>

record reject_data =
  rj_tx :: nat
  rj_batches :: "(nat \<times> int) list"

text \<open>
  \<open>ExternalTransactionRejectionSerializer.validate\<close>: no result batch may have been
  used, and only the destination may reject.
\<close>

definition rejection_validate :: "nat \<Rightarrow> nat \<Rightarrow> 'c stock_db \<Rightarrow> reject_data result" where
  "rejection_validate node t db =
     rbind (of_option DoesNotExist (st_txs db t)) (\<lambda>x.
       case tx_kind x of
         Internal _ _ _ _ \<Rightarrow> Inl DoesNotExist
       | External _ source destination \<Rightarrow>
           (let items = result_items t db in
            rbind (ensure (\<forall>i\<in>set items. b_initial (it_batch i) = b_current (it_batch i))
                     (BadRequest ''Transaction cannot be rejected'')) (\<lambda>_.
            rbind (ensure (destination = node)
                     (BadRequest ''Only destination node can reject transaction.'')) (\<lambda>_.
              Inr \<lparr>rj_tx = t, rj_batches = map (\<lambda>i. (it_id i, b_initial (it_batch i))) items\<rparr>))))"

text \<open>
  The reversal: price and currency of the rejected transaction, product, unit and quantity
  of its newest result batch, and all its result batches as sources. The key \<open>name\<close> of
  the code's dictionary is not a field of the serializer and is dropped by it. The
  serializer's \<open>quantity\<close> is at least 0.01, ten thousandths.
\<close>

definition reversal_data :: "tx \<Rightarrow> nat \<Rightarrow> string \<Rightarrow> batch \<Rightarrow> ext_data" where
  "reversal_data x source comment first =
     \<lparr>ed_type = REVERSAL, ed_node = source, ed_product = b_product first,
      ed_quantity = b_initial first, ed_unit = b_unit first, ed_batches = None,
      ed_select_all = False, ed_send_seperately = False, ed_force_create = False,
      ed_comment = Some comment,
      ed_currency = (case tx_attr x ''currency'' of AStr c \<Rightarrow> Some c | _ \<Rightarrow> None),
      ed_price = Some (case tx_attr x ''price'' of ARat p \<Rightarrow> Some p | _ \<Rightarrow> None),
      ed_request = None, ed_buyer_ref = None, ed_seller_ref = None,
      ed_attrs = [(''price'', tx_attr x ''price''), (''currency'', tx_attr x ''currency'')]\<rparr>"

definition rejection_create ::
    "'c stock_env \<Rightarrow> nat \<Rightarrow> (nat \<Rightarrow> string) \<Rightarrow> nat \<Rightarrow> string \<Rightarrow> reject_data \<Rightarrow> 'c stock_db \<Rightarrow>
     'c stock_db result"
where
  "rejection_create env user full_name node comment j db =
     rbind (of_option DoesNotExist (st_txs db (rj_tx j))) (\<lambda>x.
       let db1 = db\<lparr>st_rest := se_remove_notifications env (rj_tx j) db,
                    st_txs := (st_txs db)(rj_tx j \<mapsto> x\<lparr>tx_status := TX_DECLINED, tx_comment := comment\<rparr>)\<rparr>
       in case tx_kind x of
            Internal _ _ _ _ \<Rightarrow> Inl PyAttributeError
          | External _ source _ \<Rightarrow>
              rbind (first_result_item (rj_tx j) db1) (\<lambda>first.
              rbind (external_request env user full_name node (Some (rj_batches j))
                       (reversal_data x source comment (it_batch first)) db1) (\<lambda>(db2, t, created).
                Inr db2)))"

text \<open>The whole request: validate, then create.\<close>

definition reject_transaction ::
    "'c stock_env \<Rightarrow> nat \<Rightarrow> (nat \<Rightarrow> string) \<Rightarrow> nat \<Rightarrow> string \<Rightarrow> nat \<Rightarrow> 'c stock_db \<Rightarrow> 'c stock_db result"
where
  "reject_transaction env user full_name node comment t db =
     rbind (rejection_validate node t db) (\<lambda>j. rejection_create env user full_name node comment j db)"

definition is_rejectable :: "nat \<Rightarrow> bool \<Rightarrow> 'c stock_db \<Rightarrow> bool result" where
  "is_rejectable t claims_attached db =
     rbind (of_option DoesNotExist (st_txs db t)) (\<lambda>x.
       case tx_kind x of
         Internal _ _ _ _ \<Rightarrow> Inl PyAttributeError
       | External ty source _ \<Rightarrow>
           if ty = REVERSAL then Inr False
           else if tx_status x = TX_DECLINED then Inr False
           else if st_node_type db source = NODE_FARM then Inr False
           else if \<exists>i\<in>set (result_items t db). is_used (it_batch i) then Inr False
           else rbind (first_result_item t db) (\<lambda>_. if claims_attached then Inr False else Inr True))"

end
