(* ===== verification/Stock_Properties.thy ===== *)
theory Stock_Properties
  imports Stock_Ledger
begin

text \<open>
  What the operations of \<open>Stock_Ledger\<close> do to the stock. The measures are
  \<open>current_of\<close> (what is left in a batch) and \<open>total_stock\<close>; the invariant
  \<open>stock_wf\<close> says that keys come from the counters and that the parents of a transaction
  are older than it. The first part follows each operation; then come conservation and
  non-negativity for requests that name each batch once, and what happens otherwise.
\<close>

section \<open>Measures and invariant\<close>

definition current_of :: "'c stock_db \<Rightarrow> nat \<Rightarrow> int" where
  "current_of db bid = (case st_batches db bid of Some b \<Rightarrow> b_current b | None \<Rightarrow> 0)"

definition total_stock :: "'c stock_db \<Rightarrow> int" where
  "total_stock db = (\<Sum>bid<st_next_batch db. current_of db bid)"

definition taken :: "item list \<Rightarrow> nat \<Rightarrow> int" where
  "taken items bid = sum_list [it_qty i. i \<leftarrow> items, it_id i = bid]"

definition stock_wf :: "'c stock_db \<Rightarrow> bool" where
  "stock_wf db \<longleftrightarrow>
     (\<forall>bid b. st_batches db bid = Some b \<longrightarrow> bid < st_next_batch db \<and>
        (\<forall>t. b_source_tx b = Some t \<longrightarrow> t < st_next_tx db)) \<and>
     ranked (st_parents db) \<and> (\<forall>n. st_next_tx db \<le> n \<longrightarrow> st_parents db n = [])"

text \<open>The snapshots of the items are the present rows.\<close>

definition fresh_items :: "'c stock_db \<Rightarrow> item list \<Rightarrow> bool" where
  "fresh_items db items \<longleftrightarrow> (\<forall>i\<in>set items. st_batches db (it_id i) = Some (it_batch i))"

text \<open>The new rows and counters an operation may add, the old rows being as given.\<close>

definition grows :: "'c stock_db \<Rightarrow> 'c stock_db \<Rightarrow> bool" where
  "grows db db' \<longleftrightarrow> st_next_batch db \<le> st_next_batch db' \<and> st_next_tx db \<le> st_next_tx db' \<and>
     st_node_type db' = st_node_type db \<and> st_products db' = st_products db"

lemma grows_refl [simp]: "grows db db"
  by (simp add: grows_def)

lemma grows_trans [trans]: "grows a b \<Longrightarrow> grows b c \<Longrightarrow> grows a c"
  by (auto simp: grows_def)

lemma stock_wf_batch:
  "stock_wf db \<Longrightarrow> st_batches db bid = Some b \<Longrightarrow> bid < st_next_batch db"
  "stock_wf db \<Longrightarrow> st_batches db bid = Some b \<Longrightarrow> b_source_tx b = Some t \<Longrightarrow> t < st_next_tx db"
  by (auto simp: stock_wf_def)

lemma stock_wf_new: "stock_wf db \<Longrightarrow> st_batches db (st_next_batch db) = None"
  by (cases "st_batches db (st_next_batch db)") (auto simp: stock_wf_def)

section \<open>Elementary writes\<close>

lemma save_batch_sel [simp]:
  "st_batches (save_batch bid b db) = (st_batches db)(bid \<mapsto> b)"
  "st_next_batch (save_batch bid b db) = st_next_batch db"
  "st_next_tx (save_batch bid b db) = st_next_tx db"
  "st_parents (save_batch bid b db) = st_parents db"
  "st_node_type (save_batch bid b db) = st_node_type db"
  "st_products (save_batch bid b db) = st_products db"
  "st_txs (save_batch bid b db) = st_txs db"
  "st_sources (save_batch bid b db) = st_sources db"
  "st_rest (save_batch bid b db) = st_rest db"
  "st_farmers (save_batch bid b db) = st_farmers db"
  "st_requests (save_batch bid b db) = st_requests db"
  by (simp_all add: save_batch_def)

text \<open>Two databases that differ outside the stock tables, or in farmers only.\<close>

definition same_stock :: "'c stock_db \<Rightarrow> 'c stock_db \<Rightarrow> bool" where
  "same_stock db db' \<longleftrightarrow> st_batches db' = st_batches db \<and> st_next_batch db' = st_next_batch db \<and>
     st_next_tx db' = st_next_tx db \<and> st_parents db' = st_parents db \<and> st_sources db' = st_sources db \<and>
     st_node_type db' = st_node_type db \<and> st_products db' = st_products db"

lemma same_stock_refl [simp]: "same_stock db db"
  by (simp add: same_stock_def)

lemma same_stock_trans: "same_stock a b \<Longrightarrow> same_stock b c \<Longrightarrow> same_stock a c"
  by (simp add: same_stock_def)

lemma same_stock_facts:
  assumes "same_stock db db'"
  shows "current_of db' = current_of db" "total_stock db' = total_stock db"
    "stock_wf db' = stock_wf db" "grows db db'" "fresh_items db' items = fresh_items db items"
    "result_batches t db' = result_batches t db"
  using assms
  unfolding current_of_def [abs_def] total_stock_def stock_wf_def grows_def fresh_items_def
    result_batches_def
  by (simp_all add: same_stock_def)

lemma same_stock_add_farmer [simp]: "same_stock db (add_farmer bid f db)"
  by (simp add: add_farmer_def same_stock_def)

lemma same_stock_fold:
  "(\<And>x d. same_stock d (f x d)) \<Longrightarrow> same_stock db (fold f xs db)"
  by (induction xs arbitrary: db) (auto intro: same_stock_trans)

lemma same_stock_update_farmers: "same_stock db (update_batch_farmers bid db)"
  unfolding update_batch_farmers_def copy_farmers_def
  by (auto split: option.splits intro!: same_stock_fold same_stock_add_farmer)

lemma same_stock_rest [simp]: "same_stock db (db\<lparr>st_rest := c\<rparr>)"
  "same_stock db (db\<lparr>st_followups := fs\<rparr>)" "same_stock db (db\<lparr>st_owners := os\<rparr>)"
  "same_stock db (db\<lparr>st_requests := rs\<rparr>)" "same_stock db (db\<lparr>st_txs := ts\<rparr>)"
  by (simp_all add: same_stock_def)

text \<open>
  Adding parents to a batch changes nothing of what it holds. \<open>touches bid db db'\<close>: all
  rows but \<open>bid\<close> are unchanged, and \<open>bid\<close> keeps quantity, product, node and source.
\<close>

definition touches :: "nat \<Rightarrow> 'c stock_db \<Rightarrow> 'c stock_db \<Rightarrow> bool" where
  "touches bid db db' \<longleftrightarrow> (\<forall>x. x \<noteq> bid \<longrightarrow> st_batches db' x = st_batches db x) \<and>
     (\<forall>b. st_batches db bid = Some b \<longrightarrow> (\<exists>ps. st_batches db' bid = Some (b\<lparr>b_parents := ps\<rparr>))) \<and>
     (st_batches db bid = None \<longrightarrow> st_batches db' bid = None) \<and>
     st_next_batch db' = st_next_batch db \<and> st_next_tx db' = st_next_tx db \<and>
     st_parents db' = st_parents db \<and> st_sources db' = st_sources db \<and>
     st_node_type db' = st_node_type db \<and> st_products db' = st_products db"

lemma same_but_parents [simp]: "\<exists>ps. b = b\<lparr>b_parents := ps\<rparr>"
  by (rule exI [of _ "b_parents b"]) simp

lemma touches_refl [simp]: "touches bid db db"
  by (simp add: touches_def)

lemma touches_trans: "touches bid a b \<Longrightarrow> touches bid b c \<Longrightarrow> touches bid a c"
  by (fastforce simp: touches_def)

lemma touches_same_stock: "same_stock db db' \<Longrightarrow> touches bid db db'"
  by (simp add: touches_def same_stock_def)

lemma touches_add_parent: "touches bid db (add_batch_parent bid p db)"
  by (auto simp: touches_def add_batch_parent_def split: option.splits)

lemma touches_add_parents: "touches bid db (add_parents_and_farmers bid ps db)"
  unfolding add_parents_and_farmers_def
proof (induction ps arbitrary: db)
  case (Cons p ps)
  have "touches bid db (update_batch_farmers bid (add_batch_parent bid p db))"
    by (rule touches_trans [OF touches_add_parent touches_same_stock [OF same_stock_update_farmers]])
  then show ?case using Cons.IH by (auto intro: touches_trans)
qed simp

lemma touches_facts:
  assumes "touches bid db db'"
  shows "current_of db' = current_of db" "total_stock db' = total_stock db" "grows db db'"
    "stock_wf db \<Longrightarrow> stock_wf db'"
proof -
  show c: "current_of db' = current_of db"
  proof
    fix x show "current_of db' x = current_of db x"
      using assms by (cases "x = bid"; cases "st_batches db bid")
        (auto simp: touches_def current_of_def)
  qed
  show "total_stock db' = total_stock db" using assms by (simp add: total_stock_def c touches_def)
  show "grows db db'" using assms by (simp add: touches_def grows_def)
  assume wf: "stock_wf db"
  have "x < st_next_batch db' \<and> (\<forall>t. b_source_tx b = Some t \<longrightarrow> t < st_next_tx db')"
    if "st_batches db' x = Some b" for x b
  proof (cases "x = bid")
    case True
    then have "\<exists>b0 ps. st_batches db bid = Some b0 \<and> b = b0\<lparr>b_parents := ps\<rparr>"
      using assms that by (cases "st_batches db bid") (auto simp: touches_def)
    then show ?thesis using wf assms True by (auto simp: stock_wf_def touches_def)
  next
    case False
    then show ?thesis using wf assms that by (auto simp: stock_wf_def touches_def)
  qed
  then show "stock_wf db'" using wf assms by (simp add: stock_wf_def touches_def)
qed

section \<open>Creating batches\<close>

lemma create_batch_sel:
  assumes "create_batch b db = (db', bid)" "b_number b = 0"
  shows "bid = st_next_batch db"
    and "st_batches db' = (st_batches db)(bid \<mapsto> b\<lparr>b_number := bid + 1200\<rparr>)"
    and "st_next_batch db' = Suc bid" "st_next_tx db' = st_next_tx db" "st_parents db' = st_parents db"
    "st_sources db' = st_sources db" "st_node_type db' = st_node_type db"
    "st_products db' = st_products db" "st_txs db' = st_txs db" "st_rest db' = st_rest db"
    "st_requests db' = st_requests db"
  using assms by (auto simp: create_batch_def Let_def add_farmer_def split: if_splits)

lemma current_of_upd:
  "st_batches db' = (st_batches db)(bid \<mapsto> b) \<Longrightarrow> current_of db' = (current_of db)(bid := b_current b)"
  by (auto simp: current_of_def fun_eq_iff)

text \<open>\<open>creates db db' bid b\<close>: the row \<open>b\<close> (up to its parents and number) was added.\<close>

definition creates :: "'c stock_db \<Rightarrow> 'c stock_db \<Rightarrow> nat \<Rightarrow> batch \<Rightarrow> bool" where
  "creates db db' bid b \<longleftrightarrow> bid = st_next_batch db \<and> st_next_batch db' = Suc bid \<and>
     (\<forall>x. x \<noteq> bid \<longrightarrow> st_batches db' x = st_batches db x) \<and>
     (\<exists>ps n. st_batches db' bid = Some (b\<lparr>b_parents := ps, b_number := n\<rparr>)) \<and>
     st_next_tx db' = st_next_tx db \<and> st_parents db' = st_parents db \<and> st_sources db' = st_sources db \<and>
     st_node_type db' = st_node_type db \<and> st_products db' = st_products db"

lemma creates_facts:
  assumes "creates db db' bid b"
  shows "current_of db' = (current_of db)(bid := b_current b)"
    "total_stock db' = total_stock db + b_current b" "grows db db'"
    "stock_wf db \<Longrightarrow> (\<And>t. b_source_tx b = Some t \<Longrightarrow> t < st_next_tx db) \<Longrightarrow> stock_wf db'"
proof -
  show c: "current_of db' = (current_of db)(bid := b_current b)"
    using assms by (auto simp: creates_def current_of_def fun_eq_iff)
  show "total_stock db' = total_stock db + b_current b"
    using assms by (simp add: total_stock_def c creates_def)
  show "grows db db'" using assms by (simp add: creates_def grows_def)
  assume wf: "stock_wf db" and t: "\<And>t. b_source_tx b = Some t \<Longrightarrow> t < st_next_tx db"
  have "x < st_next_batch db' \<and> (\<forall>t. b_source_tx y = Some t \<longrightarrow> t < st_next_tx db')"
    if "st_batches db' x = Some y" for x y
    using assms wf t that by (cases "x = bid") (auto simp: creates_def stock_wf_def less_Suc_eq)
  then show "stock_wf db'" using assms wf by (simp add: stock_wf_def creates_def)
qed

lemma create_batch_creates:
  assumes "create_batch b db = (db', bid)" "b_number b = 0"
  shows "creates db db' bid b"
  using create_batch_sel [OF assms] by (auto simp: creates_def intro!: exI [of _ "b_parents b"])

lemma creates_touches:
  assumes "creates db db1 bid b" "touches bid db1 db2"
  shows "creates db db2 bid b"
proof -
  obtain ps n where "st_batches db1 bid = Some (b\<lparr>b_parents := ps, b_number := n\<rparr>)"
    using assms(1) by (auto simp: creates_def)
  then obtain qs where "st_batches db2 bid = Some (b\<lparr>b_parents := ps, b_number := n\<rparr>\<lparr>b_parents := qs\<rparr>)"
    using assms(2) unfolding touches_def by blast
  then have "st_batches db2 bid = Some (b\<lparr>b_parents := qs, b_number := n\<rparr>)" by simp
  then show ?thesis using assms unfolding creates_def touches_def by auto
qed

lemma creates_same_stock: "creates db db1 bid b \<Longrightarrow> same_stock db1 db2 \<Longrightarrow> creates db db2 bid b"
  by (auto simp: creates_def same_stock_def)

definition dest_batch :: "nat \<Rightarrow> nat \<Rightarrow> int_type \<Rightarrow> batch_type \<Rightarrow> string \<Rightarrow> dest_item \<Rightarrow> batch" where
  "dest_batch t node ty btype note d =
     \<lparr>b_product = di_product d, b_node = node, b_initial = di_quantity d, b_current = di_quantity d,
      b_unit = di_unit d, b_type = btype, b_source_tx = Some t, b_parents = [], b_number = 0,
      b_name = internal_name ty, b_note = note, b_archived = False, b_buyer_ref = AStr [],
      b_seller_ref = AStr []\<rparr>"

lemma dest_batch_sel [simp]:
  "b_current (dest_batch t node ty btype note d) = di_quantity d"
  "b_initial (dest_batch t node ty btype note d) = di_quantity d"
  "b_product (dest_batch t node ty btype note d) = di_product d"
  "b_node (dest_batch t node ty btype note d) = node"
  "b_source_tx (dest_batch t node ty btype note d) = Some t"
  "b_number (dest_batch t node ty btype note d) = 0"
  by (simp_all add: dest_batch_def)

lemma make_dest_creates:
  assumes "make_dest env t node ty mode btype note ps d db = Inr db'"
  shows "creates db db' (st_next_batch db) (dest_batch t node ty btype note d)"
proof -
  obtain db1 bid where c: "create_batch (dest_batch t node ty btype note d) db = (db1, bid)"
    by fastforce
  define db2 where "db2 = add_parents_and_farmers bid ps db1"
  have "same_stock db2 db'"
    using assms c
    by (auto simp: make_dest_def dest_batch_def [symmetric] Let_def db2_def [symmetric] rbind_eq_Inr
        split: if_splits)
  moreover have "creates db db2 bid (dest_batch t node ty btype note d)"
    unfolding db2_def
    by (rule creates_touches [OF create_batch_creates [OF c] touches_add_parents]) simp
  ultimately show ?thesis
    using create_batch_sel(1) [OF c] creates_same_stock by fastforce
qed

text \<open>All destinations: the old rows stay, the total grows by the quantities.\<close>

lemma make_dests:
  assumes "rfold (make_dest env t node ty mode btype note ps) ds db = Inr db'"
    and "stock_wf db" "t < st_next_tx db"
  shows "stock_wf db' \<and> grows db db' \<and> st_next_tx db' = st_next_tx db \<and>
    total_stock db' = total_stock db + sum_list (map di_quantity ds) \<and>
    (\<forall>x<st_next_batch db. st_batches db' x = st_batches db x) \<and>
    st_next_batch db' = st_next_batch db + length ds \<and> st_sources db' = st_sources db \<and>
    (\<forall>j<length ds. \<exists>b. st_batches db' (st_next_batch db + j) = Some b \<and>
       b_current b = di_quantity (ds ! j) \<and> b_initial b = di_quantity (ds ! j) \<and>
       b_product b = di_product (ds ! j) \<and> b_node b = node \<and> b_source_tx b = Some t)"
  using assms
proof (induction ds arbitrary: db)
  case (Cons d ds)
  then obtain db1 where m: "make_dest env t node ty mode btype note ps d db = Inr db1"
    "rfold (make_dest env t node ty mode btype note ps) ds db1 = Inr db'"
    by (auto simp: rbind_eq_Inr)
  note c = make_dest_creates [OF m(1)]
  note f = creates_facts [OF c]
  have c': "st_next_batch db1 = Suc (st_next_batch db)" "st_next_tx db1 = st_next_tx db"
    "st_sources db1 = st_sources db" "\<And>x. x \<noteq> st_next_batch db \<Longrightarrow> st_batches db1 x = st_batches db x"
    using c by (auto simp: creates_def)
  have wf1: "stock_wf db1" using f(4) Cons.prems by simp
  have ih: "stock_wf db' \<and> grows db1 db' \<and> st_next_tx db' = st_next_tx db1 \<and>
    total_stock db' = total_stock db1 + sum_list (map di_quantity ds) \<and>
    (\<forall>x<st_next_batch db1. st_batches db' x = st_batches db1 x) \<and>
    st_next_batch db' = st_next_batch db1 + length ds \<and> st_sources db' = st_sources db1 \<and>
    (\<forall>j<length ds. \<exists>b. st_batches db' (st_next_batch db1 + j) = Some b \<and>
       b_current b = di_quantity (ds ! j) \<and> b_initial b = di_quantity (ds ! j) \<and>
       b_product b = di_product (ds ! j) \<and> b_node b = node \<and> b_source_tx b = Some t)"
    using Cons.IH [OF m(2) wf1] Cons.prems(3) c'(2) by simp
  have new: "\<exists>b. st_batches db' (st_next_batch db + j) = Some b \<and>
       b_current b = di_quantity ((d # ds) ! j) \<and> b_initial b = di_quantity ((d # ds) ! j) \<and>
       b_product b = di_product ((d # ds) ! j) \<and> b_node b = node \<and> b_source_tx b = Some t"
    if "j < length (d # ds)" for j
  proof (cases j)
    case 0
    then have "st_batches db' (st_next_batch db) = st_batches db1 (st_next_batch db)"
      using ih c' by simp
    then show ?thesis using c 0 by (auto simp: creates_def)
  next
    case (Suc k)
    then show ?thesis using ih c' that by auto
  qed
  show ?case
    using ih c' f(2,3) new by (auto simp: less_Suc_eq intro: grows_trans)
qed simp

section \<open>Taking from batches\<close>

definition older :: "nat \<Rightarrow> 'c stock_db \<Rightarrow> bool" where
  "older n db \<longleftrightarrow> (\<forall>bid b t. st_batches db bid = Some b \<longrightarrow> b_source_tx b = Some t \<longrightarrow> t < n)"

lemma link_source_ok:
  assumes wf: "stock_wf db" and n: "n < st_next_tx db" and o: "\<And>t. b_source_tx b = Some t \<Longrightarrow> t < n"
  shows "\<exists>par. link_source (cls, n) b db = Inr (db\<lparr>st_parents := par\<rparr>) \<and> ranked par \<and>
    (\<forall>m. m \<noteq> n \<longrightarrow> par m = st_parents db m) \<and>
    set (par n) = set_option (b_source_tx b) \<union> set (st_parents db n)"
proof (cases "b_source_tx b")
  case None
  then show ?thesis using wf by (intro exI [of _ "st_parents db"]) (simp add: link_source_def stock_wf_def)
next
  case (Some p)
  have r: "ranked (st_parents db)" using wf by (simp add: stock_wf_def)
  obtain par where "add_parent (Suc (st_next_tx db)) (st_parents db) (cls, n) (TransactionCls, p) = Inr par"
    "ranked par" "\<forall>m. m \<noteq> n \<longrightarrow> par m = st_parents db m" "set (par n) = insert p (set (st_parents db n))"
    using graph.link_older [OF r o [OF Some], of "Suc (st_next_tx db)" cls] n by auto
  then show ?thesis using Some by (auto simp: link_source_def)
qed

lemma stock_wf_parents:
  "stock_wf db \<Longrightarrow> ranked par \<Longrightarrow> (\<forall>m. m \<noteq> n \<longrightarrow> par m = st_parents db m) \<Longrightarrow> n < st_next_tx db \<Longrightarrow>
     stock_wf (db\<lparr>st_parents := par\<rparr>)"
  by (auto simp: stock_wf_def)

lemma stock_wf_save:
  "stock_wf db \<Longrightarrow> st_batches db bid = Some b0 \<Longrightarrow> b_source_tx b = b_source_tx b0 \<Longrightarrow>
     stock_wf (save_batch bid b db)"
  by (auto simp: stock_wf_def)

lemma take_source_ok:
  assumes wf: "stock_wf db" and n: "n < st_next_tx db" and o: "older n db"
    and fr: "st_batches db (it_id i) = Some (it_batch i)" and q: "it_qty i \<le> b_current (it_batch i)"
  obtains db' where "take_source (cls, n) i db = Inr db'" "stock_wf db'" "older n db'"
    "st_batches db' = (st_batches db)(it_id i \<mapsto> (it_batch i)\<lparr>b_current := b_current (it_batch i) - it_qty i\<rparr>)"
    "st_next_batch db' = st_next_batch db" "st_next_tx db' = st_next_tx db" "st_rest db' = st_rest db"
    "st_node_type db' = st_node_type db" "st_products db' = st_products db" "st_txs db' = st_txs db"
    "st_sources db' = st_sources db @ [\<lparr>sb_tx = n, sb_batch = it_id i, sb_quantity = it_qty i\<rparr>]"
    "st_requests db' = st_requests db"
proof -
  let ?b = "(it_batch i)\<lparr>b_current := b_current (it_batch i) - it_qty i\<rparr>"
  let ?db1 = "create_source_batch n (it_id i) (it_qty i) (save_batch (it_id i) ?b db)"
  have wf1: "stock_wf ?db1"
    using stock_wf_save [OF wf fr, of ?b] by (simp add: create_source_batch_def stock_wf_def)
  have src: "\<And>t. b_source_tx ?b = Some t \<Longrightarrow> t < n" using o fr by (auto simp: older_def)
  have n1: "n < st_next_tx ?db1" using n by (simp add: create_source_batch_def)
  obtain par where par: "link_source (cls, n) ?b ?db1 = Inr (?db1\<lparr>st_parents := par\<rparr>)" "ranked par"
    "\<forall>m. m \<noteq> n \<longrightarrow> par m = st_parents ?db1 m"
    using link_source_ok [where b = ?b and cls = cls, OF wf1 n1 src] by blast
  have t: "take_source (cls, n) i db = Inr (?db1\<lparr>st_parents := par\<rparr>)"
    using par(1) q by (simp add: take_source_def Let_def)
  have wf2: "stock_wf (?db1\<lparr>st_parents := par\<rparr>)" by (rule stock_wf_parents [OF wf1 par(2,3) n1])
  have o2: "older n (?db1\<lparr>st_parents := par\<rparr>)"
    using o fr by (auto simp: older_def create_source_batch_def)
  show thesis
    by (rule that [OF t wf2 o2]) (simp_all add: create_source_batch_def)
qed

lemma take_source_Inr_le: "take_source t i db = Inr db' \<Longrightarrow> it_qty i \<le> b_current (it_batch i)"
  by (auto simp: take_source_def Let_def split: if_splits)

lemma taken_Nil [simp]: "taken [] bid = 0"
  by (simp add: taken_def)

lemma taken_Cons [simp]: "taken (i # is') bid = (if it_id i = bid then it_qty i else 0) + taken is' bid"
  by (simp add: taken_def)

lemma taken_append [simp]: "taken (xs @ ys) bid = taken xs bid + taken ys bid"
  by (simp add: taken_def)

lemma taken_notin: "bid \<notin> it_id ` set items \<Longrightarrow> taken items bid = 0"
  by (induction items) auto

lemma taken_distinct:
  "distinct (map it_id items) \<Longrightarrow> i \<in> set items \<Longrightarrow> taken items (it_id i) = it_qty i"
  by (induction items) (auto simp: taken_notin image_iff)

text \<open>
  The loop over the source batches, each named once and freshly loaded: it succeeds exactly
  if every batch has the quantity, and takes exactly that.
\<close>

lemma take_sources_ok:
  assumes "stock_wf db" "n < st_next_tx db" "older n db" "fresh_items db items"
    "distinct (map it_id items)" "\<forall>i\<in>set items. it_qty i \<le> b_current (it_batch i)"
  shows "\<exists>db'. rfold (take_source (cls, n)) items db = Inr db' \<and> stock_wf db' \<and> older n db' \<and>
    (\<forall>bid. current_of db' bid = current_of db bid - taken items bid) \<and>
    (\<forall>bid. bid \<notin> it_id ` set items \<longrightarrow> st_batches db' bid = st_batches db bid) \<and>
    (\<forall>i\<in>set items. st_batches db' (it_id i) =
       Some ((it_batch i)\<lparr>b_current := b_current (it_batch i) - it_qty i\<rparr>)) \<and>
    st_next_batch db' = st_next_batch db \<and> st_next_tx db' = st_next_tx db \<and> st_rest db' = st_rest db \<and>
    st_node_type db' = st_node_type db \<and> st_products db' = st_products db \<and> st_txs db' = st_txs db \<and>
    st_requests db' = st_requests db \<and>
    st_sources db' = st_sources db @ map (\<lambda>i. \<lparr>sb_tx = n, sb_batch = it_id i, sb_quantity = it_qty i\<rparr>) items"
  using assms
proof (induction items arbitrary: db)
  case (Cons i items)
  have fr: "st_batches db (it_id i) = Some (it_batch i)" using Cons.prems(4) by (simp add: fresh_items_def)
  have q: "it_qty i \<le> b_current (it_batch i)" using Cons.prems(6) by simp
  obtain db1 where 1: "take_source (cls, n) i db = Inr db1" "stock_wf db1" "older n db1"
    "st_batches db1 = (st_batches db)(it_id i \<mapsto> (it_batch i)\<lparr>b_current := b_current (it_batch i) - it_qty i\<rparr>)"
    "st_next_batch db1 = st_next_batch db" "st_next_tx db1 = st_next_tx db" "st_rest db1 = st_rest db"
    "st_node_type db1 = st_node_type db" "st_products db1 = st_products db" "st_txs db1 = st_txs db"
    "st_sources db1 = st_sources db @ [\<lparr>sb_tx = n, sb_batch = it_id i, sb_quantity = it_qty i\<rparr>]"
    "st_requests db1 = st_requests db"
    by (rule take_source_ok [OF Cons.prems(1-3) fr q])
  have ni: "it_id i \<notin> it_id ` set items" using Cons.prems(5) by auto
  have fr1: "fresh_items db1 items"
    using Cons.prems(4) ni by (auto simp: fresh_items_def 1(4) image_iff)
  have "n < st_next_tx db1" using 1 Cons.prems(2) by simp
  from Cons.IH [OF 1(2) this 1(3) fr1] Cons.prems(5,6) obtain db' where
    2: "rfold (take_source (cls, n)) items db1 = Inr db'" "stock_wf db'" "older n db'"
    "\<And>bid. current_of db' bid = current_of db1 bid - taken items bid"
    "\<And>bid. bid \<notin> it_id ` set items \<Longrightarrow> st_batches db' bid = st_batches db1 bid"
    "\<forall>i\<in>set items. st_batches db' (it_id i) =
       Some ((it_batch i)\<lparr>b_current := b_current (it_batch i) - it_qty i\<rparr>)"
    "st_next_batch db' = st_next_batch db1" "st_next_tx db' = st_next_tx db1" "st_rest db' = st_rest db1"
    "st_node_type db' = st_node_type db1" "st_products db' = st_products db1" "st_txs db' = st_txs db1"
    "st_requests db' = st_requests db1"
    "st_sources db' = st_sources db1 @ map (\<lambda>i. \<lparr>sb_tx = n, sb_batch = it_id i, sb_quantity = it_qty i\<rparr>) items"
    by auto
  have c1: "current_of db1 bid = current_of db bid - (if it_id i = bid then it_qty i else 0)" for bid
    using fr by (auto simp: current_of_def 1(4))
  have "current_of db' bid = current_of db bid - taken (i # items) bid" for bid
    using 2(4) [of bid] c1 [of bid] by simp
  moreover have "st_batches db' (it_id i) = Some ((it_batch i)\<lparr>b_current := b_current (it_batch i) - it_qty i\<rparr>)"
    using 2(5) [OF ni] 1(4) by simp
  ultimately show ?case
    using 1 2 by (auto simp: rbind_def)
qed (simp add: rfold.simps)

lemma sum_taken:
  assumes "\<forall>i\<in>set items. it_id i < N"
  shows "(\<Sum>bid<N. taken items bid) = sum_list (map it_qty items)"
  using assms
proof (induction items)
  case (Cons i items)
  have "(\<Sum>bid<N. if it_id i = bid then it_qty i else 0) = it_qty i"
    using Cons.prems by simp
  then show ?case using Cons by (simp add: sum.distrib)
qed simp

lemma total_after_taking:
  assumes "\<And>bid. current_of db' bid = current_of db bid - taken items bid"
    and "st_next_batch db' = st_next_batch db" and "\<forall>i\<in>set items. it_id i < st_next_batch db"
  shows "total_stock db' = total_stock db - sum_list (map it_qty items)"
  using assms(1,2) sum_taken [OF assms(3)] by (simp add: total_stock_def sum_subtractf)

lemma fresh_ids: "stock_wf db \<Longrightarrow> fresh_items db items \<Longrightarrow> \<forall>i\<in>set items. it_id i < st_next_batch db"
  by (auto simp: fresh_items_def dest: stock_wf_batch)

section \<open>Internal transactions\<close>

lemma create_tx_sel [simp]:
  "snd (create_tx x db) = st_next_tx db"
  "st_batches (fst (create_tx x db)) = st_batches db"
  "st_next_batch (fst (create_tx x db)) = st_next_batch db"
  "st_next_tx (fst (create_tx x db)) = Suc (st_next_tx db)"
  "st_parents (fst (create_tx x db)) = st_parents db"
  "st_sources (fst (create_tx x db)) = st_sources db"
  "st_node_type (fst (create_tx x db)) = st_node_type db"
  "st_products (fst (create_tx x db)) = st_products db"
  "st_rest (fst (create_tx x db)) = st_rest db"
  "st_requests (fst (create_tx x db)) = st_requests db"
  "st_txs (fst (create_tx x db)) = (st_txs db)(st_next_tx db \<mapsto> x)"
  by (simp_all add: create_tx_def Let_def)

lemma create_tx_wf:
  assumes "stock_wf db"
  shows "stock_wf (fst (create_tx x db))" and "older (st_next_tx db) (fst (create_tx x db))"
    and "grows db (fst (create_tx x db))"
  using assms by (auto simp: stock_wf_def older_def grows_def less_Suc_eq)

text \<open>The sources an internal transaction consumes and the destinations it produces.\<close>

definition produced :: "int_data \<Rightarrow> int_type \<Rightarrow> dest_item list" where
  "produced d ty = (if ty = LOSS then [] else (case id_dests d of Some ds \<Rightarrow> ds | None \<Rightarrow> []))"

lemma take_sources_le:
  "rfold (take_source t) items db = Inr db' \<Longrightarrow> \<forall>i\<in>set items. it_qty i \<le> b_current (it_batch i)"
  by (induction items arbitrary: db) (auto simp: rbind_eq_Inr dest: take_source_Inr_le)

lemma execute_internal_split:
  assumes ex: "execute_internal env node wallet d ty items db = Inr (db', t)"
  obtains x mode btype comment db2 db3 where
    "rfold (take_source (InternalTransactionCls, st_next_tx db)) items (fst (create_tx x db)) = Inr db2"
    "rfold (make_dest env (st_next_tx db) node ty mode btype comment (map it_id items)) (produced d ty) db2 = Inr db3"
    "db' = db3\<lparr>st_followups := st_followups db3 @ [st_next_tx db]\<rparr>" "t = st_next_tx db"
proof -
  define mode where "mode = (case id_mode d of Some m \<Rightarrow> m | None \<Rightarrow> MODE_MANUAL)"
  define btype where "btype = (case id_batch_type d of Some bt \<Rightarrow> bt | None \<Rightarrow> BATCH_SOLID)"
  define comment where "comment = (case id_comment d of Some c \<Rightarrow> c | None \<Rightarrow> [])"
  define x where "x = \<lparr>tx_kind = Internal ty mode node wallet, tx_status = TX_CREATED,
    tx_comment = comment, tx_attrs = stored_attrs (se_now env) (with_date (id_attrs d))\<rparr>"
  define db1 where "db1 = fst (create_tx x db)"
  define n where "n = st_next_tx db"
  have ct: "create_tx x db = (db1, n)" by (metis create_tx_sel(1) db1_def n_def prod.collapse)
  have "rbind (rfold (take_source (InternalTransactionCls, n)) items db1) (\<lambda>db2.
       rbind (if ty = LOSS then Inr db2
              else rbind (of_option PyTypeError (id_dests d)) (\<lambda>ds.
                     rfold (make_dest env n node ty mode btype comment (map it_id items)) ds db2)) (\<lambda>db3.
         Inr (db3\<lparr>st_followups := st_followups db3 @ [n]\<rparr>, n))) = Inr (db', t)"
    using ex unfolding execute_internal_def
    by (simp only: mode_def [symmetric] btype_def [symmetric] comment_def [symmetric] Let_def
        x_def [symmetric] ct prod.case)
  then obtain db2 db3 where "rfold (take_source (InternalTransactionCls, n)) items db1 = Inr db2"
    "(if ty = LOSS then Inr db2
      else rbind (of_option PyTypeError (id_dests d)) (\<lambda>ds.
        rfold (make_dest env n node ty mode btype comment (map it_id items)) ds db2)) = Inr db3"
    "db' = db3\<lparr>st_followups := st_followups db3 @ [n]\<rparr>" "t = n"
    by (auto simp: rbind_eq_Inr)
  then show thesis
    using that [of x db2 mode btype comment db3]
    by (cases "id_dests d") (auto simp: produced_def db1_def n_def split: if_splits)
qed

lemma execute_internal_ok:
  assumes wf: "stock_wf db" and fr: "fresh_items db items" and dist: "distinct (map it_id items)"
    and ex: "execute_internal env node wallet d ty items db = Inr (db', t)"
  shows "t = st_next_tx db" and "stock_wf db'" and "grows db db'" and "st_next_tx db' = Suc t"
    and "st_next_batch db' = st_next_batch db + length (produced d ty)"
    and "total_stock db' =
      total_stock db - sum_list (map it_qty items) + sum_list (map di_quantity (produced d ty))"
    and "\<forall>bid<st_next_batch db. current_of db' bid = current_of db bid - taken items bid"
    and "\<forall>bid<st_next_batch db. bid \<notin> it_id ` set items \<longrightarrow> st_batches db' bid = st_batches db bid"
    and "\<forall>i\<in>set items. st_batches db' (it_id i) =
      Some ((it_batch i)\<lparr>b_current := b_current (it_batch i) - it_qty i\<rparr>)"
    and "st_sources db' = st_sources db @
      map (\<lambda>i. \<lparr>sb_tx = t, sb_batch = it_id i, sb_quantity = it_qty i\<rparr>) items"
    and "\<forall>j<length (produced d ty). \<exists>b. st_batches db' (st_next_batch db + j) = Some b \<and>
       b_current b = di_quantity (produced d ty ! j) \<and> b_initial b = di_quantity (produced d ty ! j) \<and>
       b_product b = di_product (produced d ty ! j) \<and> b_node b = node \<and> b_source_tx b = Some t"
    and "\<forall>i\<in>set items. it_qty i \<le> b_current (it_batch i)"
proof -
  obtain x mode btype comment db2 db3 where
    ts: "rfold (take_source (InternalTransactionCls, st_next_tx db)) items (fst (create_tx x db)) = Inr db2"
    and md: "rfold (make_dest env (st_next_tx db) node ty mode btype comment (map it_id items)) (produced d ty) db2 = Inr db3"
    and e: "db' = db3\<lparr>st_followups := st_followups db3 @ [st_next_tx db]\<rparr>" "t = st_next_tx db"
    by (rule execute_internal_split [OF ex])
  define db1 where "db1 = fst (create_tx x db)"
  define n where "n = st_next_tx db"
  note ts = ts [folded db1_def n_def] and md = md [folded n_def] and e = e [folded n_def]
  have le: "\<forall>i\<in>set items. it_qty i \<le> b_current (it_batch i)" by (rule take_sources_le [OF ts])
  have fr1: "fresh_items db1 items" using fr by (simp add: fresh_items_def db1_def)
  have wf1: "stock_wf db1" "older n db1" "n < st_next_tx db1"
    using create_tx_wf [OF wf] by (simp_all add: db1_def n_def)
  have T: "stock_wf db2" "\<And>bid. current_of db2 bid = current_of db1 bid - taken items bid"
    "\<And>bid. bid \<notin> it_id ` set items \<Longrightarrow> st_batches db2 bid = st_batches db1 bid"
    "\<forall>i\<in>set items. st_batches db2 (it_id i) =
       Some ((it_batch i)\<lparr>b_current := b_current (it_batch i) - it_qty i\<rparr>)"
    "st_next_batch db2 = st_next_batch db1" "st_next_tx db2 = st_next_tx db1"
    "st_node_type db2 = st_node_type db1" "st_products db2 = st_products db1"
    "st_sources db2 = st_sources db1 @ map (\<lambda>i. \<lparr>sb_tx = n, sb_batch = it_id i, sb_quantity = it_qty i\<rparr>) items"
    using take_sources_ok [OF wf1(1,3,2) fr1 dist le, of InternalTransactionCls] ts by auto
  have c1: "current_of db1 = current_of db" "total_stock db1 = total_stock db"
    by (simp_all add: db1_def current_of_def [abs_def] total_stock_def)
  have n2: "n < st_next_tx db2" using T(6) wf1(3) by simp
  note M = make_dests [OF md T(1) n2]
  have ss: "same_stock db3 db'" by (simp add: e)
  note S = same_stock_facts [OF ss]
  have cur3: "current_of db3 bid = current_of db2 bid" if "bid < st_next_batch db" for bid
    using M T(5) that by (simp add: current_of_def db1_def)
  have ids: "\<forall>i\<in>set items. it_id i < st_next_batch db" by (rule fresh_ids [OF wf fr])
  show "t = st_next_tx db" by (simp add: e n_def)
  show "stock_wf db'" using M S by simp
  show "grows db db'"
    using M S T create_tx_wf(3) [OF wf, of x] by (auto simp: grows_def db1_def)
  show "st_next_tx db' = Suc t" using M T ss by (simp add: same_stock_def e n_def db1_def)
  show "st_next_batch db' = st_next_batch db + length (produced d ty)"
    using M T ss by (simp add: same_stock_def db1_def)
  show "total_stock db' = total_stock db - sum_list (map it_qty items) + sum_list (map di_quantity (produced d ty))"
    using M S T(5) c1 ids total_after_taking [OF T(2) T(5)] by (simp add: db1_def)
  show "\<forall>bid<st_next_batch db. current_of db' bid = current_of db bid - taken items bid"
    using S cur3 T(2) c1 by simp
  show "\<forall>bid<st_next_batch db. bid \<notin> it_id ` set items \<longrightarrow> st_batches db' bid = st_batches db bid"
    using M T(3,5) ss by (simp add: same_stock_def db1_def)
  show "\<forall>i\<in>set items. st_batches db' (it_id i) =
      Some ((it_batch i)\<lparr>b_current := b_current (it_batch i) - it_qty i\<rparr>)"
    using M T(4,5) ss ids by (simp add: same_stock_def db1_def)
  show "st_sources db' = st_sources db @
      map (\<lambda>i. \<lparr>sb_tx = t, sb_batch = it_id i, sb_quantity = it_qty i\<rparr>) items"
    using M T(9) ss by (simp add: same_stock_def db1_def e)
  show "\<forall>j<length (produced d ty). \<exists>b. st_batches db' (st_next_batch db + j) = Some b \<and>
       b_current b = di_quantity (produced d ty ! j) \<and> b_initial b = di_quantity (produced d ty ! j) \<and>
       b_product b = di_product (produced d ty ! j) \<and> b_node b = node \<and> b_source_tx b = Some t"
    using M T(5) ss by (simp add: same_stock_def db1_def e)
  show "\<forall>i\<in>set items. it_qty i \<le> b_current (it_batch i)" by (rule le)
qed

section \<open>Validation and conversion\<close>

lemma validate_items_ok:
  "validate_items db raws = Inr items \<Longrightarrow>
     fresh_items db items \<and> map it_id items = map fst raws \<and> map it_qty items = map snd raws \<and>
     (\<forall>i\<in>set items. it_qty i \<le> b_current (it_batch i))"
  by (induction raws arbitrary: items)
    (auto simp: rbind_eq_Inr validate_source_item_def fresh_items_def split: option.splits if_splits)

lemma result_batches_unique:
  assumes "st_batches db bid = Some b" "b_source_tx b = Some t" "bid < st_next_batch db"
    and "\<And>x y. st_batches db x = Some y \<Longrightarrow> b_source_tx y = Some t \<Longrightarrow> x = bid"
  shows "result_batches t db = [bid]"
proof -
  have *: "(case st_batches db x of Some b \<Rightarrow> b_source_tx b = Some t | None \<Rightarrow> False) \<longleftrightarrow> x = bid" for x
    using assms(1,2) assms(4) [of x] by (cases "st_batches db x") auto
  have "filter (\<lambda>x. x = bid) (rev [0..<n]) = (if bid < n then [bid] else [])" for n
    by (induction n) auto
  then show ?thesis using assms(3) by (simp add: result_batches_def *)
qed

text \<open>
  What \<open>execute_internal_ok\<close> says, as one relation: \<open>internal_step node t items ds db db'\<close>.
\<close>

definition internal_step ::
    "nat \<Rightarrow> nat \<Rightarrow> item list \<Rightarrow> dest_item list \<Rightarrow> 'c stock_db \<Rightarrow> 'c stock_db \<Rightarrow> bool"
where
  "internal_step node t items ds db db' \<longleftrightarrow>
     t = st_next_tx db \<and> stock_wf db' \<and> grows db db' \<and> st_next_tx db' = Suc t \<and>
     st_next_batch db' = st_next_batch db + length ds \<and>
     total_stock db' = total_stock db - sum_list (map it_qty items) + sum_list (map di_quantity ds) \<and>
     (\<forall>bid<st_next_batch db. current_of db' bid = current_of db bid - taken items bid) \<and>
     (\<forall>bid<st_next_batch db. bid \<notin> it_id ` set items \<longrightarrow> st_batches db' bid = st_batches db bid) \<and>
     (\<forall>i\<in>set items. st_batches db' (it_id i) =
       Some ((it_batch i)\<lparr>b_current := b_current (it_batch i) - it_qty i\<rparr>)) \<and>
     st_sources db' = st_sources db @
       map (\<lambda>i. \<lparr>sb_tx = t, sb_batch = it_id i, sb_quantity = it_qty i\<rparr>) items \<and>
     (\<forall>j<length ds. \<exists>b. st_batches db' (st_next_batch db + j) = Some b \<and>
       b_current b = di_quantity (ds ! j) \<and> b_initial b = di_quantity (ds ! j) \<and>
       b_product b = di_product (ds ! j) \<and> b_node b = node \<and> b_source_tx b = Some t) \<and>
     (\<forall>i\<in>set items. it_qty i \<le> b_current (it_batch i))"

lemma execute_internal_step:
  assumes "stock_wf db" "fresh_items db items" "distinct (map it_id items)"
    and "execute_internal env node wallet d ty items db = Inr (db', t)"
  shows "internal_step node t items (produced d ty) db db'"
  unfolding internal_step_def
  by (intro conjI) (fact execute_internal_ok [OF assms])+

lemma system_conversion_step:
  assumes wf: "stock_wf db" and dist: "distinct (map fst raws)"
    and s: "system_conversion env node comment attrs btype raws dest db = Inr (db', t)"
  obtains items where "validate_items db raws = Inr items" "internal_step node t items [dest] db db'"
proof -
  obtain items c wallet where v: "validate_items db raws = Inr items"
    and ex: "execute_internal env node wallet
         \<lparr>id_type = Some PROCESSING, id_mode = Some MODE_SYSTEM, id_comment = Some comment,
          id_batch_type = btype, id_select_all = False, id_sources = Some items,
          id_dests = Some [dest], id_attrs = attrs\<rparr>
         PROCESSING items (db\<lparr>st_rest := c\<rparr>) = Inr (db', t)"
    using s by (auto simp: system_conversion_def rbind_eq_Inr)
  note vi = validate_items_ok [OF v]
  have ss: "same_stock db (db\<lparr>st_rest := c\<rparr>)" by simp
  note f = same_stock_facts [OF ss]
  have "distinct (map it_id items)" using vi dist by simp
  then have "internal_step node t items [dest] (db\<lparr>st_rest := c\<rparr>) db'"
    using execute_internal_step [OF _ _ _ ex] wf vi f by (simp add: produced_def)
  moreover have "internal_step node t items [dest] (db\<lparr>st_rest := c\<rparr>) db' = internal_step node t items [dest] db db'"
    by (simp add: internal_step_def grows_def f(1,2))
  ultimately have "internal_step node t items [dest] db db'" by simp
  then show thesis using that v by blast
qed

text \<open>The batch a conversion made is the one its transaction returns, with nothing taken yet.\<close>

lemma conversion_result:
  assumes wf: "stock_wf db" and st: "internal_step node t items [dest] db db'"
    and fr: "fresh_items db items"
  obtains b where "st_batches db' (st_next_batch db) = Some b" "result_batches t db' = [st_next_batch db]"
    "b_current b = di_quantity dest" "b_initial b = di_quantity dest" "b_product b = di_product dest"
    "b_node b = node"
proof -
  obtain b where b: "st_batches db' (st_next_batch db) = Some b" "b_source_tx b = Some t"
    "b_current b = di_quantity dest" "b_initial b = di_quantity dest" "b_product b = di_product dest"
    "b_node b = node"
    using st by (auto simp: internal_step_def)
  have next': "st_next_batch db' = Suc (st_next_batch db)" "stock_wf db'" "t = st_next_tx db"
    using st by (auto simp: internal_step_def)
  have "x = st_next_batch db" if x: "st_batches db' x = Some y" "b_source_tx y = Some t" for x y
  proof (rule ccontr)
    assume "x \<noteq> st_next_batch db"
    then have lt: "x < st_next_batch db" using stock_wf_batch(1) [OF next'(2) x(1)] next'(1) by simp
    have "\<exists>y0. st_batches db x = Some y0 \<and> b_source_tx y0 = b_source_tx y"
    proof (cases "x \<in> it_id ` set items")
      case True
      then obtain i where i: "i \<in> set items" "x = it_id i" by auto
      then have "y = (it_batch i)\<lparr>b_current := b_current (it_batch i) - it_qty i\<rparr>"
        using st x(1) by (auto simp: internal_step_def)
      then show ?thesis using fr i by (auto simp: fresh_items_def)
    next
      case False
      then show ?thesis using st lt x(1) by (auto simp: internal_step_def)
    qed
    then show False using wf x(2) next'(3) by (auto simp: stock_wf_def)
  qed
  then have "result_batches t db' = [st_next_batch db]"
    by (intro result_batches_unique [OF b(1,2)]) (simp_all add: next')
  then show thesis using that b by blast
qed

section \<open>Merges\<close>

text \<open>
  The state of the merge loop after the items \<open>past\<close>, starting from \<open>db0\<close>: the
  items collected so far are fresh and distinct, nothing was lost, and what is still to be
  taken from an old batch is what was asked for.
\<close>

definition merge_state ::
    "'c stock_db \<Rightarrow> item list \<Rightarrow> item list \<Rightarrow> 'c stock_db \<Rightarrow> item list \<Rightarrow> bool"
where
  "merge_state db0 past rest db coll \<longleftrightarrow>
     stock_wf db \<and> grows db0 db \<and> fresh_items db (coll @ rest) \<and> distinct (map it_id (coll @ rest)) \<and>
     total_stock db = total_stock db0 \<and> sum_list (map it_qty coll) = sum_list (map it_qty past) \<and>
     (\<forall>bid<st_next_batch db0. current_of db bid - taken coll bid = current_of db0 bid - taken past bid) \<and>
     (\<forall>bid\<ge>st_next_batch db0. bid \<in> it_id ` set coll \<or> current_of db bid = 0) \<and>
     (\<forall>bid<st_next_batch db0. 0 \<le> current_of db0 bid \<longrightarrow> 0 \<le> current_of db bid) \<and>
     (\<forall>i\<in>set rest. it_id i < st_next_batch db0)"

lemma merge_item_state:
  assumes ms: "merge_state db0 past (i # rest) db coll"
    and m: "merge_item env node d dest i (db, coll) = Inr (db', coll')"
  shows "merge_state db0 (past @ [i]) rest db' coll'"
proof (cases "b_product (it_batch i) \<noteq> di_product dest")
  case False
  then have "db' = db" "coll' = coll @ [i]" using m by (simp_all add: merge_item_def)
  then show ?thesis using ms by (auto simp: merge_state_def)
next
  case True
  let ?dest = "\<lparr>di_product = di_product dest, di_quantity = it_qty i, di_unit = b_unit (it_batch i)\<rparr>"
  obtain t r where c: "system_conversion env node (case id_comment d of Some c \<Rightarrow> c | None \<Rightarrow> [])
                 [p\<leftarrow>id_attrs d. fst p = ''date''] (Some BATCH_INTERMEDIATE) [(it_id i, it_qty i)] ?dest db = Inr (db', t)"
    and r: "first_result_item t db' = Inr r" and e: "coll' = coll @ [r]"
    using m True by (auto simp: merge_item_def rbind_eq_Inr)
  have wf: "stock_wf db" and fr: "fresh_items db (coll @ i # rest)"
    and dist: "distinct (map it_id (coll @ i # rest))"
    and lt: "it_id i < st_next_batch db0" "\<forall>j\<in>set rest. it_id j < st_next_batch db0"
    and old: "\<forall>bid<st_next_batch db0. current_of db bid - taken coll bid = current_of db0 bid - taken past bid"
    and young: "\<forall>bid\<ge>st_next_batch db0. bid \<in> it_id ` set coll \<or> current_of db bid = 0"
    and gr: "grows db0 db" and tot: "total_stock db = total_stock db0"
    and nn: "\<forall>bid<st_next_batch db0. 0 \<le> current_of db0 bid \<longrightarrow> 0 \<le> current_of db bid"
    and sq: "sum_list (map it_qty coll) = sum_list (map it_qty past)"
    using ms by (auto simp: merge_state_def)
  obtain vs where v: "validate_items db [(it_id i, it_qty i)] = Inr vs"
    and st: "internal_step node t vs [?dest] db db'"
    by (rule system_conversion_step [OF wf _ c]) auto
  note vi = validate_items_ok [OF v]
  have vs: "vs = [i]" using vi fr
    by (cases vs) (auto simp: fresh_items_def intro: item.equality)
  have frv: "fresh_items db vs" using vi by simp
  obtain b where b: "st_batches db' (st_next_batch db) = Some b" "result_batches t db' = [st_next_batch db]"
    "b_current b = it_qty i" "b_initial b = it_qty i"
    by (rule conversion_result [OF wf st frv]) simp
  have r': "r = \<lparr>it_id = st_next_batch db, it_batch = b, it_qty = it_qty i\<rparr>"
    using r b by (simp add: first_result_item_def get_batch_def)
  have S: "stock_wf db'" "grows db db'" "st_next_batch db' = Suc (st_next_batch db)"
    "total_stock db' = total_stock db"
    "\<forall>bid<st_next_batch db. current_of db' bid = current_of db bid - taken [i] bid"
    "\<forall>bid<st_next_batch db. bid \<noteq> it_id i \<longrightarrow> st_batches db' bid = st_batches db bid"
    using st by (auto simp: internal_step_def vs)
  have ids: "\<forall>j\<in>set (coll @ i # rest). it_id j < st_next_batch db" by (rule fresh_ids [OF wf fr])
  have new: "it_id r = st_next_batch db" "it_qty r = it_qty i" by (simp_all add: r')
  have fr': "fresh_items db' (coll' @ rest)"
    unfolding fresh_items_def
  proof
    fix j assume "j \<in> set (coll' @ rest)"
    then consider "j = r" | "j \<in> set (coll @ rest)" by (auto simp: e)
    then show "st_batches db' (it_id j) = Some (it_batch j)"
    proof cases
      case 1
      then show ?thesis using b by (simp add: r')
    next
      case 2
      then have "it_id j \<noteq> it_id i" using dist by (auto simp: image_iff)
      moreover have "it_id j < st_next_batch db" using ids 2 by auto
      ultimately show ?thesis using S(6) fr 2 by (auto simp: fresh_items_def)
    qed
  qed
  have dist': "distinct (map it_id (coll' @ rest))"
    using dist ids new(1) by (auto simp: e)
  have old': "current_of db' bid - taken coll' bid = current_of db0 bid - taken (past @ [i]) bid"
    if "bid < st_next_batch db0" for bid
  proof -
    have "bid < st_next_batch db" using that gr by (simp add: grows_def)
    then show ?thesis using S(5) old that new by (simp add: e)
  qed
  have young': "bid \<in> it_id ` set coll' \<or> current_of db' bid = 0" if "st_next_batch db0 \<le> bid" for bid
  proof -
    consider "bid < st_next_batch db" | "bid = st_next_batch db" | "st_next_batch db < bid" by linarith
    then show ?thesis
    proof cases
      case 1
      then have "current_of db' bid = current_of db bid" using S(5) lt(1) that by simp
      then show ?thesis using young that by (auto simp: e)
    next
      case 2
      then show ?thesis using new by (simp add: e)
    next
      case 3
      then have "st_batches db' bid = None"
        using S(1,3) stock_wf_batch(1) [OF S(1)] by (cases "st_batches db' bid") fastforce+
      then show ?thesis by (simp add: current_of_def)
    qed
  qed
  have nn': "0 \<le> current_of db' bid" if b: "bid < st_next_batch db0" "0 \<le> current_of db0 bid" for bid
  proof (cases "bid = it_id i")
    case True
    then show ?thesis using st by (simp add: internal_step_def vs current_of_def)
  next
    case False
    moreover have "bid < st_next_batch db" using b(1) gr by (simp add: grows_def)
    ultimately have "current_of db' bid = current_of db bid" using S(5) by simp
    then show ?thesis using nn b by simp
  qed
  show ?thesis
    unfolding merge_state_def
    using S(1,2,4) gr tot sq fr' dist' old' young' lt(2) new(2) nn'
    by (auto simp: e intro: grows_trans)
qed

lemma merge_items_state:
  "merge_state db0 past rest db coll \<Longrightarrow>
   rfold (merge_item env node d dest) rest (db, coll) = Inr (db', coll') \<Longrightarrow>
   merge_state db0 (past @ rest) [] db' coll'"
proof (induction rest arbitrary: past db coll)
  case (Cons i rest)
  obtain db1 coll1 where 1: "merge_item env node d dest i (db, coll) = Inr (db1, coll1)"
    "rfold (merge_item env node d dest) rest (db1, coll1) = Inr (db', coll')"
    using Cons.prems(2) by (auto simp: rbind_eq_Inr)
  from Cons.IH [OF merge_item_state [OF Cons.prems(1) 1(1)] 1(2)] show ?case by simp
qed simp

section \<open>Creating an internal transaction\<close>

definition requested_items :: "nat \<Rightarrow> 'c stock_db \<Rightarrow> int_data \<Rightarrow> item list" where
  "requested_items node db d =
     (let sources = (case id_sources d of Some s \<Rightarrow> s | None \<Rightarrow> [])
      in if id_select_all d then get_only_batches_to_batches node db sources else sources)"

lemma select_all_items:
  assumes "fresh_items db items" "distinct (map it_id items)"
  shows "fresh_items db (get_only_batches_to_batches node db items)"
    and "distinct (map it_id (get_only_batches_to_batches node db items))"
proof -
  let ?new = "[\<lparr>it_id = bid, it_batch = b, it_qty = b_current b\<rparr>.
                bid \<leftarrow> [0..<st_next_batch db],
                b \<leftarrow> (case st_batches db bid of Some b \<Rightarrow> [b] | None \<Rightarrow> []),
                b_node b = node \<and> 0 < b_current b \<and> bid \<notin> it_id ` set items \<and> \<not> b_archived b]"
  show "fresh_items db (get_only_batches_to_batches node db items)"
    using assms(1) by (auto simp: fresh_items_def get_only_batches_to_batches_def split: option.splits)
  have "map it_id ?new = filter (\<lambda>bid. case st_batches db bid of None \<Rightarrow> False
      | Some b \<Rightarrow> b_node b = node \<and> 0 < b_current b \<and> bid \<notin> it_id ` set items \<and> \<not> b_archived b)
      [0..<st_next_batch db]" (is "_ = filter ?P _")
  proof -
    have "map it_id [\<lparr>it_id = bid, it_batch = b, it_qty = b_current b\<rparr>.
                bid \<leftarrow> xs, b \<leftarrow> (case st_batches db bid of Some b \<Rightarrow> [b] | None \<Rightarrow> []),
                b_node b = node \<and> 0 < b_current b \<and> bid \<notin> it_id ` set items \<and> \<not> b_archived b] =
          filter ?P xs" for xs
      by (induction xs) (auto split: option.splits)
    then show ?thesis by blast
  qed
  then have "distinct (map it_id ?new)" "it_id ` set ?new \<inter> it_id ` set items = {}"
    by (simp, auto split: option.splits)
  then show "distinct (map it_id (get_only_batches_to_batches node db items))"
    using assms(2) by (auto simp: get_only_batches_to_batches_def)
qed

lemma requested_items_rest [simp]:
  "requested_items node (db\<lparr>st_rest := c\<rparr>) d = requested_items node db d"
proof -
  have "get_only_batches_to_batches node (db\<lparr>st_rest := c\<rparr>) xs = get_only_batches_to_batches node db xs" for xs
    by (simp add: get_only_batches_to_batches_def)
  then show ?thesis by (simp add: requested_items_def Let_def)
qed

lemma internal_prepare_cases:
  assumes "internal_prepare_batches env node d db = Inr (db', ty, items)"
  shows "id_type d = Some ty \<and>
    (db' = db \<and> items = requested_items node db d \<or>
     (\<exists>dest. rfold (merge_item env node d dest) (requested_items node db d) (db, []) = Inr (db', items)))"
proof -
  have p: "rbind (ensure (requested_items node db d \<noteq> []) (ValidationError ''source_batches is required.'')) (\<lambda>_.
         rbind (of_option PyKeyError (id_type d)) (\<lambda>ty.
           if ty \<noteq> MERGE then Inr (db, ty, requested_items node db d)
           else if card (set (map (b_product \<circ> it_batch) (requested_items node db d))) = 1
           then Inr (db, ty, requested_items node db d)
           else
             rbind (of_option PyKeyError (id_dests d)) (\<lambda>ds.
               case ds of
                 [dest] \<Rightarrow>
                   rbind (rfold (merge_item env node d dest) (requested_items node db d) (db, [])) (\<lambda>(db1, items1).
                     Inr (db1, ty, items1))
               | _ \<Rightarrow> Inl (ValidationError ''Merging transaction can have only one destination batch'')))) =
       Inr (db', ty, items)"
    using assms unfolding internal_prepare_batches_def requested_items_def Let_def .
  obtain ty0 where ty0: "id_type d = Some ty0"
    using p by (cases "id_type d") (simp_all add: ensure_def split: if_splits)
  show ?thesis
  proof (cases "ty0 \<noteq> MERGE \<or> card (set (map (b_product \<circ> it_batch) (requested_items node db d))) = 1")
    case True
    then show ?thesis using p ty0 by (auto simp: rbind_eq_Inr split: if_splits)
  next
    case False
    then obtain ds where "id_dests d = Some ds"
      using p ty0 by (cases "id_dests d") (auto simp: rbind_eq_Inr)
    then show ?thesis
      using p ty0 False by (cases ds; cases "tl ds") (auto simp: rbind_eq_Inr)
  qed
qed

lemma internal_prepare_state:
  assumes wf: "stock_wf db" and fr: "fresh_items db (case id_sources d of Some s \<Rightarrow> s | None \<Rightarrow> [])"
    and dist: "distinct (map it_id (case id_sources d of Some s \<Rightarrow> s | None \<Rightarrow> []))"
    and p: "internal_prepare_batches env node d db = Inr (db', ty, items)"
  shows "merge_state db (requested_items node db d) [] db' items" and "id_type d = Some ty"
proof -
  let ?items = "requested_items node db d"
  have fr1: "fresh_items db ?items" and d1: "distinct (map it_id ?items)"
    using fr dist select_all_items [OF fr dist] by (auto simp: requested_items_def Let_def)
  have young: "current_of db bid = 0" if "st_next_batch db \<le> bid" for bid
    using stock_wf_batch(1) [OF wf] that by (cases "st_batches db bid") (fastforce simp: current_of_def)+
  have start: "merge_state db ?items [] db ?items"
    using wf fr1 d1 young by (simp add: merge_state_def)
  have start': "merge_state db [] ?items db []"
    using wf fr1 d1 young fresh_ids [OF wf fr1] by (simp add: merge_state_def)
  show "id_type d = Some ty" using internal_prepare_cases [OF p] by simp
  consider "db' = db" "items = ?items"
    | dest where "rfold (merge_item env node d dest) ?items (db, []) = Inr (db', items)"
    using internal_prepare_cases [OF p] by blast
  then show "merge_state db ?items [] db' items"
  proof cases
    case 2
    then show ?thesis using merge_items_state [OF start'] by fastforce
  qed (use start in simp)
qed

lemma internal_create_step:
  assumes wf: "stock_wf db" and fr: "fresh_items db (case id_sources d of Some s \<Rightarrow> s | None \<Rightarrow> [])"
    and dist: "distinct (map it_id (case id_sources d of Some s \<Rightarrow> s | None \<Rightarrow> []))"
    and c: "internal_create env node d db = Inr (db', t)"
  obtains ty db1 items where "id_type d = Some ty"
    "merge_state db (requested_items node db d) [] db1 items"
    "internal_step node t items (produced d ty) db1 db'"
proof -
  obtain c0 wallet db1 ty items where
    p: "internal_prepare_batches env node d (db\<lparr>st_rest := c0\<rparr>) = Inr (db1, ty, items)"
    and ex: "execute_internal env node wallet d ty items db1 = Inr (db', t)"
    using c by (auto simp: internal_create_def rbind_eq_Inr)
  have ss: "same_stock db (db\<lparr>st_rest := c0\<rparr>)" by simp
  note f = same_stock_facts [OF ss]
  have wf0: "stock_wf (db\<lparr>st_rest := c0\<rparr>)" using wf f by simp
  have fr0: "fresh_items (db\<lparr>st_rest := c0\<rparr>) (case id_sources d of Some s \<Rightarrow> s | None \<Rightarrow> [])"
    using fr f by simp
  note ps = internal_prepare_state [OF wf0 fr0 dist p]
  have ms: "merge_state db (requested_items node db d) [] db1 items"
    using ps(1) f by (simp add: merge_state_def grows_def)
  have "internal_step node t items (produced d ty) db1 db'"
    using ms by (intro execute_internal_step [OF _ _ _ ex]) (simp_all add: merge_state_def)
  then show thesis using that ps(2) ms by blast
qed

lemma internal_request_cases:
  assumes "internal_request env node raws d db = Inr (db', t)"
  obtains items where "fresh_items db (case items of Some is' \<Rightarrow> is' | None \<Rightarrow> [])"
    "map it_id (case items of Some is' \<Rightarrow> is' | None \<Rightarrow> []) = map fst (case raws of Some rs \<Rightarrow> rs | None \<Rightarrow> [])"
    "map it_qty (case items of Some is' \<Rightarrow> is' | None \<Rightarrow> []) = map snd (case raws of Some rs \<Rightarrow> rs | None \<Rightarrow> [])"
    "internal_create env node (d\<lparr>id_sources := items\<rparr>) db = Inr (db', t)"
    "validate_optional db raws = Inr items"
proof -
  obtain items d' where v: "validate_optional db raws = Inr items"
    and i: "internal_validate (d\<lparr>id_sources := items\<rparr>) = Inr d'"
    and c: "internal_create env node d' db = Inr (db', t)"
    using assms by (auto simp: internal_request_def rbind_eq_Inr)
  have "d' = d\<lparr>id_sources := items\<rparr>" using i by (auto simp: internal_validate_def split: option.splits if_splits)
  moreover have "fresh_items db (case items of Some is' \<Rightarrow> is' | None \<Rightarrow> []) \<and>
      map it_id (case items of Some is' \<Rightarrow> is' | None \<Rightarrow> []) = map fst (case raws of Some rs \<Rightarrow> rs | None \<Rightarrow> []) \<and>
      map it_qty (case items of Some is' \<Rightarrow> is' | None \<Rightarrow> []) = map snd (case raws of Some rs \<Rightarrow> rs | None \<Rightarrow> [])"
  proof (cases raws)
    case (Some rs)
    then obtain is' where is': "validate_items db rs = Inr is'" "items = Some is'"
      using v by (auto simp: validate_optional_def rbind_eq_Inr)
    then show ?thesis using validate_items_ok [OF is'(1)] Some by simp
  qed (use v in \<open>simp add: validate_optional_def fresh_items_def\<close>)
  ultimately show thesis using that c v by blast
qed

section \<open>Properties of internal transactions\<close>

text \<open>The quantities a request asks for: those it names, and with \<open>select_all_batches\<close> the
  rest of the node's stock.\<close>

definition asked_items :: "nat \<Rightarrow> (nat \<times> int) list option \<Rightarrow> int_data \<Rightarrow> 'c stock_db \<Rightarrow> item list" where
  "asked_items node raws d db =
     (case validate_optional db raws of
        Inr items \<Rightarrow> requested_items node db (d\<lparr>id_sources := items\<rparr>) | Inl _ \<Rightarrow> [])"

text \<open>A small ledger for the examples: two batches of product 1 held by node 1.\<close>

definition demo_batch :: "int \<Rightarrow> batch" where
  "demo_batch q =
     \<lparr>b_product = 1, b_node = 1, b_initial = q, b_current = q, b_unit = 1, b_type = BATCH_SOLID,
      b_source_tx = None, b_parents = [], b_number = 1201, b_name = ''b'', b_note = [],
      b_archived = False, b_buyer_ref = ANone, b_seller_ref = ANone\<rparr>"

definition demo_stock :: "unit stock_db" where
  "demo_stock =
     \<lparr>st_batches = [1 \<mapsto> demo_batch 5000, 2 \<mapsto> demo_batch 3000], st_next_batch = 3,
      st_txs = Map.empty, st_next_tx = 1, st_parents = (\<lambda>_. []), st_sources = [], st_farmers = [],
      st_products = [1 \<mapsto> \<lparr>pr_supply_chain = 1, pr_local = False\<rparr>], st_owners = [],
      st_node_type = (\<lambda>_. NODE_COMPANY), st_requests = Map.empty, st_followups = [], st_rest = ()\<rparr>"

definition demo_env :: "unit stock_env" where
  "demo_env = \<lparr>se_now = 0, se_setup = (\<lambda>_ c. Inr (c, 1)), se_inherit = (\<lambda>_ db. Inr (st_rest db)),
     se_connections = (\<lambda>_ _ _. [2]), se_remove_notifications = (\<lambda>_ _. ())\<rparr>"

definition demo_process :: "int_type \<Rightarrow> dest_item list option \<Rightarrow> int_data" where
  "demo_process ty ds =
     \<lparr>id_type = Some ty, id_mode = None, id_comment = None, id_batch_type = None, id_select_all = False,
      id_sources = None, id_dests = ds, id_attrs = []\<rparr>"

lemma demo_stock_wf: "stock_wf demo_stock"
  by (auto simp: stock_wf_def demo_stock_def demo_batch_def ranked_def split: if_splits)

lemma demo_stock_nonneg: "0 \<le> current_of demo_stock bid"
  by (simp add: current_of_def demo_stock_def demo_batch_def)

lemmas internal_eval = internal_request_def validate_optional_def validate_source_item_def
  internal_validate_def internal_create_def internal_prepare_batches_def execute_internal_def
  take_source_def link_source_def create_source_batch_def create_tx_def make_dest_def create_batch_def
  add_parents_and_farmers_def add_batch_parent_def update_batch_farmers_def copy_farmers_def
  save_batch_def with_date_def

lemma demo_internal:
  "\<exists>db' t. internal_request demo_env 1 (Some [(1, 2000), (2, 3000)])
     (demo_process PROCESSING (Some [\<lparr>di_product = 2, di_quantity = 4000, di_unit = 1\<rparr>])) demo_stock = Inr (db', t)"
  by (simp add: internal_eval demo_process_def demo_stock_def demo_env_def demo_batch_def Let_def)

lemma internal_request_effect:
  assumes "stock_wf db" and "distinct (map fst (case raws of Some rs \<Rightarrow> rs | None \<Rightarrow> []))"
    and "internal_request env node raws d db = Inr (db', t)"
  shows "stock_wf db' \<and>
    (\<exists>ty. id_type d = Some ty \<and>
      total_stock db' = total_stock db - sum_list (map it_qty (asked_items node raws d db)) +
        sum_list (map di_quantity (produced d ty))) \<and>
    (\<forall>bid<st_next_batch db. current_of db' bid = current_of db bid - taken (asked_items node raws d db) bid)"
proof -
  obtain items where i: "fresh_items db (case items of Some is' \<Rightarrow> is' | None \<Rightarrow> [])"
    "map it_id (case items of Some is' \<Rightarrow> is' | None \<Rightarrow> []) = map fst (case raws of Some rs \<Rightarrow> rs | None \<Rightarrow> [])"
    "internal_create env node (d\<lparr>id_sources := items\<rparr>) db = Inr (db', t)"
    "validate_optional db raws = Inr items"
    using internal_request_cases [OF assms(3)] by metis
  let ?d = "d\<lparr>id_sources := items\<rparr>"
  have dist: "distinct (map it_id (case id_sources ?d of Some s \<Rightarrow> s | None \<Rightarrow> []))"
    using i(2) assms(2) by simp
  have fr: "fresh_items db (case id_sources ?d of Some s \<Rightarrow> s | None \<Rightarrow> [])" using i(1) by simp
  obtain ty db1 its where ty: "id_type ?d = Some ty"
    and ms: "merge_state db (requested_items node db ?d) [] db1 its"
    and st: "internal_step node t its (produced ?d ty) db1 db'"
    by (rule internal_create_step [OF assms(1) fr dist i(3)])
  have a: "asked_items node raws d db = requested_items node db ?d"
    using i(4) by (simp add: asked_items_def)
  have p: "produced ?d ty = produced d ty" by (simp add: produced_def)
  have n: "st_next_batch db \<le> st_next_batch db1" using ms by (simp add: merge_state_def grows_def)
  have "current_of db' bid = current_of db bid - taken (asked_items node raws d db) bid"
    if "bid < st_next_batch db" for bid
    using ms st n that unfolding merge_state_def internal_step_def a
    by (metis (no_types, lifting) less_le_trans)
  moreover have "total_stock db' = total_stock db - sum_list (map it_qty (asked_items node raws d db)) +
        sum_list (map di_quantity (produced d ty))"
    using ms st by (simp add: merge_state_def internal_step_def a p)
  ultimately show ?thesis using st ty by (auto simp: internal_step_def)
qed

text \<open>C1: an accepted internal transaction that names each batch at most once takes from every
  batch exactly what was asked, whatever conversions a merge needed in between, adds exactly
  the destination quantities, and so changes the total by their difference.\<close>

theorem internal_request_conserves:
  assumes "stock_wf db" and "distinct (map fst (case raws of Some rs \<Rightarrow> rs | None \<Rightarrow> []))"
    and "internal_request env node raws d db = Inr (db', t)"
  shows "stock_wf db' \<and>
    (\<exists>ty. id_type d = Some ty \<and>
      total_stock db' = total_stock db - sum_list (map it_qty (asked_items node raws d db)) +
        sum_list (map di_quantity (produced d ty))) \<and>
    (\<forall>bid<st_next_batch db. current_of db' bid = current_of db bid - taken (asked_items node raws d db) bid)"
  using assms by (rule internal_request_effect)

theorem internal_request_conserves_witness:
  "\<exists>db' t. internal_request demo_env 1 (Some [(1, 2000), (2, 3000)])
     (demo_process PROCESSING (Some [\<lparr>di_product = 2, di_quantity = 4000, di_unit = 1\<rparr>])) demo_stock = Inr (db', t) \<and>
     stock_wf db'"
proof -
  obtain db' t where r: "internal_request demo_env 1 (Some [(1, 2000), (2, 3000)])
     (demo_process PROCESSING (Some [\<lparr>di_product = 2, di_quantity = 4000, di_unit = 1\<rparr>])) demo_stock = Inr (db', t)"
    using demo_internal by blast
  from internal_request_conserves [OF demo_stock_wf _ r] r show ?thesis by auto
qed


text \<open>C16: under the same condition stock never becomes negative: if no batch is below zero
  and no destination quantity is negative, no batch is below zero afterwards.\<close>

theorem internal_request_nonnegative:
  assumes "stock_wf db" and "distinct (map fst (case raws of Some rs \<Rightarrow> rs | None \<Rightarrow> []))"
    and "internal_request env node raws d db = Inr (db', t)"
    and "\<forall>bid. 0 \<le> current_of db bid"
    and "\<forall>x\<in>set (case id_dests d of Some ds \<Rightarrow> ds | None \<Rightarrow> []). 0 \<le> di_quantity x"
  shows "\<forall>bid. 0 \<le> current_of db' bid"
proof
  fix bid
  obtain items where i: "fresh_items db (case items of Some is' \<Rightarrow> is' | None \<Rightarrow> [])"
    "map it_id (case items of Some is' \<Rightarrow> is' | None \<Rightarrow> []) = map fst (case raws of Some rs \<Rightarrow> rs | None \<Rightarrow> [])"
    "internal_create env node (d\<lparr>id_sources := items\<rparr>) db = Inr (db', t)"
    "validate_optional db raws = Inr items"
    using internal_request_cases [OF assms(3)] by metis
  let ?d = "d\<lparr>id_sources := items\<rparr>"
  have dist: "distinct (map it_id (case id_sources ?d of Some s \<Rightarrow> s | None \<Rightarrow> []))"
    using i(2) assms(2) by simp
  have fr: "fresh_items db (case id_sources ?d of Some s \<Rightarrow> s | None \<Rightarrow> [])" using i(1) by simp
  obtain ty db1 its where ms: "merge_state db (requested_items node db ?d) [] db1 its"
    and st: "internal_step node t its (produced ?d ty) db1 db'"
    by (rule internal_create_step [OF assms(1) fr dist i(3)])
  have q: "\<forall>x\<in>set (produced ?d ty). 0 \<le> di_quantity x" using assms(5) by (auto simp: produced_def)
  have n: "st_next_batch db' = st_next_batch db1 + length (produced ?d ty)" using st by (simp add: internal_step_def)
  consider "bid \<in> it_id ` set its" | "bid \<notin> it_id ` set its" "bid < st_next_batch db1"
    | j where "bid = st_next_batch db1 + j" "j < length (produced ?d ty)" | "st_next_batch db' \<le> bid"
    using n by (metis le_add_diff_inverse less_or_eq_imp_le linorder_not_le nat_add_left_cancel_less)
  then show "0 \<le> current_of db' bid"
  proof cases
    case 1
    then obtain it where "it \<in> set its" "bid = it_id it" by auto
    then show ?thesis using st by (auto simp: internal_step_def current_of_def)
  next
    case 2
    then have e: "current_of db' bid = current_of db1 bid" using st by (auto simp: internal_step_def taken_notin)
    show ?thesis
    proof (cases "bid < st_next_batch db")
      case True
      then show ?thesis using e ms assms(4) by (simp add: merge_state_def)
    next
      case False
      then have "st_next_batch db \<le> bid" by simp
      then have "current_of db1 bid = 0" using ms 2(1) unfolding merge_state_def by blast
      then show ?thesis using e by simp
    qed
  next
    case 3
    then obtain b where "st_batches db' bid = Some b" "b_current b = di_quantity (produced ?d ty ! j)"
      using st by (auto simp: internal_step_def)
    then show ?thesis using q 3(2) by (simp add: current_of_def)
  next
    case 4
    then have "st_batches db' bid = None"
      using st stock_wf_batch(1) [of db' bid] by (cases "st_batches db' bid") (auto simp: internal_step_def)
    then show ?thesis by (simp add: current_of_def)
  qed
qed

theorem internal_request_nonnegative_witness:
  "\<exists>db' t. internal_request demo_env 1 (Some [(1, 2000), (2, 3000)])
     (demo_process PROCESSING (Some [\<lparr>di_product = 2, di_quantity = 4000, di_unit = 1\<rparr>])) demo_stock = Inr (db', t) \<and>
     0 \<le> current_of db' 2"
proof -
  obtain db' t where r: "internal_request demo_env 1 (Some [(1, 2000), (2, 3000)])
     (demo_process PROCESSING (Some [\<lparr>di_product = 2, di_quantity = 4000, di_unit = 1\<rparr>])) demo_stock = Inr (db', t)"
    using demo_internal by blast
  have "\<forall>bid. 0 \<le> current_of db' bid"
    by (rule internal_request_nonnegative [OF demo_stock_wf _ r]) (simp_all add: demo_stock_nonneg demo_process_def)
  then show ?thesis using r by blast
qed

text \<open>One round of the loop on any item, stale or not, and the destinations on any ledger.\<close>

lemma take_source_any:
  assumes "take_source (cls, n) i db = Inr db'"
  shows "st_batches db' = (st_batches db)(it_id i \<mapsto> (it_batch i)\<lparr>b_current := b_current (it_batch i) - it_qty i\<rparr>)"
    and "st_next_batch db' = st_next_batch db"
    and "st_sources db' = st_sources db @ [\<lparr>sb_tx = n, sb_batch = it_id i, sb_quantity = it_qty i\<rparr>]"
proof -
  let ?b = "(it_batch i)\<lparr>b_current := b_current (it_batch i) - it_qty i\<rparr>"
  let ?db1 = "create_source_batch n (it_id i) (it_qty i) (save_batch (it_id i) ?b db)"
  have "link_source (cls, n) ?b ?db1 = Inr db'"
    using assms by (simp add: take_source_def Let_def split: if_splits)
  then have "\<exists>par. db' = ?db1\<lparr>st_parents := par\<rparr> \<or> db' = ?db1"
    by (auto simp: link_source_def rbind_eq_Inr split: option.splits)
  then show "st_batches db' = (st_batches db)(it_id i \<mapsto> ?b)" "st_next_batch db' = st_next_batch db"
    "st_sources db' = st_sources db @ [\<lparr>sb_tx = n, sb_batch = it_id i, sb_quantity = it_qty i\<rparr>]"
    by (auto simp: create_source_batch_def)
qed

lemma make_dests_any:
  "rfold (make_dest env t node ty mode btype note ps) ds db = Inr db' \<Longrightarrow>
     st_sources db' = st_sources db \<and> (\<forall>x<st_next_batch db. st_batches db' x = st_batches db x)"
proof (induction ds arbitrary: db)
  case (Cons d ds)
  then obtain db1 where m: "make_dest env t node ty mode btype note ps d db = Inr db1"
    "rfold (make_dest env t node ty mode btype note ps) ds db1 = Inr db'"
    by (auto simp: rbind_eq_Inr)
  then show ?case using make_dest_creates [OF m(1)] Cons.IH [OF m(2)] by (auto simp: creates_def)
qed simp

text \<open>C28: naming a batch twice spends it twice. The two items are separate snapshots of one
  row, each is compared with the full quantity and the last save wins: an accepted request
  for \<open>q\<close> and \<open>q\<close> of one batch logs \<open>2 * q\<close> as used and takes \<open>q\<close>.\<close>

theorem same_batch_twice_double_spends:
  assumes "internal_request env node (Some [(bid, q), (bid, q)]) d db = Inr (db', t)"
    and "bid < st_next_batch db" and "id_select_all d = False" and "id_type d \<noteq> Some MERGE"
  shows "current_of db' bid = current_of db bid - q \<and>
    (\<exists>logged. st_sources db' = st_sources db @ logged \<and> sum_list (map sb_quantity logged) = 2 * q \<and>
       (\<forall>s\<in>set logged. sb_tx s = t \<and> sb_batch s = bid))"
proof -
  obtain items where v: "validate_optional db (Some [(bid, q), (bid, q)]) = Inr items"
    and c: "internal_create env node (d\<lparr>id_sources := items\<rparr>) db = Inr (db', t)"
    using internal_request_cases [OF assms(1)] by metis
  obtain b where b: "st_batches db bid = Some b"
    using v by (auto simp: validate_optional_def validate_source_item_def rbind_eq_Inr split: option.splits)
  let ?i = "\<lparr>it_id = bid, it_batch = b, it_qty = q\<rparr>"
  have i: "items = Some [?i, ?i]"
    using v b by (auto simp: validate_optional_def validate_source_item_def rbind_eq_Inr split: if_splits)
  obtain c0 wallet db0 ty its where
    p: "internal_prepare_batches env node (d\<lparr>id_sources := items\<rparr>) (db\<lparr>st_rest := c0\<rparr>) = Inr (db0, ty, its)"
    and ex: "execute_internal env node wallet (d\<lparr>id_sources := items\<rparr>) ty its db0 = Inr (db', t)"
    using c by (auto simp: internal_create_def rbind_eq_Inr)
  have e0: "db0 = db\<lparr>st_rest := c0\<rparr>" "its = [?i, ?i]"
    using p assms(3,4) i
    by (auto simp: internal_prepare_batches_def Let_def rbind_eq_Inr split: option.splits if_splits)
  obtain x mode btype comment db2 db3 where
    ts: "rfold (take_source (InternalTransactionCls, st_next_tx db0)) its (fst (create_tx x db0)) = Inr db2"
    and md: "rfold (make_dest env (st_next_tx db0) node ty mode btype comment (map it_id its))
       (produced (d\<lparr>id_sources := items\<rparr>) ty) db2 = Inr db3"
    and e: "db' = db3\<lparr>st_followups := st_followups db3 @ [st_next_tx db0]\<rparr>" "t = st_next_tx db0"
    by (rule execute_internal_split [OF ex])
  obtain dbm where t1: "take_source (InternalTransactionCls, t) ?i (fst (create_tx x db0)) = Inr dbm"
    and t2: "take_source (InternalTransactionCls, t) ?i dbm = Inr db2"
    using ts by (auto simp: e0 e rbind_eq_Inr)
  note a1 = take_source_any [OF t1] and a2 = take_source_any [OF t2] and m = make_dests_any [OF md]
  have "st_batches db' bid = Some (b\<lparr>b_current := b_current b - q\<rparr>)"
    using m a1 a2 assms(2) by (simp add: e e0)
  moreover have "st_sources db' = st_sources db @ [\<lparr>sb_tx = t, sb_batch = bid, sb_quantity = q\<rparr>,
      \<lparr>sb_tx = t, sb_batch = bid, sb_quantity = q\<rparr>]"
    using m a1 a2 by (simp add: e e0)
  ultimately show ?thesis using b by (auto simp: current_of_def)
qed

theorem same_batch_twice_double_spends_witness:
  "\<exists>db' t. internal_request demo_env 1 (Some [(1, 4000), (1, 4000)])
     (demo_process PROCESSING (Some [\<lparr>di_product = 2, di_quantity = 8000, di_unit = 1\<rparr>])) demo_stock = Inr (db', t) \<and>
     current_of db' 1 = 1000"
proof -
  have "\<exists>db' t. internal_request demo_env 1 (Some [(1, 4000), (1, 4000)])
     (demo_process PROCESSING (Some [\<lparr>di_product = 2, di_quantity = 8000, di_unit = 1\<rparr>])) demo_stock = Inr (db', t)"
    by (simp add: internal_eval demo_process_def demo_stock_def demo_env_def demo_batch_def Let_def)
  then obtain db' t where r: "internal_request demo_env 1 (Some [(1, 4000), (1, 4000)])
     (demo_process PROCESSING (Some [\<lparr>di_product = 2, di_quantity = 8000, di_unit = 1\<rparr>])) demo_stock = Inr (db', t)"
    by blast
  have "current_of db' 1 = current_of demo_stock 1 - 4000"
    using same_batch_twice_double_spends [OF r] by (simp add: demo_stock_def demo_process_def)
  then show ?thesis using r by (auto simp: current_of_def demo_stock_def demo_batch_def)
qed

text \<open>there is no lower bound on the quantity of a source: a request to remove a negative
  quantity as a loss passes validation and raises the batch by it.\<close>

theorem negative_loss_raises_stock:
  assumes "stock_wf db" and "st_batches db bid = Some b" and "0 \<le> b_current b" and "q < 0"
    and "se_setup env node (st_rest db) = Inr (c, wallet)"
  shows "\<exists>db' t. internal_request env node (Some [(bid, q)]) (demo_process LOSS None) db = Inr (db', t) \<and>
    current_of db' bid = b_current b - q \<and> b_current b < current_of db' bid"
proof -
  let ?i = "\<lparr>it_id = bid, it_batch = b, it_qty = q\<rparr>"
  let ?d = "(demo_process LOSS None)\<lparr>id_sources := Some [?i]\<rparr>"
  define x where "x = \<lparr>tx_kind = Internal LOSS MODE_MANUAL node wallet, tx_status = TX_CREATED,
    tx_comment = [], tx_attrs = stored_attrs (se_now env) []\<rparr>"
  let ?db0 = "db\<lparr>st_rest := c\<rparr>"
  have wf0: "stock_wf ?db0" using assms(1) same_stock_facts(3) [of db ?db0] by simp
  note wf1 = create_tx_wf [OF wf0, of x]
  have "st_next_tx ?db0 < st_next_tx (fst (create_tx x ?db0))" by simp
  moreover have "st_batches (fst (create_tx x ?db0)) (it_id ?i) = Some (it_batch ?i)"
    using assms(2) by simp
  moreover have "it_qty ?i \<le> b_current (it_batch ?i)" using assms(3,4) by simp
  ultimately obtain db2 where
    ts: "take_source (InternalTransactionCls, st_next_tx ?db0) ?i (fst (create_tx x ?db0)) = Inr db2"
    by (rule take_source_ok [OF wf1(1) _ wf1(2)])
  have "internal_request env node (Some [(bid, q)]) (demo_process LOSS None) db =
      Inr (db2\<lparr>st_followups := st_followups db2 @ [st_next_tx db]\<rparr>, st_next_tx db)"
    using assms(2-5) ts
    by (simp add: internal_request_def validate_optional_def validate_source_item_def internal_validate_def
        demo_process_def internal_create_def internal_prepare_batches_def execute_internal_def with_date_def
        x_def create_tx_def Let_def)
  moreover have "st_batches db2 bid = Some (b\<lparr>b_current := b_current b - q\<rparr>)"
    using take_source_any(1) [OF ts] by simp
  ultimately show ?thesis using assms(4) by (auto simp: current_of_def)
qed

theorem negative_loss_raises_stock_witness:
  "\<exists>db' t. internal_request demo_env 1 (Some [(1, -7000)]) (demo_process LOSS None) demo_stock = Inr (db', t) \<and>
     current_of db' 1 = 12000"
proof -
  have "st_batches demo_stock 1 = Some (demo_batch 5000)" by (simp add: demo_stock_def)
  moreover have "se_setup demo_env 1 (st_rest demo_stock) = Inr ((), 1)" by (simp add: demo_env_def)
  ultimately show ?thesis
    using negative_loss_raises_stock [OF demo_stock_wf, of 1 "demo_batch 5000" "-7000" demo_env 1 "()" 1]
    by (auto simp: demo_batch_def)
qed

end
