(* ===== verification/Stock_Exchange.thy ===== *)
theory Stock_Exchange
  imports Stock_Properties
begin

text \<open>
  What external transactions and rejections of \<open>Stock_Ledger\<close> do to the stock:
  sending (directly, separately or after a conversion), incoming transactions of farmers,
  the duplicate filter, and the reversal a rejection creates.
\<close>

section \<open>Sending\<close>

definition sent_batch :: "bool \<Rightarrow> nat \<Rightarrow> ext_data \<Rightarrow> nat \<Rightarrow> string \<Rightarrow> item \<Rightarrow> batch" where
  "sent_batch seperately t d buyer name i =
     \<lparr>b_product = ed_product d, b_node = buyer,
      b_initial = (if seperately then it_qty i else ed_quantity d),
      b_current = (if seperately then it_qty i else ed_quantity d),
      b_unit = ed_unit d, b_type = BATCH_SOLID, b_source_tx = Some t, b_parents = [],
      b_number = 0, b_name = name, b_note = (case ed_comment d of Some c \<Rightarrow> c | None \<Rightarrow> []),
      b_archived = False, b_buyer_ref = AStr [], b_seller_ref = AStr []\<rparr>"

lemma sent_batch_sel [simp]:
  "b_product (sent_batch s t d buyer name i) = ed_product d" "b_node (sent_batch s t d buyer name i) = buyer"
  "b_initial (sent_batch s t d buyer name i) = (if s then it_qty i else ed_quantity d)"
  "b_current (sent_batch s t d buyer name i) = (if s then it_qty i else ed_quantity d)"
  "b_source_tx (sent_batch s t d buyer name i) = Some t" "b_number (sent_batch s t d buyer name i) = 0"
  by (simp_all add: sent_batch_def)

text \<open>The relation between the ledgers before and after the items were sent, sources unsaved.\<close>

definition sent ::
    "bool \<Rightarrow> nat \<Rightarrow> ext_data \<Rightarrow> nat \<Rightarrow> string \<Rightarrow> item list \<Rightarrow> 'c stock_db \<Rightarrow> 'c stock_db \<Rightarrow> bool"
where
  "sent s t d buyer name items db db' \<longleftrightarrow>
     stock_wf db' \<and> grows db db' \<and> st_next_tx db' = st_next_tx db \<and>
     st_next_batch db' = st_next_batch db + length items \<and>
     (\<forall>x<st_next_batch db. st_batches db' x = st_batches db x) \<and>
     (\<forall>j<length items. \<exists>b. st_batches db' (st_next_batch db + j) = Some b \<and>
        b_current b = b_current (sent_batch s t d buyer name (items ! j)) \<and>
        b_initial b = b_initial (sent_batch s t d buyer name (items ! j)) \<and>
        b_product b = ed_product d \<and> b_node b = buyer \<and> b_source_tx b = Some t) \<and>
     total_stock db' = total_stock db + sum_list (map (b_current \<circ> sent_batch s t d buyer name) items) \<and>
     st_sources db' = st_sources db @ map (\<lambda>i. \<lparr>sb_tx = t, sb_batch = it_id i, sb_quantity = it_qty i\<rparr>) items \<and>
     st_txs db' = st_txs db"

lemma create_batch_txs [simp]: "st_txs (fst (create_batch b db)) = st_txs db"
  by (simp add: create_batch_def Let_def add_farmer_def)

lemma add_batch_parent_txs [simp]: "st_txs (add_batch_parent bid p db) = st_txs db"
  by (simp add: add_batch_parent_def split: option.splits)

lemma fold_txs: "(\<And>x d. st_txs (f x d) = st_txs d) \<Longrightarrow> st_txs (fold f xs db) = st_txs db"
  by (induction xs arbitrary: db) auto

lemma update_batch_farmers_txs [simp]: "st_txs (update_batch_farmers bid db) = st_txs db"
  by (auto simp: update_batch_farmers_def copy_farmers_def add_farmer_def intro!: fold_txs split: option.splits)

lemma send_item_ok:
  assumes wf: "stock_wf db" and n: "t < st_next_tx db"
    and o: "\<And>u. b_source_tx (it_batch i) = Some u \<Longrightarrow> u < t"
  obtains db' where "send_item s t d buyer name i db = Inr db'" "sent s t d buyer name [i] db db'"
proof -
  let ?b = "sent_batch s t d buyer name i"
  let ?db1 = "create_source_batch t (it_id i) (it_qty i) db"
  have wf1: "stock_wf ?db1" and n1: "t < st_next_tx ?db1"
    using wf n by (simp_all add: create_source_batch_def stock_wf_def)
  obtain par where par: "link_source (ExternalTransactionCls, t) (it_batch i) ?db1 = Inr (?db1\<lparr>st_parents := par\<rparr>)"
    "ranked par" "\<forall>m. m \<noteq> t \<longrightarrow> par m = st_parents ?db1 m"
    using link_source_ok [where b = "it_batch i" and cls = ExternalTransactionCls, OF wf1 n1 o] by blast
  let ?db2 = "?db1\<lparr>st_parents := par\<rparr>"
  have wf2: "stock_wf ?db2" by (rule stock_wf_parents [OF wf1 par(2,3) n1])
  obtain db3 bid where c: "create_batch ?b ?db2 = (db3, bid)" by fastforce
  define db4 where "db4 = update_batch_farmers bid (add_batch_parent bid (it_id i) db3)"
  have s: "send_item s t d buyer name i db = Inr db4"
    using par(1) c by (simp add: send_item_def Let_def sent_batch_def db4_def)
  have "creates ?db2 db4 bid ?b"
    unfolding db4_def
    by (rule creates_same_stock [OF creates_touches [OF create_batch_creates [OF c] touches_add_parent]
          same_stock_update_farmers]) simp
  note cr = this and f = creates_facts [OF this]
  have wf4: "stock_wf db4" using f(4) [OF wf2] n by (simp add: create_source_batch_def)
  have tx: "st_txs db4 = st_txs db"
    using create_batch_sel [OF c] by (simp add: db4_def create_source_batch_def)
  have tot: "total_stock ?db2 = total_stock db"
    by (simp add: total_stock_def current_of_def create_source_batch_def)
  have "sent s t d buyer name [i] db db4"
    unfolding sent_def
    using wf4 f(2,3) cr tx tot by (auto simp: creates_def create_source_batch_def grows_def)
  then show thesis using that s by blast
qed

lemma sent_trans:
  assumes 1: "sent s t d buyer name [i] db db1" and 2: "sent s t d buyer name items db1 db2"
  shows "sent s t d buyer name (i # items) db db2"
proof -
  have new: "\<exists>b. st_batches db2 (st_next_batch db + j) = Some b \<and>
        b_current b = b_current (sent_batch s t d buyer name ((i # items) ! j)) \<and>
        b_initial b = b_initial (sent_batch s t d buyer name ((i # items) ! j)) \<and>
        b_product b = ed_product d \<and> b_node b = buyer \<and> b_source_tx b = Some t"
    if "j < length (i # items)" for j
  proof (cases j)
    case 0
    then show ?thesis using 1 2 by (auto simp: sent_def)
  next
    case (Suc k)
    then show ?thesis using 1 2 that by (auto simp: sent_def)
  qed
  have old: "st_batches db2 x = st_batches db x" if "x < st_next_batch db" for x
    using 1 2 that by (simp add: sent_def)
  show ?thesis
    unfolding sent_def
  proof (intro conjI)
    show "\<forall>x<st_next_batch db. st_batches db2 x = st_batches db x" using old by blast
    show "\<forall>j<length (i # items). \<exists>b. st_batches db2 (st_next_batch db + j) = Some b \<and>
        b_current b = b_current (sent_batch s t d buyer name ((i # items) ! j)) \<and>
        b_initial b = b_initial (sent_batch s t d buyer name ((i # items) ! j)) \<and>
        b_product b = ed_product d \<and> b_node b = buyer \<and> b_source_tx b = Some t" using new by blast
    show "grows db db2" using 1 2 by (auto simp: sent_def intro: grows_trans)
  qed (use 1 2 in \<open>simp_all add: sent_def\<close>)
qed

lemma send_items_ok:
  assumes "stock_wf db" "t < st_next_tx db"
    and "\<And>i u. i \<in> set items \<Longrightarrow> b_source_tx (it_batch i) = Some u \<Longrightarrow> u < t"
  obtains db' where "rfold (send_item s t d buyer name) items db = Inr db'" "sent s t d buyer name items db db'"
proof -
  have "\<exists>db'. rfold (send_item s t d buyer name) items db = Inr db' \<and> sent s t d buyer name items db db'"
    using assms
  proof (induction items arbitrary: db)
    case Nil
    then show ?case by (simp add: sent_def)
  next
    case (Cons i items)
    obtain db1 where 1: "send_item s t d buyer name i db = Inr db1" "sent s t d buyer name [i] db db1"
      by (rule send_item_ok [OF Cons.prems(1,2)]) (use Cons.prems(3) in auto)
    have "stock_wf db1" "t < st_next_tx db1" using 1(2) Cons.prems(2) by (auto simp: sent_def)
    then obtain db2 where "rfold (send_item s t d buyer name) items db1 = Inr db2"
      "sent s t d buyer name items db1 db2"
      using Cons.IH Cons.prems(3) by (metis list.set_intros(2))
    then show ?case using 1 sent_trans by fastforce
  qed
  then show thesis using that by blast
qed

section \<open>Saving the sources\<close>

lemma set_current_sel:
  assumes "st_batches db bid = Some b"
  shows "st_batches (set_current bid q db) = (st_batches db)(bid \<mapsto> b\<lparr>b_current := q\<rparr>)"
    and "st_next_batch (set_current bid q db) = st_next_batch db"
    and "st_next_tx (set_current bid q db) = st_next_tx db"
    and "st_parents (set_current bid q db) = st_parents db"
    and "st_sources (set_current bid q db) = st_sources db"
    and "st_txs (set_current bid q db) = st_txs db"
    and "st_node_type (set_current bid q db) = st_node_type db"
    and "st_products (set_current bid q db) = st_products db"
  using assms by (simp_all add: set_current_def)

definition same_but_current :: "'c stock_db \<Rightarrow> 'c stock_db \<Rightarrow> bool" where
  "same_but_current db db' \<longleftrightarrow>
     (\<forall>x. (st_batches db x = None \<longrightarrow> st_batches db' x = None) \<and>
        (\<forall>b. st_batches db x = Some b \<longrightarrow> (\<exists>q. st_batches db' x = Some (b\<lparr>b_current := q\<rparr>)))) \<and>
     st_next_batch db' = st_next_batch db \<and> st_next_tx db' = st_next_tx db \<and>
     st_parents db' = st_parents db \<and> st_sources db' = st_sources db \<and> st_txs db' = st_txs db \<and>
     st_node_type db' = st_node_type db \<and> st_products db' = st_products db"

lemma current_self [simp]: "\<exists>q. b = b\<lparr>b_current := q\<rparr>" "\<exists>q. b\<lparr>b_current := p\<rparr> = b\<lparr>b_current := q\<rparr>"
  by (rule exI [of _ "b_current b"], simp) (rule exI [of _ p], simp)

lemma same_but_current_refl [simp]: "same_but_current db db"
  by (simp add: same_but_current_def)

lemma same_but_current_set: "same_but_current db (set_current bid q db)"
  by (auto simp: same_but_current_def set_current_def split: option.splits)

lemma same_but_current_Some:
  "same_but_current db db' \<Longrightarrow> st_batches db x = Some b \<Longrightarrow>
     \<exists>q. st_batches db' x = Some (b\<lparr>b_current := q\<rparr>)"
  by (simp add: same_but_current_def)

lemma same_but_current_trans:
  assumes "same_but_current a b" "same_but_current b c"
  shows "same_but_current a c"
proof -
  have "\<exists>q. st_batches c x = Some (y\<lparr>b_current := q\<rparr>)" if "st_batches a x = Some y" for x y
  proof -
    have "\<exists>p. st_batches b x = Some (y\<lparr>b_current := p\<rparr>)"
      by (rule same_but_current_Some [OF assms(1) that])
    then obtain p where p: "st_batches b x = Some (y\<lparr>b_current := p\<rparr>)" by blast
    have "\<exists>q. st_batches c x = Some (y\<lparr>b_current := p\<rparr>\<lparr>b_current := q\<rparr>)"
      by (rule same_but_current_Some [OF assms(2) p])
    then show ?thesis by auto
  qed
  then show ?thesis using assms unfolding same_but_current_def by auto
qed

lemma same_but_current_wf:
  assumes "same_but_current db db'" "stock_wf db"
  shows "stock_wf db'"
proof -
  have "x < st_next_batch db' \<and> (\<forall>t. b_source_tx y = Some t \<longrightarrow> t < st_next_tx db')"
    if "st_batches db' x = Some y" for x y
  proof -
    have "\<exists>b. st_batches db x = Some b"
      using assms(1) that by (cases "st_batches db x") (auto simp: same_but_current_def)
    then obtain b where b: "st_batches db x = Some b" by blast
    then have "\<exists>q. y = b\<lparr>b_current := q\<rparr>"
      using same_but_current_Some [OF assms(1) b] that by auto
    then show ?thesis
      using assms b by (auto simp: stock_wf_def same_but_current_def)
  qed
  then show ?thesis using assms by (simp add: stock_wf_def same_but_current_def)
qed

lemma taken_rev: "taken (rev items) bid = taken items bid"
  by (induction items) auto

text \<open>The statement sets each source once; distinct fresh sources are reduced as asked.\<close>

lemma bulk_update_ok:
  assumes "distinct (map it_id items)"
    and "\<forall>i\<in>set items. st_batches db (it_id i) = Some (it_batch i)"
  shows "same_but_current db (bulk_update_current items db) \<and>
    (\<forall>bid. current_of (bulk_update_current items db) bid = current_of db bid - taken items bid)"
proof -
  have "same_but_current db (fold (\<lambda>i. set_current (it_id i) (b_current (it_batch i) - it_qty i)) is' db) \<and>
    (\<forall>bid. current_of (fold (\<lambda>i. set_current (it_id i) (b_current (it_batch i) - it_qty i)) is' db) bid =
       current_of db bid - taken is' bid)"
    if "distinct (map it_id is')" "\<forall>i\<in>set is'. st_batches db (it_id i) = Some (it_batch i)" for is'
    using that
  proof (induction is' arbitrary: db)
    case Nil
    then show ?case by simp
  next
    case (Cons i is')
    let ?db1 = "set_current (it_id i) (b_current (it_batch i) - it_qty i) db"
    have b: "st_batches db (it_id i) = Some (it_batch i)" using Cons.prems by simp
    note sel = set_current_sel [OF b]
    have "\<forall>j\<in>set is'. st_batches ?db1 (it_id j) = Some (it_batch j)"
      using Cons.prems by (auto simp: sel image_iff)
    then have ih: "same_but_current ?db1 (fold (\<lambda>i. set_current (it_id i) (b_current (it_batch i) - it_qty i)) is' ?db1)"
      "\<And>bid. current_of (fold (\<lambda>i. set_current (it_id i) (b_current (it_batch i) - it_qty i)) is' ?db1) bid =
         current_of ?db1 bid - taken is' bid"
      using Cons.IH Cons.prems(1) by auto
    have "current_of ?db1 bid = current_of db bid - (if it_id i = bid then it_qty i else 0)" for bid
      using b by (auto simp: current_of_def sel)
    then show ?case using ih same_but_current_trans [OF same_but_current_set ih(1)] by simp
  qed
  from this [of "rev items"] assms show ?thesis
    unfolding bulk_update_current_def
    by (simp add: rev_map [symmetric] taken_rev)
qed


section \<open>The follow-up writes of an external transaction\<close>

text \<open>\<open>same_rows db db'\<close>: every batch keeps what the ledger counts, and so do the other tables.\<close>

definition row_key :: "batch \<Rightarrow> nat \<times> nat \<times> int \<times> int \<times> nat option" where
  "row_key b = (b_product b, b_node b, b_initial b, b_current b, b_source_tx b)"

definition same_rows :: "'c stock_db \<Rightarrow> 'c stock_db \<Rightarrow> bool" where
  "same_rows db db' \<longleftrightarrow>
     (\<forall>x. map_option row_key (st_batches db' x) = map_option row_key (st_batches db x)) \<and>
     st_next_batch db' = st_next_batch db \<and> st_next_tx db' = st_next_tx db \<and>
     st_parents db' = st_parents db \<and> st_sources db' = st_sources db \<and> st_txs db' = st_txs db \<and>
     st_node_type db' = st_node_type db \<and> st_products db' = st_products db"

lemma same_rows_refl [simp]: "same_rows db db"
  by (simp add: same_rows_def)

lemma same_rows_trans: "same_rows a b \<Longrightarrow> same_rows b c \<Longrightarrow> same_rows a c"
  by (simp add: same_rows_def)

lemma current_of_key: "current_of db x = (case map_option row_key (st_batches db x) of
     Some (p, n, i, c, s) \<Rightarrow> c | None \<Rightarrow> 0)"
  by (cases "st_batches db x") (simp_all add: current_of_def row_key_def)

lemma same_rows_facts:
  assumes "same_rows db db'"
  shows "current_of db' = current_of db" "total_stock db' = total_stock db" "grows db db'"
    "stock_wf db \<Longrightarrow> stock_wf db'"
proof -
  show c: "current_of db' = current_of db"
    using assms by (simp add: fun_eq_iff current_of_key same_rows_def)
  show "total_stock db' = total_stock db" using assms by (simp add: total_stock_def c same_rows_def)
  show "grows db db'" using assms by (simp add: same_rows_def grows_def)
  assume wf: "stock_wf db"
  have "x < st_next_batch db' \<and> (\<forall>t. b_source_tx y = Some t \<longrightarrow> t < st_next_tx db')"
    if hyp: "st_batches db' x = Some y" for x y
  proof -
    have "map_option row_key (st_batches db x) = Some (row_key y)"
      using assms hyp unfolding same_rows_def by (metis option.simps(9))
    then obtain z where "st_batches db x = Some z" "b_source_tx z = b_source_tx y"
      by (auto simp: row_key_def)
    then show ?thesis using wf assms by (auto simp: stock_wf_def same_rows_def)
  qed
  then show "stock_wf db'" using wf assms by (simp add: stock_wf_def same_rows_def)
qed

lemma same_rows_Some:
  assumes "same_rows db db'" "st_batches db x = Some b"
  shows "\<exists>b'. st_batches db' x = Some b' \<and> row_key b' = row_key b"
  using assms unfolding same_rows_def by (metis map_option_eq_Some option.simps(9))

lemma result_batches_key:
  "result_batches t db = [x\<leftarrow>rev [0..<st_next_batch db].
     case map_option row_key (st_batches db x) of Some (p, n, i, c, s) \<Rightarrow> s = Some t | None \<Rightarrow> False]"
  unfolding result_batches_def by (rule filter_cong) (auto simp: row_key_def split: option.splits)

lemma same_rows_set_owner: "same_rows db (set_owner product node db)"
  by (auto simp: same_rows_def set_owner_def split: option.splits)

lemma same_rows_complete: "same_rows db (complete_stock_request t user req db)"
  by (auto simp: same_rows_def complete_stock_request_def split: option.splits)

lemma same_rows_references: "same_rows db (set_references t br sr db)"
proof -
  have "same_rows d (case st_batches d x of None \<Rightarrow> d
      | Some b \<Rightarrow> save_batch x (b\<lparr>b_buyer_ref := br, b_seller_ref := sr\<rparr>) d)" for x d
    by (auto simp: same_rows_def row_key_def split: option.splits)
  then have "same_rows db (fold (\<lambda>x d. case st_batches d x of None \<Rightarrow> d
      | Some b \<Rightarrow> save_batch x (b\<lparr>b_buyer_ref := br, b_seller_ref := sr\<rparr>) d) xs db)" for xs
    by (induction xs arbitrary: db) (auto intro: same_rows_trans)
  then show ?thesis by (simp add: set_references_def)
qed

section \<open>The sources of one external transaction\<close>

text \<open>What the sale of \<open>items\<close> does, all writes included: \<open>delivered\<close>.\<close>

definition delivered ::
    "bool \<Rightarrow> nat \<Rightarrow> ext_data \<Rightarrow> nat \<Rightarrow> item list \<Rightarrow> 'c stock_db \<Rightarrow> 'c stock_db \<Rightarrow> bool"
where
  "delivered s t d buyer items db db' \<longleftrightarrow>
     stock_wf db' \<and> grows db db' \<and> st_next_tx db' = st_next_tx db \<and>
     st_next_batch db' = st_next_batch db + length items \<and> st_txs db' = st_txs db \<and>
     (\<forall>x<st_next_batch db. current_of db' x = current_of db x - taken items x) \<and>
     (\<forall>x<st_next_batch db. map_option row_key (st_batches db' x) =
        map_option (\<lambda>b. row_key (b\<lparr>b_current := b_current b - taken items x\<rparr>)) (st_batches db x)) \<and>
     (\<forall>j<length items. \<exists>b. st_batches db' (st_next_batch db + j) = Some b \<and>
        row_key b = (ed_product d, buyer, if s then it_qty (items ! j) else ed_quantity d,
                     if s then it_qty (items ! j) else ed_quantity d, Some t)) \<and>
     total_stock db' = total_stock db - sum_list (map it_qty items) +
       sum_list (map (\<lambda>i. if s then it_qty i else ed_quantity d) items) \<and>
     st_sources db' = st_sources db @ map (\<lambda>i. \<lparr>sb_tx = t, sb_batch = it_id i, sb_quantity = it_qty i\<rparr>) items"

lemma sum_sent:
  "sum_list (map (b_current \<circ> sent_batch s t d buyer name) items) =
     sum_list (map (\<lambda>i. if s then it_qty i else ed_quantity d) items)"
  by (simp add: comp_def)

lemma taken_old: "(\<forall>i\<in>set items. it_id i < n) \<Longrightarrow> n \<le> x \<Longrightarrow> taken items x = 0"
  by (rule taken_notin) auto

lemma current_row: "st_batches db x = Some b \<Longrightarrow> current_of db x = b_current b"
  by (simp add: current_of_def)

lemma delivered_same_rows:
  assumes "delivered s t d buyer items db db1" "same_rows db1 db2"
  shows "delivered s t d buyer items db db2"
proof -
  note f = same_rows_facts [OF assms(2)]
  have r: "\<exists>b'. st_batches db2 x = Some b' \<and> row_key b' = k"
    if "\<exists>b'. st_batches db1 x = Some b' \<and> row_key b' = k" for x k
    using that same_rows_Some [OF assms(2)] by metis
  show ?thesis
    unfolding delivered_def
  proof (intro conjI)
    show "\<forall>x<st_next_batch db. map_option row_key (st_batches db2 x) =
        map_option (\<lambda>b. row_key (b\<lparr>b_current := b_current b - taken items x\<rparr>)) (st_batches db x)"
      using assms by (simp add: delivered_def same_rows_def)
    show "\<forall>j<length items. \<exists>b. st_batches db2 (st_next_batch db + j) = Some b \<and>
        row_key b = (ed_product d, buyer, if s then it_qty (items ! j) else ed_quantity d,
                     if s then it_qty (items ! j) else ed_quantity d, Some t)"
      using assms(1) r by (simp add: delivered_def)
    show "grows db db2" using assms(1) f(3) grows_trans by (auto simp: delivered_def)
  qed (use assms f in \<open>simp_all add: delivered_def same_rows_def\<close>)
qed

lemma sold_items_ok:
  assumes wf: "stock_wf db" and t: "t < st_next_tx db" and fr: "fresh_items db items"
    and dist: "distinct (map it_id items)"
    and o: "\<And>i u. i \<in> set items \<Longrightarrow> b_source_tx (it_batch i) = Some u \<Longrightarrow> u < t"
  obtains db' where "create_source_destination_batches s t d buyer name items db = Inr db'"
    "delivered s t d buyer items db db'"
proof -
  obtain db1 where r: "rfold (send_item s t d buyer name) items db = Inr db1"
    and st: "sent s t d buyer name items db db1"
    by (rule send_items_ok [OF wf t o])
  have lt: "\<forall>i\<in>set items. it_id i < st_next_batch db" by (rule fresh_ids [OF wf fr])
  have fr1: "\<forall>i\<in>set items. st_batches db1 (it_id i) = Some (it_batch i)"
    using fr lt st by (simp add: fresh_items_def sent_def)
  let ?db2 = "bulk_update_current items db1"
  have same: "same_but_current db1 ?db2"
    and cur: "\<And>x. current_of ?db2 x = current_of db1 x - taken items x"
    using bulk_update_ok [OF dist fr1] by blast+
  have n1: "st_next_batch db1 = st_next_batch db + length items" using st by (simp add: sent_def)
  have tot: "total_stock ?db2 = total_stock db1 - sum_list (map it_qty items)"
    by (rule total_after_taking [OF cur]) (use same lt n1 in \<open>auto simp: same_but_current_def\<close>)
  have row: "\<exists>b'. st_batches ?db2 x = Some b' \<and>
      row_key b' = row_key (b\<lparr>b_current := b_current b - taken items x\<rparr>)"
    if hyp: "st_batches db1 x = Some b" for x b
  proof -
    obtain q where q: "st_batches ?db2 x = Some (b\<lparr>b_current := q\<rparr>)"
      using same_but_current_Some [OF same hyp] by blast
    then have "q = b_current b - taken items x" using cur [of x] hyp by (simp add: current_row)
    then show ?thesis using q by (simp add: row_key_def)
  qed
  have old: "st_batches db1 x = st_batches db x" if "x < st_next_batch db" for x
    using st that by (simp add: sent_def)
  have rows: "map_option row_key (st_batches ?db2 x) =
      map_option (\<lambda>b. row_key (b\<lparr>b_current := b_current b - taken items x\<rparr>)) (st_batches db x)"
    if hyp: "x < st_next_batch db" for x
  proof (cases "st_batches db1 x")
    case None
    then show ?thesis using old [OF hyp] same by (simp add: same_but_current_def)
  next
    case (Some b)
    then show ?thesis using old [OF hyp] row [OF Some] by auto
  qed
  have new: "\<exists>b. st_batches ?db2 (st_next_batch db + j) = Some b \<and>
      row_key b = (ed_product d, buyer, if s then it_qty (items ! j) else ed_quantity d,
                   if s then it_qty (items ! j) else ed_quantity d, Some t)"
    if hyp: "j < length items" for j
  proof -
    obtain b where b: "st_batches db1 (st_next_batch db + j) = Some b"
      "row_key b = (ed_product d, buyer, if s then it_qty (items ! j) else ed_quantity d,
                   if s then it_qty (items ! j) else ed_quantity d, Some t)"
      using st hyp by (auto simp: sent_def row_key_def)
    have "taken items (st_next_batch db + j) = 0" by (rule taken_old [OF lt]) simp
    then show ?thesis using row [OF b(1)] b(2) by (simp add: row_key_def)
  qed
  have "delivered s t d buyer items db ?db2"
    unfolding delivered_def
  proof (intro conjI)
    show "stock_wf ?db2" using same_but_current_wf [OF same] st by (simp add: sent_def)
    show "grows db ?db2" using st same by (auto simp: sent_def same_but_current_def grows_def)
    show "\<forall>x<st_next_batch db. current_of ?db2 x = current_of db x - taken items x"
      using cur old by (simp add: current_of_def)
    show "\<forall>x<st_next_batch db. map_option row_key (st_batches ?db2 x) =
        map_option (\<lambda>b. row_key (b\<lparr>b_current := b_current b - taken items x\<rparr>)) (st_batches db x)"
      using rows by blast
    show "\<forall>j<length items. \<exists>b. st_batches ?db2 (st_next_batch db + j) = Some b \<and>
        row_key b = (ed_product d, buyer, if s then it_qty (items ! j) else ed_quantity d,
                     if s then it_qty (items ! j) else ed_quantity d, Some t)"
      using new by blast
    show "total_stock ?db2 = total_stock db - sum_list (map it_qty items) +
       sum_list (map (\<lambda>i. if s then it_qty i else ed_quantity d) items)"
      using tot st by (simp add: sent_def sum_sent)
  qed (use st same in \<open>simp_all add: sent_def same_but_current_def\<close>)
  then show thesis using that r by (simp add: create_source_destination_batches_def)
qed

lemma execute_external_ok:
  assumes "stock_wf db" "t < st_next_tx db" "fresh_items db items" "distinct (map it_id items)"
    and "\<And>i u. i \<in> set items \<Longrightarrow> b_source_tx (it_batch i) = Some u \<Longrightarrow> u < t"
  obtains db' where "execute_external env user full_name current d t items db = Inr db'"
    "delivered (ed_send_seperately d) t d (fst (get_buyer_supplier (ed_type d) current (ed_node d)))
       items db db'"
proof -
  obtain buyer supplier where bs: "get_buyer_supplier (ed_type d) current (ed_node d) = (buyer, supplier)"
    by fastforce
  obtain db1 where c: "create_source_destination_batches (ed_send_seperately d) t d buyer
      (''Purchased from '' @ full_name supplier) items db = Inr db1"
    "delivered (ed_send_seperately d) t d buyer items db db1"
    by (rule sold_items_ok [OF assms])
  let ?db2 = "set_references t (case ed_buyer_ref d of Some a \<Rightarrow> a | None \<Rightarrow> ANone)
               (case ed_seller_ref d of Some a \<Rightarrow> a | None \<Rightarrow> ANone)
               (complete_stock_request t user (attrs_request ''stockrequest'' d) (set_owner (ed_product d) buyer db1))"
  have "same_rows db1 ?db2"
    by (rule same_rows_trans [OF same_rows_trans [OF same_rows_set_owner same_rows_complete] same_rows_references])
  then have "delivered (ed_send_seperately d) t d buyer items db ?db2"
    by (rule delivered_same_rows [OF c(2)])
  then show thesis using that c(1) bs by (simp add: execute_external_def)
qed


text \<open>The result batches of a new transaction are the rows the sale added, newest first.\<close>

lemma filter_upt_from: "filter (\<lambda>x. n \<le> x) [0..<n + k] = [n..<n + k]"
  by (induction k) (auto simp: filter_empty_conv)

lemma sum_list_upt_rev:
  "sum_list (map f (rev [n..<n + k])) = sum_list (map (\<lambda>j. f (n + j)) [0..<k])" for f :: "nat \<Rightarrow> int"
  by (induction k) auto

lemma delivered_new:
  "delivered s t d buyer items db db' \<Longrightarrow> j < length items \<Longrightarrow>
     \<exists>b. st_batches db' (st_next_batch db + j) = Some b \<and>
       row_key b = (ed_product d, buyer, if s then it_qty (items ! j) else ed_quantity d,
                    if s then it_qty (items ! j) else ed_quantity d, Some t)"
  unfolding delivered_def by blast

lemma delivered_results:
  assumes d: "delivered s t d buyer items db db'" and o: "older t db"
  shows "result_batches t db' = rev [st_next_batch db..<st_next_batch db + length items]"
    and "destination_quantity t db' = sum_list (map (\<lambda>i. if s then it_qty i else ed_quantity d) items)"
proof -
  let ?n = "st_next_batch db"
  have "(case map_option row_key (st_batches db' x) of Some (p, n, i, c, s) \<Rightarrow> s = Some t | None \<Rightarrow> False) \<longleftrightarrow> ?n \<le> x"
    if hyp: "x < ?n + length items" for x
  proof (cases "x < ?n")
    case True
    then have "map_option row_key (st_batches db' x) =
        map_option (\<lambda>b. row_key (b\<lparr>b_current := b_current b - taken items x\<rparr>)) (st_batches db x)"
      using d by (simp add: delivered_def)
    moreover have "b_source_tx b \<noteq> Some t" if "st_batches db x = Some b" for b
      using o that by (auto simp: older_def)
    ultimately show ?thesis using True by (cases "st_batches db x") (auto simp: row_key_def)
  next
    case False
    then have "x - ?n < length items" "x = ?n + (x - ?n)" using hyp by simp_all
    then have "\<exists>b. st_batches db' x = Some b \<and> row_key b = (ed_product d, buyer,
        if s then it_qty (items ! (x - ?n)) else ed_quantity d,
        if s then it_qty (items ! (x - ?n)) else ed_quantity d, Some t)"
      using delivered_new [OF d, of "x - ?n"] False by simp
    then show ?thesis using False by auto
  qed
  then have "filter (\<lambda>x. case map_option row_key (st_batches db' x) of Some (p, n, i, c, s) \<Rightarrow> s = Some t
      | None \<Rightarrow> False) [0..<?n + length items] = filter (\<lambda>x. ?n \<le> x) [0..<?n + length items]"
    by (intro filter_cong) auto
  moreover have "st_next_batch db' = ?n + length items" using d by (simp add: delivered_def)
  ultimately show r: "result_batches t db' = rev [?n..<?n + length items]"
    unfolding result_batches_key rev_filter [symmetric] by (simp only: filter_upt_from)
  have "(case st_batches db' (?n + j) of Some b \<Rightarrow> b_initial b | None \<Rightarrow> 0) =
      (if s then it_qty (items ! j) else ed_quantity d)" if hyp: "j < length items" for j
    using delivered_new [OF d hyp] by (auto simp: row_key_def)
  then have "map (\<lambda>j. case st_batches db' (?n + j) of Some b \<Rightarrow> b_initial b | None \<Rightarrow> 0) [0..<length items] =
      map (\<lambda>j. if s then it_qty (items ! j) else ed_quantity d) [0..<length items]"
    by (intro map_cong) auto
  moreover have "map (\<lambda>j. if s then it_qty (items ! j) else ed_quantity d) [0..<length items] =
      map (\<lambda>i. if s then it_qty i else ed_quantity d) items"
    by (rule nth_equalityI) auto
  ultimately show "destination_quantity t db' = sum_list (map (\<lambda>i. if s then it_qty i else ed_quantity d) items)"
    by (simp add: destination_quantity_def r sum_list_upt_rev)
qed

section \<open>Preparing the batches\<close>

text \<open>The batches a request offers: those it names, and with \<open>select_all_batches\<close> the others.\<close>

definition offered_items :: "nat \<Rightarrow> ext_data \<Rightarrow> 'c stock_db \<Rightarrow> item list" where
  "offered_items current d db =
     (let given = (case ed_batches d of Some is' \<Rightarrow> is' | None \<Rightarrow> [])
      in if ed_select_all d then get_only_batches_to_batches current db given else given)"

lemma validate_fresh:
  "fresh_items db items \<Longrightarrow> validate_items db (map (\<lambda>i. (it_id i, it_qty i)) items) = Inr vs \<Longrightarrow> vs = items"
  by (induction items arbitrary: vs)
    (auto simp: fresh_items_def validate_source_item_def rbind_eq_Inr)

definition sent_as_is :: "nat \<Rightarrow> ext_data \<Rightarrow> 'c stock_db \<Rightarrow> bool" where
  "sent_as_is current d db \<longleftrightarrow>
     (ed_send_seperately d \<or> length (offered_items current d db) = 1) \<and>
     b_product (it_batch (hd (offered_items current d db))) = ed_product d"

lemma prepare_cases:
  assumes "ed_type d \<noteq> INCOMING"
    and "external_prepare_batches env current d attrs db = Inr (db1, batches)"
  shows "sent_as_is current d db \<and> offered_items current d db \<noteq> [] \<and> db1 = db \<and>
      batches = Some (offered_items current d db) \<or>
    \<not> sent_as_is current d db \<and> (\<exists>tc. create_internal_transaction env current d attrs (offered_items current d db) db =
        Inr (db1, tc) \<and> batches = Some (result_items tc db1))"
proof -
  let ?items = "offered_items current d db"
  have "(if length (offered_items current d db) > 1 \<and> \<not> ed_send_seperately d
      then rbind (create_internal_transaction env current d attrs ?items db) (\<lambda>(db1, t).
             Inr (db1, Some (result_items t db1)))
      else (case ?items of
              [] \<Rightarrow> Inl PyIndexError
            | i # _ \<Rightarrow> if b_product (it_batch i) \<noteq> ed_product d
                then rbind (create_internal_transaction env current d attrs ?items db) (\<lambda>(db1, t).
                       Inr (db1, Some (result_items t db1)))
                else Inr (db, Some ?items))) = Inr (db1, batches)"
    using assms(2) unfolding external_prepare_batches_def offered_items_def Let_def if_not_P [OF assms(1)] .
  then show ?thesis
    by (cases ?items) (auto simp: rbind_eq_Inr sent_as_is_def split: if_splits)
qed

lemma offered_ok:
  assumes "fresh_items db (case ed_batches d of Some is' \<Rightarrow> is' | None \<Rightarrow> [])"
    and "distinct (map it_id (case ed_batches d of Some is' \<Rightarrow> is' | None \<Rightarrow> []))"
  shows "fresh_items db (offered_items current d db)" "distinct (map it_id (offered_items current d db))"
  using assms select_all_items [OF assms] by (auto simp: offered_items_def Let_def)

lemma conversion_items:
  assumes wf: "stock_wf db" and fr: "fresh_items db items" and dist: "distinct (map it_id items)"
    and c: "create_internal_transaction env current d attrs items db = Inr (db1, tc)"
  obtains b where
    "internal_step current tc items [\<lparr>di_product = ed_product d, di_quantity = ed_quantity d, di_unit = ed_unit d\<rparr>] db db1"
    "result_items tc db1 = [\<lparr>it_id = st_next_batch db, it_batch = b, it_qty = ed_quantity d\<rparr>]"
    "st_batches db1 (st_next_batch db) = Some b" "b_current b = ed_quantity d"
proof -
  let ?dest = "\<lparr>di_product = ed_product d, di_quantity = ed_quantity d, di_unit = ed_unit d\<rparr>"
  obtain vs where v: "validate_items db (map (\<lambda>i. (it_id i, it_qty i)) items) = Inr vs"
    and st: "internal_step current tc vs [?dest] db db1"
    by (rule system_conversion_step [OF wf _ c [unfolded create_internal_transaction_def]])
      (simp add: comp_def dist)
  have st': "internal_step current tc items [?dest] db db1" using st validate_fresh [OF fr v] by simp
  obtain b where b: "st_batches db1 (st_next_batch db) = Some b" "result_batches tc db1 = [st_next_batch db]"
    "b_current b = ed_quantity d" "b_initial b = ed_quantity d"
    by (rule conversion_result [OF wf st' fr]) simp
  then have "result_items tc db1 = [\<lparr>it_id = st_next_batch db, it_batch = b, it_qty = ed_quantity d\<rparr>]"
    by (simp add: result_items_def)
  then show thesis using that st' b by blast
qed

section \<open>Creating an external transaction\<close>

lemma external_create_cases:
  assumes "ed_type d \<noteq> INCOMING" and "external_create env user full_name current d db = Inr (db', t, created)"
  obtains db1 batches x where
    "external_prepare_batches env current d (with_date (ed_attrs d)) db = Inr (db1, batches)"
    "created \<or> db' = db1 \<and> find_duplicate (external_fields user current d) (ed_product d) db1 = Some t"
    "\<not> created \<or> t = st_next_tx db1 \<and>
       execute_external env user full_name current d t (case batches of Some is' \<Rightarrow> is' | None \<Rightarrow> [])
         (fst (create_tx x db1)) = Inr db'"
    "\<not> created \<or> ed_force_create d \<or> find_duplicate (external_fields user current d) (ed_product d) db1 = None"
proof -
  let ?f = "external_fields user current d"
  obtain db1 batches where p: "external_prepare_batches env current d (with_date (ed_attrs d)) db = Inr (db1, batches)"
    and rest: "(let (db2, t, created) =
               (if ed_force_create d
                then (case create_external_tx (se_now env) ?f db1 of (db2, t) \<Rightarrow> (db2, t, True))
                else filter_for_duplicate_txn (se_now env) ?f (ed_product d) db1)
         in if \<not> created then Inr (db2, t, False)
            else
              (let given = (case batches of Some is' \<Rightarrow> is' | None \<Rightarrow> []);
                   (db3, items) =
                     (if given = [] \<and> ed_type d = INCOMING
                      then prepare_incoming_batches (ef_source ?f) d
                             (''Created for transferring to '' @ full_name (ef_destination ?f)) db2
                      else (db2, given))
               in rbind (execute_external env user full_name current d t items db3) (\<lambda>db4.
                    Inr (db4, t, True)))) = Inr (db', t, created)"
    using assms(2) by (auto simp: external_create_def Let_def rbind_eq_Inr)
  define x where "x = \<lparr>tx_kind = External (ef_type ?f) (ef_source ?f) (ef_destination ?f), tx_status = TX_CREATED,
                tx_comment = (case ef_comment ?f of Some c \<Rightarrow> c | None \<Rightarrow> []),
                tx_attrs = stored_attrs (se_now env) (ef_attrs ?f)\<rparr>"
  have cx: "create_external_tx (se_now env) ?f db1 = (fst (create_tx x db1), st_next_tx db1)"
    by (simp add: create_external_tx_def x_def create_tx_def Let_def)
  show thesis
  proof (cases "ed_force_create d \<or> find_duplicate ?f (ed_product d) db1 = None")
    case True
    then have "(if ed_force_create d
                then (case create_external_tx (se_now env) ?f db1 of (db2, t) \<Rightarrow> (db2, t, True))
                else filter_for_duplicate_txn (se_now env) ?f (ed_product d) db1) =
        (fst (create_tx x db1), st_next_tx db1, True)"
      by (auto simp: filter_for_duplicate_txn_def cx)
    then show thesis using rest assms(1) True
      by (intro that [OF p, of x]) (auto simp: rbind_eq_Inr)
  next
    case False
    then obtain t0 where "find_duplicate ?f (ed_product d) db1 = Some t0" by auto
    then show thesis using rest False
      by (intro that [OF p, of x]) (auto simp: filter_for_duplicate_txn_def)
  qed
qed

lemma create_tx_stock [simp]:
  "current_of (fst (create_tx x db)) = current_of db" "total_stock (fst (create_tx x db)) = total_stock db"
  by (simp_all add: current_of_def fun_eq_iff total_stock_def)

lemma sold_through:
  assumes wf: "stock_wf db1" and fr: "fresh_items db1 items" and dist: "distinct (map it_id items)"
    and ex: "execute_external env user full_name current d (st_next_tx db1) items (fst (create_tx x db1)) = Inr db'"
  shows "delivered (ed_send_seperately d) (st_next_tx db1) d
       (fst (get_buyer_supplier (ed_type d) current (ed_node d))) items (fst (create_tx x db1)) db'"
proof -
  note w = create_tx_wf [OF wf, of x]
  have fr2: "fresh_items (fst (create_tx x db1)) items" using fr by (simp add: fresh_items_def)
  have o: "u < st_next_tx db1" if "i \<in> set items" "b_source_tx (it_batch i) = Some u" for i u
    using fr wf that by (auto simp: fresh_items_def stock_wf_def)
  have t: "st_next_tx db1 < st_next_tx (fst (create_tx x db1))" by simp
  obtain db2 where "execute_external env user full_name current d (st_next_tx db1) items (fst (create_tx x db1)) = Inr db2"
    "delivered (ed_send_seperately d) (st_next_tx db1) d
       (fst (get_buyer_supplier (ed_type d) current (ed_node d))) items (fst (create_tx x db1)) db2"
    by (rule execute_external_ok [OF w(1) t fr2 dist o])
  then show ?thesis using ex by simp
qed

text \<open>What every accepted transaction that is not incoming does to the stock.\<close>

definition sold_amount :: "nat \<Rightarrow> ext_data \<Rightarrow> 'c stock_db \<Rightarrow> int" where
  "sold_amount current d db =
     (if ed_send_seperately d \<and> b_product (it_batch (hd (offered_items current d db))) = ed_product d
      then sum_list (map it_qty (offered_items current d db)) else ed_quantity d)"

lemma external_create_outcome:
  assumes wf: "stock_wf db" and ni: "ed_type d \<noteq> INCOMING"
    and fr: "fresh_items db (case ed_batches d of Some is' \<Rightarrow> is' | None \<Rightarrow> [])"
    and dist: "distinct (map it_id (case ed_batches d of Some is' \<Rightarrow> is' | None \<Rightarrow> []))"
    and c: "external_create env user full_name current d db = Inr (db', t, True)"
  shows "stock_wf db'"
    and "\<And>x. x < st_next_batch db \<Longrightarrow> current_of db' x = current_of db x - taken (offered_items current d db) x"
    and "destination_quantity t db' = sold_amount current d db"
    and "total_stock db' = total_stock db - sum_list (map it_qty (offered_items current d db)) + sold_amount current d db"
proof -
  let ?items = "offered_items current d db"
  let ?buyer = "fst (get_buyer_supplier (ed_type d) current (ed_node d))"
  note of = offered_ok [OF fr dist, of current]
  obtain db1 batches x where p: "external_prepare_batches env current d (with_date (ed_attrs d)) db = Inr (db1, batches)"
    and t: "t = st_next_tx db1"
    and ex: "execute_external env user full_name current d t (case batches of Some is' \<Rightarrow> is' | None \<Rightarrow> [])
         (fst (create_tx x db1)) = Inr db'"
    by (rule external_create_cases [OF ni c]) blast
  let ?db2 = "fst (create_tx x db1)"
  have goal: "stock_wf db' \<and>
      (\<forall>x<st_next_batch db. current_of db' x = current_of db x - taken ?items x) \<and>
      destination_quantity t db' = sold_amount current d db \<and>
      total_stock db' = total_stock db - sum_list (map it_qty ?items) + sold_amount current d db"
  proof (cases "sent_as_is current d db")
    case True
    then have e: "db1 = db" "batches = Some ?items" "?items \<noteq> []" using prepare_cases [OF ni p] by blast+
    have d: "delivered (ed_send_seperately d) t d ?buyer ?items (fst (create_tx x db)) db'"
      using sold_through [OF wf of, of env user full_name current d x db'] ex t e by simp
    have o: "older t (fst (create_tx x db))" using create_tx_wf(2) [OF wf] t e by simp
    have a: "sum_list (map (\<lambda>i. if ed_send_seperately d then it_qty i else ed_quantity d) ?items) =
        sold_amount current d db"
      using True by (cases ?items) (auto simp: sold_amount_def sent_as_is_def)
    show ?thesis
      using d delivered_results(2) [OF d o] unfolding a
      by (simp add: delivered_def a)
  next
    case False
    then obtain tc where ct: "create_internal_transaction env current d (with_date (ed_attrs d)) ?items db = Inr (db1, tc)"
      "batches = Some (result_items tc db1)"
      using prepare_cases [OF ni p] by blast
    obtain b where st: "internal_step current tc ?items
        [\<lparr>di_product = ed_product d, di_quantity = ed_quantity d, di_unit = ed_unit d\<rparr>] db db1"
      and r: "result_items tc db1 = [\<lparr>it_id = st_next_batch db, it_batch = b, it_qty = ed_quantity d\<rparr>]"
      and b: "st_batches db1 (st_next_batch db) = Some b" "b_current b = ed_quantity d"
      by (rule conversion_items [OF wf of ct(1)])
    let ?i = "\<lparr>it_id = st_next_batch db, it_batch = b, it_qty = ed_quantity d\<rparr>"
    have wf1: "stock_wf db1" using st by (simp add: internal_step_def)
    have d: "delivered (ed_send_seperately d) t d ?buyer [?i] ?db2 db'"
      using sold_through [OF wf1, of "[?i]" env user full_name current d x db'] ex t ct(2) r b
      by (simp add: fresh_items_def)
    have o: "older t ?db2" using create_tx_wf(2) [OF wf1] t by simp
    have a: "sold_amount current d db = ed_quantity d"
    proof (cases "ed_send_seperately d")
      case True
      then have "b_product (it_batch (hd ?items)) \<noteq> ed_product d" using False by (simp add: sent_as_is_def)
      then show ?thesis by (simp add: sold_amount_def)
    qed (simp add: sold_amount_def)
    have cur: "current_of db' y = current_of db y - taken ?items y" if hyp: "y < st_next_batch db" for y
    proof -
      have "y < st_next_batch ?db2" using hyp st by (simp add: internal_step_def)
      then have "current_of db' y = current_of ?db2 y" using d hyp by (simp add: delivered_def)
      then show ?thesis using st hyp by (simp add: internal_step_def)
    qed
    have "total_stock db' = total_stock db - sum_list (map it_qty ?items) + ed_quantity d"
      using d st by (simp add: delivered_def internal_step_def)
    then show ?thesis using d delivered_results(2) [OF d o] cur by (simp add: delivered_def a)
  qed
  then show "stock_wf db'" "destination_quantity t db' = sold_amount current d db"
    "\<And>x. x < st_next_batch db \<Longrightarrow> current_of db' x = current_of db x - taken ?items x"
    "total_stock db' = total_stock db - sum_list (map it_qty ?items) + sold_amount current d db"
    by blast+
qed

lemma external_create_dropped:
  assumes wf: "stock_wf db" and ni: "ed_type d \<noteq> INCOMING"
    and fr: "fresh_items db (case ed_batches d of Some is' \<Rightarrow> is' | None \<Rightarrow> [])"
    and dist: "distinct (map it_id (case ed_batches d of Some is' \<Rightarrow> is' | None \<Rightarrow> []))"
    and c: "external_create env user full_name current d db = Inr (db', t, False)"
  shows "stock_wf db' \<and> (if sent_as_is current d db then db' = db
    else total_stock db' = total_stock db - sum_list (map it_qty (offered_items current d db)) + ed_quantity d)"
proof -
  let ?items = "offered_items current d db"
  note of = offered_ok [OF fr dist, of current]
  obtain batches where p: "external_prepare_batches env current d (with_date (ed_attrs d)) db = Inr (db', batches)"
    by (rule external_create_cases [OF ni c]) blast
  show ?thesis
  proof (cases "sent_as_is current d db")
    case True
    then show ?thesis using prepare_cases [OF ni p] wf by simp
  next
    case False
    then obtain tc where ct: "create_internal_transaction env current d (with_date (ed_attrs d)) ?items db = Inr (db', tc)"
      using prepare_cases [OF ni p] by blast
    have "internal_step current tc ?items
        [\<lparr>di_product = ed_product d, di_quantity = ed_quantity d, di_unit = ed_unit d\<rparr>] db db'"
      by (rule conversion_items [OF wf of ct])
    then show ?thesis using False by (simp add: internal_step_def)
  qed
qed

lemma external_request_create:
  assumes "external_request env user full_name current raws d db = Inr (db', t, created)"
  obtains items where "validate_optional db raws = Inr items"
    "external_create env user full_name current (d\<lparr>ed_batches := items\<rparr>) db = Inr (db', t, created)"
    "fresh_items db (case items of Some is' \<Rightarrow> is' | None \<Rightarrow> [])"
    "map it_id (case items of Some is' \<Rightarrow> is' | None \<Rightarrow> []) = map fst (case raws of Some rs \<Rightarrow> rs | None \<Rightarrow> [])"
proof -
  obtain items where v: "validate_optional db raws = Inr items"
    and c: "external_create env user full_name current (d\<lparr>ed_batches := items\<rparr>) db = Inr (db', t, created)"
    using assms by (auto simp: external_request_def rbind_eq_Inr)
  have "fresh_items db (case items of Some is' \<Rightarrow> is' | None \<Rightarrow> []) \<and>
      map it_id (case items of Some is' \<Rightarrow> is' | None \<Rightarrow> []) = map fst (case raws of Some rs \<Rightarrow> rs | None \<Rightarrow> [])"
  proof (cases raws)
    case None
    then show ?thesis using v by (simp add: validate_optional_def fresh_items_def)
  next
    case (Some rs)
    then obtain its where "validate_items db rs = Inr its" "items = Some its"
      using v by (auto simp: validate_optional_def rbind_eq_Inr)
    then show ?thesis using validate_items_ok Some by auto
  qed
  then show thesis using that v c by blast
qed

section \<open>Properties of external transactions\<close>

definition offered :: "nat \<Rightarrow> (nat \<times> int) list option \<Rightarrow> ext_data \<Rightarrow> 'c stock_db \<Rightarrow> item list" where
  "offered current raws d db =
     (case validate_optional db raws of
        Inr items \<Rightarrow> offered_items current (d\<lparr>ed_batches := items\<rparr>) db | Inl _ \<Rightarrow> [])"

text \<open>A sale between companies for the examples.\<close>

definition demo_sale :: "bool \<Rightarrow> int \<Rightarrow> ext_data" where
  "demo_sale s q =
     \<lparr>ed_type = OUTGOING, ed_node = 2, ed_product = 1, ed_quantity = q, ed_unit = 1, ed_batches = None,
      ed_select_all = False, ed_send_seperately = s, ed_force_create = False, ed_comment = None,
      ed_currency = None, ed_price = None, ed_request = None, ed_buyer_ref = None, ed_seller_ref = None,
      ed_attrs = []\<rparr>"

text \<open>C2: an accepted sale or reversal that names each batch at most once takes from every
  batch exactly what was asked of it; its result batches hold together what was taken when the
  batches go out separately and unconverted, and the agreed quantity otherwise; and the total
  changes by the difference.\<close>

theorem external_request_conserves:
  assumes "stock_wf db" and "distinct (map fst (case raws of Some rs \<Rightarrow> rs | None \<Rightarrow> []))"
    and "ed_type d \<noteq> INCOMING"
    and "external_request env user full_name current raws d db = Inr (db', t, True)"
  shows "stock_wf db' \<and>
    (\<forall>x<st_next_batch db. current_of db' x = current_of db x - taken (offered current raws d db) x) \<and>
    destination_quantity t db' =
      (if ed_send_seperately d \<and> b_product (it_batch (hd (offered current raws d db))) = ed_product d
       then sum_list (map it_qty (offered current raws d db)) else ed_quantity d) \<and>
    total_stock db' =
      total_stock db - sum_list (map it_qty (offered current raws d db)) + destination_quantity t db'"
proof -
  obtain items where v: "validate_optional db raws = Inr items"
    and c: "external_create env user full_name current (d\<lparr>ed_batches := items\<rparr>) db = Inr (db', t, True)"
    and fr: "fresh_items db (case items of Some is' \<Rightarrow> is' | None \<Rightarrow> [])"
    and ids: "map it_id (case items of Some is' \<Rightarrow> is' | None \<Rightarrow> []) = map fst (case raws of Some rs \<Rightarrow> rs | None \<Rightarrow> [])"
    by (rule external_request_create [OF assms(4)])
  let ?d = "d\<lparr>ed_batches := items\<rparr>"
  have o: "offered current raws d db = offered_items current ?d db" using v by (simp add: offered_def)
  have "fresh_items db (case ed_batches ?d of Some is' \<Rightarrow> is' | None \<Rightarrow> [])"
    "distinct (map it_id (case ed_batches ?d of Some is' \<Rightarrow> is' | None \<Rightarrow> []))" "ed_type ?d \<noteq> INCOMING"
    using fr ids assms(2,3) by simp_all
  note out = external_create_outcome [OF assms(1) this(3,1,2) c]
  show ?thesis using out by (simp add: o sold_amount_def)
qed

text \<open>Whether a result is there; the examples are evaluated with it.\<close>

definition accepted :: "('c stock_db \<times> nat \<times> bool) result \<Rightarrow> bool" where
  "accepted r = (case r of Inr (_, _, c) \<Rightarrow> c | Inl _ \<Rightarrow> False)"

lemma acceptedD: "accepted r \<Longrightarrow> \<exists>db' t. r = Inr (db', t, True)"
  by (auto simp: accepted_def split: sum.splits)

lemma demo_sale_ok:
  "accepted (external_request demo_env 7 (\<lambda>_. ''n'') 1 (Some [(1, 2000), (2, 3000)]) (demo_sale True 5000) demo_stock)"
  by code_simp

theorem external_request_conserves_witness:
  "\<exists>db' t. external_request demo_env 7 (\<lambda>_. ''n'') 1 (Some [(1, 2000), (2, 3000)]) (demo_sale True 5000) demo_stock =
     Inr (db', t, True) \<and> stock_wf db' \<and> total_stock db' = total_stock demo_stock"
proof -
  obtain db' t where r: "external_request demo_env 7 (\<lambda>_. ''n'') 1 (Some [(1, 2000), (2, 3000)])
     (demo_sale True 5000) demo_stock = Inr (db', t, True)"
    using acceptedD [OF demo_sale_ok] by blast
  have "stock_wf db' \<and> total_stock db' = total_stock demo_stock"
    using external_request_conserves [OF demo_stock_wf _ _ r]
    by (simp add: demo_sale_def offered_def offered_items_def validate_optional_def validate_source_item_def
        demo_stock_def demo_batch_def)
  then show ?thesis using r by blast
qed


section \<open>Properties of incoming transactions\<close>

lemma incoming_create_cases:
  assumes "ed_type d = INCOMING" "ed_batches d = None"
    and "external_create env user full_name current d db = Inr (db', t, True)"
  obtains x name db1 items where "t = st_next_tx db"
    "prepare_incoming_batches (ed_node d) d name (fst (create_tx x db)) = (db1, items)"
    "execute_external env user full_name current d t items db1 = Inr db'"
proof -
  let ?f = "external_fields user current d"
  define x where "x = \<lparr>tx_kind = External (ef_type ?f) (ef_source ?f) (ef_destination ?f), tx_status = TX_CREATED,
                tx_comment = (case ef_comment ?f of Some c \<Rightarrow> c | None \<Rightarrow> []),
                tx_attrs = stored_attrs (se_now env) (ef_attrs ?f)\<rparr>"
  have cx: "create_external_tx (se_now env) ?f db = (fst (create_tx x db), st_next_tx db)"
    by (simp add: create_external_tx_def x_def create_tx_def Let_def)
  have src: "ef_source ?f = ed_node d"
    using assms(1) by (simp add: external_fields_def get_buyer_supplier_def)
  obtain db1 items where pi: "prepare_incoming_batches (ed_node d) d
      (''Created for transferring to '' @ full_name (ef_destination ?f)) (fst (create_tx x db)) = (db1, items)"
    by fastforce
  have "t = st_next_tx db \<and> execute_external env user full_name current d t items db1 = Inr db'"
    using assms(3) pi
    by (auto simp: external_create_def Let_def rbind_eq_Inr external_prepare_batches_def assms(1,2)
        filter_for_duplicate_txn_def cx src split: if_splits option.splits prod.splits)
  then show thesis using that pi by blast
qed

text \<open>a purchase entered for a farmer who has no stock of his own. The supplier's batch is
  created for the purchase and is empty after it; the buyer holds the whole quantity; no other
  batch changes.\<close>

theorem farmer_purchase_adds_quantity:
  assumes "stock_wf db" and "ed_type d = INCOMING"
    and "external_request env user full_name current None d db = Inr (db', t, True)"
  shows "stock_wf db' \<and> total_stock db' = total_stock db + ed_quantity d \<and>
    (\<forall>x<st_next_batch db. current_of db' x = current_of db x) \<and>
    (\<exists>s b. st_batches db' (st_next_batch db) = Some s \<and>
       row_key s = (ed_product d, ed_node d, ed_quantity d, 0, None) \<and>
       st_batches db' (Suc (st_next_batch db)) = Some b \<and>
       row_key b = (ed_product d, current, ed_quantity d, ed_quantity d, Some t)) \<and>
    st_node_type db (ed_node d) = NODE_FARM"
proof -
  let ?n = "st_next_batch db"
  have farm: "st_node_type db (ed_node d) = NODE_FARM"
    using assms(2,3)
    by (simp add: external_request_def validate_node_def validate_buyer_supplier_def get_buyer_supplier_def
        split: if_splits)
  have c: "external_create env user full_name current (d\<lparr>ed_batches := None\<rparr>) db = Inr (db', t, True)"
    using assms(3) by (auto simp: external_request_def rbind_eq_Inr validate_optional_def)
  obtain x name db1 items where t: "t = st_next_tx db"
    and pi: "prepare_incoming_batches (ed_node d) (d\<lparr>ed_batches := None\<rparr>) name (fst (create_tx x db)) = (db1, items)"
    and ex: "execute_external env user full_name current (d\<lparr>ed_batches := None\<rparr>) t items db1 = Inr db'"
    by (rule incoming_create_cases [OF _ _ c]) (simp_all add: assms(2))
  define b where "b = \<lparr>b_product = ed_product d, b_node = ed_node d, b_initial = ed_quantity d,
               b_current = ed_quantity d, b_unit = ed_unit d, b_type = BATCH_INTERMEDIATE,
               b_source_tx = None, b_parents = [], b_number = 0, b_name = name, b_note = [],
               b_archived = False, b_buyer_ref = AStr [], b_seller_ref = AStr []\<rparr>"
  obtain bid where cb: "create_batch b (fst (create_tx x db)) = (db1, bid)"
    and items: "items = [\<lparr>it_id = bid, it_batch = b\<lparr>b_number := bid + 1200\<rparr>, it_qty = ed_quantity d\<rparr>]"
    using pi by (auto simp: prepare_incoming_batches_def Let_def b_def split: prod.splits)
  have b0: "b_number b = 0" "b_source_tx b = None" "b_current b = ed_quantity d" by (simp_all add: b_def)
  note sel = create_batch_sel [OF cb b0(1)] and cr = create_batch_creates [OF cb b0(1)]
  note f = creates_facts [OF cr] and w = create_tx_wf [OF assms(1), of x]
  have bid: "bid = ?n" using sel(1) by simp
  have wf1: "stock_wf db1" using f(4) [OF w(1)] b0 by simp
  have n1: "st_next_batch db1 = Suc ?n" using sel(3) bid by simp
  have b1: "st_batches db1 ?n = Some (b\<lparr>b_number := bid + 1200\<rparr>)" using sel(2) bid by simp
  obtain db2 where "execute_external env user full_name current (d\<lparr>ed_batches := None\<rparr>) t items db1 = Inr db2"
    and "delivered (ed_send_seperately d) t (d\<lparr>ed_batches := None\<rparr>)
       (fst (get_buyer_supplier (ed_type (d\<lparr>ed_batches := None\<rparr>)) current (ed_node (d\<lparr>ed_batches := None\<rparr>))))
       items db1 db2"
    using execute_external_ok [OF wf1, of t items env user full_name current "d\<lparr>ed_batches := None\<rparr>"]
      sel t b0 by (auto simp: fresh_items_def items)
  then have d: "delivered (ed_send_seperately d) t (d\<lparr>ed_batches := None\<rparr>) current items db1 db'"
    using ex assms(2) by (simp add: get_buyer_supplier_def)
  have tk: "taken items ?n = ed_quantity d" by (simp add: items bid)
  have old: "current_of db' y = current_of db y" if hyp: "y < ?n" for y
  proof -
    have "current_of db' y = current_of db1 y - taken items y" using d hyp n1 by (simp add: delivered_def)
    then show ?thesis using f(1) hyp by (simp add: items bid)
  qed
  have "map_option row_key (st_batches db' ?n) =
      Some (row_key (b\<lparr>b_number := bid + 1200\<rparr>\<lparr>b_current := b_current b - ed_quantity d\<rparr>))"
    using d n1 b1 tk by (simp add: delivered_def)
  then have new: "\<exists>s. st_batches db' ?n = Some s \<and> row_key s = (ed_product d, ed_node d, ed_quantity d, 0, None)"
    by (auto simp: row_key_def b_def)
  have buyer: "\<exists>y. st_batches db' (Suc ?n) = Some y \<and>
      row_key y = (ed_product d, current, ed_quantity d, ed_quantity d, Some t)"
    using delivered_new [OF d, of 0] n1 by (auto simp: items split: if_splits)
  have "total_stock db' = total_stock db1 - ed_quantity d + ed_quantity d"
    using d by (simp add: delivered_def items)
  then have "total_stock db' = total_stock db + ed_quantity d" using f(2) b0 by simp
  then show ?thesis using d old new buyer farm by (auto simp: delivered_def)
qed

text \<open>A farmer, node 2, for the examples.\<close>

definition demo_farm :: "unit stock_db" where
  "demo_farm = demo_stock\<lparr>st_node_type := (\<lambda>n. if n = 2 then NODE_FARM else NODE_COMPANY)\<rparr>"

lemma demo_farm_wf: "stock_wf demo_farm"
  using demo_stock_wf by (simp add: stock_wf_def demo_farm_def)

lemma demo_purchase_ok:
  "accepted (external_request demo_env 7 (\<lambda>_. ''n'') 1 None ((demo_sale False 5000)\<lparr>ed_type := INCOMING\<rparr>) demo_farm)"
  by code_simp

theorem farmer_purchase_adds_quantity_witness:
  "\<exists>db' t. external_request demo_env 7 (\<lambda>_. ''n'') 1 None ((demo_sale False 5000)\<lparr>ed_type := INCOMING\<rparr>) demo_farm =
     Inr (db', t, True) \<and> total_stock db' = total_stock demo_farm + 5000"
proof -
  obtain db' t where r: "external_request demo_env 7 (\<lambda>_. ''n'') 1 None
      ((demo_sale False 5000)\<lparr>ed_type := INCOMING\<rparr>) demo_farm = Inr (db', t, True)"
    using acceptedD [OF demo_purchase_ok] by blast
  have "total_stock db' = total_stock demo_farm + 5000"
    using farmer_purchase_adds_quantity [OF demo_farm_wf _ r] by (simp add: demo_sale_def)
  then show ?thesis using r by blast
qed


section \<open>Properties of rejections\<close>

text \<open>The ledger in which the reversal runs: the transaction is declined already.\<close>

definition declined :: "'c stock_env \<Rightarrow> nat \<Rightarrow> string \<Rightarrow> tx \<Rightarrow> 'c stock_db \<Rightarrow> 'c stock_db" where
  "declined env t comment x db =
     db\<lparr>st_rest := se_remove_notifications env t db,
        st_txs := (st_txs db)(t \<mapsto> x\<lparr>tx_status := TX_DECLINED, tx_comment := comment\<rparr>)\<rparr>"

lemma declined_same [simp]: "same_stock db (declined env t comment x db)"
  by (simp add: declined_def same_stock_def)

lemma result_items_same: "same_stock db db' \<Longrightarrow> result_items t db' = result_items t db"
  using same_stock_facts(6) [of db db' t] by (simp add: result_items_def same_stock_def)

lemma result_item_row:
  "bid \<in> set (result_batches t db) \<Longrightarrow> \<exists>b. st_batches db bid = Some b"
  by (auto simp: result_batches_def split: option.splits)

lemma result_items_map:
  "map it_id (result_items t db) = result_batches t db \<and> fresh_items db (result_items t db) \<and>
   map it_qty (result_items t db) =
     map (\<lambda>bid. case st_batches db bid of Some b \<Rightarrow> b_initial b | None \<Rightarrow> 0) (result_batches t db) \<and>
   (\<forall>i\<in>set (result_items t db). it_qty i = b_initial (it_batch i))"
proof -
  have "map it_id [\<lparr>it_id = bid, it_batch = b, it_qty = b_initial b\<rparr>. bid \<leftarrow> bs,
        b \<leftarrow> (case st_batches db bid of Some b \<Rightarrow> [b] | None \<Rightarrow> [])] = bs \<and>
      fresh_items db [\<lparr>it_id = bid, it_batch = b, it_qty = b_initial b\<rparr>. bid \<leftarrow> bs,
        b \<leftarrow> (case st_batches db bid of Some b \<Rightarrow> [b] | None \<Rightarrow> [])] \<and>
      map it_qty [\<lparr>it_id = bid, it_batch = b, it_qty = b_initial b\<rparr>. bid \<leftarrow> bs,
        b \<leftarrow> (case st_batches db bid of Some b \<Rightarrow> [b] | None \<Rightarrow> [])] =
        map (\<lambda>bid. case st_batches db bid of Some b \<Rightarrow> b_initial b | None \<Rightarrow> 0) bs \<and>
      (\<forall>i\<in>set [\<lparr>it_id = bid, it_batch = b, it_qty = b_initial b\<rparr>. bid \<leftarrow> bs,
        b \<leftarrow> (case st_batches db bid of Some b \<Rightarrow> [b] | None \<Rightarrow> [])]. it_qty i = b_initial (it_batch i))"
    if "set bs \<subseteq> set (result_batches t db)" for bs
    using that
  proof (induction bs)
    case (Cons bid bs)
    then obtain b where "st_batches db bid = Some b" using result_item_row by fastforce
    then show ?case using Cons by (simp add: fresh_items_def)
  qed (simp add: fresh_items_def)
  then show ?thesis by (simp add: result_items_def)
qed

lemma result_items_sum: "sum_list (map it_qty (result_items t db)) = destination_quantity t db"
  using result_items_map [of t db] by (simp add: destination_quantity_def)

lemma reject_cases:
  assumes "reject_transaction env user full_name node comment t db = Inr db'"
  obtains x ty source newest b others t' created where "st_txs db t = Some x"
    "tx_kind x = External ty source node" "result_batches t db = newest # others"
    "st_batches db newest = Some b"
    "\<forall>i\<in>set (result_items t db). b_initial (it_batch i) = b_current (it_batch i)"
    "external_request env user full_name node
       (Some (map (\<lambda>i. (it_id i, b_initial (it_batch i))) (result_items t db)))
       (reversal_data x source comment b) (declined env t comment x db) = Inr (db', t', created)"
proof -
  obtain j where j: "rejection_validate node t db = Inr j"
    and c: "rejection_create env user full_name node comment j db = Inr db'"
    using assms by (auto simp: reject_transaction_def rbind_eq_Inr)
  have "\<exists>x ty source. st_txs db t = Some x \<and> tx_kind x = External ty source node \<and>
      (\<forall>i\<in>set (result_items t db). b_initial (it_batch i) = b_current (it_batch i)) \<and>
      j = \<lparr>rj_tx = t, rj_batches = map (\<lambda>i. (it_id i, b_initial (it_batch i))) (result_items t db)\<rparr>"
  proof (cases "st_txs db t")
    case None
    then show ?thesis using j by (simp add: rejection_validate_def)
  next
    case (Some x)
    then show ?thesis using j
      by (cases "tx_kind x") (auto simp: rejection_validate_def rbind_eq_Inr Let_def)
  qed
  then obtain x ty source where x: "st_txs db t = Some x" "tx_kind x = External ty source node"
    and u: "\<forall>i\<in>set (result_items t db). b_initial (it_batch i) = b_current (it_batch i)"
    and j': "j = \<lparr>rj_tx = t, rj_batches = map (\<lambda>i. (it_id i, b_initial (it_batch i))) (result_items t db)\<rparr>"
    by blast
  have rb: "result_batches t (declined env t comment x db) = result_batches t db"
    by (simp add: same_stock_facts(6) [OF declined_same])
  have "\<exists>first t' created. first_result_item t (declined env t comment x db) = Inr first \<and>
      external_request env user full_name node (Some (rj_batches j))
        (reversal_data x source comment (it_batch first)) (declined env t comment x db) = Inr (db', t', created)"
    using c x unfolding rejection_create_def j' declined_def
    by (auto simp: rbind_eq_Inr Let_def)
  then obtain first t' created where fi: "first_result_item t (declined env t comment x db) = Inr first"
    and er: "external_request env user full_name node (Some (rj_batches j))
        (reversal_data x source comment (it_batch first)) (declined env t comment x db) = Inr (db', t', created)"
    by blast
  obtain newest others where r: "result_batches t db = newest # others"
    using fi rb by (cases "result_batches t db") (auto simp: first_result_item_def)
  obtain b where b: "st_batches db newest = Some b" using result_item_row [of newest t db] r by auto
  then have "it_batch first = b"
    using fi rb r by (auto simp: first_result_item_def rbind_eq_Inr get_batch_def declined_def)
  then show thesis using that x u r b er j' by simp
qed

text \<open>The request of the reversal offers exactly the result batches with their quantities.\<close>

lemma reversal_items:
  assumes u: "\<forall>i\<in>set (result_items t db). b_initial (it_batch i) = b_current (it_batch i)"
    and ss: "same_stock db db1"
  shows "validate_optional db1 (Some (map (\<lambda>i. (it_id i, b_initial (it_batch i))) (result_items t db))) =
    Inr (Some (result_items t db))"
proof -
  have "validate_items db1 (map (\<lambda>i. (it_id i, b_initial (it_batch i))) is') = Inr is'"
    if "set is' \<subseteq> set (result_items t db)" for is'
    using that
  proof (induction is')
    case (Cons i is')
    then have "i \<in> set (result_items t db)" by simp
    then have "st_batches db1 (it_id i) = Some (it_batch i)" "b_initial (it_batch i) = b_current (it_batch i)"
      "it_qty i = b_initial (it_batch i)"
      using result_items_map [of t db] u ss by (auto simp: fresh_items_def same_stock_def)
    then show ?case using Cons by (simp add: validate_source_item_def)
  qed simp
  then show ?thesis by (simp add: validate_optional_def)
qed

lemma reversal_data_sel [simp]:
  "ed_type (reversal_data x s c b) = REVERSAL" "ed_select_all (reversal_data x s c b) = False"
  "ed_send_seperately (reversal_data x s c b) = False" "ed_quantity (reversal_data x s c b) = b_initial b"
  "ed_product (reversal_data x s c b) = b_product b" "ed_node (reversal_data x s c b) = s"
  "ed_force_create (reversal_data x s c b) = False"
  by (simp_all add: reversal_data_def)

lemma reject_reversal:
  assumes wf: "stock_wf db" and rj: "reject_transaction env user full_name node comment t db = Inr db'"
  obtains x ty source newest b others t' created where "st_txs db t = Some x"
    "tx_kind x = External ty source node" "result_batches t db = newest # others"
    "st_batches db newest = Some b" "b_initial b = b_current b"
    "external_create env user full_name node
       ((reversal_data x source comment b)\<lparr>ed_batches := Some (result_items t db)\<rparr>)
       (declined env t comment x db) = Inr (db', t', created)"
    "stock_wf (declined env t comment x db)" "fresh_items (declined env t comment x db) (result_items t db)"
    "distinct (map it_id (result_items t db))"
    "result_items t db = \<lparr>it_id = newest, it_batch = b, it_qty = b_initial b\<rparr> # tl (result_items t db)"
    "length (result_items t db) = length (result_batches t db)"
proof -
  obtain x ty source newest b others t' created where x: "st_txs db t = Some x"
    "tx_kind x = External ty source node" and r: "result_batches t db = newest # others"
    and b: "st_batches db newest = Some b"
    and u: "\<forall>i\<in>set (result_items t db). b_initial (it_batch i) = b_current (it_batch i)"
    and er: "external_request env user full_name node
       (Some (map (\<lambda>i. (it_id i, b_initial (it_batch i))) (result_items t db)))
       (reversal_data x source comment b) (declined env t comment x db) = Inr (db', t', created)"
    by (rule reject_cases [OF rj])
  note f = same_stock_facts [OF declined_same [of db env t comment x]]
  note m = result_items_map [of t db]
  have c: "external_create env user full_name node
       ((reversal_data x source comment b)\<lparr>ed_batches := Some (result_items t db)\<rparr>)
       (declined env t comment x db) = Inr (db', t', created)"
    using external_request_create [OF er] reversal_items [OF u declined_same] by (metis sum.inject(2))
  have i: "result_items t db = \<lparr>it_id = newest, it_batch = b, it_qty = b_initial b\<rparr> # tl (result_items t db)"
    using r b by (simp add: result_items_def)
  have "distinct (result_batches t db)" by (simp add: result_batches_def)
  moreover have "b_initial b = b_current b" using u i by (metis item.select_convs(2) list.set_intros(1))
  moreover have "length (result_items t db) = length (result_batches t db)"
    using arg_cong [OF conjunct1 [OF m], of length] by simp
  ultimately show thesis using that x r b c f m wf i by simp
qed

text \<open>C14: rejecting a transaction takes its whole destination quantity from the stock and gives
  back the quantity of the newest result batch, whether the reversal is created or is dropped as
  a duplicate. Nothing is lost exactly when the transaction had one result batch or the others
  were empty.\<close>

theorem rejection_total:
  assumes "stock_wf db" and "reject_transaction env user full_name node comment t db = Inr db'"
  shows "stock_wf db' \<and>
    (\<exists>newest b others. result_batches t db = newest # others \<and> st_batches db newest = Some b \<and>
       total_stock db' = total_stock db - destination_quantity t db + b_initial b)"
proof -
  obtain x ty source newest b others t' created where r: "result_batches t db = newest # others"
    and b: "st_batches db newest = Some b"
    and c: "external_create env user full_name node
       ((reversal_data x source comment b)\<lparr>ed_batches := Some (result_items t db)\<rparr>)
       (declined env t comment x db) = Inr (db', t', created)"
    and wf: "stock_wf (declined env t comment x db)"
    and fr: "fresh_items (declined env t comment x db) (result_items t db)"
    and dist: "distinct (map it_id (result_items t db))"
    and i: "result_items t db = \<lparr>it_id = newest, it_batch = b, it_qty = b_initial b\<rparr> # tl (result_items t db)"
    by (rule reject_reversal [OF assms]) blast
  let ?d = "(reversal_data x source comment b)\<lparr>ed_batches := Some (result_items t db)\<rparr>"
  let ?db1 = "declined env t comment x db"
  have o: "offered_items node ?d ?db1 = result_items t db" by (simp add: offered_items_def)
  have tot1: "total_stock ?db1 = total_stock db" by (simp add: same_stock_facts(2) [OF declined_same])
  have pre: "ed_type ?d \<noteq> INCOMING" "fresh_items ?db1 (case ed_batches ?d of Some is' \<Rightarrow> is' | None \<Rightarrow> [])"
    "distinct (map it_id (case ed_batches ?d of Some is' \<Rightarrow> is' | None \<Rightarrow> []))"
    using fr dist by simp_all
  have "stock_wf db' \<and> total_stock db' = total_stock db - destination_quantity t db + b_initial b"
  proof (cases created)
    case True
    then show ?thesis
      using external_create_outcome [OF wf pre] c
      by (simp add: o tot1 result_items_sum sold_amount_def)
  next
    case False
    then have dr: "stock_wf db' \<and> (if sent_as_is node ?d ?db1 then db' = ?db1
        else total_stock db' = total_stock ?db1 - sum_list (map it_qty (offered_items node ?d ?db1)) + ed_quantity ?d)"
      using external_create_dropped [OF wf pre] c by simp
    show ?thesis
    proof (cases "sent_as_is node ?d ?db1")
      case True
      then have "length (result_items t db) = 1" by (simp add: sent_as_is_def o)
      then have "result_items t db = [\<lparr>it_id = newest, it_batch = b, it_qty = b_initial b\<rparr>]"
        using i by (metis length_Suc_conv length_0_conv One_nat_def list.sel(3))
      then have "destination_quantity t db = b_initial b" using result_items_sum [of t db] by simp
      then show ?thesis using dr True tot1 wf by simp
    qed (use dr in \<open>simp add: o tot1 result_items_sum\<close>)
  qed
  then show ?thesis using r b by blast
qed


text \<open>Companies 1 and 2 with a sale, transaction 1, of one or of two batches to node 2.\<close>

definition demo_received :: "int \<Rightarrow> batch" where
  "demo_received q = (demo_batch q)\<lparr>b_node := 2, b_source_tx := Some 1\<rparr>"

definition demo_tx :: "ext_type \<Rightarrow> nat \<Rightarrow> nat \<Rightarrow> tx" where
  "demo_tx ty source dest =
     \<lparr>tx_kind = External ty source dest, tx_status = TX_CREATED, tx_comment = ''no'',
      tx_attrs = [(''creator'', ARef 7), (''updater'', ARef 7)]\<rparr>"

definition demo_sold :: "(nat \<rightharpoonup> batch) \<Rightarrow> unit stock_db" where
  "demo_sold bs = demo_stock\<lparr>st_batches := bs, st_next_batch := 5, st_next_tx := 3,
     st_txs := [1 \<mapsto> demo_tx OUTGOING 1 2, 2 \<mapsto> demo_tx REVERSAL 2 1]\<rparr>"

definition demo_both :: "unit stock_env" where
  "demo_both = demo_env\<lparr>se_connections := (\<lambda>_ _ _. [1, 2])\<rparr>"

definition returned :: "'a result \<Rightarrow> bool" where
  "returned r = (case r of Inr _ \<Rightarrow> True | Inl _ \<Rightarrow> False)"

lemma returnedD: "returned r \<Longrightarrow> \<exists>y. r = Inr y"
  by (auto simp: returned_def split: sum.splits)

lemma demo_sold_wf: "stock_wf (demo_sold [3 \<mapsto> demo_received 5000, 4 \<mapsto> demo_received 3000])"
  "stock_wf (demo_sold [3 \<mapsto> demo_received 5000])"
  by (auto simp: stock_wf_def demo_sold_def demo_stock_def demo_received_def demo_batch_def ranked_def split: if_splits)

lemma demo_rejected_two:
  "returned (reject_transaction demo_both 7 (\<lambda>_. ''n'') 2 ''bad'' 1
     (demo_sold [3 \<mapsto> demo_received 5000, 4 \<mapsto> demo_received 3000]))"
  by code_simp

lemma demo_rejected_one:
  "returned (reject_transaction demo_both 7 (\<lambda>_. ''n'') 2 ''bad'' 1 (demo_sold [3 \<mapsto> demo_received 5000]))"
  by code_simp

text \<open>With two result batches of 5 and 3 units, only the 3 units of the newest come back.\<close>

theorem rejection_total_witness:
  "\<exists>db'. reject_transaction demo_both 7 (\<lambda>_. ''n'') 2 ''bad'' 1
     (demo_sold [3 \<mapsto> demo_received 5000, 4 \<mapsto> demo_received 3000]) = Inr db' \<and>
     total_stock db' = total_stock (demo_sold [3 \<mapsto> demo_received 5000, 4 \<mapsto> demo_received 3000]) - 5000"
proof -
  let ?db = "demo_sold [3 \<mapsto> demo_received 5000, 4 \<mapsto> demo_received 3000]"
  obtain db' where r: "reject_transaction demo_both 7 (\<lambda>_. ''n'') 2 ''bad'' 1 ?db = Inr db'"
    using returnedD [OF demo_rejected_two] by blast
  have rb: "result_batches 1 ?db = [4, 3]" by code_simp
  have "total_stock db' = total_stock ?db - destination_quantity 1 ?db + b_initial (demo_received 3000)"
    using rejection_total [OF demo_sold_wf(1) r] rb by (auto simp: demo_sold_def)
  moreover have "destination_quantity 1 ?db = 8000" by code_simp
  ultimately show ?thesis using r by (auto simp: demo_received_def demo_batch_def)
qed

lemma external_fields_batches [simp]:
  "external_fields user current (d\<lparr>ed_batches := is'\<rparr>) = external_fields user current d"
  by (simp add: external_fields_def)

lemma single_rejection:
  assumes wf: "stock_wf db" and rj: "reject_transaction env user full_name node comment t db = Inr db'"
    and one: "result_batches t db = [bid]" and b: "st_batches db bid = Some b"
    and x: "st_txs db t = Some x" "tx_kind x = External ty source node"
  obtains t' created where "external_create env user full_name node
       ((reversal_data x source comment b)\<lparr>ed_batches := Some [\<lparr>it_id = bid, it_batch = b, it_qty = b_initial b\<rparr>]\<rparr>)
       (declined env t comment x db) = Inr (db', t', created)"
    "stock_wf (declined env t comment x db)" "b_initial b = b_current b"
    "sent_as_is node ((reversal_data x source comment b)\<lparr>ed_batches := Some [\<lparr>it_id = bid, it_batch = b, it_qty = b_initial b\<rparr>]\<rparr>)
       (declined env t comment x db)"
proof -
  have e: "result_items t db = [\<lparr>it_id = bid, it_batch = b, it_qty = b_initial b\<rparr>]"
    using one b by (simp add: result_items_def)
  obtain x' ty' source' newest b' others t' created where xs: "st_txs db t = Some x'"
    "tx_kind x' = External ty' source' node" "result_batches t db = newest # others"
    "st_batches db newest = Some b'" "b_initial b' = b_current b'"
    "external_create env user full_name node
       ((reversal_data x' source' comment b')\<lparr>ed_batches := Some (result_items t db)\<rparr>)
       (declined env t comment x' db) = Inr (db', t', created)"
    "stock_wf (declined env t comment x' db)"
    by (rule reject_reversal [OF wf rj]) blast
  have same: "x' = x" "source' = source" "b' = b" using xs x one b by auto
  show thesis
    using xs that unfolding same e by (simp add: sent_as_is_def offered_items_def)
qed

text \<open>C15: rejecting a transaction with one result batch gives everything back, when no earlier
  transaction counts as the same reversal: the buyer's batch is empty, the supplier has a new
  batch of the product with the whole quantity, and the total is unchanged.\<close>

theorem rejection_returns_goods:
  assumes "stock_wf db" and "reject_transaction env user full_name node comment t db = Inr db'"
    and "result_batches t db = [bid]" and "st_batches db bid = Some b"
    and "st_txs db t = Some x" and "tx_kind x = External ty source node"
    and "find_duplicate (external_fields user node (reversal_data x source comment b)) (b_product b)
      (declined env t comment x db) = None"
  shows "current_of db' bid = 0 \<and> total_stock db' = total_stock db \<and>
    (\<exists>r. st_batches db' (st_next_batch db) = Some r \<and>
       row_key r = (b_product b, source, b_initial b, b_initial b, Some (st_next_tx db)))"
proof -
  let ?i = "\<lparr>it_id = bid, it_batch = b, it_qty = b_initial b\<rparr>"
  let ?d = "(reversal_data x source comment b)\<lparr>ed_batches := Some [?i]\<rparr>"
  let ?db1 = "declined env t comment x db"
  obtain t' created where c: "external_create env user full_name node ?d ?db1 = Inr (db', t', created)"
    and wf: "stock_wf ?db1" and ub: "b_initial b = b_current b" and sa: "sent_as_is node ?d ?db1"
    by (rule single_rejection [OF assms(1-6)])
  have o: "offered_items node ?d ?db1 = [?i]" by (simp add: offered_items_def)
  have ni: "ed_type ?d \<noteq> INCOMING" by simp
  obtain db2 batches y where p: "external_prepare_batches env node ?d (with_date (ed_attrs ?d)) ?db1 = Inr (db2, batches)"
    and f: "created \<or> find_duplicate (external_fields user node ?d) (ed_product ?d) db2 = Some t'"
    and ex: "\<not> created \<or> t' = st_next_tx db2 \<and>
       execute_external env user full_name node ?d t' (case batches of Some is' \<Rightarrow> is' | None \<Rightarrow> [])
         (fst (create_tx y db2)) = Inr db'"
    by (rule external_create_cases [OF ni c]) blast
  have e: "db2 = ?db1" "batches = Some [?i]" using prepare_cases [OF _ p] sa by (simp_all add: o)
  have t': "created" using f assms(7) by (auto simp: e)
  have n: "st_next_batch ?db1 = st_next_batch db" "st_next_tx ?db1 = st_next_tx db" "st_batches ?db1 = st_batches db"
    by (simp_all add: declined_def)
  have fr: "fresh_items ?db1 [?i]" using assms(4) by (simp add: fresh_items_def n)
  have buyer: "fst (get_buyer_supplier (ed_type ?d) node (ed_node ?d)) = source"
    by (simp add: get_buyer_supplier_def)
  have d: "delivered False (st_next_tx db) ?d source [?i] (fst (create_tx y ?db1)) db'"
  proof -
    have "execute_external env user full_name node ?d (st_next_tx ?db1) [?i] (fst (create_tx y ?db1)) = Inr db'"
      using ex t' unfolding e by auto
    note s = sold_through [OF wf fr _ this]
    show ?thesis using s unfolding buyer n by simp
  qed
  have "bid < st_next_batch db" using stock_wf_batch(1) [OF assms(1,4)] .
  then have "current_of db' bid = current_of (fst (create_tx y ?db1)) bid - taken [?i] bid"
    using d n by (simp add: delivered_def)
  then have "current_of db' bid = 0" using assms(4) ub n by (simp add: current_of_def)
  moreover have "total_stock db' = total_stock db"
    using d same_stock_facts(2) [OF declined_same [of db env t comment x]] by (simp add: delivered_def)
  moreover have "\<exists>r. st_batches db' (st_next_batch db) = Some r \<and>
       row_key r = (b_product b, source, b_initial b, b_initial b, Some (st_next_tx db))"
    using delivered_new [OF d, of 0] n by simp
  ultimately show ?thesis by blast
qed

theorem rejection_returns_goods_witness:
  "\<exists>db'. reject_transaction demo_both 7 (\<lambda>_. ''n'') 2 ''bad'' 1 (demo_sold [3 \<mapsto> demo_received 5000]) = Inr db' \<and>
     current_of db' 3 = 0"
proof -
  let ?db = "demo_sold [3 \<mapsto> demo_received 5000]"
  obtain db' where r: "reject_transaction demo_both 7 (\<lambda>_. ''n'') 2 ''bad'' 1 ?db = Inr db'"
    using returnedD [OF demo_rejected_one] by blast
  have "result_batches 1 ?db = [3]" by code_simp
  moreover have "st_batches ?db 3 = Some (demo_received 5000)" "st_txs ?db 1 = Some (demo_tx OUTGOING 1 2)"
    "tx_kind (demo_tx OUTGOING 1 2) = External OUTGOING 1 2"
    by (simp_all add: demo_sold_def demo_tx_def)
  moreover have "find_duplicate (external_fields 7 2 (reversal_data (demo_tx OUTGOING 1 2) 1 ''bad'' (demo_received 5000)))
      (b_product (demo_received 5000)) (declined demo_both 1 ''bad'' (demo_tx OUTGOING 1 2) ?db) = None"
    by code_simp
  ultimately have "current_of db' 3 = 0"
    using rejection_returns_goods [OF demo_sold_wf(2) r] by blast
  then show ?thesis using r by blast
qed

text \<open>the duplicate filter also catches reversals. When an earlier transaction agrees on
  parties, comment, price, currency and product (the quantity is not compared), rejecting a
  transaction declines it, and its goods stay with the buyer.\<close>

theorem second_reversal_dropped:
  assumes "stock_wf db" and "reject_transaction env user full_name node comment t db = Inr db'"
    and "result_batches t db = [bid]" and "st_batches db bid = Some b"
    and "st_txs db t = Some x" and "tx_kind x = External ty source node"
    and "find_duplicate (external_fields user node (reversal_data x source comment b)) (b_product b)
      (declined env t comment x db) = Some t0"
  shows "st_batches db' = st_batches db \<and> st_next_tx db' = st_next_tx db \<and>
    (\<exists>x'. st_txs db' t = Some x' \<and> tx_status x' = TX_DECLINED)"
proof -
  let ?d = "(reversal_data x source comment b)\<lparr>ed_batches := Some [\<lparr>it_id = bid, it_batch = b, it_qty = b_initial b\<rparr>]\<rparr>"
  let ?db1 = "declined env t comment x db"
  obtain t' created where c: "external_create env user full_name node ?d ?db1 = Inr (db', t', created)"
    and sa: "sent_as_is node ?d ?db1"
    by (rule single_rejection [OF assms(1-6)])
  have ni: "ed_type ?d \<noteq> INCOMING" by simp
  obtain db2 batches where p: "external_prepare_batches env node ?d (with_date (ed_attrs ?d)) ?db1 = Inr (db2, batches)"
    and f: "created \<or> db' = db2"
    and ex: "\<not> created \<or> ed_force_create ?d \<or>
      find_duplicate (external_fields user node ?d) (ed_product ?d) db2 = None"
    by (rule external_create_cases [OF ni c]) blast
  have "db2 = ?db1" using prepare_cases [OF _ p] sa by simp
  then have "db' = ?db1" using f ex assms(7) by simp
  then show ?thesis by (simp add: declined_def)
qed

text \<open>Transaction 2 of the example returned another batch of the product with the same comment.\<close>

theorem second_reversal_dropped_witness:
  "\<exists>db'. reject_transaction demo_both 7 (\<lambda>_. ''n'') 2 ''no'' 1
     ((demo_sold [3 \<mapsto> demo_received 5000])\<lparr>st_sources := [\<lparr>sb_tx = 2, sb_batch = 3, sb_quantity = 1\<rparr>]\<rparr>) = Inr db' \<and>
     current_of db' 3 = 5000"
proof -
  let ?db = "(demo_sold [3 \<mapsto> demo_received 5000])\<lparr>st_sources := [\<lparr>sb_tx = 2, sb_batch = 3, sb_quantity = 1\<rparr>]\<rparr>"
  have "returned (reject_transaction demo_both 7 (\<lambda>_. ''n'') 2 ''no'' 1 ?db)" by code_simp
  then obtain db' where r: "reject_transaction demo_both 7 (\<lambda>_. ''n'') 2 ''no'' 1 ?db = Inr db'"
    using returnedD by blast
  have wf: "stock_wf ?db" using demo_sold_wf(2) by (simp add: stock_wf_def)
  have "result_batches 1 ?db = [3]" by code_simp
  moreover have "st_batches ?db 3 = Some (demo_received 5000)" "st_txs ?db 1 = Some (demo_tx OUTGOING 1 2)"
    "tx_kind (demo_tx OUTGOING 1 2) = External OUTGOING 1 2"
    by (simp_all add: demo_sold_def demo_tx_def)
  moreover have "find_duplicate (external_fields 7 2 (reversal_data (demo_tx OUTGOING 1 2) 1 ''no'' (demo_received 5000)))
      (b_product (demo_received 5000)) (declined demo_both 1 ''no'' (demo_tx OUTGOING 1 2) ?db) = Some 2"
    by code_simp
  ultimately have "st_batches db' = st_batches ?db"
    using second_reversal_dropped [OF wf r] by blast
  then show ?thesis using r by (auto simp: current_of_def demo_sold_def demo_received_def demo_batch_def)
qed


section \<open>Stock requests\<close>

lemma save_batch_requests:
  "save_batch x b (db\<lparr>st_requests := q\<rparr>) = (save_batch x b db)\<lparr>st_requests := q\<rparr>"
  by (simp add: save_batch_def)

lemma set_references_requests:
  "set_references t br sr (db\<lparr>st_requests := q\<rparr>) = (set_references t br sr db)\<lparr>st_requests := q\<rparr>"
  "st_requests (set_references t br sr db) = st_requests db"
proof -
  let ?f = "\<lambda>bid d. case st_batches d bid of None \<Rightarrow> d
       | Some b \<Rightarrow> save_batch bid (b\<lparr>b_buyer_ref := br, b_seller_ref := sr\<rparr>) d"
  have "fold ?f bs (db\<lparr>st_requests := q\<rparr>) = (fold ?f bs db)\<lparr>st_requests := q\<rparr> \<and>
      st_requests (fold ?f bs db) = st_requests db" for bs
    by (induction bs arbitrary: db) (auto simp: save_batch_requests split: option.splits)
  moreover have "result_batches t (db\<lparr>st_requests := q\<rparr>) = result_batches t db"
    by (simp add: result_batches_def)
  ultimately show "set_references t br sr (db\<lparr>st_requests := q\<rparr>) = (set_references t br sr db)\<lparr>st_requests := q\<rparr>"
    "st_requests (set_references t br sr db) = st_requests db"
    by (simp_all add: set_references_def)
qed

definition completed :: "nat \<Rightarrow> nat \<Rightarrow> nat \<Rightarrow> stock_request \<Rightarrow> 'c stock_db \<Rightarrow> 'c stock_db" where
  "completed t user rid r db = db\<lparr>st_requests := (st_requests db)(rid \<mapsto>
     r\<lparr>sr_transaction := Some t, sr_updater := Some user, sr_status := TR_COMPLETED\<rparr>)\<rparr>"

lemma send_item_any_request [simp]:
  "send_item s t (d\<lparr>ed_request := x\<rparr>) buyer name = send_item s t d buyer name"
  by (intro ext) (simp add: send_item_def Let_def)

lemma source_destination_any_request [simp]:
  "create_source_destination_batches s t (d\<lparr>ed_request := x\<rparr>) buyer name items db =
     create_source_destination_batches s t d buyer name items db"
  by (simp add: create_source_destination_batches_def)

lemma execute_external_request:
  assumes "execute_external env user full_name current (d\<lparr>ed_request := None\<rparr>) t items db = Inr db'"
  shows "execute_external env user full_name current (d\<lparr>ed_request := Some (rid, r)\<rparr>) t items db =
    Inr (completed t user rid r db')"
proof -
  obtain buyer supplier where bs: "get_buyer_supplier (ed_type d) current (ed_node d) = (buyer, supplier)"
    by fastforce
  obtain db1 where "create_source_destination_batches (ed_send_seperately d) t d buyer
      (''Purchased from '' @ full_name supplier) items db = Inr db1"
    "db' = set_references t (case ed_buyer_ref d of Some a \<Rightarrow> a | None \<Rightarrow> ANone)
               (case ed_seller_ref d of Some a \<Rightarrow> a | None \<Rightarrow> ANone) (set_owner (ed_product d) buyer db1)"
    using assms bs
    by (auto simp: execute_external_def rbind_eq_Inr attrs_request_def complete_stock_request_def)
  then show ?thesis
    using bs
    by (simp add: execute_external_def attrs_request_def complete_stock_request_def completed_def
        set_references_requests)
qed

lemma prepare_any_request [simp]:
  "external_prepare_batches env current (d\<lparr>ed_request := x\<rparr>) attrs db = external_prepare_batches env current d attrs db"
  "external_fields user current (d\<lparr>ed_request := x\<rparr>) = external_fields user current d"
  "prepare_incoming_batches source (d\<lparr>ed_request := x\<rparr>) name db = prepare_incoming_batches source d name db"
  by (simp_all add: external_prepare_batches_def create_internal_transaction_def external_fields_def
      prepare_incoming_batches_def Let_def cong: if_cong list.case_cong)

lemma external_create_request:
  assumes "external_create env user full_name current (d\<lparr>ed_request := None\<rparr>) db = Inr (db', t, True)"
  shows "external_create env user full_name current (d\<lparr>ed_request := Some (rid, r)\<rparr>) db =
    Inr (completed t user rid r db', t, True)"
proof -
  let ?f = "external_fields user current d"
  let ?made = "\<lambda>db1. if ed_force_create d
      then (case create_external_tx (se_now env) ?f db1 of (db2, t) \<Rightarrow> (db2, t, True))
      else filter_for_duplicate_txn (se_now env) ?f (ed_product d) db1"
  let ?items = "\<lambda>batches db2. if (case batches of Some is' \<Rightarrow> is' | None \<Rightarrow> []) = [] \<and> ed_type d = INCOMING
      then prepare_incoming_batches (ef_source ?f) d
             (''Created for transferring to '' @ full_name (ef_destination ?f)) db2
      else (db2, (case batches of Some is' \<Rightarrow> is' | None \<Rightarrow> []))"
  have u: "external_create env user full_name current (d\<lparr>ed_request := x\<rparr>) db =
     rbind (of_option DoesNotExist (st_products db (ed_product d))) (\<lambda>p.
     rbind (ensure (ed_node d \<in> set (se_connections env (st_rest db) (pr_supply_chain p) current))
              (BadRequest ''Only connected companies can create transaction.'')) (\<lambda>_.
     rbind (external_prepare_batches env current d (with_date (ed_attrs d)) db) (\<lambda>(db1, batches).
       case ?made db1 of (db2, t, created) \<Rightarrow> if \<not> created then Inr (db2, t, False)
         else (case ?items batches db2 of (db3, items) \<Rightarrow>
           rbind (execute_external env user full_name current (d\<lparr>ed_request := x\<rparr>) t items db3) (\<lambda>db4.
             Inr (db4, t, True))))))" for x
    by (simp add: external_create_def Let_def cong: if_cong)
  obtain p where p: "st_products db (ed_product d) = Some p"
    and n: "ed_node d \<in> set (se_connections env (st_rest db) (pr_supply_chain p) current)"
    using assms unfolding u by (auto simp: rbind_eq_Inr)
  obtain db1 batches where pr: "external_prepare_batches env current d (with_date (ed_attrs d)) db = Inr (db1, batches)"
    using assms p n unfolding u by (auto simp: rbind_eq_Inr)
  obtain db2 t2 cr where m: "?made db1 = (db2, t2, cr)" by (rule prod_cases3)
  obtain db3 items where i: "?items batches db2 = (db3, items)" by (rule prod.exhaust)
  have "cr \<and> t2 = t \<and> execute_external env user full_name current (d\<lparr>ed_request := None\<rparr>) t items db3 = Inr db'"
    using assms unfolding u
    by (cases cr) (auto simp: n m i pr rbind_eq_Inr)
  then show ?thesis
    unfolding u by (simp add: p n pr m i execute_external_request)
qed

text \<open>a stock request attached to a transaction is never compared with it. The serializer
  looks for the request under the name of its field, and the validated data has it under its
  source, \<open>stockrequest\<close>: whatever the request says of buyer, supplier, product, quantity and
  price, a transaction that is accepted without it is accepted with it and completes it.\<close>

theorem stock_request_unchecked:
  assumes "external_request env user full_name current raws (d\<lparr>ed_request := None\<rparr>) db = Inr (db', t, True)"
  shows "\<exists>db2. external_request env user full_name current raws (d\<lparr>ed_request := Some (rid, r)\<rparr>) db = Inr (db2, t, True) \<and>
    st_requests db2 rid = Some (r\<lparr>sr_transaction := Some t, sr_updater := Some user, sr_status := TR_COMPLETED\<rparr>) \<and>
    st_batches db2 = st_batches db'"
proof -
  obtain items where v: "validate_optional db raws = Inr items"
    and n: "validate_node (ed_type d) current (ed_node d) (ed_product d) db = Inr ()" "10 \<le> ed_quantity d"
      "external_validate current (d\<lparr>ed_request := None, ed_batches := items\<rparr>) = Inr ()"
    and c0: "external_create env user full_name current (d\<lparr>ed_request := None, ed_batches := items\<rparr>) db = Inr (db', t, True)"
    using assms by (auto simp: external_request_def rbind_eq_Inr)
  have swap: "d\<lparr>ed_request := y, ed_batches := items\<rparr> = d\<lparr>ed_batches := items\<rparr>\<lparr>ed_request := y\<rparr>" for y
    by simp
  note c = external_create_request [OF c0 [unfolded swap]]
  have "external_validate current (d\<lparr>ed_request := Some (rid, r), ed_batches := items\<rparr>) = Inr ()"
    using n(3) by (simp add: external_validate_def attrs_request_def)
  then have "external_request env user full_name current raws (d\<lparr>ed_request := Some (rid, r)\<rparr>) db =
      Inr (completed t user rid r db', t, True)"
    using c [folded swap] v n(1,2) by (simp add: external_request_def)
  then show ?thesis by (simp add: completed_def)
qed

text \<open>A request of another buyer, for another product, at another price.\<close>

theorem stock_request_unchecked_witness:
  "\<exists>db2 t. external_request demo_env 7 (\<lambda>_. ''n'') 1 (Some [(1, 2000), (2, 3000)])
     ((demo_sale True 5000)\<lparr>ed_request := Some (4, \<lparr>sr_buyer = 8, sr_supplier = 9, sr_product = 6, sr_quantity = 1,
        sr_unit = 2, sr_currency = ''EUR'', sr_price = Some 3, sr_status = TR_PENDING, sr_transaction = None,
        sr_updater = None\<rparr>)\<rparr>) demo_stock = Inr (db2, t, True) \<and>
     map_option sr_status (st_requests db2 4) = Some TR_COMPLETED"
proof -
  have "(demo_sale True 5000)\<lparr>ed_request := None\<rparr> = demo_sale True 5000" by (simp add: demo_sale_def)
  then obtain db' t where r: "external_request demo_env 7 (\<lambda>_. ''n'') 1 (Some [(1, 2000), (2, 3000)])
     ((demo_sale True 5000)\<lparr>ed_request := None\<rparr>) demo_stock = Inr (db', t, True)"
    using acceptedD [OF demo_sale_ok] by auto
  show ?thesis using stock_request_unchecked [OF r] by fastforce
qed

end
