(* ===== verification/Trade_Runs.thy ===== *)
theory Trade_Runs
  imports Stock_Exchange
begin

text \<open>
  What every accepted request on the stock ledger keeps, also one that names a batch twice:
  the order of the transactions, what a batch and a transaction are, and the log of sources.
  The locale \<open>stock_services\<close> is the ledger's contract with the components it calls: what
  they keep of their tables, every request on the ledger keeps.
\<close>

section \<open>What never changes\<close>

definition batch_key :: "batch \<Rightarrow> nat \<times> nat \<times> int \<times> int \<times> nat option" where
  "batch_key b = (b_product b, b_node b, b_initial b, b_unit b, b_source_tx b)"

definition key_of :: "'c stock_db \<Rightarrow> nat \<Rightarrow> (nat \<times> nat \<times> int \<times> int \<times> nat option) option" where
  "key_of db x = map_option batch_key (st_batches db x)"

definition kind_of :: "'c stock_db \<Rightarrow> nat \<Rightarrow> tx_kind option" where
  "kind_of db t = map_option tx_kind (st_txs db t)"

definition ledger_wf :: "'c stock_db \<Rightarrow> bool" where
  "ledger_wf db \<longleftrightarrow> stock_wf db \<and> (\<forall>t. kind_of db t \<noteq> None \<longrightarrow> t < st_next_tx db)"

definition kept :: "'c stock_db \<Rightarrow> 'c stock_db \<Rightarrow> bool" where
  "kept db db' \<longleftrightarrow> ledger_wf db' \<and> grows db db' \<and> key_of db \<subseteq>\<^sub>m key_of db' \<and> kind_of db \<subseteq>\<^sub>m kind_of db' \<and>
     (\<exists>entries. st_sources db' = st_sources db @ entries)"

lemma kept_refl: "ledger_wf db \<Longrightarrow> kept db db"
  by (simp add: kept_def)

lemma kept_trans [trans]: "kept a b \<Longrightarrow> kept b c \<Longrightarrow> kept a c"
  unfolding kept_def by (auto intro: grows_trans map_le_trans)

lemma kept_wf: "kept a b \<Longrightarrow> ledger_wf b"
  by (simp add: kept_def)

lemma stock_wf_keys: "stock_wf db \<longleftrightarrow>
    (\<forall>x p n i u s. key_of db x = Some (p, n, i, u, s) \<longrightarrow> x < st_next_batch db \<and> (\<forall>t. s = Some t \<longrightarrow> t < st_next_tx db)) \<and>
    ranked (st_parents db) \<and> (\<forall>n. st_next_tx db \<le> n \<longrightarrow> st_parents db n = [])"
  unfolding stock_wf_def by (auto simp: key_of_def batch_key_def) metis+

text \<open>Writes of other fields.\<close>

definition quiet :: "'c stock_db \<Rightarrow> 'c stock_db \<Rightarrow> bool" where
  "quiet db db' \<longleftrightarrow> key_of db' = key_of db \<and> kind_of db' = kind_of db \<and> st_next_batch db' = st_next_batch db \<and>
     st_next_tx db' = st_next_tx db \<and> st_parents db' = st_parents db \<and> st_sources db' = st_sources db \<and>
     st_node_type db' = st_node_type db \<and> st_products db' = st_products db"

lemma quiet_refl [simp]: "quiet db db"
  by (simp add: quiet_def)

lemma quiet_trans: "quiet a b \<Longrightarrow> quiet b c \<Longrightarrow> quiet a c"
  by (simp add: quiet_def)

lemma quiet_kept:
  assumes "ledger_wf db" "quiet db db'"
  shows "kept db db'"
  using assms by (simp add: kept_def ledger_wf_def stock_wf_keys quiet_def grows_def)

lemma quiet_fold: "(\<And>x d. quiet d (f x d)) \<Longrightarrow> quiet db (fold f xs db)"
  by (induction xs arbitrary: db) (auto intro: quiet_trans)

lemma quiet_updates [simp]:
  "quiet db (db\<lparr>st_rest := c\<rparr>)" "quiet db (db\<lparr>st_followups := fs\<rparr>)" "quiet db (db\<lparr>st_owners := os\<rparr>)"
  "quiet db (db\<lparr>st_requests := rs\<rparr>)" "quiet db (db\<lparr>st_farmers := fm\<rparr>)"
  by (simp_all add: quiet_def key_of_def [abs_def] kind_of_def [abs_def])

lemma quiet_save: "key_of db x = Some (batch_key b) \<Longrightarrow> quiet db (save_batch x b db)"
  by (auto simp: quiet_def key_of_def [abs_def] kind_of_def [abs_def] fun_eq_iff)

lemma quiet_txs: "kind_of db t = Some (tx_kind x) \<Longrightarrow> quiet db (db\<lparr>st_txs := (st_txs db)(t \<mapsto> x)\<rparr>)"
  by (auto simp: quiet_def key_of_def [abs_def] kind_of_def [abs_def] fun_eq_iff)

text \<open>The snapshot of an item is of its batch.\<close>

definition ready :: "'c stock_db \<Rightarrow> item \<Rightarrow> bool" where
  "ready db i \<longleftrightarrow> key_of db (it_id i) = Some (batch_key (it_batch i))"

lemma ready_kept: "ready db i \<Longrightarrow> kept db db' \<Longrightarrow> ready db' i"
  unfolding ready_def kept_def map_le_def by (metis domI)

lemma ready_source:
  assumes "ready db i" "ledger_wf db" "b_source_tx (it_batch i) = Some u"
  shows "u < st_next_tx db"
  using assms unfolding ready_def ledger_wf_def stock_wf_keys by (auto simp: batch_key_def)

lemma fresh_ready: "fresh_items db items \<Longrightarrow> i \<in> set items \<Longrightarrow> ready db i"
  by (simp add: fresh_items_def ready_def key_of_def)

section \<open>Elementary writes\<close>

lemma create_tx_kept:
  assumes "ledger_wf db"
  shows "kept db (fst (create_tx x db))"
proof -
  have new: "kind_of db (st_next_tx db) = None"
    using assms unfolding ledger_wf_def by (metis less_irrefl)
  have kinds: "kind_of (fst (create_tx x db)) = (kind_of db)(st_next_tx db \<mapsto> tx_kind x)"
    by (auto simp: kind_of_def fun_eq_iff)
  have keys: "key_of (fst (create_tx x db)) = key_of db" by (simp add: key_of_def fun_eq_iff)
  have wf: "stock_wf (fst (create_tx x db))" and g: "grows db (fst (create_tx x db))"
    using create_tx_wf assms unfolding ledger_wf_def by blast+
  have "kind_of db \<subseteq>\<^sub>m kind_of (fst (create_tx x db))"
    unfolding kinds using new by (auto simp: map_le_def)
  moreover have "ledger_wf (fst (create_tx x db))"
    using assms wf unfolding ledger_wf_def kinds by (auto simp: less_Suc_eq split: if_splits)
  ultimately show ?thesis using g by (simp add: kept_def keys)
qed

lemma creates_kept:
  assumes wf: "ledger_wf db" and c: "creates db db' bid b" and tx: "st_txs db' = st_txs db"
    and src: "\<And>t. b_source_tx b = Some t \<Longrightarrow> t < st_next_tx db"
  shows "kept db db'"
proof -
  have new: "key_of db bid = None"
    using c wf stock_wf_new [of db] by (simp add: creates_def ledger_wf_def key_of_def)
  have "key_of db \<subseteq>\<^sub>m key_of db'"
  proof (unfold map_le_def, rule ballI)
    fix x assume "x \<in> dom (key_of db)"
    then have "x \<noteq> bid" using new by auto
    then show "key_of db x = key_of db' x" using c by (simp add: creates_def key_of_def)
  qed
  moreover have "kind_of db' = kind_of db" by (simp add: kind_of_def fun_eq_iff tx)
  moreover have "ledger_wf db'"
    using creates_facts(4) [OF c _ src] wf c calculation(2) unfolding ledger_wf_def by (simp add: creates_def)
  ultimately show ?thesis using creates_facts(3) [OF c] c by (simp add: kept_def creates_def)
qed

lemma link_kept:
  assumes wf: "ledger_wf db" and l: "link_source (cls, n) b db = Inr db'" and n: "n < st_next_tx db"
    and src: "\<And>u. b_source_tx b = Some u \<Longrightarrow> u < n"
  shows "kept db db' \<and> st_rest db' = st_rest db \<and> st_next_tx db' = st_next_tx db"
proof -
  obtain par where p: "db' = db\<lparr>st_parents := par\<rparr>" "ranked par" "\<forall>m. m \<noteq> n \<longrightarrow> par m = st_parents db m"
    using link_source_ok [of db n b cls] wf n src l unfolding ledger_wf_def by auto
  have "stock_wf db'" unfolding p(1) using stock_wf_parents [OF _ p(2,3) n] wf by (simp add: ledger_wf_def)
  moreover have "key_of db' = key_of db" "kind_of db' = kind_of db"
    by (simp_all add: p(1) key_of_def kind_of_def fun_eq_iff)
  ultimately show ?thesis using wf by (simp add: kept_def ledger_wf_def p(1) grows_def)
qed

lemma log_kept: "ledger_wf db \<Longrightarrow> kept db (create_source_batch t bid q db)"
  by (simp add: kept_def ledger_wf_def stock_wf_keys create_source_batch_def grows_def key_of_def [abs_def] kind_of_def [abs_def])

text \<open>One round of an internal transaction.\<close>

lemma take_source_kept:
  assumes wf: "ledger_wf db" and t: "take_source (cls, n) i db = Inr db'" and n: "n < st_next_tx db"
    and i: "ready db i" and src: "\<And>u. b_source_tx (it_batch i) = Some u \<Longrightarrow> u < n"
  shows "kept db db' \<and> st_rest db' = st_rest db \<and> st_next_tx db' = st_next_tx db"
proof -
  let ?b = "(it_batch i)\<lparr>b_current := b_current (it_batch i) - it_qty i\<rparr>"
  let ?d = "create_source_batch n (it_id i) (it_qty i) (save_batch (it_id i) ?b db)"
  have l: "link_source (cls, n) ?b ?d = Inr db'"
    using t by (auto simp: take_source_def Let_def split: if_splits)
  have "quiet db (save_batch (it_id i) ?b db)"
    by (rule quiet_save) (use i in \<open>simp add: ready_def batch_key_def\<close>)
  then have "kept db (save_batch (it_id i) ?b db)" by (rule quiet_kept [OF wf])
  then have d: "kept db ?d" using log_kept kept_wf kept_trans by blast
  have "kept ?d db' \<and> st_rest db' = st_rest ?d \<and> st_next_tx db' = st_next_tx ?d"
    by (rule link_kept [OF kept_wf [OF d] l]) (use n src in \<open>simp_all add: create_source_batch_def\<close>)
  then show ?thesis using d kept_trans by (simp add: create_source_batch_def) blast
qed

lemma take_sources_kept:
  assumes "ledger_wf db" "rfold (take_source (cls, n)) items db = Inr db'" "n < st_next_tx db"
    "\<And>i. i \<in> set items \<Longrightarrow> ready db i \<and> (\<forall>u. b_source_tx (it_batch i) = Some u \<longrightarrow> u < n)"
  shows "kept db db' \<and> st_rest db' = st_rest db \<and> st_next_tx db' = st_next_tx db"
  using assms
proof (induction items arbitrary: db)
  case Nil
  then show ?case by (simp add: kept_refl)
next
  case (Cons i items)
  obtain d where d: "take_source (cls, n) i db = Inr d" "rfold (take_source (cls, n)) items d = Inr db'"
    using Cons.prems(2) by (auto simp: rbind_eq_Inr)
  have k: "kept db d \<and> st_rest d = st_rest db \<and> st_next_tx d = st_next_tx db"
    by (rule take_source_kept [OF Cons.prems(1) d(1) Cons.prems(3)]) (use Cons.prems(4) in auto)
  have "kept d db' \<and> st_rest db' = st_rest d \<and> st_next_tx db' = st_next_tx d"
    by (rule Cons.IH [OF _ d(2)]) (use k Cons.prems(3,4) in \<open>auto intro: kept_wf ready_kept\<close>)
  then show ?case using k kept_trans by auto
qed

text \<open>One round of an external transaction.\<close>

lemma update_farmers_rest: "st_rest (update_batch_farmers bid db) = st_rest db"
proof -
  have "st_rest (fold f xs d) = st_rest d" if "\<And>x e. st_rest (f x e) = st_rest e" for f and xs :: "nat list" and d :: "'a stock_db"
    using that by (induction xs arbitrary: d) simp_all
  then show ?thesis
    by (auto simp: update_batch_farmers_def copy_farmers_def add_farmer_def split: option.split)
qed

lemma add_batch_parent_rest [simp]: "st_rest (add_batch_parent bid p db) = st_rest db"
  by (simp add: add_batch_parent_def split: option.splits)

lemma send_item_kept:
  assumes wf: "ledger_wf db" and s: "send_item sep t d buyer name i db = Inr db'" and n: "t < st_next_tx db"
    and src: "\<And>u. b_source_tx (it_batch i) = Some u \<Longrightarrow> u < t"
  shows "kept db db' \<and> st_rest db' = st_rest db \<and> st_next_tx db' = st_next_tx db"
proof -
  let ?d = "create_source_batch t (it_id i) (it_qty i) db"
  let ?b = "sent_batch sep t d buyer name i"
  have "send_item sep t d buyer name i db = rbind (link_source (ExternalTransactionCls, t) (it_batch i) ?d) (\<lambda>d2.
      case create_batch ?b d2 of (d3, bid) \<Rightarrow> Inr (update_batch_farmers bid (add_batch_parent bid (it_id i) d3)))"
    by (simp add: send_item_def Let_def sent_batch_def)
  from trans [OF this [symmetric] s] obtain d2 where l: "link_source (ExternalTransactionCls, t) (it_batch i) ?d = Inr d2"
    and r: "(case create_batch ?b d2 of (d3, bid) \<Rightarrow>
        Inr (update_batch_farmers bid (add_batch_parent bid (it_id i) d3))) = (Inr db' :: 'a stock_db result)"
    unfolding rbind_eq_Inr by blast
  obtain d3 bid where c: "create_batch ?b d2 = (d3, bid)" by fastforce
  have s2: "db' = update_batch_farmers bid (add_batch_parent bid (it_id i) d3)" using r c by simp
  have k1: "kept db ?d" using wf by (rule log_kept)
  have k2: "kept ?d d2 \<and> st_rest d2 = st_rest ?d \<and> st_next_tx d2 = st_next_tx ?d"
    by (rule link_kept [OF kept_wf [OF k1] l]) (use n src in \<open>simp_all add: create_source_batch_def\<close>)
  have "creates d2 db' bid ?b"
    unfolding s2
    by (rule creates_same_stock [OF creates_touches [OF create_batch_creates [OF c] touches_add_parent]
          same_stock_update_farmers]) simp
  moreover have "st_txs db' = st_txs d2" using create_batch_sel [OF c] by (simp add: s2)
  ultimately have "kept d2 db'"
    by (rule creates_kept [OF kept_wf [OF conjunct1 [OF k2]]]) (use k2 n in \<open>simp_all add: create_source_batch_def\<close>)
  moreover have "st_rest db' = st_rest d2" using create_batch_sel [OF c] by (simp add: s2 update_farmers_rest)
  moreover have "st_next_tx db' = st_next_tx d2" using \<open>creates d2 db' bid ?b\<close> by (simp add: creates_def)
  ultimately show ?thesis using k1 k2 kept_trans by (simp add: create_source_batch_def) blast
qed

lemma send_items_kept:
  assumes "ledger_wf db" "rfold (send_item sep t d buyer name) items db = Inr db'" "t < st_next_tx db"
    "\<And>i. i \<in> set items \<Longrightarrow> (\<forall>u. b_source_tx (it_batch i) = Some u \<longrightarrow> u < t)"
  shows "kept db db' \<and> st_rest db' = st_rest db \<and> st_next_tx db' = st_next_tx db"
  using assms
proof (induction items arbitrary: db)
  case Nil
  then show ?case by (simp add: kept_refl)
next
  case (Cons i items)
  obtain e where e: "send_item sep t d buyer name i db = Inr e" "rfold (send_item sep t d buyer name) items e = Inr db'"
    using Cons.prems(2) by (auto simp: rbind_eq_Inr)
  have k: "kept db e \<and> st_rest e = st_rest db \<and> st_next_tx e = st_next_tx db"
    by (rule send_item_kept [OF Cons.prems(1) e(1) Cons.prems(3)]) (use Cons.prems(4) in auto)
  have "kept e db' \<and> st_rest db' = st_rest e \<and> st_next_tx db' = st_next_tx e"
    by (rule Cons.IH [OF _ e(2)]) (use k Cons.prems(3,4) in \<open>auto intro: kept_wf\<close>)
  then show ?case using k kept_trans by auto
qed

lemma quiet_bulk: "quiet db (bulk_update_current items db)"
  unfolding bulk_update_current_def set_current_def
  by (rule quiet_fold) (auto split: option.split intro!: quiet_save simp: key_of_def batch_key_def)

lemma quiet_follow_ups:
  "quiet db (set_owner product node db)" "quiet db (complete_stock_request t user req db)"
  "quiet db (set_references t br sr db)"
proof -
  show "quiet db (set_references t br sr db)" unfolding set_references_def
    by (rule quiet_fold) (auto split: option.split intro!: quiet_save simp: key_of_def batch_key_def)
qed (auto simp: set_owner_def complete_stock_request_def split: option.split)


text \<open>The steps of creating an external transaction.\<close>

lemma external_create_split:
  assumes "external_create env user full_name current d db = Inr (db', t, created)"
  obtains db1 batches x where
    "external_prepare_batches env current d (with_date (ed_attrs d)) db = Inr (db1, batches)"
    "\<not> created \<Longrightarrow> db' = db1"
    "created \<Longrightarrow> t = st_next_tx db1 \<and> (\<exists>items db2.
       execute_external env user full_name current d t items db2 = Inr db' \<and>
       (items = (case batches of Some is' \<Rightarrow> is' | None \<Rightarrow> []) \<and> db2 = fst (create_tx x db1) \<or>
        (\<exists>source name. prepare_incoming_batches source d name (fst (create_tx x db1)) = (db2, items))))"
proof -
  let ?f = "external_fields user current d"
  obtain db1 batches where p: "external_prepare_batches env current d (with_date (ed_attrs d)) db = Inr (db1, batches)"
    and rest: "(let (db2, t, created) =
               (if ed_force_create d
                then (case create_external_tx (se_now env) ?f db1 of (db2, t) \<Rightarrow> (db2, t, True))
                else filter_for_duplicate_txn (se_now env) ?f (ed_product d) db1)
         in if \<not> created then Inr (db2, t, False)
            else
              (let given = (case batches of Some is' \<Rightarrow> is' | None \<Rightarrow> []);
                   (db3, items) =
                     (if given = [] \<and> ed_type d = INCOMING
                      then prepare_incoming_batches (ef_source ?f) d
                             (''Created for transferring to '' @ full_name (ef_destination ?f)) db2
                      else (db2, given))
               in rbind (execute_external env user full_name current d t items db3) (\<lambda>db4.
                    Inr (db4, t, True)))) = Inr (db', t, created)"
    using assms by (auto simp: external_create_def Let_def rbind_eq_Inr)
  define x where "x = \<lparr>tx_kind = External (ef_type ?f) (ef_source ?f) (ef_destination ?f), tx_status = TX_CREATED,
                tx_comment = (case ef_comment ?f of Some c \<Rightarrow> c | None \<Rightarrow> []),
                tx_attrs = stored_attrs (se_now env) (ef_attrs ?f)\<rparr>"
  have cx: "create_external_tx (se_now env) ?f db1 = (fst (create_tx x db1), st_next_tx db1)"
    by (simp add: create_external_tx_def x_def create_tx_def Let_def)
  define given where "given = (case batches of Some is' \<Rightarrow> is' | None \<Rightarrow> [])"
  define pre where "pre = (if given = [] \<and> ed_type d = INCOMING
      then prepare_incoming_batches (ef_source ?f) d (''Created for transferring to '' @ full_name (ef_destination ?f))
        (fst (create_tx x db1)) else (fst (create_tx x db1), given))"
  show thesis
  proof (cases "ed_force_create d \<or> find_duplicate ?f (ed_product d) db1 = None")
    case True
    then have "(if ed_force_create d
                then (case create_external_tx (se_now env) ?f db1 of (db2, t) \<Rightarrow> (db2, t, True))
                else filter_for_duplicate_txn (se_now env) ?f (ed_product d) db1) =
        (fst (create_tx x db1), st_next_tx db1, True)"
      by (auto simp: filter_for_duplicate_txn_def cx)
    then have "(case pre of (db3, items) \<Rightarrow>
        rbind (execute_external env user full_name current d (st_next_tx db1) items db3) (\<lambda>db4.
          Inr (db4, st_next_tx db1, True))) = Inr (db', t, created)"
      using rest unfolding given_def [symmetric] pre_def by (simp only: Let_def prod.case) simp
    then obtain items db2 where "pre = (db2, items)" "created" "t = st_next_tx db1"
      "execute_external env user full_name current d t items db2 = Inr db'"
      by (cases pre) (auto simp: rbind_eq_Inr)
    then show thesis using that [OF p, of x] unfolding pre_def given_def [symmetric]
      by (cases "given = [] \<and> ed_type d = INCOMING") auto
  next
    case False
    then obtain t0 where "find_duplicate ?f (ed_product d) db1 = Some t0" by auto
    then have "db' = db1" "\<not> created" using rest False by (auto simp: filter_for_duplicate_txn_def)
    then show thesis using that [OF p, of x] by blast
  qed
qed

section \<open>The contract with the other components\<close>

text \<open>
  \<open>good\<close> is what the components called keep of their own tables: wallets when a node's
  account is set up, claims when a batch inherits them, notifications when they are removed.
\<close>

definition trade_ok :: "('c \<Rightarrow> bool) \<Rightarrow> 'c stock_db \<Rightarrow> bool" where
  "trade_ok good db \<longleftrightarrow> ledger_wf db \<and> good (st_rest db)"

definition trades :: "('c \<Rightarrow> bool) \<Rightarrow> 'c stock_db \<Rightarrow> 'c stock_db \<Rightarrow> bool" where
  "trades good db db' \<longleftrightarrow> kept db db' \<and> good (st_rest db')"

lemma trades_refl: "trade_ok good db \<Longrightarrow> trades good db db"
  by (simp add: trade_ok_def trades_def kept_refl)

lemma trades_trans [trans]: "trades good a b \<Longrightarrow> trades good b c \<Longrightarrow> trades good a c"
  unfolding trades_def by (blast intro: kept_trans)

lemma trades_ok: "trades good a b \<Longrightarrow> trade_ok good b"
  by (simp add: trade_ok_def trades_def kept_def)

lemma trades_ready: "ready a i \<Longrightarrow> trades good a b \<Longrightarrow> ready b i"
  unfolding trades_def by (blast intro: ready_kept)

lemma quiet_trades: "trade_ok good db \<Longrightarrow> quiet db db' \<Longrightarrow> good (st_rest db') \<Longrightarrow> trades good db db'"
  by (simp add: trade_ok_def trades_def quiet_kept)

lemma create_tx_trades: "trade_ok good db \<Longrightarrow> trades good db (fst (create_tx x db))"
  by (simp add: trade_ok_def trades_def create_tx_kept)

locale stock_services =
  fixes env :: "'c stock_env" and good :: "'c \<Rightarrow> bool"
  assumes setup_good: "good c \<Longrightarrow> se_setup env node c = Inr (c', w) \<Longrightarrow> good c'"
    and inherit_good: "good (st_rest db) \<Longrightarrow> se_inherit env bid db = Inr c \<Longrightarrow> good c"
    and notices_good: "good (st_rest db) \<Longrightarrow> good (se_remove_notifications env t db)"
begin

lemma setup_trades:
  "trade_ok good db \<Longrightarrow> se_setup env node (st_rest db) = Inr (c, w) \<Longrightarrow> trades good db (db\<lparr>st_rest := c\<rparr>)"
  by (rule quiet_trades) (auto simp: trade_ok_def intro: setup_good)

lemma make_dest_trades:
  assumes ok: "trade_ok good db" and m: "make_dest env t node ty mode btype comment ps d db = Inr db'"
    and t: "t < st_next_tx db"
  shows "trades good db db' \<and> st_next_tx db' = st_next_tx db"
proof -
  obtain db1 bid where c: "create_batch (dest_batch t node ty btype comment d) db = (db1, bid)" by fastforce
  define db2 where "db2 = add_parents_and_farmers bid ps db1"
  have r2: "st_rest db2 = st_rest db \<and> st_txs db2 = st_txs db"
  proof -
    have "st_rest (fold (\<lambda>p d. update_batch_farmers bid (add_batch_parent bid p d)) ps e) = st_rest e \<and>
       st_txs (fold (\<lambda>p d. update_batch_farmers bid (add_batch_parent bid p d)) ps e) = st_txs e" for e :: "'c stock_db"
      by (induction ps arbitrary: e) (simp_all add: update_farmers_rest)
    then show ?thesis using create_batch_sel [OF c] by (simp add: db2_def add_parents_and_farmers_def)
  qed
  have "(if mode = MODE_SYSTEM then rbind (se_inherit env bid db2) (\<lambda>c. Inr (db2\<lparr>st_rest := c\<rparr>)) else Inr db2) = Inr db'"
    using m c by (simp add: make_dest_def dest_batch_def Let_def db2_def cong: if_cong)
  then have r: "good (st_rest db') \<and> st_txs db' = st_txs db"
    using r2 ok inherit_good [of db2 bid] by (auto simp: trade_ok_def rbind_eq_Inr split: if_splits)
  note cr = make_dest_creates [OF m]
  have "kept db db'"
    by (rule creates_kept [OF _ cr]) (use ok r t in \<open>simp_all add: trade_ok_def\<close>)
  then show ?thesis using r cr by (simp add: trades_def creates_def)
qed

lemma make_dests_trades:
  assumes "trade_ok good db" "rfold (make_dest env t node ty mode btype comment ps) ds db = Inr db'" "t < st_next_tx db"
  shows "trades good db db'"
proof -
  have "trades good db db' \<and> t < st_next_tx db'"
  proof (rule rfold_invariant [OF assms(2)])
    fix d e e' assume e: "trades good db e \<and> t < st_next_tx e" and m: "make_dest env t node ty mode btype comment ps d e = Inr e'"
    have "trades good e e' \<and> st_next_tx e' = st_next_tx e"
      by (rule make_dest_trades [OF _ m]) (use e in \<open>auto intro: trades_ok\<close>)
    then show "trades good db e' \<and> t < st_next_tx e'" using e by (auto intro: trades_trans)
  qed (simp add: trades_refl assms)
  then show ?thesis ..
qed

lemma execute_internal_trades:
  assumes ok: "trade_ok good db" and items: "\<forall>i\<in>set items. ready db i"
    and ex: "execute_internal env node wallet d ty items db = Inr (db', t)"
  shows "trades good db db'"
proof -
  obtain x mode btype comment db2 db3 where
    ts: "rfold (take_source (InternalTransactionCls, st_next_tx db)) items (fst (create_tx x db)) = Inr db2"
    and md: "rfold (make_dest env (st_next_tx db) node ty mode btype comment (map it_id items)) (produced d ty) db2 = Inr db3"
    and e: "db' = db3\<lparr>st_followups := st_followups db3 @ [st_next_tx db]\<rparr>" "t = st_next_tx db"
    by (rule execute_internal_split [OF ex])
  note t1 = create_tx_trades [OF ok, of x]
  have k: "kept (fst (create_tx x db)) db2 \<and> st_rest db2 = st_rest (fst (create_tx x db)) \<and>
      st_next_tx db2 = st_next_tx (fst (create_tx x db))"
    by (rule take_sources_kept [OF _ ts]) (use t1 items ok in \<open>auto simp: trades_def trade_ok_def kept_def
        intro: ready_kept ready_source\<close>)
  have t2: "trades good (fst (create_tx x db)) db2" using k ok by (simp add: trades_def trade_ok_def)
  have t3: "trades good db2 db3" by (rule make_dests_trades [OF trades_ok [OF t2] md]) (use k in simp)
  have "trades good db3 db'" unfolding e
    by (rule quiet_trades [OF trades_ok [OF t3]]) (use t3 in \<open>simp_all add: trades_def\<close>)
  then show ?thesis using t1 t2 t3 by (blast intro: trades_trans)
qed

lemma validated_ready: "validate_items db raws = Inr items \<Longrightarrow> \<forall>i\<in>set items. ready db i"
  using validate_items_ok fresh_ready by blast

lemma system_conversion_trades:
  assumes ok: "trade_ok good db" and s: "system_conversion env node comment attrs btype raws dest db = Inr (db', t)"
  shows "trades good db db'"
proof -
  obtain items c w d where v: "validate_items db raws = Inr items" and u: "se_setup env node (st_rest db) = Inr (c, w)"
    and ex: "execute_internal env node w d PROCESSING items (db\<lparr>st_rest := c\<rparr>) = Inr (db', t)"
    using s by (auto simp: system_conversion_def rbind_eq_Inr)
  note t1 = setup_trades [OF ok u]
  have "trades good (db\<lparr>st_rest := c\<rparr>) db'"
    by (rule execute_internal_trades [OF trades_ok [OF t1] _ ex])
      (use validated_ready [OF v] trades_ready [OF _ t1] in blast)
  then show ?thesis using t1 by (blast intro: trades_trans)
qed

text \<open>A merge and the conversions it starts with.\<close>

lemma first_result_ready: "first_result_item t db = Inr r \<Longrightarrow> ready db r"
  by (auto simp: first_result_item_def rbind_eq_Inr get_batch_def ready_def key_of_def split: list.splits)

lemma merge_item_trades:
  assumes ok: "trade_ok good db" and i: "ready db i" and acc: "\<forall>j\<in>set converted. ready db j"
    and m: "merge_item env node d dest i (db, converted) = Inr (db', converted')"
  shows "trades good db db' \<and> (\<forall>j\<in>set converted'. ready db' j)"
proof (cases "b_product (it_batch i) \<noteq> di_product dest")
  case False
  then show ?thesis using m ok i acc by (auto simp: merge_item_def intro: trades_refl)
next
  case True
  then obtain t r where c: "system_conversion env node (case id_comment d of Some c \<Rightarrow> c | None \<Rightarrow> [])
       [p\<leftarrow>id_attrs d. fst p = ''date''] (Some BATCH_INTERMEDIATE) [(it_id i, it_qty i)]
       \<lparr>di_product = di_product dest, di_quantity = it_qty i, di_unit = b_unit (it_batch i)\<rparr> db = Inr (db', t)"
    and r: "first_result_item t db' = Inr r" "converted' = converted @ [r]"
    using m by (auto simp: merge_item_def rbind_eq_Inr)
  note t = system_conversion_trades [OF ok c]
  then show ?thesis using r first_result_ready acc trades_ready [OF _ t] by auto
qed

lemma merge_items_trades:
  assumes "trade_ok good db" "\<forall>i\<in>set items. ready db i" "\<forall>j\<in>set converted. ready db j"
    "rfold (merge_item env node d dest) items (db, converted) = Inr (db', converted')"
  shows "trades good db db' \<and> (\<forall>j\<in>set converted'. ready db' j)"
  using assms
proof (induction items arbitrary: db converted)
  case Nil
  then show ?case by (simp add: trades_refl)
next
  case (Cons i items)
  obtain e conv where m: "merge_item env node d dest i (db, converted) = Inr (e, conv)"
    and r: "rfold (merge_item env node d dest) items (e, conv) = Inr (db', converted')"
    using Cons.prems(4) by (auto simp: rbind_eq_Inr)
  have 1: "trades good db e \<and> (\<forall>j\<in>set conv. ready e j)"
    by (rule merge_item_trades [OF Cons.prems(1) _ Cons.prems(3) m]) (use Cons.prems(2) in simp)
  have "trades good e db' \<and> (\<forall>j\<in>set converted'. ready db' j)"
    by (rule Cons.IH [OF _ _ _ r]) (use 1 Cons.prems(2) in \<open>auto intro: trades_ok trades_ready\<close>)
  then show ?case using 1 by (blast intro: trades_trans)
qed

lemma other_batches_ready:
  "\<forall>i\<in>set items. ready db i \<Longrightarrow> \<forall>i\<in>set (get_only_batches_to_batches node db items). ready db i"
  by (auto simp: get_only_batches_to_batches_def ready_def key_of_def split: option.splits) metis

lemma prepare_internal_trades:
  assumes ok: "trade_ok good db" and src: "\<forall>i\<in>set (case id_sources d of Some s \<Rightarrow> s | None \<Rightarrow> []). ready db i"
    and p: "internal_prepare_batches env node d db = Inr (db', ty, items)"
  shows "trades good db db' \<and> (\<forall>i\<in>set items. ready db' i)"
proof -
  define given where "given = (case id_sources d of Some s \<Rightarrow> s | None \<Rightarrow> [])"
  define all where "all = (if id_select_all d then get_only_batches_to_batches node db given else given)"
  have all: "\<forall>i\<in>set all. ready db i" using src other_batches_ready unfolding all_def given_def by (simp only: split: if_split) blast
  obtain ty0 where "(if ty0 \<noteq> MERGE then Inr (db, ty0, all)
      else if card (set (map (b_product \<circ> it_batch) all)) = 1 then Inr (db, ty0, all)
      else rbind (of_option PyKeyError (id_dests d)) (\<lambda>ds.
        case ds of
          [dest] \<Rightarrow> rbind (rfold (merge_item env node d dest) all (db, [])) (\<lambda>(db1, items1). Inr (db1, ty0, items1))
        | _ \<Rightarrow> Inl (ValidationError ''Merging transaction can have only one destination batch''))) = Inr (db', ty, items)"
    using p unfolding internal_prepare_batches_def Let_def given_def [symmetric] all_def [symmetric]
    unfolding rbind_eq_Inr by blast
  then consider "db' = db" "items = all"
    | dest where "rfold (merge_item env node d dest) all (db, []) = Inr (db', items)"
    by (cases "id_dests d"; cases "the (id_dests d)"; cases "tl (the (id_dests d))")
      (auto simp: rbind_eq_Inr split: if_split_asm)
  then show ?thesis
  proof cases
    case 1
    then show ?thesis using all ok by (simp add: trades_refl)
  next
    case 2
    show ?thesis by (rule merge_items_trades [OF ok all _ 2]) simp
  qed
qed

lemma internal_request_trades:
  assumes ok: "trade_ok good db" and r: "internal_request env node raws d db = Inr (db', t)"
  shows "trades good db db'"
proof -
  obtain items where v: "validate_optional db raws = Inr items"
    and c: "internal_create env node (d\<lparr>id_sources := items\<rparr>) db = Inr (db', t)"
    using r by (auto simp: internal_request_def rbind_eq_Inr internal_validate_def split: option.splits if_splits)
  obtain c0 w db1 ty its where u: "se_setup env node (st_rest db) = Inr (c0, w)"
    and p: "internal_prepare_batches env node (d\<lparr>id_sources := items\<rparr>) (db\<lparr>st_rest := c0\<rparr>) = Inr (db1, ty, its)"
    and e: "execute_internal env node w (d\<lparr>id_sources := items\<rparr>) ty its db1 = Inr (db', t)"
    using c by (auto simp: internal_create_def rbind_eq_Inr)
  have src: "\<forall>i\<in>set (case items of Some s \<Rightarrow> s | None \<Rightarrow> []). ready db i"
    using v validated_ready by (auto simp: validate_optional_def rbind_eq_Inr split: option.splits)
  note t1 = setup_trades [OF ok u]
  have t2: "trades good (db\<lparr>st_rest := c0\<rparr>) db1 \<and> (\<forall>i\<in>set its. ready db1 i)"
    by (rule prepare_internal_trades [OF trades_ok [OF t1] _ p]) (use src trades_ready [OF _ t1] in auto)
  then have "trades good db1 db'" using execute_internal_trades [OF _ _ e] trades_ok by blast
  then show ?thesis using t1 t2 by (blast intro: trades_trans)
qed

text \<open>External transactions.\<close>

lemma result_items_ready: "\<forall>i\<in>set (result_items t db). ready db i"
  using result_items_map [of t db] fresh_ready by blast

lemma prepare_external_trades:
  assumes ok: "trade_ok good db" and src: "\<forall>i\<in>set (case ed_batches d of Some s \<Rightarrow> s | None \<Rightarrow> []). ready db i"
    and p: "external_prepare_batches env current d attrs db = Inr (db', batches)"
  shows "trades good db db' \<and> (\<forall>i\<in>set (case batches of Some s \<Rightarrow> s | None \<Rightarrow> []). ready db' i)"
proof (cases "ed_type d = INCOMING")
  case True
  then show ?thesis using p src ok by (auto simp: external_prepare_batches_def trades_refl)
next
  case False
  have offered: "\<forall>i\<in>set (offered_items current d db). ready db i"
    using src other_batches_ready unfolding offered_items_def Let_def by (simp only: split: if_split) blast
  from prepare_cases [OF False p] show ?thesis
  proof (elim disjE conjE exE)
    assume "db' = db" "batches = Some (offered_items current d db)"
    then show ?thesis using offered ok by (simp add: trades_refl)
  next
    fix tc assume c: "create_internal_transaction env current d attrs (offered_items current d db) db = Inr (db', tc)"
      and b: "batches = Some (result_items tc db')"
    have "trades good db db'"
      using c system_conversion_trades [OF ok] unfolding create_internal_transaction_def by blast
    then show ?thesis using result_items_ready by (simp add: b)
  qed
qed

lemma incoming_batch_trades:
  assumes ok: "trade_ok good db" and p: "prepare_incoming_batches source d name db = (db', items)"
  shows "trades good db db' \<and> st_next_tx db' = st_next_tx db \<and> (\<forall>i\<in>set items. ready db' i \<and> b_source_tx (it_batch i) = None)"
proof -
  obtain b where c: "create_batch b db = (db', st_next_batch db)" and b: "b_number b = 0" "b_source_tx b = None"
    and i: "items = [\<lparr>it_id = st_next_batch db, it_batch = b\<lparr>b_number := st_next_batch db + 1200\<rparr>, it_qty = ed_quantity d\<rparr>]"
  proof -
    define b where "b = \<lparr>b_product = ed_product d, b_node = source, b_initial = ed_quantity d,
               b_current = ed_quantity d, b_unit = ed_unit d, b_type = BATCH_INTERMEDIATE,
               b_source_tx = None, b_parents = [], b_number = 0, b_name = name, b_note = [],
               b_archived = False, b_buyer_ref = AStr [], b_seller_ref = AStr []\<rparr>"
    have num: "b_number b = 0" "b_source_tx b = None" by (simp_all add: b_def)
    obtain d1 bid where c: "create_batch b db = (d1, bid)" by fastforce
    have "db' = d1" "items = [\<lparr>it_id = bid, it_batch = b\<lparr>b_number := bid + 1200\<rparr>, it_qty = ed_quantity d\<rparr>]"
      using p c by (simp_all add: prepare_incoming_batches_def b_def [symmetric] Let_def)
    then show thesis using that [OF _ num] c create_batch_sel(1) [OF c num(1)] by simp
  qed
  note sel = create_batch_sel [OF c b(1)]
  have "kept db db'"
    by (rule creates_kept [OF _ create_batch_creates [OF c b(1)]]) (use ok b sel in \<open>simp_all add: trade_ok_def\<close>)
  moreover have "\<forall>i\<in>set items. ready db' i" using sel b by (simp add: i ready_def key_of_def)
  ultimately show ?thesis using sel ok b by (simp add: trades_def trade_ok_def i)
qed

lemma execute_external_split:
  assumes "execute_external env user full_name current d t items db = Inr db'"
  obtains buyer name db1 br sr where "rfold (send_item (ed_send_seperately d) t d buyer name) items db = Inr db1"
    "db' = set_references t br sr (complete_stock_request t user (attrs_request ''stockrequest'' d)
        (set_owner (ed_product d) buyer (bulk_update_current items db1)))"
proof -
  obtain buyer supplier where g: "get_buyer_supplier (ed_type d) current (ed_node d) = (buyer, supplier)" by fastforce
  from assms show thesis
    unfolding execute_external_def g Let_def prod.case create_source_destination_batches_def rbind_eq_Inr sum.inject
    by (elim exE conjE) (rule that, assumption, (hypsubst, rule refl)+)
qed

lemma execute_external_trades:
  assumes ok: "trade_ok good db" and t: "t < st_next_tx db"
    and items: "\<And>i u. i \<in> set items \<Longrightarrow> b_source_tx (it_batch i) = Some u \<Longrightarrow> u < t"
    and ex: "execute_external env user full_name current d t items db = Inr db'"
  shows "trades good db db'"
proof -
  obtain buyer name db1 br sr where s: "rfold (send_item (ed_send_seperately d) t d buyer name) items db = Inr db1"
    and e: "db' = set_references t br sr (complete_stock_request t user (attrs_request ''stockrequest'' d)
        (set_owner (ed_product d) buyer (bulk_update_current items db1)))"
    by (rule execute_external_split [OF ex])
  have k: "kept db db1 \<and> st_rest db1 = st_rest db \<and> st_next_tx db1 = st_next_tx db"
    by (rule send_items_kept [OF _ s t]) (use ok items in \<open>auto simp: trade_ok_def\<close>)
  have "quiet db1 db'" unfolding e
    by (rule quiet_trans [OF quiet_trans [OF quiet_trans [OF quiet_bulk quiet_follow_ups(1)] quiet_follow_ups(2)]
          quiet_follow_ups(3)])
  then have "kept db1 db'" using k quiet_kept kept_wf by blast
  moreover have "st_rest db' = st_rest db1"
  proof -
    have folds: "st_rest (fold f xs e) = st_rest e" if "\<And>x e. st_rest (f x e) = st_rest e"
      for f :: "'z \<Rightarrow> 'c stock_db \<Rightarrow> 'c stock_db" and xs and e
      using that by (induction xs arbitrary: e) simp_all
    show ?thesis unfolding e
      by (simp add: set_references_def complete_stock_request_def set_owner_def bulk_update_current_def set_current_def
          folds split: option.split)
  qed
  ultimately show ?thesis using k ok kept_trans by (simp add: trades_def trade_ok_def) blast
qed

lemma external_create_trades:
  assumes ok: "trade_ok good db" and src: "\<forall>i\<in>set (case ed_batches d of Some s \<Rightarrow> s | None \<Rightarrow> []). ready db i"
    and c: "external_create env user full_name current d db = Inr (db', t, created)"
  shows "trades good db db'"
proof -
  obtain db1 batches x where
    p: "external_prepare_batches env current d (with_date (ed_attrs d)) db = Inr (db1, batches)"
    and d: "\<not> created \<Longrightarrow> db' = db1"
    and cr: "created \<Longrightarrow> t = st_next_tx db1 \<and> (\<exists>items db2.
       execute_external env user full_name current d t items db2 = Inr db' \<and>
       (items = (case batches of Some is' \<Rightarrow> is' | None \<Rightarrow> []) \<and> db2 = fst (create_tx x db1) \<or>
        (\<exists>source name. prepare_incoming_batches source d name (fst (create_tx x db1)) = (db2, items))))"
    by (rule external_create_split [OF c]) blast
  have t1: "trades good db db1" and r: "\<forall>i\<in>set (case batches of Some s \<Rightarrow> s | None \<Rightarrow> []). ready db1 i"
    using prepare_external_trades [OF ok src p] by blast+
  note ok1 = trades_ok [OF t1]
  note t2 = create_tx_trades [OF ok1, of x]
  show ?thesis
  proof (cases created)
    case False
    then show ?thesis using d t1 by simp
  next
    case True
    then obtain items db2 where t: "t = st_next_tx db1"
      and ex: "execute_external env user full_name current d t items db2 = Inr db'"
      and i: "items = (case batches of Some is' \<Rightarrow> is' | None \<Rightarrow> []) \<and> db2 = fst (create_tx x db1) \<or>
        (\<exists>source name. prepare_incoming_batches source d name (fst (create_tx x db1)) = (db2, items))"
      using cr by blast
    have "trades good (fst (create_tx x db1)) db2 \<and> t < st_next_tx db2 \<and>
        (\<forall>i\<in>set items. \<forall>u. b_source_tx (it_batch i) = Some u \<longrightarrow> u < t)"
      using i
    proof (elim disjE conjE exE)
      assume "items = (case batches of Some is' \<Rightarrow> is' | None \<Rightarrow> [])" "db2 = fst (create_tx x db1)"
      then show ?thesis using r ready_source ok1 trades_ok [OF t2] by (auto simp: t trade_ok_def intro: trades_refl)
    next
      fix source name assume "prepare_incoming_batches source d name (fst (create_tx x db1)) = (db2, items)"
      from incoming_batch_trades [OF trades_ok [OF t2] this] show ?thesis by (auto simp: t)
    qed
    then have "trades good (fst (create_tx x db1)) db2 \<and> trades good db2 db'"
      using execute_external_trades [OF _ _ _ ex] trades_ok by blast
    then show ?thesis using t1 t2 by (blast intro: trades_trans)
  qed
qed

lemma external_request_trades:
  assumes ok: "trade_ok good db"
    and r: "external_request env user full_name current raws d db = Inr (db', t, created)"
  shows "trades good db db'"
proof -
  obtain items where c: "external_create env user full_name current (d\<lparr>ed_batches := items\<rparr>) db = Inr (db', t, created)"
    and f: "fresh_items db (case items of Some is' \<Rightarrow> is' | None \<Rightarrow> [])"
    by (rule external_request_create [OF r])
  show ?thesis by (rule external_create_trades [OF ok _ c]) (use f fresh_ready in auto)
qed

lemma declined_trades:
  assumes ok: "trade_ok good db" and x: "st_txs db t = Some x"
  shows "trades good db (declined env t comment x db)"
proof -
  have "trades good db (db\<lparr>st_rest := se_remove_notifications env t db\<rparr>)"
    by (rule quiet_trades [OF ok]) (use ok in \<open>auto simp: trade_ok_def intro: notices_good\<close>)
  moreover have "trades good (db\<lparr>st_rest := se_remove_notifications env t db\<rparr>) (declined env t comment x db)"
    unfolding declined_def
    by (rule quiet_trades [OF trades_ok [OF calculation]])
      (use x calculation in \<open>auto simp: quiet_def key_of_def [abs_def] kind_of_def [abs_def] fun_eq_iff trades_def\<close>)
  ultimately show ?thesis by (rule trades_trans)
qed

lemma reject_trades:
  assumes ok: "trade_ok good db" and r: "reject_transaction env user full_name node comment t db = Inr db'"
  shows "trades good db db'"
proof -
  obtain x raws d t' created where x: "st_txs db t = Some x"
    and e: "external_request env user full_name node raws d (declined env t comment x db) = Inr (db', t', created)"
    by (rule reject_cases [OF r]) blast
  note t1 = declined_trades [OF ok x, of comment]
  show ?thesis using t1 external_request_trades [OF trades_ok [OF t1] e] by (rule trades_trans)
qed

lemma post_commit_trades:
  assumes ok: "trade_ok good db" and p: "post_commit env t supplier buyer db = Inr db'"
  shows "trades good db db'"
proof -
  obtain c1 w1 c2 w2 where s: "se_setup env supplier (st_rest db) = Inr (c1, w1)" "se_setup env buyer c1 = Inr (c2, w2)"
    and e: "db' = db\<lparr>st_rest := c2, st_followups := st_followups db @ [t],
               st_txs := (st_txs db)(t := map_option
                 (\<lambda>x. x\<lparr>tx_attrs := AList.update ''source_wallet'' (ARef w1)
                                 (AList.update ''destination_wallet'' (ARef w2) (tx_attrs x))\<rparr>)
                 (st_txs db t))\<rparr>"
    using p by (auto simp: post_commit_def rbind_eq_Inr)
  have "good c2" using setup_good s ok unfolding trade_ok_def by blast
  then show ?thesis
    by (intro quiet_trades [OF ok])
      (auto simp: e quiet_def key_of_def [abs_def] kind_of_def [abs_def] fun_eq_iff option.map_comp comp_def)
qed

end

section \<open>Runs of the ledger\<close>

text \<open>With any services, the ledger's own part of the contract holds.\<close>

interpretation ledger: stock_services env "\<lambda>_. True" for env
  by unfold_locales simp_all

inductive trade_step :: "'c stock_env \<Rightarrow> 'c stock_db \<Rightarrow> 'c stock_db \<Rightarrow> bool" where
  internal: "internal_request env node raws d db = Inr (db', t) \<Longrightarrow> trade_step env db db'"
| external: "external_request env user full_name current raws e db = Inr (db', t, created) \<Longrightarrow> trade_step env db db'"
| commit: "post_commit env t supplier buyer db = Inr db' \<Longrightarrow> trade_step env db db'"
| reject: "reject_transaction env user full_name node comment t db = Inr db' \<Longrightarrow> trade_step env db db'"

context stock_services
begin

lemma step_trades: "trade_step env db db' \<Longrightarrow> trade_ok good db \<Longrightarrow> trades good db db'"
  by (cases rule: trade_step.cases)
    (blast intro: internal_request_trades external_request_trades post_commit_trades reject_trades)+

lemma steps_trades: "(trade_step env)\<^sup>*\<^sup>* db db' \<Longrightarrow> trade_ok good db \<Longrightarrow> trades good db db'"
proof (induction rule: rtranclp_induct)
  case base
  then show ?case by (rule trades_refl)
next
  case (step a b)
  have t: "trades good db a" using step.IH step.prems .
  show ?case using t step_trades [OF step.hyps(2) trades_ok [OF t]] by (rule trades_trans)
qed

end


lemma demo_ledger_wf: "ledger_wf demo_stock"
  using demo_stock_wf by (simp add: ledger_wf_def kind_of_def demo_stock_def)


end
