(* ===== verification/Stock_Balance.thy ===== *)
theory Stock_Balance
  imports Trade_Runs
begin

text \<open>
  The specification of the stock is its log: what a batch holds is what it began with less
  what the log of source batches says was taken. The code keeps the figure in the column
  \<open>current_quantity\<close> instead. As long as no request names a batch twice, the column
  implements the specification, through conversions, sales, purchases and rejections.
\<close>

section \<open>The specification\<close>

definition logged :: "source_batch list \<Rightarrow> nat \<Rightarrow> int" where
  "logged entries x = sum_list [sb_quantity s. s \<leftarrow> entries, sb_batch s = x]"

definition spec_stock :: "'c stock_db \<Rightarrow> nat \<Rightarrow> int" where
  "spec_stock db x = (case st_batches db x of None \<Rightarrow> 0 | Some b \<Rightarrow> b_initial b - logged (st_sources db) x)"

definition accounted :: "'c stock_db \<Rightarrow> bool" where
  "accounted db \<longleftrightarrow> ledger_wf db \<and> current_of db = spec_stock db \<and>
     (\<forall>s\<in>set (st_sources db). sb_batch s < st_next_batch db)"

lemma spec_stock_same: "st_batches db' = st_batches db \<Longrightarrow> st_sources db' = st_sources db \<Longrightarrow> spec_stock db' = spec_stock db"
  by (simp add: spec_stock_def [abs_def] cong: option.case_cong)

lemma logged_append [simp]: "logged (xs @ ys) x = logged xs x + logged ys x"
  by (simp add: logged_def)

lemma logged_items [simp]:
  "logged (map (\<lambda>i. \<lparr>sb_tx = t, sb_batch = it_id i, sb_quantity = it_qty i\<rparr>) items) x = taken items x"
  by (induction items) (simp_all add: logged_def taken_Cons)

lemma logged_none: "(\<forall>s\<in>set entries. sb_batch s < n) \<Longrightarrow> n \<le> x \<Longrightarrow> logged entries x = 0"
  by (induction entries) (auto simp: logged_def)

lemma kept_initial:
  assumes "kept db db'" "st_batches db x = Some b"
  shows "\<exists>b'. st_batches db' x = Some b' \<and> b_initial b' = b_initial b"
proof -
  have "key_of db x = Some (batch_key b)" using assms(2) by (simp add: key_of_def)
  then have "key_of db' x = Some (batch_key b)" using assms(1) unfolding kept_def map_le_def by (metis domI)
  then show ?thesis by (auto simp: key_of_def batch_key_def)
qed

text \<open>The simulation step: items taken and logged, and new batches that are still full.\<close>

lemma accounted_step:
  assumes acc: "accounted db" and k: "kept db db'"
    and cur: "\<And>x. x < st_next_batch db \<Longrightarrow> current_of db' x = current_of db x - taken items x"
    and log: "st_sources db' = st_sources db @ map (\<lambda>i. \<lparr>sb_tx = t, sb_batch = it_id i, sb_quantity = it_qty i\<rparr>) items"
    and new: "\<And>x b. st_next_batch db \<le> x \<Longrightarrow> st_batches db' x = Some b \<Longrightarrow> b_current b = b_initial b"
    and old: "\<And>x. x < st_next_batch db \<Longrightarrow> st_batches db x = None \<Longrightarrow> st_batches db' x = None"
    and ids: "\<forall>i\<in>set items. it_id i < st_next_batch db"
  shows "accounted db'"
proof -
  have le: "st_next_batch db \<le> st_next_batch db'" and wf': "ledger_wf db'" using k by (simp_all add: kept_def grows_def)
  have known: "\<forall>s\<in>set (st_sources db). sb_batch s < st_next_batch db" and wf: "stock_wf db"
    using acc by (simp_all add: accounted_def ledger_wf_def)
  have known': "\<forall>s\<in>set (st_sources db'). sb_batch s < st_next_batch db" using known ids by (auto simp: log)
  have "current_of db' x = spec_stock db' x" for x
  proof (cases "x < st_next_batch db")
    case True
    have spec: "current_of db x = spec_stock db x" using acc by (simp add: accounted_def)
    show ?thesis
    proof (cases "st_batches db x")
      case None
      then show ?thesis using old [OF True] by (simp add: current_of_def spec_stock_def)
    next
      case (Some b)
      obtain b' where b': "st_batches db' x = Some b'" "b_initial b' = b_initial b"
        using kept_initial [OF k Some] by blast
      then show ?thesis using spec Some cur [OF True] by (simp add: spec_stock_def log)
    qed
  next
    case False
    then have "logged (st_sources db') x = 0" using logged_none [OF known'] by simp
    then show ?thesis using new [of x] False by (cases "st_batches db' x") (simp_all add: current_of_def spec_stock_def)
  qed
  then show ?thesis using wf' known' le by (auto simp: accounted_def fun_eq_iff)
qed


lemma accounted_quiet:
  assumes acc: "accounted db" and q: "quiet db db'" and b: "current_of db' = current_of db"
    and i: "\<And>x. map_option b_initial (st_batches db' x) = map_option b_initial (st_batches db x)"
  shows "accounted db'"
proof -
  have "spec_stock db' x = spec_stock db x" for x
    using i [of x] q by (auto simp: spec_stock_def quiet_def split: option.splits)
  moreover have "ledger_wf db'" using quiet_kept [OF _ q] acc by (simp add: accounted_def kept_def)
  ultimately show ?thesis using acc q b by (simp add: accounted_def quiet_def fun_eq_iff)
qed

text \<open>Internal transactions, the system's conversions included.\<close>

lemma internal_step_accounted:
  assumes acc: "accounted db" and fr: "fresh_items db items" and st: "internal_step node t items ds db db'"
    and k: "kept db db'"
  shows "accounted db'"
proof (rule accounted_step [OF acc k, where items = items and t = t])
  have wf: "stock_wf db" "stock_wf db'" using acc k by (simp_all add: accounted_def ledger_wf_def kept_def)
  show "current_of db' x = current_of db x - taken items x" if "x < st_next_batch db" for x
    using st that by (simp add: internal_step_def)
  show "st_sources db' = st_sources db @ map (\<lambda>i. \<lparr>sb_tx = t, sb_batch = it_id i, sb_quantity = it_qty i\<rparr>) items"
    using st by (simp add: internal_step_def)
  show "\<forall>i\<in>set items. it_id i < st_next_batch db" by (rule fresh_ids [OF wf(1) fr])
  show "b_current b = b_initial b" if hyp: "st_next_batch db \<le> x" "st_batches db' x = Some b" for x b
  proof -
    have "x < st_next_batch db + length ds" using stock_wf_batch(1) [OF wf(2) hyp(2)] st by (simp add: internal_step_def)
    then obtain j where j: "j < length ds" "x = st_next_batch db + j" using hyp(1) by (auto simp: le_iff_add)
    have "\<exists>b. st_batches db' (st_next_batch db + j) = Some b \<and> b_current b = di_quantity (ds ! j) \<and>
        b_initial b = di_quantity (ds ! j)"
      using st j(1) unfolding internal_step_def by blast
    then show ?thesis using hyp(2) j(2) by auto
  qed
  show "st_batches db' x = None" if hyp: "x < st_next_batch db" "st_batches db x = None" for x
  proof -
    have "x \<notin> it_id ` set items" using fr hyp(2) by (auto simp: fresh_items_def)
    then show ?thesis using st hyp by (simp add: internal_step_def)
  qed
qed

lemma accounted_rest: "accounted db \<Longrightarrow> accounted (db\<lparr>st_rest := c\<rparr>)"
  by (rule accounted_quiet [OF _ quiet_updates(1)]) (auto simp: current_of_def [abs_def])

lemma conversion_accounted:
  assumes acc: "accounted db" and dist: "distinct (map fst raws)"
    and c: "system_conversion env node comment attrs btype raws dest db = Inr (db', t)"
  shows "accounted db'"
proof -
  have wf: "stock_wf db" "ledger_wf db" using acc by (simp_all add: accounted_def ledger_wf_def)
  obtain items where v: "validate_items db raws = Inr items" and st: "internal_step node t items [dest] db db'"
    by (rule system_conversion_step [OF wf(1) dist c])
  have "kept db db'" using ledger.system_conversion_trades [OF _ c] wf(2) by (simp add: trade_ok_def trades_def)
  then show ?thesis using internal_step_accounted [OF acc _ st] validate_items_ok [OF v] by blast
qed

lemma merge_items_accounted:
  assumes "accounted db" "rfold (merge_item env node d dest) items (db, coll) = Inr (db', coll')"
  shows "accounted db'"
  using assms
proof (induction items arbitrary: db coll)
  case (Cons i items)
  obtain db1 coll1 where 1: "merge_item env node d dest i (db, coll) = Inr (db1, coll1)"
    "rfold (merge_item env node d dest) items (db1, coll1) = Inr (db', coll')"
    using Cons.prems(2) by (auto simp: rbind_eq_Inr)
  have "accounted db1"
  proof (cases "b_product (it_batch i) \<noteq> di_product dest")
    case True
    then obtain t where "system_conversion env node (case id_comment d of Some c \<Rightarrow> c | None \<Rightarrow> [])
        [p\<leftarrow>id_attrs d. fst p = ''date''] (Some BATCH_INTERMEDIATE) [(it_id i, it_qty i)]
        \<lparr>di_product = di_product dest, di_quantity = it_qty i, di_unit = b_unit (it_batch i)\<rparr> db = Inr (db1, t)"
      using 1(1) by (auto simp: merge_item_def rbind_eq_Inr)
    then show ?thesis by (rule conversion_accounted [OF Cons.prems(1), rotated]) simp
  qed (use 1(1) Cons.prems(1) in \<open>simp add: merge_item_def\<close>)
  from Cons.IH [OF this 1(2)] show ?case .
qed simp

lemma internal_request_accounted:
  assumes acc: "accounted db" and dist: "distinct (map fst (case raws of Some rs \<Rightarrow> rs | None \<Rightarrow> []))"
    and r: "internal_request env node raws d db = Inr (db', t)"
  shows "accounted db'"
proof -
  obtain its where fr: "fresh_items db (case its of Some s \<Rightarrow> s | None \<Rightarrow> [])"
    and ids: "map it_id (case its of Some s \<Rightarrow> s | None \<Rightarrow> []) = map fst (case raws of Some rs \<Rightarrow> rs | None \<Rightarrow> [])"
    and c: "internal_create env node (d\<lparr>id_sources := its\<rparr>) db = Inr (db', t)"
    by (rule internal_request_cases [OF r])
  let ?d = "d\<lparr>id_sources := its\<rparr>"
  obtain c0 wallet db1 ty items where
    p: "internal_prepare_batches env node ?d (db\<lparr>st_rest := c0\<rparr>) = Inr (db1, ty, items)"
    and ex: "execute_internal env node wallet ?d ty items db1 = Inr (db', t)"
    using c by (auto simp: internal_create_def rbind_eq_Inr)
  have acc0: "accounted (db\<lparr>st_rest := c0\<rparr>)" using acc by (rule accounted_rest)
  have wf0: "stock_wf (db\<lparr>st_rest := c0\<rparr>)" using acc0 by (simp add: accounted_def ledger_wf_def)
  have fr0: "fresh_items (db\<lparr>st_rest := c0\<rparr>) (case id_sources ?d of Some s \<Rightarrow> s | None \<Rightarrow> [])"
    using fr by (simp add: fresh_items_def)
  have ms: "merge_state (db\<lparr>st_rest := c0\<rparr>) (requested_items node (db\<lparr>st_rest := c0\<rparr>) ?d) [] db1 items"
    by (rule internal_prepare_state(1) [OF wf0 fr0 _ p]) (use dist ids in simp)
  have acc1: "accounted db1"
    using internal_prepare_cases [OF p] acc0 merge_items_accounted [OF acc0] by blast
  have fr1: "stock_wf db1" "fresh_items db1 items" "distinct (map it_id items)" using ms by (simp_all add: merge_state_def)
  have "kept db1 db'"
    using ledger.execute_internal_trades [OF _ _ ex] acc1 fresh_ready [OF fr1(2)]
    by (simp add: trade_ok_def trades_def accounted_def)
  then show ?thesis by (rule internal_step_accounted [OF acc1 fr1(2) execute_internal_step [OF fr1 ex]])
qed


text \<open>Sales, purchases and reversals.\<close>

lemma delivered_accounted:
  assumes acc: "accounted db" and fr: "fresh_items db items" and d: "delivered s t d buyer items db db'"
    and k: "kept db db'"
  shows "accounted db'"
proof (rule accounted_step [OF acc k, where items = items and t = t])
  have wf: "stock_wf db" "stock_wf db'" using acc k by (simp_all add: accounted_def ledger_wf_def kept_def)
  show "current_of db' x = current_of db x - taken items x" if "x < st_next_batch db" for x
    using d that by (simp add: delivered_def)
  show "st_sources db' = st_sources db @ map (\<lambda>i. \<lparr>sb_tx = t, sb_batch = it_id i, sb_quantity = it_qty i\<rparr>) items"
    using d by (simp add: delivered_def)
  show "\<forall>i\<in>set items. it_id i < st_next_batch db" by (rule fresh_ids [OF wf(1) fr])
  show "b_current b = b_initial b" if hyp: "st_next_batch db \<le> x" "st_batches db' x = Some b" for x b
  proof -
    have "x < st_next_batch db + length items" using stock_wf_batch(1) [OF wf(2) hyp(2)] d by (simp add: delivered_def)
    then obtain j where "j < length items" "x = st_next_batch db + j" using hyp(1) by (auto simp: le_iff_add)
    then show ?thesis using delivered_new [OF d, of j] hyp(2) by (auto simp: row_key_def)
  qed
  show "st_batches db' x = None" if hyp: "x < st_next_batch db" "st_batches db x = None" for x
  proof -
    have "map_option row_key (st_batches db' x) =
        map_option (\<lambda>b. row_key (b\<lparr>b_current := b_current b - taken items x\<rparr>)) (st_batches db x)"
      using d hyp(1) unfolding delivered_def by blast
    then show ?thesis using hyp(2) by simp
  qed
qed

lemma create_tx_accounted: "accounted db \<Longrightarrow> accounted (fst (create_tx x db))"
  using create_tx_kept [of db x] spec_stock_same [of "fst (create_tx x db)" db]
  by (simp add: accounted_def kept_def)

lemma incoming_accounted:
  assumes acc: "accounted db" and p: "prepare_incoming_batches source d name db = (db', items)"
  shows "accounted db' \<and> fresh_items db' items \<and> distinct (map it_id items) \<and> st_next_tx db' = st_next_tx db"
proof -
  obtain b where c: "create_batch b db = (db', st_next_batch db)"
    and b: "b_number b = 0" "b_source_tx b = None" "b_current b = b_initial b"
    and i: "items = [\<lparr>it_id = st_next_batch db, it_batch = b\<lparr>b_number := st_next_batch db + 1200\<rparr>, it_qty = ed_quantity d\<rparr>]"
  proof -
    define b where "b = \<lparr>b_product = ed_product d, b_node = source, b_initial = ed_quantity d,
               b_current = ed_quantity d, b_unit = ed_unit d, b_type = BATCH_INTERMEDIATE,
               b_source_tx = None, b_parents = [], b_number = 0, b_name = name, b_note = [],
               b_archived = False, b_buyer_ref = AStr [], b_seller_ref = AStr []\<rparr>"
    have num: "b_number b = 0" "b_source_tx b = None" "b_current b = b_initial b" by (simp_all add: b_def)
    obtain d1 bid where c: "create_batch b db = (d1, bid)" by fastforce
    have "db' = d1" "items = [\<lparr>it_id = bid, it_batch = b\<lparr>b_number := bid + 1200\<rparr>, it_qty = ed_quantity d\<rparr>]"
      using p c by (simp_all add: prepare_incoming_batches_def b_def [symmetric] Let_def)
    then show thesis using that [OF _ num] c create_batch_sel(1) [OF c num(1)] by simp
  qed
  note sel = create_batch_sel [OF c b(1)] and cr = create_batch_creates [OF c b(1)]
  have wf: "ledger_wf db" using acc by (simp add: accounted_def)
  have k: "kept db db'" by (rule creates_kept [OF wf cr]) (use b sel in simp_all)
  have "accounted db'"
  proof (rule accounted_step [OF acc k, where items = "[]" and t = 0])
    show "b_current b' = b_initial b'" if hyp: "st_next_batch db \<le> x" "st_batches db' x = Some b'" for x b'
    proof (cases "x = st_next_batch db")
      case False
      then have "st_batches db x = Some b'" using hyp(2) sel by simp
      then show ?thesis using stock_wf_batch(1) wf hyp(1) unfolding ledger_wf_def by fastforce
    qed (use hyp sel b in auto)
  qed (use sel creates_facts(1) [OF cr] in simp_all)
  then show ?thesis using sel by (simp add: i fresh_items_def)
qed

lemma execute_external_accounted:
  assumes acc: "accounted db" and t: "t < st_next_tx db" and fr: "fresh_items db items" and dist: "distinct (map it_id items)"
    and src: "\<And>i u. i \<in> set items \<Longrightarrow> b_source_tx (it_batch i) = Some u \<Longrightarrow> u < t"
    and ex: "execute_external env user full_name current d t items db = Inr db'"
  shows "accounted db'"
proof -
  have wf: "ledger_wf db" "stock_wf db" using acc by (simp_all add: accounted_def ledger_wf_def)
  obtain db2 where "execute_external env user full_name current d t items db = Inr db2"
    "delivered (ed_send_seperately d) t d (fst (get_buyer_supplier (ed_type d) current (ed_node d))) items db db2"
    by (rule execute_external_ok [OF wf(2) t fr dist src])
  then have del: "delivered (ed_send_seperately d) t d (fst (get_buyer_supplier (ed_type d) current (ed_node d))) items db db'"
    using ex by simp
  have "kept db db'"
    using ledger.execute_external_trades [OF _ t src ex] wf by (simp add: trade_ok_def trades_def)
  then show ?thesis by (rule delivered_accounted [OF acc fr del])
qed

lemma prepare_external_accounted:
  assumes acc: "accounted db" and fr: "fresh_items db (case ed_batches d of Some s \<Rightarrow> s | None \<Rightarrow> [])"
    and dist: "distinct (map it_id (case ed_batches d of Some s \<Rightarrow> s | None \<Rightarrow> []))"
    and p: "external_prepare_batches env current d attrs db = Inr (db1, batches)"
  shows "accounted db1 \<and> fresh_items db1 (case batches of Some s \<Rightarrow> s | None \<Rightarrow> []) \<and>
    distinct (map it_id (case batches of Some s \<Rightarrow> s | None \<Rightarrow> []))"
proof (cases "ed_type d = INCOMING")
  case True
  then show ?thesis using p acc fr dist by (auto simp: external_prepare_batches_def)
next
  case False
  have wf: "stock_wf db" using acc by (simp add: accounted_def ledger_wf_def)
  note ok = offered_ok [OF fr dist, of current]
  from prepare_cases [OF False p] show ?thesis
  proof (elim disjE conjE exE)
    assume "db1 = db" "batches = Some (offered_items current d db)"
    then show ?thesis using acc ok by simp
  next
    fix tc assume c: "create_internal_transaction env current d attrs (offered_items current d db) db = Inr (db1, tc)"
      and b: "batches = Some (result_items tc db1)"
    have "accounted db1"
      by (rule conversion_accounted [OF acc _ c [unfolded create_internal_transaction_def]]) (simp add: comp_def ok)
    moreover obtain r where "result_items tc db1 = [\<lparr>it_id = st_next_batch db, it_batch = r, it_qty = ed_quantity d\<rparr>]"
      "st_batches db1 (st_next_batch db) = Some r"
      by (rule conversion_items [OF wf ok c])
    ultimately show ?thesis by (simp add: b fresh_items_def)
  qed
qed

lemma external_create_accounted:
  assumes acc: "accounted db" and fr: "fresh_items db (case ed_batches d of Some s \<Rightarrow> s | None \<Rightarrow> [])"
    and dist: "distinct (map it_id (case ed_batches d of Some s \<Rightarrow> s | None \<Rightarrow> []))"
    and c: "external_create env user full_name current d db = Inr (db', t, created)"
  shows "accounted db'"
proof -
  obtain db1 batches x where
    p: "external_prepare_batches env current d (with_date (ed_attrs d)) db = Inr (db1, batches)"
    and e: "\<not> created \<Longrightarrow> db' = db1"
    and cr: "created \<Longrightarrow> t = st_next_tx db1 \<and> (\<exists>items db2.
       execute_external env user full_name current d t items db2 = Inr db' \<and>
       (items = (case batches of Some is' \<Rightarrow> is' | None \<Rightarrow> []) \<and> db2 = fst (create_tx x db1) \<or>
        (\<exists>source name. prepare_incoming_batches source d name (fst (create_tx x db1)) = (db2, items))))"
    by (rule external_create_split [OF c]) blast
  note 1 = prepare_external_accounted [OF acc fr dist p]
  have 2: "accounted (fst (create_tx x db1))" using 1 create_tx_accounted by blast
  show ?thesis
  proof (cases created)
    case True
    then obtain items db2 where t: "t = st_next_tx db1"
      and ex: "execute_external env user full_name current d t items db2 = Inr db'"
      and i: "items = (case batches of Some is' \<Rightarrow> is' | None \<Rightarrow> []) \<and> db2 = fst (create_tx x db1) \<or>
        (\<exists>source name. prepare_incoming_batches source d name (fst (create_tx x db1)) = (db2, items))"
      using cr by blast
    have 3: "accounted db2 \<and> fresh_items db2 items \<and> distinct (map it_id items) \<and> st_next_tx db2 = Suc (st_next_tx db1)"
      using i 1 2 incoming_accounted [OF 2] by (auto simp: fresh_items_def)
    have "u < t" if "i \<in> set items" "b_source_tx (it_batch i) = Some u" for i u
      using i
    proof (elim disjE conjE exE)
      assume "items = (case batches of Some is' \<Rightarrow> is' | None \<Rightarrow> [])"
      then have "fresh_items db1 items" "stock_wf db1" using 1 by (auto simp: accounted_def ledger_wf_def)
      then show ?thesis using that stock_wf_batch(2) unfolding fresh_items_def t by blast
    next
      fix source name assume "prepare_incoming_batches source d name (fst (create_tx x db1)) = (db2, items)"
      then have "b_source_tx (it_batch i) = None"
        using that(1) by (auto simp: prepare_incoming_batches_def Let_def split: prod.splits)
      then show ?thesis using that(2) by simp
    qed
    then show ?thesis using execute_external_accounted [OF _ _ _ _ _ ex] 3 t by simp
  qed (use 1 e in simp)
qed

lemma external_request_accounted:
  assumes acc: "accounted db" and dist: "distinct (map fst (case raws of Some rs \<Rightarrow> rs | None \<Rightarrow> []))"
    and r: "external_request env user full_name current raws d db = Inr (db', t, created)"
  shows "accounted db'"
proof -
  obtain items where c: "external_create env user full_name current (d\<lparr>ed_batches := items\<rparr>) db = Inr (db', t, created)"
    and f: "fresh_items db (case items of Some is' \<Rightarrow> is' | None \<Rightarrow> [])"
      "map it_id (case items of Some is' \<Rightarrow> is' | None \<Rightarrow> []) = map fst (case raws of Some rs \<Rightarrow> rs | None \<Rightarrow> [])"
    by (rule external_request_create [OF r])
  show ?thesis by (rule external_create_accounted [OF acc _ _ c]) (use f dist in simp_all)
qed

lemma reject_accounted:
  assumes acc: "accounted db" and r: "reject_transaction env user full_name node comment t db = Inr db'"
  shows "accounted db'"
proof -
  have wf: "stock_wf db" "ledger_wf db" using acc by (simp_all add: accounted_def ledger_wf_def)
  obtain x ty source newest b others t' created where x: "st_txs db t = Some x"
    and c: "external_create env user full_name node
       ((reversal_data x source comment b)\<lparr>ed_batches := Some (result_items t db)\<rparr>)
       (declined env t comment x db) = Inr (db', t', created)"
    and f: "fresh_items (declined env t comment x db) (result_items t db)" "distinct (map it_id (result_items t db))"
    by (rule reject_reversal [OF wf(1) r]) blast
  have ss: "same_stock db (declined env t comment x db)" by (rule declined_same)
  have "ledger_wf (declined env t comment x db)"
    using ledger.declined_trades [OF _ x] wf by (simp add: trade_ok_def trades_def kept_def)
  then have "accounted (declined env t comment x db)"
    using acc ss same_stock_facts(1) [OF ss]
      spec_stock_same [of "declined env t comment x db" db]
    by (simp add: accounted_def same_stock_def)
  then show ?thesis by (rule external_create_accounted [OF _ _ _ c]) (use f in simp_all)
qed

lemma post_commit_accounted:
  assumes acc: "accounted db" and p: "post_commit env t supplier buyer db = Inr db'"
  shows "accounted db'"
proof -
  have ok: "ledger_wf db" using acc by (simp add: accounted_def)
  have "ledger_wf db'" using ledger.post_commit_trades [OF _ p] ok by (simp add: trade_ok_def trades_def kept_def)
  moreover have "st_batches db' = st_batches db \<and> st_sources db' = st_sources db \<and> st_next_batch db' = st_next_batch db"
    using p by (auto simp: post_commit_def rbind_eq_Inr)
  ultimately show ?thesis using acc spec_stock_same [of db' db]
    by (simp add: accounted_def current_of_def [abs_def])
qed

section \<open>Runs that name a batch once\<close>

inductive clean_step :: "'c stock_env \<Rightarrow> 'c stock_db \<Rightarrow> 'c stock_db \<Rightarrow> bool" where
  internal: "internal_request env node raws d db = Inr (db', t) \<Longrightarrow>
    distinct (map fst (case raws of Some rs \<Rightarrow> rs | None \<Rightarrow> [])) \<Longrightarrow> clean_step env db db'"
| external: "external_request env user full_name current raws e db = Inr (db', t, created) \<Longrightarrow>
    distinct (map fst (case raws of Some rs \<Rightarrow> rs | None \<Rightarrow> [])) \<Longrightarrow> clean_step env db db'"
| commit: "post_commit env t supplier buyer db = Inr db' \<Longrightarrow> clean_step env db db'"
| reject: "reject_transaction env user full_name node comment t db = Inr db' \<Longrightarrow> clean_step env db db'"

lemma clean_step_accounted: "clean_step env db db' \<Longrightarrow> accounted db \<Longrightarrow> accounted db'"
  by (cases rule: clean_step.cases)
    (auto intro: internal_request_accounted external_request_accounted post_commit_accounted reject_accounted)

lemma clean_steps_accounted: "(clean_step env)\<^sup>*\<^sup>* db db' \<Longrightarrow> accounted db \<Longrightarrow> accounted db'"
  by (induction rule: rtranclp_induct) (auto intro: clean_step_accounted)

text \<open>
  C3: The column \<open>current_quantity\<close> implements the log. From a ledger whose quantities agree
  with its log of sources, any sequence of requests that each name a batch at most once leads to
  a ledger whose quantities again agree: every batch holds what it began with less all that was
  logged as taken from it.
\<close>

theorem stock_implements_log:
  assumes "(clean_step env)\<^sup>*\<^sup>* db db'" and "accounted db"
  shows "current_of db' = spec_stock db' \<and>
    (\<forall>x b. st_batches db' x = Some b \<longrightarrow>
       b_current b = b_initial b - sum_list [sb_quantity s. s \<leftarrow> st_sources db', sb_batch s = x])"
proof -
  have c: "current_of db' = spec_stock db'"
    using clean_steps_accounted [OF assms] by (simp add: accounted_def)
  moreover have "b_current b = b_initial b - logged (st_sources db') x" if "st_batches db' x = Some b" for x b
    using fun_cong [OF c, of x] that by (simp add: current_of_def spec_stock_def)
  ultimately show ?thesis by (simp add: logged_def)
qed

text \<open>Two sales in a row.\<close>

lemma demo_accounted: "accounted demo_stock"
  using demo_ledger_wf
  by (auto simp: accounted_def demo_stock_def fun_eq_iff current_of_def spec_stock_def logged_def demo_batch_def
      split: option.splits)

theorem stock_implements_log_witness:
  "\<exists>db' b. clean_step demo_env demo_stock db' \<and> st_batches db' 2 = Some b \<and>
     b_current b = b_initial b - sum_list [sb_quantity s. s \<leftarrow> st_sources db', sb_batch s = 2]"
proof -
  have "is_ok (internal_request demo_env 1 (Some [(2, 1000)]) (demo_process LOSS None) demo_stock)"
    by code_simp
  then obtain db' t where r: "internal_request demo_env 1 (Some [(2, 1000)]) (demo_process LOSS None) demo_stock =
      Inr (db', t)"
    by (auto simp: is_ok_def split: sum.splits)
  then have s: "clean_step demo_env demo_stock db'" by (rule clean_step.internal) simp
  have "kept demo_stock db'"
    using ledger.internal_request_trades [OF _ r] demo_ledger_wf by (simp add: trade_ok_def trades_def)
  then obtain b where "st_batches db' 2 = Some b"
    using kept_initial [of demo_stock db' 2 "demo_batch 3000"] by (auto simp: demo_stock_def)
  then show ?thesis
    using stock_implements_log [OF r_into_rtranclp [of "clean_step demo_env", OF s] demo_accounted] s by blast
qed

end
