(* ===== verification/Claims.thy ===== *)
theory Claims
  imports Stock_Ledger
begin

text \<open>
  Claims on batches and companies: \<open>v2/claims/models.py\<close>, \<open>verifiers.py\<close>, the
  serializers of \<open>v2/claims/serializers\<close>, and \<open>Batch.inherit_claims\<close> of
  \<open>v2/products/models.py\<close>.

  An operation reads the stock ledger \<open>db\<close> and changes the tables of the claims \<open>cs\<close>.
  \<open>AttachedBatchClaim\<close> and \<open>AttachedCompanyClaim\<close> are subclasses of one table and are rows
  of \<open>cs_attached\<close> that differ in their target; so are the two kinds of attached criteria.
  \<open>save\<close> of an object writes its row at once, and the objects of one call share it, so the
  row stands for the object. Percentages are rationals. An error result carries no
  database; where the code is not atomic, what was saved before the error stays.
\<close>

section \<open>Tables\<close>

datatype claim_scope = CLAIM_SCOPE_GLOBAL | CLAIM_SCOPE_LOCAL
datatype claim_type = CLAIM_TYPE_PRODUCT | CLAIM_TYPE_COMPANY
datatype verification_type = VERIFICATION_TYPE_SYSTEM | VERIFICATION_TYPE_MANUAL
datatype inheritance_type = INHERITANCE_TYPE_ALL | INHERITANCE_TYPE_NONE | INHERITANCE_TYPE_PRODUCT
datatype verified_by =
  VERIFIED_BY_SECOND_PARTY | VERIFIED_BY_THIRD_PARTY | VERIFIED_BY_SYSTEM | VERIFIED_BY_NONE
datatype attached_from = ATTACHED_DIRECTLY | ATTACHED_FROM_TRANSACTION | ATTACHED_BY_INHERITANCE
datatype verifier_key = TRACEABLE_GUJI_REGION_VERIFIER | GOOD_PRICE_VERIFIER | FARMER_VERIFIER
datatype claim_processor = TRACE | GUARDIAN

text \<open>The status column takes any integer; the serializer restricts it only in part.\<close>

datatype claim_status =
  STATUS_PENDING | STATUS_APPROVED | STATUS_REJECTED | STATUS_PARTIAL | STATUS_OTHER int

record claim =
  cl_name :: string
  cl_type :: claim_type
  cl_scope :: claim_scope
  cl_proportional :: bool
  cl_removable :: bool
  cl_inheritable :: inheritance_type
  cl_verified_by :: verified_by
  cl_verifiers :: "nat list"
  cl_owners :: "nat list"
  cl_supply_chains :: "nat list"
  cl_reference :: nat
  cl_version :: nat
  cl_active :: bool
  cl_latest :: bool
  cl_processor :: claim_processor

record criterion =
  cr_claim :: nat
  cr_name :: string
  cr_mandatory :: bool
  cr_verification :: verification_type
  cr_verifier :: "verifier_key option"
  cr_reference :: nat
  cr_version :: nat

datatype field_type = FIELD_TYPE_TEXT | FIELD_TYPE_OPTION | FIELD_TYPE_FILE

record criterion_field =
  cf_criterion :: nat
  cf_title :: string
  cf_options :: string
  cf_type :: field_type

datatype claim_target = OnBatch nat | OnNode "nat option"

record attached_claim =
  ac_claim :: nat
  ac_target :: claim_target
  ac_verifier :: "nat option"
  ac_attached_by :: "nat option"
  ac_from :: attached_from
  ac_status :: claim_status
  ac_note :: string
  ac_percentage :: rat
  ac_bc_id :: string
  ac_bc_address :: string
  ac_request :: "nat option"

record attached_criterion =
  at_owner :: nat
  at_criterion :: nat
  at_from :: attached_from
  at_status :: claim_status
  at_info :: string
  at_evidence :: "(rat \<times> rat) list option"

record field_response =
  fr_criterion :: nat
  fr_field :: nat
  fr_response :: string
  fr_file_hash :: string
  fr_added_by :: "nat option"

record claims_db =
  cs_claims :: "nat \<rightharpoonup> claim"
  cs_next_claim :: nat
  cs_criteria :: "nat \<rightharpoonup> criterion"
  cs_next_criterion :: nat
  cs_fields :: "nat \<rightharpoonup> criterion_field"
  cs_next_field :: nat
  cs_attached :: "nat \<rightharpoonup> attached_claim"
  cs_next_attached :: nat
  cs_items :: "nat \<rightharpoonup> attached_criterion"
  cs_next_item :: nat
  cs_responses :: "field_response list"
  cs_logs :: "(nat \<times> nat \<times> nat option) list"
  cs_guardian :: "nat list"
  cs_messages :: "nat list"
  cs_notices :: "nat list"

text \<open>
  Services and data of other components: the region's polygon (\<open>shapely\<close>), a node's
  coordinates and name, whether a pending message request refuses another
  (\<open>AbstractConsensusMessage.message_pre_check\<close>), and the key of a new request.
\<close>

record claims_env =
  ce_boundary :: "rat \<times> rat \<Rightarrow> bool"
  ce_location :: "nat \<Rightarrow> rat \<times> rat"
  ce_name :: "nat \<Rightarrow> string"
  ce_refuses :: "nat \<Rightarrow> bool"
  ce_new_request :: nat

section \<open>Rows\<close>

definition get_claim :: "nat \<Rightarrow> 'h claims_db_scheme \<Rightarrow> claim result" where
  "get_claim i cs = of_option DoesNotExist (cs_claims cs i)"

definition get_attached :: "nat \<Rightarrow> 'h claims_db_scheme \<Rightarrow> attached_claim result" where
  "get_attached i cs = of_option DoesNotExist (cs_attached cs i)"

definition save_attached :: "nat \<Rightarrow> attached_claim \<Rightarrow> 'h claims_db_scheme \<Rightarrow> 'h claims_db_scheme" where
  "save_attached i c cs = cs\<lparr>cs_attached := (cs_attached cs)(i \<mapsto> c)\<rparr>"

definition save_item :: "nat \<Rightarrow> attached_criterion \<Rightarrow> 'h claims_db_scheme \<Rightarrow> 'h claims_db_scheme" where
  "save_item i a cs = cs\<lparr>cs_items := (cs_items cs)(i \<mapsto> a)\<rparr>"

text \<open>\<open>self.criteria.all()\<close> of an attached claim, and of a claim.\<close>

definition criteria_of :: "nat \<Rightarrow> 'h claims_db_scheme \<Rightarrow> nat list" where
  "criteria_of acid cs =
     [i\<leftarrow>[0..<cs_next_item cs]. case cs_items cs i of Some a \<Rightarrow> at_owner a = acid | None \<Rightarrow> False]"

definition claim_criteria :: "nat \<Rightarrow> 'h claims_db_scheme \<Rightarrow> nat list" where
  "claim_criteria c cs =
     [i\<leftarrow>[0..<cs_next_criterion cs]. case cs_criteria cs i of Some a \<Rightarrow> cr_claim a = c | None \<Rightarrow> False]"

definition item_statuses :: "nat \<Rightarrow> 'h claims_db_scheme \<Rightarrow> claim_status list" where
  "item_statuses acid cs =
     [at_status a. i \<leftarrow> criteria_of acid cs, a \<leftarrow> (case cs_items cs i of Some a \<Rightarrow> [a] | None \<Rightarrow> [])]"

text \<open>\<open>batch.claims\<close>, newest first.\<close>

definition batch_claims :: "nat \<Rightarrow> 'h claims_db_scheme \<Rightarrow> nat list" where
  "batch_claims bid cs =
     [i\<leftarrow>rev [0..<cs_next_attached cs].
        case cs_attached cs i of Some c \<Rightarrow> ac_target c = OnBatch bid | None \<Rightarrow> False]"

definition claims_for :: "nat \<Rightarrow> nat \<Rightarrow> 'h claims_db_scheme \<Rightarrow> nat list" where
  "claims_for bid c cs =
     [i\<leftarrow>batch_claims bid cs. map_option ac_claim (cs_attached cs i) = Some c]"

section \<open>System verification\<close>

text \<open>\<open>source_transaction.get_root_nodes()\<close> and the supplier of a root.\<close>

definition root_transactions :: "'c stock_db \<Rightarrow> nat \<Rightarrow> nat list result" where
  "root_transactions db bid =
     rbind (of_option DoesNotExist (st_batches db bid)) (\<lambda>b.
     rbind (of_option PyAttributeError (b_source_tx b)) (\<lambda>t.
     rbind (get_root_nodes (Suc (st_next_tx db)) (st_parents db) t) (\<lambda>roots.
       Inr (rev (sorted_list_of_set roots)))))"

definition root_source :: "'c stock_db \<Rightarrow> nat \<Rightarrow> nat result" where
  "root_source db t =
     (case st_txs db t of
        Some x \<Rightarrow> (case tx_kind x of External _ s _ \<Rightarrow> Inr s | Internal _ _ _ _ \<Rightarrow> Inl DoesNotExist)
      | None \<Rightarrow> Inl DoesNotExist)"

type_synonym finding = "bool \<times> string \<times> (rat \<times> rat) list"

definition good_price_verify :: finding where
  "good_price_verify = (True, ''Automatically verified as True always.'', [])"

definition guji_step :: "claims_env \<Rightarrow> 'c stock_db \<Rightarrow> nat \<Rightarrow> finding \<Rightarrow> finding result" where
  "guji_step env db t acc =
     rbind (root_source db t) (\<lambda>s.
       let (ok, info, coords) = acc;
           is_farm = (st_node_type db s = NODE_FARM);
           info1 = (if is_farm then info else info @ ce_name env s @ '' is not a farm. '');
           loc = ce_location env s;
           in_guji = ce_boundary env loc;
           info2 = (if in_guji then info1 else info1 @ ce_name env s @ '' not in region. '')
       in Inr (ok \<and> is_farm \<and> in_guji, info2, coords @ [loc]))"

definition guji_verify :: "claims_env \<Rightarrow> 'c stock_db \<Rightarrow> nat \<Rightarrow> finding result" where
  "guji_verify env db bid =
     rbind (root_transactions db bid) (\<lambda>roots. rfold (guji_step env db) roots (True, [], []))"

definition farmer_step :: "claims_env \<Rightarrow> 'c stock_db \<Rightarrow> nat \<Rightarrow> finding \<Rightarrow> finding result" where
  "farmer_step env db t acc =
     rbind (root_source db t) (\<lambda>s.
       let (ok, info, coords) = acc;
           is_farm = (st_node_type db s = NODE_FARM)
       in Inr (ok \<and> is_farm, (if is_farm then info else info @ ce_name env s @ '' is not a farm. ''),
               coords @ [ce_location env s]))"

definition farmer_verify :: "claims_env \<Rightarrow> 'c stock_db \<Rightarrow> nat \<Rightarrow> finding result" where
  "farmer_verify env db bid =
     rbind (root_transactions db bid) (\<lambda>roots. rfold (farmer_step env db) roots (True, [], []))"

definition system_verify :: "claims_env \<Rightarrow> 'c stock_db \<Rightarrow> verifier_key \<Rightarrow> nat \<Rightarrow> finding result" where
  "system_verify env db k bid =
     (case k of GOOD_PRICE_VERIFIER \<Rightarrow> Inr good_price_verify
      | TRACEABLE_GUJI_REGION_VERIFIER \<Rightarrow> guji_verify env db bid
      | FARMER_VERIFIER \<Rightarrow> farmer_verify env db bid)"

section \<open>Verification of batch claims\<close>

definition check_and_approve :: "nat \<Rightarrow> 'h claims_db_scheme \<Rightarrow> 'h claims_db_scheme" where
  "check_and_approve acid cs =
     (case (remdups (item_statuses acid cs), cs_attached cs acid) of
        ([s], Some c) \<Rightarrow>
          save_attached acid
            (if s = STATUS_APPROVED then c\<lparr>ac_status := s, ac_percentage := 100\<rparr> else c\<lparr>ac_status := s\<rparr>) cs
      | _ \<Rightarrow> cs)"

definition target_batch :: "attached_claim \<Rightarrow> nat result" where
  "target_batch c = (case ac_target c of OnBatch b \<Rightarrow> Inr b | OnNode _ \<Rightarrow> Inl PyAttributeError)"

text \<open>\<open>AttachedBatchCriterion.verify\<close>.\<close>

definition criterion_verify ::
    "claims_env \<Rightarrow> 'c stock_db \<Rightarrow> nat \<Rightarrow> 'h claims_db_scheme \<Rightarrow> 'h claims_db_scheme result"
where
  "criterion_verify env db i cs =
     rbind (of_option DoesNotExist (cs_items cs i)) (\<lambda>a.
     rbind (of_option DoesNotExist (cs_criteria cs (at_criterion a))) (\<lambda>cr.
     rbind (get_attached (at_owner a) cs) (\<lambda>c.
       if cr_verification cr = VERIFICATION_TYPE_SYSTEM then
         rbind (of_option PyKeyError (cr_verifier cr)) (\<lambda>k.
         rbind (target_batch c) (\<lambda>bid.
         rbind (system_verify env db k bid) (\<lambda>(ok, info, evidence).
           Inr (check_and_approve (at_owner a)
                  (save_item i (a\<lparr>at_status := (if ok then STATUS_APPROVED else STATUS_REJECTED),
                                  at_info := info, at_evidence := Some evidence\<rparr>) cs)))))
       else if ac_status c = STATUS_APPROVED then Inr (save_item i (a\<lparr>at_status := STATUS_APPROVED\<rparr>) cs)
       else if ac_status c = STATUS_REJECTED then Inr (save_item i (a\<lparr>at_status := STATUS_REJECTED\<rparr>) cs)
       else Inr cs)))"

text \<open>The weighted share of the sources on which the claim is approved.\<close>

definition share_step ::
    "nat \<Rightarrow> 'h claims_db_scheme \<Rightarrow> source_batch \<Rightarrow> rat \<times> rat \<Rightarrow> (rat \<times> rat) result"
where
  "share_step clm cs sb acc =
     (let (tot, verified) = acc;
          q = of_int (sb_quantity sb)
      in case [c. i \<leftarrow> claims_for (sb_batch sb) clm cs,
                  c \<leftarrow> (case cs_attached cs i of Some c \<Rightarrow> [c] | None \<Rightarrow> []), ac_status c = STATUS_APPROVED] of
           [] \<Rightarrow> Inr (tot + q, verified)
         | [c] \<Rightarrow> Inr (tot + q, verified + q * (ac_percentage c / 100))
         | _ \<Rightarrow> Inl MultipleObjectsReturned)"

definition inherited_percentage ::
    "'c stock_db \<Rightarrow> nat \<Rightarrow> nat \<Rightarrow> 'h claims_db_scheme \<Rightarrow> rat result"
where
  "inherited_percentage db bid clm cs =
     rbind (of_option DoesNotExist (st_batches db bid)) (\<lambda>b.
     rbind (of_option PyAttributeError (b_source_tx b)) (\<lambda>t.
     rbind (rfold (share_step clm cs) [s\<leftarrow>st_sources db. sb_tx s = t] (0, 0)) (\<lambda>(tot, verified).
       Inr (percentage verified tot))))"

definition batch_claim_verify ::
    "claims_env \<Rightarrow> 'c stock_db \<Rightarrow> nat \<Rightarrow> 'h claims_db_scheme \<Rightarrow> 'h claims_db_scheme result"
where
  "batch_claim_verify env db acid cs =
     rbind (get_attached acid cs) (\<lambda>c.
     rbind (get_claim (ac_claim c) cs) (\<lambda>cl.
     rbind (target_batch c) (\<lambda>bid.
       let cs1 = (if ac_verifier c = None \<and> cl_verifiers cl = [] \<and> cl_verified_by cl = VERIFIED_BY_NONE
                  then save_attached acid (c\<lparr>ac_status := STATUS_APPROVED\<rparr>) cs else cs)
       in rbind (rfold (criterion_verify env db) (criteria_of acid cs1) cs1) (\<lambda>cs2.
            if ac_from c = ATTACHED_BY_INHERITANCE then
              rbind (inherited_percentage db bid (ac_claim c) cs2) (\<lambda>p.
              rbind (get_attached acid cs2) (\<lambda>c2.
                Inr (save_attached acid (c2\<lparr>ac_percentage := p\<rparr>) cs2)))
            else Inr (check_and_approve acid cs2)))))"

section \<open>Inheritance\<close>

text \<open>\<open>source_transaction.source_batches\<close>: the batches of the transaction, newest first.\<close>

definition source_batches :: "'c stock_db \<Rightarrow> nat \<Rightarrow> nat list" where
  "source_batches db t = rev (sort [sb_batch s. s \<leftarrow> st_sources db, sb_tx s = t])"

definition claim_sources :: "'c stock_db \<Rightarrow> nat \<Rightarrow> nat \<Rightarrow> 'h claims_db_scheme \<Rightarrow> nat list" where
  "claim_sources db t clm cs = [b\<leftarrow>source_batches db t. claims_for b clm cs \<noteq> []]"

text \<open>\<open>AttachedBatchCriterion.inherit_data\<close>: copy the responses of the sources.\<close>

definition copy_response ::
    "nat \<Rightarrow> field_response \<Rightarrow> 'h claims_db_scheme \<Rightarrow> 'h claims_db_scheme"
where
  "copy_response i r cs =
     (if (fr_file_hash r \<noteq> [] \<or> fr_response r \<noteq> []) \<and> r\<lparr>fr_criterion := i\<rparr> \<notin> set (cs_responses cs)
      then cs\<lparr>cs_responses := r\<lparr>fr_criterion := i\<rparr> # cs_responses cs\<rparr> else cs)"

definition responses_of_sources ::
    "nat list \<Rightarrow> nat \<Rightarrow> 'h claims_db_scheme \<Rightarrow> field_response list"
where
  "responses_of_sources bs crit cs =
     [r\<leftarrow>cs_responses cs.
        case cs_items cs (fr_criterion r) of
          Some a \<Rightarrow> at_criterion a = crit \<and>
            (case cs_attached cs (at_owner a) of Some c \<Rightarrow> ac_target c \<in> OnBatch ` set bs | None \<Rightarrow> False)
        | None \<Rightarrow> False]"

definition criterion_inherit_data ::
    "claims_env \<Rightarrow> 'c stock_db \<Rightarrow> nat \<Rightarrow> nat \<Rightarrow> nat \<Rightarrow> 'h claims_db_scheme \<Rightarrow> 'h claims_db_scheme result"
where
  "criterion_inherit_data env db t clm i cs =
     rbind (of_option DoesNotExist (cs_items cs i)) (\<lambda>a.
       criterion_verify env db i
         (fold (copy_response i) (responses_of_sources (claim_sources db t clm cs) (at_criterion a) cs) cs))"

text \<open>\<open>AttachedBatchClaim.inherit_data\<close>.\<close>

definition source_statuses :: "'c stock_db \<Rightarrow> nat \<Rightarrow> nat \<Rightarrow> 'h claims_db_scheme \<Rightarrow> claim_status list" where
  "source_statuses db t clm cs =
     [ac_status c. b \<leftarrow> remdups (source_batches db t), i \<leftarrow> claims_for b clm cs,
        c \<leftarrow> (case cs_attached cs i of Some c \<Rightarrow> [c] | None \<Rightarrow> [])]"

definition claim_inherit_data ::
    "claims_env \<Rightarrow> 'c stock_db \<Rightarrow> nat \<Rightarrow> 'h claims_db_scheme \<Rightarrow> 'h claims_db_scheme result"
where
  "claim_inherit_data env db acid cs =
     rbind (get_attached acid cs) (\<lambda>c.
       if ac_from c \<noteq> ATTACHED_BY_INHERITANCE then Inr cs
       else
         rbind (target_batch c) (\<lambda>bid.
         rbind (of_option DoesNotExist (st_batches db bid)) (\<lambda>b.
         rbind (of_option PyAttributeError (b_source_tx b)) (\<lambda>t.
         rbind (rfold (criterion_inherit_data env db t (ac_claim c)) (criteria_of acid cs) cs) (\<lambda>cs1.
         rbind (get_attached acid cs1) (\<lambda>c1.
           Inr (save_attached acid
                  (c1\<lparr>ac_status := (case remdups (source_statuses db t (ac_claim c) cs1) of
                                     [s] \<Rightarrow> s | _ \<Rightarrow> STATUS_PARTIAL)\<rparr>) cs1)))))))"

text \<open>\<open>get_or_create\<close> of a batch claim and of its criterion, with the defaults of the model.\<close>

definition new_attached :: "nat \<Rightarrow> claim_target \<Rightarrow> attached_claim" where
  "new_attached clm target =
     \<lparr>ac_claim = clm, ac_target = target, ac_verifier = None, ac_attached_by = None,
      ac_from = ATTACHED_DIRECTLY, ac_status = STATUS_PENDING, ac_note = [], ac_percentage = 0,
      ac_bc_id = [], ac_bc_address = [], ac_request = None\<rparr>"

definition create_attached :: "attached_claim \<Rightarrow> 'h claims_db_scheme \<Rightarrow> 'h claims_db_scheme \<times> nat" where
  "create_attached c cs =
     (let i = cs_next_attached cs in ((save_attached i c cs)\<lparr>cs_next_attached := Suc i\<rparr>, i))"

definition create_item :: "attached_criterion \<Rightarrow> 'h claims_db_scheme \<Rightarrow> 'h claims_db_scheme \<times> nat" where
  "create_item a cs = (let i = cs_next_item cs in ((save_item i a cs)\<lparr>cs_next_item := Suc i\<rparr>, i))"

definition get_or_create_claim ::
    "nat \<Rightarrow> nat \<Rightarrow> 'h claims_db_scheme \<Rightarrow> ('h claims_db_scheme \<times> nat \<times> bool) result"
where
  "get_or_create_claim bid clm cs =
     (case claims_for bid clm cs of
        [] \<Rightarrow> (case create_attached (new_attached clm (OnBatch bid)) cs of (cs1, i) \<Rightarrow> Inr (cs1, i, True))
      | [i] \<Rightarrow> Inr (cs, i, False)
      | _ \<Rightarrow> Inl MultipleObjectsReturned)"

definition inherit_criterion :: "nat \<Rightarrow> nat \<Rightarrow> 'h claims_db_scheme \<Rightarrow> 'h claims_db_scheme result" where
  "inherit_criterion acid parent cs =
     rbind (of_option DoesNotExist (cs_items cs parent)) (\<lambda>p.
       case [i\<leftarrow>criteria_of acid cs. map_option at_criterion (cs_items cs i) = Some (at_criterion p)] of
         [] \<Rightarrow> Inr (fst (create_item
                  \<lparr>at_owner = acid, at_criterion = at_criterion p, at_from = ATTACHED_BY_INHERITANCE,
                   at_status = at_status p, at_info = ''Inherited'', at_evidence = None\<rparr> cs))
       | [i] \<Rightarrow> Inr cs
       | _ \<Rightarrow> Inl MultipleObjectsReturned)"

definition inherit_claim ::
    "claims_env \<Rightarrow> 'c stock_db \<Rightarrow> nat \<Rightarrow> nat \<Rightarrow> 'h claims_db_scheme \<Rightarrow> 'h claims_db_scheme result"
where
  "inherit_claim env db bid parent cs =
     rbind (get_attached parent cs) (\<lambda>p.
       if ac_status p \<noteq> STATUS_APPROVED then Inr cs
       else
         rbind (get_or_create_claim bid (ac_claim p) cs) (\<lambda>(cs1, acid, created).
           if \<not> created then Inr cs1
           else
             rbind (get_attached acid cs1) (\<lambda>c.
               let cs2 = save_attached acid
                     (c\<lparr>ac_from := ATTACHED_BY_INHERITANCE, ac_status := STATUS_APPROVED,
                        ac_percentage := ac_percentage p\<rparr>) cs1
               in rbind (rfold (inherit_criterion acid) (criteria_of parent cs2) cs2) (\<lambda>cs3.
                    claim_inherit_data env db acid cs3))))"

definition inherit_claims ::
    "claims_env \<Rightarrow> 'c stock_db \<Rightarrow> nat \<Rightarrow> 'h claims_db_scheme \<Rightarrow> 'h claims_db_scheme result"
where
  "inherit_claims env db bid cs =
     rbind (of_option DoesNotExist (st_batches db bid)) (\<lambda>b.
     rbind (of_option PyAttributeError (b_source_tx b)) (\<lambda>t.
       rfold (\<lambda>source cs. rfold (inherit_claim env db bid) (batch_claims source cs) cs) (source_batches db t) cs))"

end
