(* ===== verification/Claims_Service.thy ===== *)
theory Claims_Service
  imports Claims
begin

text \<open>
  The operations on claims that requests run: attaching claims to batches, transactions
  and companies (\<open>product_claims.py\<close>, \<open>transaction_claims.py\<close>, \<open>company_claims.py\<close>),
  evidence and the choice of inheritable claims (\<open>serializers/claims.py\<close>), verification
  (\<open>serializers/verification.py\<close>, \<open>views/verifications.py\<close>) and new versions of a claim.
\<close>

section \<open>Attaching claims to batches\<close>

text \<open>\<open>AttachedClaim.notify\<close>: \<open>cs_notices\<close> holds the claims of the verification requests sent.\<close>

definition claim_notify :: "nat \<Rightarrow> attached_claim \<Rightarrow> 'h claims_db_scheme \<Rightarrow> 'h claims_db_scheme" where
  "claim_notify acid c cs =
     (if ac_verifier c = None then cs else cs\<lparr>cs_notices := cs_notices cs @ [acid]\<rparr>)"

text \<open>The validated item of \<open>ClaimVerifier\<close>; the outer option is an absent key.\<close>

record claim_verifier =
  cv_claim :: nat
  cv_verifier :: "nat option option"
  cv_inherited :: bool

definition claim_verifier_validate ::
    "'c stock_db \<Rightarrow> claim_verifier \<Rightarrow> 'h claims_db_scheme \<Rightarrow> unit result"
where
  "claim_verifier_validate db v cs =
     rbind (get_claim (cv_claim v) cs) (\<lambda>cl.
     rbind (ensure (cl_type cl = CLAIM_TYPE_PRODUCT)
              (ValidationError ''Only Product claims can be added to batch or transaction'')) (\<lambda>_.
     rbind (ensure (cv_inherited v \<or> cl_verified_by cl \<noteq> VERIFIED_BY_THIRD_PARTY \<or>
                    (\<exists>n\<in>set_option (cv_verifier v). n \<noteq> None))
              (ValidationError ''Verifier is required for claim'')) (\<lambda>_.
       case cv_verifier v of
         Some (Some n) \<Rightarrow> ensure (st_node_type db n = NODE_COMPANY) (ValidationError ''Verifier should be a company'')
       | _ \<Rightarrow> Inr ())))"

text \<open>\<open>BatchClaimSerializer.create\<close>; \<open>node\<close> is the current company.\<close>

definition batch_claim_create ::
    "claims_env \<Rightarrow> 'c stock_db \<Rightarrow> nat \<Rightarrow> nat \<Rightarrow> nat \<Rightarrow> attached_from \<Rightarrow> nat option \<Rightarrow>
     'h claims_db_scheme \<Rightarrow> ('h claims_db_scheme \<times> nat) result"
where
  "batch_claim_create env db node bid clm from verifier cs =
     rbind (get_claim clm cs) (\<lambda>cl.
     rbind (of_option DoesNotExist (st_batches db bid)) (\<lambda>b.
     rbind (get_or_create_claim bid clm cs) (\<lambda>(cs1, acid, created).
       if \<not> created then Inr (cs1, acid)
       else
         rbind (get_attached acid cs1) (\<lambda>c.
           let v = (if cl_verified_by cl = VERIFIED_BY_SECOND_PARTY then Some (b_node b) else verifier);
               c1 = c\<lparr>ac_from := from, ac_verifier := v,
                      ac_attached_by := (if from = ATTACHED_BY_INHERITANCE then None else Some node)\<rparr>;
               cs2 = fold (\<lambda>cr cs. fst (create_item
                        \<lparr>at_owner = acid, at_criterion = cr, at_from = from, at_status = STATUS_PENDING,
                         at_info = [], at_evidence = None\<rparr> cs)) (claim_criteria clm cs1) (save_attached acid c1 cs1)
           in rbind (if from = ATTACHED_BY_INHERITANCE then claim_inherit_data env db acid cs2
                     else Inr (claim_notify acid c1 cs2)) (\<lambda>cs3.
              rbind (batch_claim_verify env db acid cs3) (\<lambda>cs4. Inr (cs4, acid)))))))"

text \<open>\<open>AttachBatchClaimSerializer.create\<close>.\<close>

definition attach_batch_claims ::
    "claims_env \<Rightarrow> 'c stock_db \<Rightarrow> nat \<Rightarrow> nat \<Rightarrow> claim_verifier list \<Rightarrow> 'h claims_db_scheme \<Rightarrow>
     'h claims_db_scheme result"
where
  "attach_batch_claims env db node bid vs cs =
     rfold (\<lambda>v cs.
       rbind (of_option PyKeyError (cv_verifier v)) (\<lambda>verifier.
       rbind (batch_claim_create env db node bid (cv_claim v) ATTACHED_DIRECTLY verifier cs) (\<lambda>(cs1, _). Inr cs1)))
       vs cs"

section \<open>Attaching claims to transactions\<close>

text \<open>\<open>transaction.source\<close> of either class.\<close>

definition transaction_source :: "'c stock_db \<Rightarrow> nat \<Rightarrow> nat result" where
  "transaction_source db t =
     rbind (of_option DoesNotExist (st_txs db t)) (\<lambda>x.
       case tx_kind x of External _ s _ \<Rightarrow> Inr s | Internal _ _ n _ \<Rightarrow> Inr n)"

text \<open>
  \<open>_initiate_guardian_claim\<close>: the newest result batch's claim goes back to pending and a
  guardian claim is stored; the task it may queue is outside the model.
\<close>

definition initiate_guardian_claim ::
    "'c stock_db \<Rightarrow> nat \<Rightarrow> nat \<Rightarrow> 'h claims_db_scheme \<Rightarrow> 'h claims_db_scheme result"
where
  "initiate_guardian_claim db t clm cs =
     rbind (get_claim clm cs) (\<lambda>cl.
       if cl_processor cl \<noteq> GUARDIAN then Inr cs
       else
         (case result_batches t db of
            [] \<Rightarrow> Inl PyAttributeError
          | bid # _ \<Rightarrow>
              (case claims_for bid clm cs of
                 [] \<Rightarrow> Inl PyAttributeError
               | acid # _ \<Rightarrow>
                   rbind (get_attached acid cs) (\<lambda>c.
                     Inr ((save_attached acid (c\<lparr>ac_status := STATUS_PENDING\<rparr>) cs)
                            \<lparr>cs_guardian := cs_guardian cs @ [acid]\<rparr>)))))"

definition attach_one_claim ::
    "claims_env \<Rightarrow> 'c stock_db \<Rightarrow> nat \<Rightarrow> nat \<Rightarrow> claim_verifier \<Rightarrow> 'h claims_db_scheme \<Rightarrow>
     'h claims_db_scheme result"
where
  "attach_one_claim env db node t v cs =
     (let from = (if cv_inherited v then ATTACHED_BY_INHERITANCE else ATTACHED_FROM_TRANSACTION) in
      rbind (rfold (\<lambda>bid cs.
               rbind (of_option PyKeyError (cv_verifier v)) (\<lambda>verifier.
               rbind (batch_claim_create env db node bid (cv_claim v) from verifier cs) (\<lambda>(cs1, _). Inr cs1)))
               (result_batches t db) cs) (\<lambda>cs1.
      rbind (of_option PyKeyError (cv_verifier v)) (\<lambda>verifier.
      rbind (transaction_source db t) (\<lambda>source.
        let cs2 = cs1\<lparr>cs_logs := cs_logs cs1 @ [(t, cv_claim v, verifier)]\<rparr>
        in if st_node_type db source = NODE_FARM then initiate_guardian_claim db t (cv_claim v) cs2
           else Inr cs2))))"

definition attach_claims ::
    "claims_env \<Rightarrow> 'c stock_db \<Rightarrow> nat \<Rightarrow> nat \<Rightarrow> claim_verifier list \<Rightarrow> 'h claims_db_scheme \<Rightarrow>
     'h claims_db_scheme result"
where
  "attach_claims env db node t vs cs = rfold (attach_one_claim env db node t) vs cs"

section \<open>Company claims\<close>

text \<open>\<open>AttachedCompanyClaim.verify\<close> and \<open>_approve\<close>; \<open>node.update_cache()\<close> needs a node.\<close>

definition approve_item :: "nat \<Rightarrow> 'h claims_db_scheme \<Rightarrow> 'h claims_db_scheme" where
  "approve_item i cs =
     (case cs_items cs i of Some a \<Rightarrow> save_item i (a\<lparr>at_status := STATUS_APPROVED\<rparr>) cs | None \<Rightarrow> cs)"

definition company_claim_approve :: "nat \<Rightarrow> 'h claims_db_scheme \<Rightarrow> 'h claims_db_scheme result" where
  "company_claim_approve acid cs =
     rbind (get_attached acid cs) (\<lambda>c.
     rbind (ensure (ac_target c \<noteq> OnNode None) PyAttributeError) (\<lambda>_.
       Inr (save_attached acid (c\<lparr>ac_status := STATUS_APPROVED\<rparr>) (fold approve_item (criteria_of acid cs) cs))))"

definition company_claim_verify :: "nat \<Rightarrow> 'h claims_db_scheme \<Rightarrow> ('h claims_db_scheme \<times> bool) result" where
  "company_claim_verify acid cs =
     rbind (get_attached acid cs) (\<lambda>c.
     rbind (get_claim (ac_claim c) cs) (\<lambda>cl.
       if cl_scope cl = CLAIM_SCOPE_LOCAL \<or> cl_verifiers cl = []
       then rbind (company_claim_approve acid cs) (\<lambda>cs1. Inr (cs1, True))
       else Inr (cs, False)))"

definition company_claims_for :: "nat \<Rightarrow> nat \<Rightarrow> nat \<Rightarrow> 'h claims_db_scheme \<Rightarrow> nat list" where
  "company_claims_for node clm by cs =
     [i\<leftarrow>rev [0..<cs_next_attached cs].
        case cs_attached cs i of
          Some c \<Rightarrow> ac_target c = OnNode (Some node) \<and> ac_claim c = clm \<and> ac_attached_by c = Some by
        | None \<Rightarrow> False]"

definition delete_attached :: "nat \<Rightarrow> 'h claims_db_scheme \<Rightarrow> 'h claims_db_scheme" where
  "delete_attached acid cs =
     (let gone = set (criteria_of acid cs) in
      cs\<lparr>cs_attached := (cs_attached cs)(acid := None),
         cs_items := (\<lambda>i. if i \<in> gone then None else cs_items cs i),
         cs_responses := [r\<leftarrow>cs_responses cs. fr_criterion r \<notin> gone]\<rparr>)"

text \<open>\<open>CompanyClaimSerializer.create\<close>; claim requests are completed by \<open>Transparency\<close>.\<close>

definition company_claim_create ::
    "nat \<Rightarrow> nat \<Rightarrow> nat \<Rightarrow> bool \<Rightarrow> 'h claims_db_scheme \<Rightarrow> ('h claims_db_scheme \<times> nat) result"
where
  "company_claim_create current node clm override cs =
     rbind (get_claim clm cs) (\<lambda>cl.
       let verifier = (case cl_verifiers cl of [] \<Rightarrow> None | v # _ \<Rightarrow> Some v);
           cs0 = (if override then fold delete_attached (company_claims_for node clm current cs) cs else cs)
       in case company_claims_for node clm current cs0 of
            [i] \<Rightarrow> Inr (cs0, i)
          | _ # _ # _ \<Rightarrow> Inl MultipleObjectsReturned
          | [] \<Rightarrow>
              (let c = (new_attached clm (OnNode (Some node)))
                         \<lparr>ac_attached_by := Some current, ac_verifier := verifier\<rparr>
               in case create_attached c cs0 of (cs1, acid) \<Rightarrow>
                let cs2 = fold (\<lambda>cr cs. fst (create_item
                        \<lparr>at_owner = acid, at_criterion = cr, at_from = ATTACHED_FROM_TRANSACTION,
                         at_status = STATUS_PENDING, at_info = [], at_evidence = None\<rparr> cs))
                      (claim_criteria clm cs1) cs1
                in rbind (company_claim_verify acid (claim_notify acid c cs2)) (\<lambda>(cs3, _). Inr (cs3, acid))))"

text \<open>\<open>AttachCompanyClaimSerializer\<close>.\<close>

definition validate_company_claims :: "nat \<Rightarrow> nat list \<Rightarrow> 'h claims_db_scheme \<Rightarrow> unit result" where
  "validate_company_claims current clms cs =
     rbind (ensure (clms \<noteq> []) (ValidationError ''No claims found.'')) (\<lambda>_.
       rfold (\<lambda>clm _.
         rbind (get_claim clm cs) (\<lambda>cl.
         rbind (ensure (cl_type cl \<noteq> CLAIM_TYPE_PRODUCT)
                  (ValidationError ''Cannot attach product claim to company'')) (\<lambda>_.
           ensure (cl_scope cl = CLAIM_SCOPE_LOCAL \<longrightarrow> current \<in> set (cl_owners cl))
             (ValidationError ''not permitted to use claim'')))) clms ())"

definition attach_company_claims ::
    "nat \<Rightarrow> nat \<Rightarrow> nat list \<Rightarrow> bool \<Rightarrow> 'h claims_db_scheme \<Rightarrow> 'h claims_db_scheme result"
where
  "attach_company_claims current node clms override cs =
     rfold (\<lambda>clm cs.
       rbind (company_claim_create current node clm override cs) (\<lambda>(cs1, acid).
       rbind (get_attached acid cs1) (\<lambda>c.
       rbind (get_claim (ac_claim c) cs1) (\<lambda>cl.
         if cl_processor cl = GUARDIAN
         then Inr ((save_attached acid (c\<lparr>ac_status := STATUS_PENDING\<rparr>) cs1)\<lparr>cs_guardian := cs_guardian cs1 @ [acid]\<rparr>)
         else Inr cs1)))) clms cs"

section \<open>Verification requests\<close>

text \<open>\<open>claim_object\<close>: the subclass row that the type of the claim calls for, if it is one.\<close>

definition claim_object :: "attached_claim \<Rightarrow> claim \<Rightarrow> claim_target option" where
  "claim_object c cl =
     (case (cl_type cl, ac_target c) of
        (CLAIM_TYPE_PRODUCT, OnBatch b) \<Rightarrow> Some (OnBatch b)
      | (CLAIM_TYPE_COMPANY, OnNode n) \<Rightarrow> Some (OnNode n)
      | _ \<Rightarrow> None)"

definition attached_verify ::
    "claims_env \<Rightarrow> 'c stock_db \<Rightarrow> nat \<Rightarrow> 'h claims_db_scheme \<Rightarrow> 'h claims_db_scheme result"
where
  "attached_verify env db acid cs =
     rbind (get_attached acid cs) (\<lambda>c.
     rbind (get_claim (ac_claim c) cs) (\<lambda>cl.
       case claim_object c cl of
         None \<Rightarrow> Inr cs
       | Some (OnBatch _) \<Rightarrow> batch_claim_verify env db acid cs
       | Some (OnNode _) \<Rightarrow> rbind (company_claim_verify acid cs) (\<lambda>(cs1, _). Inr cs1)))"

text \<open>
  \<open>log_to_blockchain\<close> on the object \<open>p\<close> of the base class that the request loaded.
  Storing a new message request saves \<open>p\<close>, with its own copy of the base columns; the
  percentage is a column of the subclass.
\<close>

definition attached_message_pre_check :: "claims_env \<Rightarrow> attached_claim \<Rightarrow> bool" where
  "attached_message_pre_check env p =
     (if (case ac_request p of Some r \<Rightarrow> ce_refuses env r | None \<Rightarrow> False) then False
      else if ac_bc_address p \<noteq> [] then False
      else if ac_status p \<noteq> STATUS_APPROVED then False
      else True)"

definition log_to_blockchain ::
    "claims_env \<Rightarrow> nat \<Rightarrow> attached_claim \<Rightarrow> 'h claims_db_scheme \<Rightarrow> 'h claims_db_scheme"
where
  "log_to_blockchain env acid p cs =
     (if \<not> attached_message_pre_check env p then cs
      else if ac_bc_id p \<noteq> [] then cs
      else
        (let cs1 = (case ac_request p of
                      Some _ \<Rightarrow> cs
                    | None \<Rightarrow>
                        (case cs_attached cs acid of None \<Rightarrow> cs
                         | Some row \<Rightarrow> save_attached acid
                             (p\<lparr>ac_request := Some (ce_new_request env), ac_percentage := ac_percentage row\<rparr>) cs))
         in cs1\<lparr>cs_messages := cs_messages cs1 @ [acid]\<rparr>))"

text \<open>\<open>VerificationSerializer.update\<close>: \<open>status\<close> and \<open>note\<close> are the writable fields.\<close>

definition verification_guard ::
    "nat \<Rightarrow> attached_claim \<Rightarrow> claim_status option \<Rightarrow> unit result"
where
  "verification_guard current c status =
     rbind (ensure (ac_verifier c = Some current) (BadRequest ''Only the verifier can update the status'')) (\<lambda>_.
     rbind (ensure (ac_status c \<notin> {STATUS_APPROVED, STATUS_REJECTED})
              (BadRequest ''Status cannot be changed for already approved/rejected verifications'')) (\<lambda>_.
       ensure (\<forall>s\<in>set_option status. s \<notin> {STATUS_PENDING, STATUS_PARTIAL})
         (BadRequest ''Status can only be changed to approved or rejected'')))"

definition verification_update ::
    "claims_env \<Rightarrow> 'c stock_db \<Rightarrow> nat \<Rightarrow> nat \<Rightarrow> claim_status option \<Rightarrow> string option \<Rightarrow>
     'h claims_db_scheme \<Rightarrow> 'h claims_db_scheme result"
where
  "verification_update env db current acid status note cs =
     rbind (get_attached acid cs) (\<lambda>c.
     rbind (verification_guard current c status) (\<lambda>_.
     rbind (get_claim (ac_claim c) cs) (\<lambda>cl.
       let p = c\<lparr>ac_status := (case status of Some s \<Rightarrow> s | None \<Rightarrow> ac_status c),
                 ac_note := (case note of Some n \<Rightarrow> n | None \<Rightarrow> ac_note c)\<rparr>;
           cs1 = save_attached acid p cs
       in rbind (case claim_object p cl of
                   Some (OnBatch b) \<Rightarrow>
                     ensure (Option.bind (st_batches db b) b_source_tx \<noteq> None) PyAttributeError
                 | _ \<Rightarrow> Inr ()) (\<lambda>_.
          rbind (attached_verify env db acid cs1) (\<lambda>cs2.
            let cs3 = (if ac_status p = STATUS_APPROVED then log_to_blockchain env acid p cs2 else cs2)
            in rbind (of_option PyAttributeError (ac_attached_by p)) (\<lambda>_. Inr cs3))))))"

text \<open>\<open>AttachedClaim.update_message_hash\<close>, the callback of the message.\<close>

definition claim_update_message_hash ::
    "nat \<Rightarrow> string \<Rightarrow> string \<Rightarrow> 'h claims_db_scheme \<Rightarrow> 'h claims_db_scheme result"
where
  "claim_update_message_hash acid txid hash cs =
     rbind (get_attached acid cs) (\<lambda>c.
       Inr (save_attached acid (c\<lparr>ac_bc_id := txid, ac_bc_address := hash\<rparr>) cs))"

text \<open>
  \<open>AttachedClaimAPI.delete\<close>: the verification notifications of the claim are deleted
  before the permission is checked, so the result is the tables and an outcome.
\<close>

definition delete_claim :: "nat \<Rightarrow> nat \<Rightarrow> 'h claims_db_scheme \<Rightarrow> 'h claims_db_scheme \<times> unit result" where
  "delete_claim node acid cs =
     (case cs_attached cs acid of
        None \<Rightarrow> (cs, Inl DoesNotExist)
      | Some c \<Rightarrow>
          (let cs1 = cs\<lparr>cs_notices := [i\<leftarrow>cs_notices cs. i \<noteq> acid]\<rparr> in
           case cs_claims cs (ac_claim c) of
             None \<Rightarrow> (cs, Inl DoesNotExist)
           | Some cl \<Rightarrow>
               if cl_type cl \<noteq> CLAIM_TYPE_COMPANY then (cs1, Inl (BadRequest ''Only Company claims can be removed''))
               else
                 (case ac_target c of
                    OnBatch _ \<Rightarrow> (cs1, Inl PyAttributeError)
                  | OnNode n \<Rightarrow>
                      if Some node \<noteq> ac_attached_by c \<and> Some node \<noteq> n
                      then (cs1, Inl (AccessForbidden ''Cannot remove the claim''))
                      else (delete_attached acid cs1, Inr ()))))"

text \<open>
  \<open>ExternalTransactionRejectionSerializer.remove_txn_notifications\<close>: the verification
  notifications of the claims on the result batches.
\<close>

definition remove_txn_notifications :: "nat \<Rightarrow> 'c stock_db \<Rightarrow> 'h claims_db_scheme \<Rightarrow> 'h claims_db_scheme" where
  "remove_txn_notifications t db cs =
     cs\<lparr>cs_notices := [i\<leftarrow>cs_notices cs.
          \<not> (case cs_attached cs i of
               Some c \<Rightarrow> (case ac_target c of
                            OnBatch b \<Rightarrow> Option.bind (st_batches db b) b_source_tx = Some t
                          | OnNode _ \<Rightarrow> False)
             | None \<Rightarrow> False)]\<rparr>"

section \<open>Evidence\<close>

text \<open>\<open>CriterionField.get_options\<close>: \<open>split(",")\<close> and \<open>strip()\<close>.\<close>

definition is_space :: "char \<Rightarrow> bool" where
  "is_space c \<longleftrightarrow> c = CHR '' '' \<or> (9 \<le> code c \<and> code c \<le> 13) \<or> (28 \<le> code c \<and> code c \<le> 31)
     \<or> code c = 133 \<or> code c = 160"

definition strip :: "string \<Rightarrow> string" where
  "strip s = rev (dropWhile is_space (rev (dropWhile is_space s)))"

definition get_options :: "criterion_field \<Rightarrow> string list" where
  "get_options f = (if cf_options f = [] then [] else map strip (str_split (CHR '','') (cf_options f)))"

record response_data =
  rd_field :: nat
  rd_response :: "string option"
  rd_file :: "string option"

text \<open>\<open>CriterionFieldResponseSerializer.validate\<close>; \<open>hash_file\<close> is \<open>_hash_file\<close> on the contents.\<close>

definition response_validate ::
    "(string \<Rightarrow> string) \<Rightarrow> criterion_field \<Rightarrow> response_data \<Rightarrow> string option result"
where
  "response_validate hash_file f d =
     (case cf_type f of
        FIELD_TYPE_FILE \<Rightarrow>
          (case rd_file d of None \<Rightarrow> Inl (ValidationError ''File not attached.'') | Some c \<Rightarrow> Inr (Some (hash_file c)))
      | FIELD_TYPE_TEXT \<Rightarrow>
          (case rd_response d of None \<Rightarrow> Inl (ValidationError ''Response not supplied.'') | Some _ \<Rightarrow> Inr None)
      | FIELD_TYPE_OPTION \<Rightarrow>
          (case rd_response d of
             None \<Rightarrow> Inl (ValidationError ''Response not supplied.'')
           | Some r \<Rightarrow> if r \<in> set (get_options f) then Inr None else Inl (ValidationError ''Invalid option'')))"

text \<open>
  \<open>create\<close>: the response of a field to an attached criterion is replaced when there is
  exactly one, and added otherwise (also when there are several).
\<close>

definition store_response ::
    "nat \<Rightarrow> nat \<Rightarrow> string option \<Rightarrow> string option \<Rightarrow> nat \<Rightarrow> 'h claims_db_scheme \<Rightarrow> 'h claims_db_scheme"
where
  "store_response node fld resp hash i cs =
     (case [r\<leftarrow>cs_responses cs. fr_field r = fld \<and> fr_criterion r = i] of
        [_] \<Rightarrow>
          cs\<lparr>cs_responses := map (\<lambda>r. if fr_field r = fld \<and> fr_criterion r = i
               then r\<lparr>fr_response := (case resp of Some x \<Rightarrow> x | None \<Rightarrow> fr_response r),
                      fr_file_hash := (case hash of Some h \<Rightarrow> h | None \<Rightarrow> fr_file_hash r),
                      fr_added_by := Some node\<rparr> else r) (cs_responses cs)\<rparr>
      | _ \<Rightarrow>
          cs\<lparr>cs_responses := \<lparr>fr_criterion = i, fr_field = fld,
               fr_response = (case resp of Some x \<Rightarrow> x | None \<Rightarrow> []),
               fr_file_hash = (case hash of Some h \<Rightarrow> h | None \<Rightarrow> []), fr_added_by = Some node\<rparr> # cs_responses cs\<rparr>)"

definition attached_criteria_on :: "nat \<Rightarrow> nat \<Rightarrow> 'h claims_db_scheme \<Rightarrow> nat list" where
  "attached_criteria_on crit bid cs =
     [i\<leftarrow>[0..<cs_next_item cs].
        case cs_items cs i of
          Some a \<Rightarrow> at_criterion a = crit \<and>
            (case cs_attached cs (at_owner a) of Some c \<Rightarrow> ac_target c = OnBatch bid | None \<Rightarrow> False)
        | None \<Rightarrow> False]"

text \<open>\<open>BatchCriterionFieldResponseSerializer\<close> and the one for all batches of a transaction.\<close>

definition batch_response_criterion :: "criterion_field \<Rightarrow> nat \<Rightarrow> error \<Rightarrow> 'h claims_db_scheme \<Rightarrow> nat result" where
  "batch_response_criterion f bid e cs =
     (case attached_criteria_on (cf_criterion f) bid cs of
        [] \<Rightarrow> Inl e | [i] \<Rightarrow> Inr i | _ \<Rightarrow> Inl MultipleObjectsReturned)"

definition add_batch_response ::
    "(string \<Rightarrow> string) \<Rightarrow> nat \<Rightarrow> nat \<Rightarrow> response_data \<Rightarrow> 'h claims_db_scheme \<Rightarrow> 'h claims_db_scheme result"
where
  "add_batch_response hash_file node bid d cs =
     rbind (of_option (ValidationError ''Invalid pk - object does not exist.'') (cs_fields cs (rd_field d))) (\<lambda>f.
     rbind (response_validate hash_file f d) (\<lambda>h.
     rbind (batch_response_criterion f bid (ValidationError ''Invalid Batch'') cs) (\<lambda>i.
       Inr (store_response node (rd_field d) (rd_response d) h i cs))))"

definition add_transaction_response ::
    "(string \<Rightarrow> string) \<Rightarrow> 'c stock_db \<Rightarrow> nat \<Rightarrow> nat \<Rightarrow> response_data \<Rightarrow> 'h claims_db_scheme \<Rightarrow> 'h claims_db_scheme result"
where
  "add_transaction_response hash_file db node t d cs =
     rbind (of_option (ValidationError ''Invalid pk - object does not exist.'') (cs_fields cs (rd_field d))) (\<lambda>f.
     rbind (response_validate hash_file f d) (\<lambda>h.
     rbind (rfold (\<lambda>bid is'. rbind (batch_response_criterion f bid (ValidationError ''Invalid Transaction'') cs)
               (\<lambda>i. Inr (is' @ [i]))) (result_batches t db) []) (\<lambda>is'.
       Inr (fold (store_response node (rd_field d) (rd_response d) h) is' cs))))"

section \<open>Which claims can be inherited\<close>

text \<open>
  \<open>InheritableClaimsSerializer.create\<close>. The claims of a set come in any order; the model
  lists them by key. \<open>wanted\<close> are the claims of the stock request.
\<close>

definition approved_claims :: "nat \<Rightarrow> 'h claims_db_scheme \<Rightarrow> nat set" where
  "approved_claims bid cs =
     set [ac_claim c. i \<leftarrow> batch_claims bid cs, c \<leftarrow> (case cs_attached cs i of Some c \<Rightarrow> [c] | None \<Rightarrow> []),
            ac_status c = STATUS_APPROVED]"

definition common_claims :: "item list \<Rightarrow> 'h claims_db_scheme \<Rightarrow> nat set" where
  "common_claims items cs =
     (case items of
        [] \<Rightarrow> {}
      | i # rest \<Rightarrow>
          fold (\<lambda>j s. s \<union> {c \<in> approved_claims (it_id j) cs. \<exists>cl\<in>set_option (cs_claims cs c). cl_proportional cl}
                      \<union> {c \<in> approved_claims (it_id j) cs.
                           \<exists>cl\<in>set_option (cs_claims cs c). cl_inheritable cl = INHERITANCE_TYPE_ALL})
            items (fold (\<lambda>j s. s \<inter> approved_claims (it_id j) cs) rest (approved_claims (it_id i) cs)))"

definition batch_products :: "item list \<Rightarrow> nat set" where
  "batch_products items =
     (case items of [] \<Rightarrow> {} | i # rest \<Rightarrow> fold (\<lambda>j s. s \<inter> {b_product (it_batch j)}) rest {b_product (it_batch i)})"

definition claim_is_inheritable :: "nat list \<Rightarrow> item list \<Rightarrow> claim \<Rightarrow> bool" where
  "claim_is_inheritable products items cl =
     (case cl_inheritable cl of
        INHERITANCE_TYPE_ALL \<Rightarrow> True
      | INHERITANCE_TYPE_NONE \<Rightarrow> False
      | INHERITANCE_TYPE_PRODUCT \<Rightarrow>
          length products = 1 \<and> card (batch_products items) = 1 \<and> hd products \<in> batch_products items)"

definition inheritable_share :: "nat \<Rightarrow> item list \<Rightarrow> 'h claims_db_scheme \<Rightarrow> rat result" where
  "inheritable_share clm items cs =
     rbind (rfold (\<lambda>i (tot, verified).
              let q = of_int (it_qty i)
              in case claims_for (it_id i) clm cs of
                   [] \<Rightarrow> Inr (tot + q, verified)
                 | [a] \<Rightarrow> (case cs_attached cs a of
                             Some c \<Rightarrow> Inr (tot + q, verified + q * (ac_percentage c / 100))
                           | None \<Rightarrow> Inr (tot + q, verified))
                 | _ \<Rightarrow> Inl MultipleObjectsReturned) items (0, 0)) (\<lambda>(tot, verified).
       Inr (percentage verified tot))"

definition inheritable_claims ::
    "nat list \<Rightarrow> item list \<Rightarrow> nat set \<Rightarrow> 'h claims_db_scheme \<Rightarrow> (nat \<times> bool \<times> rat) list result"
where
  "inheritable_claims products items wanted cs =
     rbind (ensure (items \<noteq> []) (ValidationError ''Batches cannot be empty'')) (\<lambda>_.
       rfold (\<lambda>clm acc.
         rbind (get_claim clm cs) (\<lambda>cl.
           if \<not> claim_is_inheritable products items cl then Inr acc
           else rbind (inheritable_share clm items cs) (\<lambda>p.
                  Inr (acc @ [(clm, if clm \<in> wanted then False else cl_removable cl, p)]))))
         (sorted_list_of_set (common_claims items cs)) [])"

section \<open>New versions\<close>

text \<open>
  \<open>Claim.create_new_version\<close>. The copies have the columns of the originals; relations to
  many (supply chains, owners, verifiers) are rows of other tables and are not copied.
\<close>

definition max_version :: "nat list \<Rightarrow> nat" where
  "max_version vs = fold max vs 0"

definition claim_versions :: "nat \<Rightarrow> 'h claims_db_scheme \<Rightarrow> nat list" where
  "claim_versions ref cs =
     [cl_version c. i \<leftarrow> [0..<cs_next_claim cs], c \<leftarrow> (case cs_claims cs i of Some c \<Rightarrow> [c] | None \<Rightarrow> []),
        cl_reference c = ref]"

definition criterion_versions :: "nat \<Rightarrow> 'h claims_db_scheme \<Rightarrow> nat list" where
  "criterion_versions ref cs =
     [cr_version c. i \<leftarrow> [0..<cs_next_criterion cs], c \<leftarrow> (case cs_criteria cs i of Some c \<Rightarrow> [c] | None \<Rightarrow> []),
        cr_reference c = ref]"

definition copy_field :: "nat \<Rightarrow> nat \<Rightarrow> 'h claims_db_scheme \<Rightarrow> 'h claims_db_scheme" where
  "copy_field new f cs =
     (case cs_fields cs f of
        None \<Rightarrow> cs
      | Some x \<Rightarrow> cs\<lparr>cs_fields := (cs_fields cs)(cs_next_field cs \<mapsto> x\<lparr>cf_criterion := new\<rparr>),
                     cs_next_field := Suc (cs_next_field cs)\<rparr>)"

definition fields_of :: "nat \<Rightarrow> 'h claims_db_scheme \<Rightarrow> nat list" where
  "fields_of cr cs =
     [i\<leftarrow>[0..<cs_next_field cs]. case cs_fields cs i of Some f \<Rightarrow> cf_criterion f = cr | None \<Rightarrow> False]"

definition copy_criterion :: "nat \<Rightarrow> nat \<Rightarrow> 'h claims_db_scheme \<Rightarrow> 'h claims_db_scheme" where
  "copy_criterion new_claim i cs =
     (case cs_criteria cs i of
        None \<Rightarrow> cs
      | Some c \<Rightarrow>
          (let new = cs_next_criterion cs;
               cs1 = cs\<lparr>cs_criteria := (cs_criteria cs)(new \<mapsto>
                          c\<lparr>cr_version := max_version (criterion_versions (cr_reference c) cs) + 1,
                            cr_claim := new_claim\<rparr>),
                        cs_next_criterion := Suc new\<rparr>
           in fold (copy_field new) (fields_of i cs1) cs1))"

definition create_new_version ::
    "nat \<Rightarrow> 'h claims_db_scheme \<Rightarrow> ('h claims_db_scheme \<times> nat) result"
where
  "create_new_version i cs =
     rbind (get_claim i cs) (\<lambda>c.
       let new = cs_next_claim cs;
           c' = c\<lparr>cl_version := max_version (claim_versions (cl_reference c) cs) + 1,
                  cl_supply_chains := [], cl_owners := [], cl_verifiers := []\<rparr>;
           cs1 = cs\<lparr>cs_claims := (cs_claims cs)(new \<mapsto> c', i \<mapsto> c\<lparr>cl_active := False, cl_latest := False\<rparr>),
                    cs_next_claim := Suc new\<rparr>
       in Inr (fold (copy_criterion new) (claim_criteria i cs) cs1, new))"

section \<open>Comments\<close>

text \<open>\<open>ClaimComment.log_activity\<close>: who is told of a comment.\<close>

definition comment_receivers :: "attached_claim \<Rightarrow> nat option \<Rightarrow> nat list" where
  "comment_receivers c sender =
     (let rs = (if ac_verifier c = sender then [ac_attached_by c]
                else if ac_attached_by c = sender then [ac_verifier c]
                else [ac_verifier c, ac_attached_by c])
      in [n. r \<leftarrow> rs, r \<noteq> sender, n \<leftarrow> (case r of Some n \<Rightarrow> [n] | None \<Rightarrow> [])])"

end
