(* ===== verification/Claims_Properties.thy ===== *)
theory Claims_Properties
  imports Claims_Service Stock_Properties
begin

text \<open>
  What the operations on claims keep and achieve: every batch has a claim at most once and
  percentages stay between 0 and 100 (\<open>claims_inv\<close>), verification is the verifier's alone,
  the shares of inherited claims, and the interface by which the stock ledger calls the
  claims.
\<close>

section \<open>The invariant\<close>

definition percentage_ok :: "attached_claim \<Rightarrow> bool" where
  "percentage_ok c \<longleftrightarrow> 0 \<le> ac_percentage c \<and> ac_percentage c \<le> 100"

definition percentages_ok :: "'h claims_db_scheme \<Rightarrow> bool" where
  "percentages_ok cs \<longleftrightarrow> (\<forall>i. case cs_attached cs i of Some c \<Rightarrow> percentage_ok c | None \<Rightarrow> True)"

text \<open>What an attached claim is: the claim and its target.\<close>

definition attachment :: "'h claims_db_scheme \<Rightarrow> nat \<Rightarrow> (nat \<times> claim_target) option" where
  "attachment cs i = map_option (\<lambda>c. (ac_claim c, ac_target c)) (cs_attached cs i)"

definition attached_once :: "'h claims_db_scheme \<Rightarrow> bool" where
  "attached_once cs \<longleftrightarrow>
     (\<forall>i. attachment cs i \<noteq> None \<longrightarrow> i < cs_next_attached cs) \<and>
     (\<forall>i j c b. attachment cs i = Some (c, OnBatch b) \<longrightarrow> attachment cs j = Some (c, OnBatch b) \<longrightarrow> i = j)"

definition claims_inv :: "'h claims_db_scheme \<Rightarrow> bool" where
  "claims_inv cs \<longleftrightarrow> percentages_ok cs \<and> attached_once cs"

lemma claims_inv_cong:
  "cs_attached cs' = cs_attached cs \<Longrightarrow> cs_next_attached cs' = cs_next_attached cs \<Longrightarrow>
   claims_inv cs' = claims_inv cs"
  by (simp add: claims_inv_def percentages_ok_def attached_once_def attachment_def)

lemma percentages_ok_row: "percentages_ok cs \<Longrightarrow> cs_attached cs i = Some c \<Longrightarrow> percentage_ok c"
  by (auto simp: percentages_ok_def dest: spec [of _ i])

lemma save_attached_sel [simp]:
  "cs_attached (save_attached i c cs) = (cs_attached cs)(i \<mapsto> c)"
  "cs_next_attached (save_attached i c cs) = cs_next_attached cs"
  "cs_items (save_attached i c cs) = cs_items cs" "cs_next_item (save_attached i c cs) = cs_next_item cs"
  "cs_claims (save_attached i c cs) = cs_claims cs" "cs_criteria (save_attached i c cs) = cs_criteria cs"
  by (simp_all add: save_attached_def)

lemma save_item_sel [simp]:
  "cs_attached (save_item i a cs) = cs_attached cs" "cs_items (save_item i a cs) = (cs_items cs)(i \<mapsto> a)"
  "cs_next_item (save_item i a cs) = cs_next_item cs" "cs_claims (save_item i a cs) = cs_claims cs"
  "cs_criteria (save_item i a cs) = cs_criteria cs" "cs_next_attached (save_item i a cs) = cs_next_attached cs"
  by (simp_all add: save_item_def)

text \<open>Two tables that agree on the attached claims, the claims and the criteria.\<close>

definition same_attached :: "'h claims_db_scheme \<Rightarrow> 'h claims_db_scheme \<Rightarrow> bool" where
  "same_attached cs cs' \<longleftrightarrow> cs_attached cs' = cs_attached cs \<and> cs_next_attached cs' = cs_next_attached cs \<and>
     cs_claims cs' = cs_claims cs \<and> cs_criteria cs' = cs_criteria cs"

lemma same_attached_refl [simp]: "same_attached cs cs"
  by (simp add: same_attached_def)

lemma same_attached_trans: "same_attached a b \<Longrightarrow> same_attached b c \<Longrightarrow> same_attached a c"
  by (simp add: same_attached_def)

lemma same_attached_fold:
  "(\<And>x d. same_attached d (f x d)) \<Longrightarrow> same_attached cs (fold f xs cs)"
  by (induction xs arbitrary: cs) (auto intro: same_attached_trans)

lemma same_attached_simps [simp]:
  "same_attached cs (save_item i a cs)" "same_attached cs (fst (create_item a cs))"
  "same_attached cs (copy_response i r cs)" "same_attached cs (approve_item i cs)"
  "same_attached cs (claim_notify acid c cs)" "same_attached cs (cs\<lparr>cs_guardian := g\<rparr>)"
  "same_attached cs (cs\<lparr>cs_messages := m\<rparr>)" "same_attached cs (cs\<lparr>cs_logs := l\<rparr>)"
  "same_attached cs (cs\<lparr>cs_notices := n\<rparr>)"
  by (auto simp: same_attached_def create_item_def copy_response_def approve_item_def
      claim_notify_def Let_def split: option.splits)

text \<open>
  \<open>edits g acid cs cs'\<close>: of the attached claims only the row \<open>acid\<close> changed, and it is still
  the same claim on the same target with the same verifier. If \<open>g\<close> holds, percentages stay in
  range.
\<close>

definition same_row :: "attached_claim \<Rightarrow> attached_claim \<Rightarrow> bool" where
  "same_row c c' \<longleftrightarrow> ac_claim c' = ac_claim c \<and> ac_target c' = ac_target c \<and> ac_from c' = ac_from c \<and>
     ac_verifier c' = ac_verifier c"

definition edits :: "bool \<Rightarrow> nat \<Rightarrow> 'h claims_db_scheme \<Rightarrow> 'h claims_db_scheme \<Rightarrow> bool" where
  "edits g acid cs cs' \<longleftrightarrow> cs_next_attached cs' = cs_next_attached cs \<and> cs_claims cs' = cs_claims cs \<and>
     cs_criteria cs' = cs_criteria cs \<and> (\<forall>i. i \<noteq> acid \<longrightarrow> cs_attached cs' i = cs_attached cs i) \<and>
     rel_option same_row (cs_attached cs acid) (cs_attached cs' acid) \<and>
     (g \<and> percentages_ok cs \<longrightarrow> percentages_ok cs')"

lemma same_row_refl [simp]: "same_row c c"
  by (simp add: same_row_def)

lemma same_row_trans: "same_row a b \<Longrightarrow> same_row b c \<Longrightarrow> same_row a c"
  by (simp add: same_row_def)

lemma rel_same_row_trans:
  "rel_option same_row a b \<Longrightarrow> rel_option same_row b c \<Longrightarrow> rel_option same_row a c"
  by (cases a; cases b; cases c) (auto intro: same_row_trans)

lemma edits_refl [simp]: "edits g acid cs cs"
  by (simp add: edits_def option.rel_refl)

lemma edits_trans: "edits g acid a b \<Longrightarrow> edits g acid b c \<Longrightarrow> edits g acid a c"
  unfolding edits_def by (auto intro: rel_same_row_trans)

lemma edits_same: "same_attached cs cs' \<Longrightarrow> edits g acid cs cs'"
  by (simp add: edits_def same_attached_def percentages_ok_def option.rel_refl)

lemma edits_save:
  assumes "cs_attached cs acid = Some c" "same_row c c'" "g \<and> percentages_ok cs \<longrightarrow> percentage_ok c'"
  shows "edits g acid cs (save_attached acid c' cs)"
  using assms by (simp add: edits_def percentages_ok_def)

lemma edits_attachment: "edits g acid cs cs' \<Longrightarrow> attachment cs' = attachment cs"
proof (rule ext)
  fix i assume e: "edits g acid cs cs'"
  show "attachment cs' i = attachment cs i"
  proof (cases "i = acid")
    case True
    then show ?thesis using e unfolding edits_def attachment_def
      by (cases "cs_attached cs acid"; cases "cs_attached cs' acid") (auto simp: same_row_def)
  next
    case False
    then show ?thesis using e by (simp add: edits_def attachment_def)
  qed
qed

lemma edits_inv: "edits True acid cs cs' \<Longrightarrow> claims_inv cs \<Longrightarrow> claims_inv cs'"
  using edits_attachment [of True acid cs cs'] by (simp add: claims_inv_def attached_once_def edits_def)

lemma edits_row:
  assumes "edits g acid cs cs'" "cs_attached cs acid = Some c"
  obtains c' where "cs_attached cs' acid = Some c'" "same_row c c'"
  using assms unfolding edits_def by (cases "cs_attached cs' acid") auto

lemma rfold_edits:
  assumes "rfold f xs cs = Inr cs'" and step: "\<And>x d d'. f x d = Inr d' \<Longrightarrow> edits g acid d d'"
  shows "edits g acid cs cs'"
  by (rule rfold_invariant [OF assms(1), where P = "edits g acid cs"])
    (simp, erule edits_trans, erule step)

section \<open>Verification edits one row\<close>

lemma check_and_approve_cases:
  obtains "check_and_approve acid cs = cs"
  | s c where "remdups (item_statuses acid cs) = [s]" "cs_attached cs acid = Some c"
      "check_and_approve acid cs =
         save_attached acid
           (if s = STATUS_APPROVED then c\<lparr>ac_status := s, ac_percentage := 100\<rparr> else c\<lparr>ac_status := s\<rparr>) cs"
proof -
  have "(check_and_approve acid cs = cs) \<or> (\<exists>s c. remdups (item_statuses acid cs) = [s] \<and> cs_attached cs acid = Some c \<and>
      check_and_approve acid cs = save_attached acid
           (if s = STATUS_APPROVED then c\<lparr>ac_status := s, ac_percentage := 100\<rparr> else c\<lparr>ac_status := s\<rparr>) cs)"
    by (auto simp: check_and_approve_def split: list.splits option.splits)
  then show ?thesis using that by blast
qed

lemma check_and_approve_edits: "edits g acid cs (check_and_approve acid cs)"
proof (rule check_and_approve_cases [of acid cs])
  fix s c
  assume c: "cs_attached cs acid = Some c"
    and eq: "check_and_approve acid cs =
         save_attached acid
           (if s = STATUS_APPROVED then c\<lparr>ac_status := s, ac_percentage := 100\<rparr> else c\<lparr>ac_status := s\<rparr>) cs"
  show ?thesis unfolding eq
    by (rule edits_save [OF c]) (use percentages_ok_row [OF _ c] in \<open>auto simp: same_row_def percentage_ok_def\<close>)
qed simp

text \<open>The items stay where they are: same owner, same criterion.\<close>

definition item_place :: "'h claims_db_scheme \<Rightarrow> nat \<Rightarrow> (nat \<times> nat) option" where
  "item_place cs i = map_option (\<lambda>a. (at_owner a, at_criterion a)) (cs_items cs i)"

definition items_kept :: "'h claims_db_scheme \<Rightarrow> 'h claims_db_scheme \<Rightarrow> bool" where
  "items_kept cs cs' \<longleftrightarrow> cs_next_item cs' = cs_next_item cs \<and> item_place cs' = item_place cs"

lemma items_kept_refl [simp]: "items_kept cs cs"
  by (simp add: items_kept_def)

lemma items_kept_trans: "items_kept a b \<Longrightarrow> items_kept b c \<Longrightarrow> items_kept a c"
  by (simp add: items_kept_def)

lemma item_place_Some: "item_place cs i = Some (o', cr) \<longleftrightarrow>
    (\<exists>a. cs_items cs i = Some a \<and> at_owner a = o' \<and> at_criterion a = cr)"
  by (auto simp: item_place_def)

lemma criteria_of_place:
  "criteria_of acid cs = [i\<leftarrow>[0..<cs_next_item cs]. map_option fst (item_place cs i) = Some acid]"
  by (auto simp: criteria_of_def item_place_def intro!: filter_cong split: option.splits)

lemma items_kept_criteria_of: "items_kept cs cs' \<Longrightarrow> criteria_of acid cs' = criteria_of acid cs"
  by (simp add: criteria_of_place items_kept_def)

lemma items_kept_save: 
  "cs_items cs i = Some a \<Longrightarrow> at_owner b = at_owner a \<Longrightarrow> at_criterion b = at_criterion a \<Longrightarrow>
   items_kept cs (save_item i b cs)"
  by (auto simp: items_kept_def item_place_def fun_eq_iff)

lemma items_kept_save_attached [simp]: "items_kept cs (save_attached i c cs)"
  by (simp add: items_kept_def item_place_def fun_eq_iff)

lemma items_kept_check [simp]: "items_kept cs (check_and_approve acid cs)"
  by (rule check_and_approve_cases [of acid cs]) simp_all

lemma criteria_of_owner: "i \<in> set (criteria_of acid cs) \<Longrightarrow> \<exists>a. cs_items cs i = Some a \<and> at_owner a = acid"
  by (auto simp: criteria_of_def split: option.splits)

lemma items_kept_owner:
  "items_kept cs d \<Longrightarrow> cs_items cs i = Some a \<Longrightarrow> \<exists>b. cs_items d i = Some b \<and> at_owner b = at_owner a \<and>
     at_criterion b = at_criterion a"
  using item_place_Some [of cs i "at_owner a" "at_criterion a"] item_place_Some [of d i "at_owner a" "at_criterion a"]
  by (auto simp: items_kept_def)

lemma criterion_verify_edits:
  assumes v: "criterion_verify env db i cs = Inr cs'" and i: "cs_items cs i = Some a"
  shows "edits g (at_owner a) cs cs' \<and> items_kept cs cs'"
proof -
  have item: "edits g x cs (save_item i b cs)" for x b
    by (rule edits_same) simp
  have kept: "items_kept cs (save_item i b cs)" if "at_owner b = at_owner a" "at_criterion b = at_criterion a" for b
    by (rule items_kept_save [OF i that])
  obtain cr c where cc: "cs_criteria cs (at_criterion a) = Some cr" "get_attached (at_owner a) cs = Inr c"
    using v i by (auto simp: criterion_verify_def rbind_eq_Inr)
  show ?thesis
  proof (cases "cr_verification cr = VERIFICATION_TYPE_SYSTEM")
    case True
    then obtain b where "cs' = check_and_approve (at_owner a) (save_item i b cs)"
      "at_owner b = at_owner a" "at_criterion b = at_criterion a"
      using v i cc by (auto simp: criterion_verify_def rbind_eq_Inr split: prod.splits)
    then show ?thesis
      by (auto intro: edits_trans [OF item check_and_approve_edits] items_kept_trans [OF kept items_kept_check])
  next
    case False
    then show ?thesis using v i cc item kept
      by (auto simp: criterion_verify_def split: if_splits)
  qed
qed

lemma rfold_criterion_edits:
  assumes f: "rfold f (criteria_of acid cs) cs = Inr cs'"
    and step: "\<And>i a d d'. cs_items d i = Some a \<Longrightarrow> at_owner a = acid \<Longrightarrow> f i d = Inr d' \<Longrightarrow>
       edits g acid d d' \<and> items_kept d d'"
  shows "edits g acid cs cs' \<and> items_kept cs cs'"
proof (rule rfold_invariant [OF f])
  fix i d d'
  assume i: "i \<in> set (criteria_of acid cs)" and d: "edits g acid cs d \<and> items_kept cs d" and s: "f i d = Inr d'"
  obtain a where "cs_items cs i = Some a" "at_owner a = acid" using criteria_of_owner [OF i] by blast
  then obtain b where "cs_items d i = Some b" "at_owner b = acid" using items_kept_owner d by blast
  from step [OF this s] show "edits g acid cs d' \<and> items_kept cs d'"
    using d by (blast intro: edits_trans items_kept_trans)
qed simp


text \<open>Shares of sources with non-negative quantities are shares.\<close>

definition sources_nonneg :: "'c stock_db \<Rightarrow> bool" where
  "sources_nonneg db \<longleftrightarrow> (\<forall>s\<in>set (st_sources db). 0 \<le> sb_quantity s)"

lemma share_step_bounds:
  assumes s: "share_step clm cs sb (t, v) = Inr (t', v')" and ok: "percentages_ok cs" and q: "0 \<le> sb_quantity sb"
    and b: "0 \<le> v" "v \<le> t"
  shows "0 \<le> v' \<and> v' \<le> t'"
proof -
  define ids where "ids = [c. i \<leftarrow> claims_for (sb_batch sb) clm cs,
       c \<leftarrow> (case cs_attached cs i of Some c \<Rightarrow> [c] | None \<Rightarrow> []), ac_status c = STATUS_APPROVED]"
  have pct: "percentage_ok c" if "c \<in> set ids" for c
    using that percentages_ok_row [OF ok] unfolding ids_def by (auto split: option.splits if_splits)
  have step: "(case ids of [] \<Rightarrow> Inr (t + of_int (sb_quantity sb), v)
     | [c] \<Rightarrow> Inr (t + of_int (sb_quantity sb), v + of_int (sb_quantity sb) * (ac_percentage c / 100))
     | _ \<Rightarrow> Inl MultipleObjectsReturned) = Inr (t', v')"
    using s by (simp only: share_step_def Let_def prod.case ids_def)
  have q': "0 \<le> (of_int (sb_quantity sb) :: rat)" using q by simp
  show ?thesis
  proof (cases ids)
    case Nil
    then show ?thesis using step b q' by auto
  next
    case (Cons c rest)
    then have eq: "t' = t + of_int (sb_quantity sb)" "v' = v + of_int (sb_quantity sb) * (ac_percentage c / 100)"
      using step by (auto split: list.splits)
    have p: "0 \<le> ac_percentage c / 100" "ac_percentage c / 100 \<le> 1"
      using pct [of c] Cons by (auto simp: percentage_ok_def)
    have "0 \<le> of_int (sb_quantity sb) * (ac_percentage c / 100)" using q' p by simp
    moreover have "of_int (sb_quantity sb) * (ac_percentage c / 100) \<le> of_int (sb_quantity sb)"
      using mult_left_mono [OF p(2) q'] by simp
    ultimately show ?thesis using eq b by linarith
  qed
qed

lemma inherited_percentage_bounds:
  assumes r: "inherited_percentage db bid clm cs = Inr p" and ok: "percentages_ok cs" and q: "sources_nonneg db"
  shows "0 \<le> p \<and> p \<le> 100"
proof -
  obtain t tot v where f: "rfold (share_step clm cs) [s\<leftarrow>st_sources db. sb_tx s = t] (0, 0) = Inr (tot, v)"
    and p: "p = percentage v tot"
    using r by (auto simp: inherited_percentage_def rbind_eq_Inr)
  have "case (tot, v) of (t, v) \<Rightarrow> 0 \<le> v \<and> v \<le> t"
  proof (rule rfold_invariant [OF f])
    fix sb s s' assume sb: "sb \<in> set [s\<leftarrow>st_sources db. sb_tx s = t]"
      and i: "case s of (t, v) \<Rightarrow> 0 \<le> v \<and> v \<le> t" and st: "share_step clm cs sb s = Inr s'"
    obtain x y where s: "s = (x, y)" by (cases s)
    obtain x' y' where s': "s' = (x', y')" by (cases s')
    have "0 \<le> sb_quantity sb" using sb q by (auto simp: sources_nonneg_def)
    from share_step_bounds [OF st [unfolded s s'] ok this] i
    show "case s' of (t, v) \<Rightarrow> 0 \<le> v \<and> v \<le> t" unfolding s s' by simp
  qed simp
  then show ?thesis unfolding p by (simp add: percentage_bounds)
qed

lemma batch_claim_verify_edits:
  assumes v: "batch_claim_verify env db acid cs = Inr cs'"
  shows "edits (sources_nonneg db) acid cs cs' \<and> items_kept cs cs'"
proof -
  obtain c cl bid where c: "cs_attached cs acid = Some c" "cs_claims cs (ac_claim c) = Some cl" "target_batch c = Inr bid"
    using v by (auto simp: batch_claim_verify_def rbind_eq_Inr get_attached_def get_claim_def)
  define cs1 where "cs1 = (if ac_verifier c = None \<and> cl_verifiers cl = [] \<and> cl_verified_by cl = VERIFIED_BY_NONE
                  then save_attached acid (c\<lparr>ac_status := STATUS_APPROVED\<rparr>) cs else cs)"
  have 1: "edits (sources_nonneg db) acid cs cs1" unfolding cs1_def
    using percentages_ok_row [OF _ c(1)]
    by (auto intro!: edits_save [OF c(1)] simp: same_row_def percentage_ok_def)
  have k1: "items_kept cs cs1" by (simp add: cs1_def)
  obtain cs2 where cs2: "rfold (criterion_verify env db) (criteria_of acid cs1) cs1 = Inr cs2"
    and rest: "(if ac_from c = ATTACHED_BY_INHERITANCE then
              rbind (inherited_percentage db bid (ac_claim c) cs2) (\<lambda>p.
              rbind (get_attached acid cs2) (\<lambda>c2.
                Inr (save_attached acid (c2\<lparr>ac_percentage := p\<rparr>) cs2)))
            else Inr (check_and_approve acid cs2)) = Inr cs'"
    using v c by (auto simp: batch_claim_verify_def rbind_eq_Inr get_attached_def get_claim_def cs1_def Let_def)
  have 2: "edits (sources_nonneg db) acid cs1 cs2 \<and> items_kept cs1 cs2"
    by (rule rfold_criterion_edits [OF cs2]) (use criterion_verify_edits in blast)
  have 3: "edits (sources_nonneg db) acid cs2 cs' \<and> items_kept cs2 cs'"
  proof (cases "ac_from c = ATTACHED_BY_INHERITANCE")
    case True
    then obtain p c2 where p: "inherited_percentage db bid (ac_claim c) cs2 = Inr p" "cs_attached cs2 acid = Some c2"
      "cs' = save_attached acid (c2\<lparr>ac_percentage := p\<rparr>) cs2"
      using rest by (auto simp: rbind_eq_Inr get_attached_def)
    have "edits (sources_nonneg db) acid cs2 (save_attached acid (c2\<lparr>ac_percentage := p\<rparr>) cs2)"
      by (rule edits_save [OF p(2)])
        (use inherited_percentage_bounds [OF p(1)] in \<open>auto simp: same_row_def percentage_ok_def\<close>)
    then show ?thesis unfolding p(3) by simp
  next
    case False
    then show ?thesis using rest by (auto intro: check_and_approve_edits)
  qed
  show ?thesis using 1 2 3 k1 by (blast intro: edits_trans items_kept_trans)
qed


section \<open>Verification requests\<close>

lemma fold_approve_attached: "same_attached cs (fold approve_item is' cs)"
  by (rule same_attached_fold) simp

lemma company_claim_verify_edits:
  assumes "company_claim_verify acid cs = Inr (cs', b)"
  shows "edits g acid cs cs'"
proof -
  obtain c where c: "cs_attached cs acid = Some c"
    using assms by (auto simp: company_claim_verify_def rbind_eq_Inr get_attached_def)
  define d where "d = fold approve_item (criteria_of acid cs) cs"
  have d: "edits g acid cs d" unfolding d_def by (rule edits_same [OF fold_approve_attached])
  have row: "cs_attached d acid = Some c"
    using fold_approve_attached c unfolding d_def by (metis same_attached_def)
  have "edits g acid d (save_attached acid (c\<lparr>ac_status := STATUS_APPROVED\<rparr>) d)"
    by (rule edits_save [OF row]) (use percentages_ok_row [OF _ row] in \<open>auto simp: same_row_def percentage_ok_def\<close>)
  then show ?thesis using assms c edits_trans [OF d]
    by (auto simp: company_claim_verify_def company_claim_approve_def get_attached_def rbind_eq_Inr d_def
        split: if_splits)
qed

lemma attached_verify_edits:
  assumes "attached_verify env db acid cs = Inr cs'"
  shows "edits (sources_nonneg db) acid cs cs'"
proof -
  obtain c cl where c: "get_attached acid cs = Inr c" "get_claim (ac_claim c) cs = Inr cl"
    using assms by (auto simp: attached_verify_def rbind_eq_Inr)
  show ?thesis
  proof (cases "claim_object c cl")
    case None
    then show ?thesis using assms c by (simp add: attached_verify_def)
  next
    case (Some tgt)
    then show ?thesis using assms c
      by (cases tgt) (auto simp: attached_verify_def rbind_eq_Inr split: prod.splits
          dest: batch_claim_verify_edits company_claim_verify_edits)
  qed
qed

text \<open>The row that a new message request saves.\<close>

lemma log_to_blockchain_row:
  assumes "cs_attached cs acid = Some row"
  shows "cs_attached (log_to_blockchain env acid p cs) =
     (if attached_message_pre_check env p \<and> ac_bc_id p = [] \<and> ac_request p = None
      then (cs_attached cs)(acid \<mapsto> p\<lparr>ac_request := Some (ce_new_request env), ac_percentage := ac_percentage row\<rparr>)
      else cs_attached cs)"
  using assms by (simp add: log_to_blockchain_def Let_def split: option.splits)

lemma log_to_blockchain_edits:
  assumes row: "cs_attached cs acid = Some row" and p: "same_row row p"
  shows "edits g acid cs (log_to_blockchain env acid p cs)"
proof -
  let ?new = "p\<lparr>ac_request := Some (ce_new_request env), ac_percentage := ac_percentage row\<rparr>"
  have m: "edits g acid d (d\<lparr>cs_messages := x\<rparr>)" for d :: "'a claims_db_scheme" and x
    by (rule edits_same) simp
  have s: "edits g acid cs (save_attached acid ?new cs)"
    by (rule edits_save [OF row]) (use p percentages_ok_row [OF _ row] in \<open>auto simp: same_row_def percentage_ok_def\<close>)
  show ?thesis using row edits_trans [OF s m] m
    by (simp add: log_to_blockchain_def Let_def split: option.splits)
qed

lemma verification_update_edits:
  assumes v: "verification_update env db node acid status note cs = Inr cs'" and c: "cs_attached cs acid = Some c"
  shows "edits (sources_nonneg db) acid cs cs'"
proof -
  define p where "p = c\<lparr>ac_status := (case status of Some s \<Rightarrow> s | None \<Rightarrow> ac_status c),
                 ac_note := (case note of Some n \<Rightarrow> n | None \<Rightarrow> ac_note c)\<rparr>"
  have p: "same_row c p" by (simp add: p_def same_row_def)
  obtain cs2 where cs2: "attached_verify env db acid (save_attached acid p cs) = Inr cs2"
    and cs': "cs' = (if ac_status p = STATUS_APPROVED then log_to_blockchain env acid p cs2 else cs2)"
    using v c by (auto simp: verification_update_def get_attached_def rbind_eq_Inr Let_def p_def)
  have 1: "edits (sources_nonneg db) acid cs (save_attached acid p cs)"
    by (rule edits_save [OF c p]) (use percentages_ok_row [OF _ c] in \<open>auto simp: p_def percentage_ok_def\<close>)
  have 2: "edits (sources_nonneg db) acid (save_attached acid p cs) cs2"
    by (rule attached_verify_edits [OF cs2])
  obtain r where r: "cs_attached cs2 acid = Some r" "same_row p r"
    by (rule edits_row [OF 2]) simp
  have "same_row r p" using r(2) by (simp add: same_row_def)
  then have "edits (sources_nonneg db) acid cs2 cs'"
    unfolding cs' using log_to_blockchain_edits [OF r(1)] by simp
  then show ?thesis using edits_trans [OF edits_trans [OF 1 2]] by blast
qed

section \<open>Manual verification\<close>

definition manual_item :: "nat \<Rightarrow> 'h claims_db_scheme \<Rightarrow> nat \<Rightarrow> bool" where
  "manual_item acid cs i \<longleftrightarrow>
     (case cs_items cs i of
        Some a \<Rightarrow> at_owner a = acid \<and>
          (case cs_criteria cs (at_criterion a) of
             Some cr \<Rightarrow> cr_verification cr = VERIFICATION_TYPE_MANUAL | None \<Rightarrow> False)
      | None \<Rightarrow> False)"

definition settle_items :: "nat list \<Rightarrow> claim_status \<Rightarrow> 'h claims_db_scheme \<Rightarrow> 'h claims_db_scheme" where
  "settle_items is' s cs =
     cs\<lparr>cs_items := (\<lambda>i. if i \<in> set is' then map_option (\<lambda>a. a\<lparr>at_status := s\<rparr>) (cs_items cs i) else cs_items cs i)\<rparr>"

lemma criterion_verify_manual:
  assumes i: "manual_item acid cs i" and c: "cs_attached cs acid = Some c"
    and s: "ac_status c = STATUS_APPROVED \<or> ac_status c = STATUS_REJECTED"
  shows "criterion_verify env db i cs = Inr (settle_items [i] (ac_status c) cs)"
proof -
  obtain a cr where a: "cs_items cs i = Some a" "at_owner a = acid" "cs_criteria cs (at_criterion a) = Some cr"
    "cr_verification cr = VERIFICATION_TYPE_MANUAL"
    using i unfolding manual_item_def by (auto split: option.splits)
  have "settle_items [i] (ac_status c) cs = save_item i (a\<lparr>at_status := ac_status c\<rparr>) cs"
    using a by (auto simp: settle_items_def save_item_def fun_eq_iff intro!: claims_db.equality)
  then show ?thesis using a c s by (auto simp: criterion_verify_def get_attached_def)
qed

lemma settle_items_keeps [simp]:
  "cs_attached (settle_items is' s cs) = cs_attached cs" "cs_criteria (settle_items is' s cs) = cs_criteria cs"
  "cs_next_item (settle_items is' s cs) = cs_next_item cs" "cs_claims (settle_items is' s cs) = cs_claims cs"
  "settle_items [] s cs = cs"
  by (simp_all add: settle_items_def)

lemma settle_items_manual [simp]: "manual_item acid (settle_items is' s cs) i = manual_item acid cs i"
  by (auto simp: manual_item_def settle_items_def split: option.splits)

lemma settle_items_Cons: "settle_items is' s (settle_items [i] s cs) = settle_items (i # is') s cs"
  by (auto simp: settle_items_def fun_eq_iff option.map_comp comp_def intro!: claims_db.equality)

lemma rfold_criterion_manual:
  assumes "\<forall>i\<in>set is'. manual_item acid cs i" "cs_attached cs acid = Some c"
    "ac_status c = STATUS_APPROVED \<or> ac_status c = STATUS_REJECTED"
  shows "rfold (criterion_verify env db) is' cs = Inr (settle_items is' (ac_status c) cs)"
  using assms
proof (induction is' arbitrary: cs)
  case (Cons i is')
  have 1: "criterion_verify env db i cs = Inr (settle_items [i] (ac_status c) cs)"
    by (rule criterion_verify_manual) (use Cons.prems in auto)
  have 2: "rfold (criterion_verify env db) is' (settle_items [i] (ac_status c) cs) =
      Inr (settle_items is' (ac_status c) (settle_items [i] (ac_status c) cs))"
    by (rule Cons.IH) (use Cons.prems in auto)
  show ?case unfolding rfold.simps 1 rbind_simps 2 settle_items_Cons ..
qed simp


lemma remdups_constant: "xs \<noteq> [] \<Longrightarrow> \<forall>x\<in>set xs. x = s \<Longrightarrow> remdups xs = [s]"
proof (induction xs)
  case (Cons x xs)
  then show ?case by (cases xs) auto
qed simp

lemma criteria_of_settle [simp]: "criteria_of acid (settle_items is' s cs) = criteria_of acid cs"
  by (simp add: criteria_of_place settle_items_def item_place_def option.map_comp comp_def fun_eq_iff
      if_distrib cong: if_cong)

lemma item_statuses_settle:
  assumes "criteria_of acid cs \<noteq> []"
  shows "remdups (item_statuses acid (settle_items (criteria_of acid cs) s cs)) = [s]"
proof (rule remdups_constant)
  let ?d = "settle_items (criteria_of acid cs) s cs"
  have row: "\<exists>a. cs_items ?d i = Some a \<and> at_status a = s" if "i \<in> set (criteria_of acid cs)" for i
    using criteria_of_owner [OF that] that by (auto simp: settle_items_def)
  show "\<forall>x\<in>set (item_statuses acid ?d). x = s"
    using row unfolding item_statuses_def by (fastforce split: option.splits)
  from assms obtain i where i: "i \<in> set (criteria_of acid cs)" by (cases "criteria_of acid cs") auto
  from row [OF i] i show "item_statuses acid ?d \<noteq> []"
    unfolding item_statuses_def by (auto split: option.splits)
qed

lemma batch_claim_verify_manual:
  assumes c: "cs_attached cs acid = Some c" and cl: "cs_claims cs (ac_claim c) = Some cl"
    and b: "ac_target c = OnBatch bid" and v: "ac_verifier c \<noteq> None" and f: "ac_from c \<noteq> ATTACHED_BY_INHERITANCE"
    and s: "ac_status c = STATUS_APPROVED \<or> ac_status c = STATUS_REJECTED"
    and ne: "criteria_of acid cs \<noteq> []" and m: "\<forall>i\<in>set (criteria_of acid cs). manual_item acid cs i"
  shows "batch_claim_verify env db acid cs = Inr (save_attached acid
     (if ac_status c = STATUS_APPROVED then c\<lparr>ac_percentage := 100\<rparr> else c)
     (settle_items (criteria_of acid cs) (ac_status c) cs))"
proof -
  let ?d = "settle_items (criteria_of acid cs) (ac_status c) cs"
  have "check_and_approve acid ?d =
      save_attached acid (if ac_status c = STATUS_APPROVED then c\<lparr>ac_percentage := 100\<rparr> else c) ?d"
  proof (cases "ac_status c = STATUS_APPROVED")
    case True
    then have "c\<lparr>ac_status := STATUS_APPROVED, ac_percentage := 100\<rparr> = c\<lparr>ac_percentage := 100\<rparr>"
      by (cases c) simp
    then show ?thesis
      unfolding check_and_approve_def item_statuses_settle [OF ne] settle_items_keeps c True by simp
  next
    case False
    have "c\<lparr>ac_status := ac_status c\<rparr> = c" by simp
    then show ?thesis
      unfolding check_and_approve_def item_statuses_settle [OF ne] settle_items_keeps c using False by simp
  qed
  then show ?thesis using assms rfold_criterion_manual [OF m c s, of env db]
    by (auto simp: batch_claim_verify_def get_attached_def get_claim_def target_batch_def)
qed


lemma log_to_blockchain_items [simp]: "cs_items (log_to_blockchain env acid p cs) = cs_items cs"
  by (simp add: log_to_blockchain_def Let_def split: option.splits)

section \<open>A small example\<close>

text \<open>Batch 7 of company 2 was bought from \<open>supplier\<close> in transaction 3; node 9 is a farm.\<close>

definition demo_trade :: "nat \<Rightarrow> unit stock_db" where
  "demo_trade supplier =
     \<lparr>st_batches = [6 \<mapsto> (demo_batch 0)\<lparr>b_node := supplier\<rparr>,
                   7 \<mapsto> (demo_batch 1000)\<lparr>b_node := 2, b_source_tx := Some 3, b_parents := [6]\<rparr>], st_next_batch = 8,
      st_txs = [3 \<mapsto> \<lparr>tx_kind = External OUTGOING supplier 2, tx_status = TX_CREATED, tx_comment = [], tx_attrs = []\<rparr>],
      st_next_tx = 4, st_parents = (\<lambda>_. []), st_sources = [\<lparr>sb_tx = 3, sb_batch = 6, sb_quantity = 1000\<rparr>],
      st_farmers = [], st_products = Map.empty, st_owners = [],
      st_node_type = (\<lambda>n. if n = 9 then NODE_FARM else NODE_COMPANY),
      st_requests = Map.empty, st_followups = [], st_rest = ()\<rparr>"

definition demo_claim :: claim where
  "demo_claim = \<lparr>cl_name = ''Organic'', cl_type = CLAIM_TYPE_PRODUCT, cl_scope = CLAIM_SCOPE_GLOBAL,
     cl_proportional = False, cl_removable = True, cl_inheritable = INHERITANCE_TYPE_ALL,
     cl_verified_by = VERIFIED_BY_THIRD_PARTY, cl_verifiers = [], cl_owners = [], cl_supply_chains = [],
     cl_reference = 3, cl_version = 1, cl_active = True, cl_latest = True, cl_processor = TRACE\<rparr>"

definition demo_criterion :: "verifier_key option \<Rightarrow> criterion" where
  "demo_criterion k = \<lparr>cr_claim = 3, cr_name = ''Soil'', cr_mandatory = True,
     cr_verification = (if k = None then VERIFICATION_TYPE_MANUAL else VERIFICATION_TYPE_SYSTEM),
     cr_verifier = k, cr_reference = 3, cr_version = 1\<rparr>"

text \<open>The claim 3 is on batch 7 as attached claim 4, sent to verifier 5.\<close>

definition demo_attached :: attached_claim where
  "demo_attached = (new_attached 3 (OnBatch 7))\<lparr>ac_verifier := Some 5, ac_attached_by := Some 2\<rparr>"

definition demo_item :: attached_criterion where
  "demo_item = \<lparr>at_owner = 4, at_criterion = 3, at_from = ATTACHED_DIRECTLY, at_status = STATUS_PENDING,
     at_info = [], at_evidence = None\<rparr>"

definition demo_claims :: "verifier_key option \<Rightarrow> claims_db" where
  "demo_claims k =
     \<lparr>cs_claims = [3 \<mapsto> demo_claim], cs_next_claim = 4, cs_criteria = [3 \<mapsto> demo_criterion k], cs_next_criterion = 4,
      cs_fields = Map.empty, cs_next_field = 1, cs_attached = [4 \<mapsto> demo_attached], cs_next_attached = 5,
      cs_items = [4 \<mapsto> demo_item], cs_next_item = 5, cs_responses = [], cs_logs = [], cs_guardian = [],
      cs_messages = [], cs_notices = [4]\<rparr>"

definition demo_claims_env :: claims_env where
  "demo_claims_env = \<lparr>ce_boundary = (\<lambda>_. True), ce_location = (\<lambda>_. (0, 0)), ce_name = (\<lambda>_. ''n''),
     ce_refuses = (\<lambda>_. False), ce_new_request = 7\<rparr>"

lemma demo_claims_sel:
  "cs_claims (demo_claims k) 3 = Some demo_claim" "cs_criteria (demo_claims k) 3 = Some (demo_criterion k)"
  "cs_attached (demo_claims k) 4 = Some demo_attached" "cs_items (demo_claims k) 4 = Some demo_item"
  "criteria_of 4 (demo_claims k) = [4]"
  by (simp_all add: criteria_of_def demo_claims_def demo_item_def upt_rec)

lemmas demo_row_defs = demo_claims_sel demo_claim_def demo_criterion_def demo_attached_def demo_item_def new_attached_def

lemma demo_claims_inv: "claims_inv (demo_claims k)"
  by (simp add: claims_inv_def percentages_ok_def percentage_ok_def attached_once_def attachment_def
      demo_claims_def demo_attached_def new_attached_def)

section \<open>Properties of verification\<close>


lemma demo_verification: "is_ok (verification_update demo_claims_env (demo_trade 9) 5 4 (Some STATUS_APPROVED) None (demo_claims None))"
  by code_simp



text \<open>
  When the verifier of a product claim that was attached directly approves or rejects it, and the claim has
  criteria, all verified by hand, the update returns, the claim and every one of its criteria get that status, an
  approved claim has percentage 100, and no other claim and no other criterion changes.
\<close>

theorem verification_settles:
  assumes c: "cs_attached cs acid = Some c" and cl: "cs_claims cs (ac_claim c) = Some cl" "cl_type cl = CLAIM_TYPE_PRODUCT"
    and b: "ac_target c = OnBatch bid" "st_batches db bid = Some b" "b_source_tx b \<noteq> None"
    and v: "ac_verifier c = Some node" "ac_attached_by c \<noteq> None" "ac_status c \<notin> {STATUS_APPROVED, STATUS_REJECTED}"
    and f: "ac_from c \<noteq> ATTACHED_BY_INHERITANCE" and s: "s \<in> {STATUS_APPROVED, STATUS_REJECTED}"
    and ne: "criteria_of acid cs \<noteq> []" and m: "\<forall>i\<in>set (criteria_of acid cs). manual_item acid cs i"
  shows "\<exists>cs' c'. verification_update env db node acid (Some s) remark cs = Inr cs' \<and>
     cs_attached cs' acid = Some c' \<and> ac_status c' = s \<and>
     ac_percentage c' = (if s = STATUS_APPROVED then 100 else ac_percentage c) \<and>
     (\<forall>i. i \<noteq> acid \<longrightarrow> cs_attached cs' i = cs_attached cs i) \<and>
     (\<forall>i. cs_items cs' i = (if i \<in> set (criteria_of acid cs)
        then map_option (\<lambda>a. a\<lparr>at_status := s\<rparr>) (cs_items cs i) else cs_items cs i))"
proof -
  define p where "p = c\<lparr>ac_status := s, ac_note := (case remark of Some n \<Rightarrow> n | None \<Rightarrow> ac_note c)\<rparr>"
  define q where "q = (if s = STATUS_APPROVED then p\<lparr>ac_percentage := 100\<rparr> else p)"
  define cs1 where "cs1 = save_attached acid p cs"
  define cs2 where "cs2 = save_attached acid q (settle_items (criteria_of acid cs1) s cs1)"
  define cs3 where "cs3 = (if s = STATUS_APPROVED then log_to_blockchain env acid p cs2 else cs2)"
  have crit: "criteria_of acid cs1 = criteria_of acid cs"
    by (rule items_kept_criteria_of) (simp add: cs1_def)
  have manual: "manual_item acid cs1 i = manual_item acid cs i" for i
    by (simp add: manual_item_def cs1_def split: option.splits)
  have "batch_claim_verify env db acid cs1 = Inr cs2"
    using batch_claim_verify_manual [of cs1 acid p cl bid env db] assms crit manual
    by (simp add: cs1_def cs2_def p_def q_def)
  then have "attached_verify env db acid cs1 = Inr cs2"
    using cl b by (simp add: attached_verify_def get_attached_def get_claim_def claim_object_def cs1_def p_def)
  then have upd: "verification_update env db node acid (Some s) remark cs = Inr cs3"
    using assms by (auto simp: verification_update_def verification_guard_def get_attached_def get_claim_def
        claim_object_def cs1_def p_def cs3_def Let_def)
  have row: "cs_attached cs2 acid = Some q" by (simp add: cs2_def)
  have "cs_attached cs2 i = cs_attached cs i" if "i \<noteq> acid" for i
    using that by (simp add: cs2_def cs1_def)
  then have others: "cs_attached cs3 i = cs_attached cs i" if "i \<noteq> acid" for i
    using that log_to_blockchain_row [OF row, of env p] unfolding cs3_def by simp
  have items: "cs_items cs3 = cs_items (settle_items (criteria_of acid cs) s cs1)"
    by (simp add: cs3_def cs2_def crit)
  have p: "ac_status p = s" and q: "ac_status q = s"
      "ac_percentage q = (if s = STATUS_APPROVED then 100 else ac_percentage c)"
    by (simp_all add: q_def p_def)
  have "cs_attached cs3 acid = Some q \<or>
      cs_attached cs3 acid = Some (p\<lparr>ac_request := Some (ce_new_request env), ac_percentage := ac_percentage q\<rparr>)"
    using log_to_blockchain_row [OF row, of env p] row unfolding cs3_def by simp
  then have "\<exists>c'. cs_attached cs3 acid = Some c' \<and> ac_status c' = s \<and>
      ac_percentage c' = (if s = STATUS_APPROVED then 100 else ac_percentage c)"
    using p q by auto
  then show ?thesis using upd others items by (auto simp: settle_items_def cs1_def)
qed

theorem verification_settles_witness:
  "\<exists>cs' c'. verification_update demo_claims_env (demo_trade 9) 5 4 (Some STATUS_REJECTED) None (demo_claims None) = Inr cs' \<and>
     cs_attached cs' 4 = Some c' \<and> ac_status c' = STATUS_REJECTED"
proof -
  have "\<forall>i\<in>set (criteria_of 4 (demo_claims None)). manual_item 4 (demo_claims None) i"
    by (simp add: manual_item_def demo_row_defs)
  from verification_settles [where cs = "demo_claims None" and acid = "4" and c = demo_attached and cl = demo_claim
      and bid = "7" and s = STATUS_REJECTED and node = "5" and remark = None and env = demo_claims_env
      and db = "demo_trade 9", OF _ _ _ _ _ _ _ _ _ _ _ _ this]
  show ?thesis by (auto simp: demo_row_defs demo_trade_def)
qed


text \<open>
  When the verifier approves a claim that has no message on the chain yet, the claim ends approved whatever its
  criteria say: storing the message request writes the approved copy of the row over the status that
  the criteria gave. A claim whose only criterion the system rejects is approved.
\<close>

theorem approval_overrides_criteria:
  assumes v: "verification_update env db node acid (Some STATUS_APPROVED) remark cs = Inr cs'"
    and c: "cs_attached cs acid = Some c" and m: "ac_request c = None" "ac_bc_id c = []" "ac_bc_address c = []"
  shows "\<exists>c'. cs_attached cs' acid = Some c' \<and> ac_status c' = STATUS_APPROVED \<and>
     ac_request c' = Some (ce_new_request env)"
proof -
  define p where "p = c\<lparr>ac_status := STATUS_APPROVED, ac_note := (case remark of Some n \<Rightarrow> n | None \<Rightarrow> ac_note c)\<rparr>"
  obtain cs2 where cs2: "attached_verify env db acid (save_attached acid p cs) = Inr cs2"
    and cs': "cs' = log_to_blockchain env acid p cs2"
    using v c by (auto simp: verification_update_def get_attached_def rbind_eq_Inr Let_def p_def)
  obtain r where r: "cs_attached cs2 acid = Some r"
    by (rule edits_row [OF attached_verify_edits [OF cs2]]) simp
  have "attached_message_pre_check env p" "ac_bc_id p = []" "ac_request p = None" "ac_status p = STATUS_APPROVED"
    using m by (simp_all add: attached_message_pre_check_def p_def)
  then show ?thesis unfolding cs' log_to_blockchain_row [OF r] by simp
qed

lemma demo_system_rejection:
  "case verification_update demo_claims_env (demo_trade 8) 5 4 (Some STATUS_APPROVED) None (demo_claims (Some FARMER_VERIFIER)) of
     Inr cs' \<Rightarrow> map_option at_status (cs_items cs' 4) = Some STATUS_REJECTED
   | Inl _ \<Rightarrow> False"
  by code_simp

theorem approval_overrides_criteria_witness:
  "\<exists>cs'. verification_update demo_claims_env (demo_trade 8) 5 4 (Some STATUS_APPROVED) None (demo_claims (Some FARMER_VERIFIER)) = Inr cs' \<and>
     map_option at_status (cs_items cs' 4) = Some STATUS_REJECTED \<and>
     map_option ac_status (cs_attached cs' 4) = Some STATUS_APPROVED"
proof -
  obtain cs' where v: "verification_update demo_claims_env (demo_trade 8) 5 4 (Some STATUS_APPROVED) None
      (demo_claims (Some FARMER_VERIFIER)) = Inr cs'" and i: "map_option at_status (cs_items cs' 4) = Some STATUS_REJECTED"
    using demo_system_rejection by (auto split: sum.splits)
  from approval_overrides_criteria [OF v demo_claims_sel(3)] v i show ?thesis by (auto simp: demo_row_defs)
qed

end
