(* ===== verification/Claims_Inheritance.thy ===== *)
theory Claims_Inheritance
  imports Claims_Properties
begin

text \<open>
  Attaching and inheriting claims: every operation on claims keeps the invariant
  \<open>claims_inv\<close>, inheritance gives a batch the approved claims of its sources and leaves the
  old rows alone, and the two ways in which the code computes an inherited percentage differ.
\<close>

section \<open>New rows\<close>

text \<open>\<open>extends cs cs'\<close>: the rows that were there are there unchanged.\<close>

definition extends :: "'h claims_db_scheme \<Rightarrow> 'h claims_db_scheme \<Rightarrow> bool" where
  "extends cs cs' \<longleftrightarrow> cs_next_attached cs \<le> cs_next_attached cs' \<and> cs_claims cs' = cs_claims cs \<and>
     cs_criteria cs' = cs_criteria cs \<and>
     (\<forall>i c. cs_attached cs i = Some c \<longrightarrow> cs_attached cs' i = Some c)"

lemma extends_refl [simp]: "extends cs cs"
  by (simp add: extends_def)

lemma extends_trans: "extends a b \<Longrightarrow> extends b c \<Longrightarrow> extends a c"
  by (auto simp: extends_def)

lemma extends_same: "same_attached cs cs' \<Longrightarrow> extends cs cs'"
  by (simp add: extends_def same_attached_def)

lemma extends_edits: "edits g acid cs cs' \<Longrightarrow> cs_attached cs acid = None \<Longrightarrow> extends cs cs'"
  unfolding extends_def edits_def by (metis option.distinct(1) order_refl)

lemma extends_edits_new:
  assumes "extends cs d" "edits g acid d d'" "cs_attached cs acid = None"
  shows "extends cs d'"
  using assms unfolding extends_def edits_def by (metis option.distinct(1))

lemma claims_for_iff:
  "i \<in> set (claims_for b clm cs) \<longleftrightarrow> i < cs_next_attached cs \<and> attachment cs i = Some (clm, OnBatch b)"
  by (auto simp: claims_for_def batch_claims_def attachment_def split: option.splits)

lemma batch_claims_iff:
  "i \<in> set (batch_claims b cs) \<longleftrightarrow>
     i < cs_next_attached cs \<and> (\<exists>c. cs_attached cs i = Some c \<and> ac_target c = OnBatch b)"
  by (auto simp: batch_claims_def split: option.splits)

lemma claims_for_none:
  "claims_inv cs \<Longrightarrow> claims_for b clm cs = [] \<Longrightarrow> attachment cs i \<noteq> Some (clm, OnBatch b)"
  using claims_for_iff [of i b clm cs] by (auto simp: claims_inv_def attached_once_def)

lemma distinct_claims_for: "distinct (claims_for b clm cs)"
  by (simp add: claims_for_def batch_claims_def)

text \<open>The invariant is what \<open>get\<close> and \<open>get_or_create\<close> need.\<close>

lemma claims_for_at_most_one:
  assumes "claims_inv cs"
  shows "claims_for b clm cs = [] \<or> (\<exists>i. claims_for b clm cs = [i])"
proof (cases "claims_for b clm cs")
  case (Cons i rest)
  have "rest = []"
  proof (cases rest)
    case (Cons j more)
    have "attachment cs i = Some (clm, OnBatch b)" "attachment cs j = Some (clm, OnBatch b)"
      using \<open>claims_for b clm cs = i # rest\<close> Cons claims_for_iff [of i b clm cs] claims_for_iff [of j b clm cs] by auto
    then have "i = j" using assms by (auto simp: claims_inv_def attached_once_def)
    then show ?thesis using distinct_claims_for [of b clm cs] \<open>claims_for b clm cs = i # rest\<close> Cons by simp
  qed simp
  then show ?thesis using Cons by simp
qed simp

lemma create_attached_inv:
  assumes inv: "claims_inv cs" and p: "percentage_ok c"
    and new: "\<And>b. ac_target c = OnBatch b \<Longrightarrow> claims_for b (ac_claim c) cs = []"
    and r: "create_attached c cs = (cs', acid)"
  shows "claims_inv cs' \<and> extends cs cs' \<and> cs_attached cs' acid = Some c \<and> cs_attached cs acid = None"
proof -
  have acid: "acid = cs_next_attached cs" and cs': "cs_attached cs' = (cs_attached cs)(acid \<mapsto> c)"
    "cs_next_attached cs' = Suc acid" "cs_claims cs' = cs_claims cs" "cs_criteria cs' = cs_criteria cs"
    using r by (auto simp: create_attached_def Let_def)
  have "i < acid" if "attachment cs i \<noteq> None" for i
    using inv that by (simp add: acid claims_inv_def attached_once_def)
  then have free: "attachment cs acid = None" by blast
  then have free': "cs_attached cs acid = None" by (simp add: attachment_def)
  have att: "attachment cs' = (attachment cs)(acid \<mapsto> (ac_claim c, ac_target c))"
    by (auto simp: attachment_def cs' fun_eq_iff)
  have fresh: "attachment cs i \<noteq> Some (ac_claim c, OnBatch b)" if "ac_target c = OnBatch b" for i b
    using claims_for_none [OF inv new [OF that]] .
  have "percentages_ok cs'" using inv p by (simp add: claims_inv_def percentages_ok_def cs')
  moreover have "i < cs_next_attached cs'" if "attachment cs' i \<noteq> None" for i
    using that inv unfolding att cs' acid claims_inv_def attached_once_def
    by (cases "i = acid") (auto simp: acid intro: less_SucI)
  moreover have "i = j" if "attachment cs' i = Some (clm, OnBatch b)" "attachment cs' j = Some (clm, OnBatch b)" for i j clm b
    using that fresh inv unfolding att claims_inv_def attached_once_def
    by (cases "i = acid"; cases "j = acid") auto
  ultimately have "claims_inv cs'" by (simp add: claims_inv_def attached_once_def)
  then show ?thesis using free' acid by (auto simp: extends_def cs')
qed

lemma get_or_create_claim_inv:
  assumes inv: "claims_inv cs" and r: "get_or_create_claim bid clm cs = Inr (cs', acid, created)"
  shows "claims_inv cs' \<and> extends cs cs' \<and> (\<exists>c. cs_attached cs' acid = Some c \<and> ac_claim c = clm \<and> ac_target c = OnBatch bid) \<and>
     (if created then cs_attached cs acid = None \<and> cs_attached cs' acid = Some (new_attached clm (OnBatch bid)) else cs' = cs)"
proof -
  consider "claims_for bid clm cs = []" | i where "claims_for bid clm cs = [i]"
    using claims_for_at_most_one [OF inv] by blast
  then show ?thesis
  proof cases
    case 1
    obtain d i where d: "create_attached (new_attached clm (OnBatch bid)) cs = (d, i)" by fastforce
    have "claims_inv d \<and> extends cs d \<and> cs_attached d i = Some (new_attached clm (OnBatch bid)) \<and> cs_attached cs i = None"
      by (rule create_attached_inv [OF inv _ _ d]) (simp_all add: new_attached_def percentage_ok_def 1)
    then show ?thesis using r 1 d by (auto simp: get_or_create_claim_def new_attached_def)
  next
    case 2
    then have "i \<in> set (claims_for bid clm cs)" by simp
    then have "\<exists>c. cs_attached cs i = Some c \<and> ac_claim c = clm \<and> ac_target c = OnBatch bid"
      by (auto simp: claims_for_iff attachment_def)
    then show ?thesis using r 2 inv by (auto simp: get_or_create_claim_def)
  qed
qed

section \<open>Inherited data\<close>

lemma copy_response_keeps:
  "same_attached cs (fold (copy_response i) rs cs) \<and> items_kept cs (fold (copy_response i) rs cs) \<and>
   cs_items (fold (copy_response i) rs cs) = cs_items cs"
proof -
  have 1: "same_attached cs (fold (copy_response i) rs cs)" by (rule same_attached_fold) simp
  have "cs_items (fold (copy_response i) rs cs) = cs_items cs \<and> cs_next_item (fold (copy_response i) rs cs) = cs_next_item cs"
    by (induction rs arbitrary: cs) (simp_all add: copy_response_def)
  then show ?thesis using 1 by (simp add: items_kept_def item_place_def fun_eq_iff)
qed

lemma criterion_inherit_data_edits:
  assumes "criterion_inherit_data env db t clm i cs = Inr cs'" "cs_items cs i = Some a"
  shows "edits g (at_owner a) cs cs' \<and> items_kept cs cs'"
proof -
  define d where "d = fold (copy_response i) (responses_of_sources (claim_sources db t clm cs) (at_criterion a) cs) cs"
  have d: "same_attached cs d" "items_kept cs d" "cs_items d i = Some a"
    using copy_response_keeps [of cs i "responses_of_sources (claim_sources db t clm cs) (at_criterion a) cs"] assms(2)
    unfolding d_def by simp_all
  have "criterion_verify env db i d = Inr cs'" using assms by (simp add: criterion_inherit_data_def d_def)
  from criterion_verify_edits [OF this d(3)] show ?thesis
    using edits_trans [OF edits_same [OF d(1)]] items_kept_trans [OF d(2)] by blast
qed

lemma claim_inherit_data_edits:
  assumes "claim_inherit_data env db acid cs = Inr cs'"
  shows "edits g acid cs cs' \<and> items_kept cs cs'"
proof -
  obtain c where c: "cs_attached cs acid = Some c"
    using assms by (auto simp: claim_inherit_data_def rbind_eq_Inr get_attached_def)
  show ?thesis
  proof (cases "ac_from c = ATTACHED_BY_INHERITANCE")
    case False
    then show ?thesis using assms c by (simp add: claim_inherit_data_def get_attached_def)
  next
    case True
    then obtain t cs1 c1 s where f: "rfold (criterion_inherit_data env db t (ac_claim c)) (criteria_of acid cs) cs = Inr cs1"
      and c1: "cs_attached cs1 acid = Some c1" and cs': "cs' = save_attached acid (c1\<lparr>ac_status := s\<rparr>) cs1"
      using assms c by (auto simp: claim_inherit_data_def rbind_eq_Inr get_attached_def)
    have 1: "edits g acid cs cs1 \<and> items_kept cs cs1"
      by (rule rfold_criterion_edits [OF f]) (use criterion_inherit_data_edits in blast)
    have 2: "edits g acid cs1 cs'" unfolding cs'
      by (rule edits_save [OF c1]) (use percentages_ok_row [OF _ c1] in \<open>auto simp: same_row_def percentage_ok_def\<close>)
    show ?thesis using 1 2 items_kept_save_attached unfolding cs' by (blast intro: edits_trans items_kept_trans)
  qed
qed

lemma inherit_criterion_same:
  assumes "inherit_criterion acid parent cs = Inr cs'"
  shows "same_attached cs cs'"
proof -
  obtain p where p: "cs_items cs parent = Some p" using assms by (auto simp: inherit_criterion_def rbind_eq_Inr)
  define found where "found = [i\<leftarrow>criteria_of acid cs. map_option at_criterion (cs_items cs i) = Some (at_criterion p)]"
  have "(case found of
         [] \<Rightarrow> Inr (fst (create_item
                  \<lparr>at_owner = acid, at_criterion = at_criterion p, at_from = ATTACHED_BY_INHERITANCE,
                   at_status = at_status p, at_info = ''Inherited'', at_evidence = None\<rparr> cs))
       | [i] \<Rightarrow> Inr cs
       | _ \<Rightarrow> Inl MultipleObjectsReturned) = Inr cs'"
    using assms unfolding inherit_criterion_def p of_option_simps rbind_simps found_def .
  then show ?thesis by (cases found; cases "tl found") auto
qed

lemma rfold_same_attached:
  assumes "rfold f xs cs = Inr cs'" "\<And>x d d'. f x d = Inr d' \<Longrightarrow> same_attached d d'"
  shows "same_attached cs cs'"
  by (rule rfold_invariant [OF assms(1), where P = "same_attached cs"])
    (simp, erule same_attached_trans, erule assms(2))


section \<open>Inheritance\<close>

lemma inherit_claim_step:
  assumes inv: "claims_inv cs" and r: "inherit_claim env db bid parent cs = Inr cs'"
    and p: "cs_attached cs parent = Some p"
  shows "claims_inv cs' \<and> extends cs cs' \<and>
    (ac_status p = STATUS_APPROVED \<longrightarrow> (\<exists>i. attachment cs' i = Some (ac_claim p, OnBatch bid)))"
proof (cases "ac_status p = STATUS_APPROVED")
  case False
  then show ?thesis using r p inv by (simp add: inherit_claim_def get_attached_def)
next
  case True
  obtain cs1 acid created where g: "get_or_create_claim bid (ac_claim p) cs = Inr (cs1, acid, created)"
    using r p True by (auto simp: inherit_claim_def get_attached_def rbind_eq_Inr)
  note row = get_or_create_claim_inv [OF inv g]
  show ?thesis
  proof (cases created)
    case False
    then have "cs' = cs1" "cs1 = cs" using r p True g row by (simp_all add: inherit_claim_def get_attached_def)
    then show ?thesis using row inv False by (auto simp: attachment_def)
  next
    case c: True
    let ?new = "new_attached (ac_claim p) (OnBatch bid)"
    define c2 where "c2 = ?new\<lparr>ac_from := ATTACHED_BY_INHERITANCE, ac_status := STATUS_APPROVED, ac_percentage := ac_percentage p\<rparr>"
    define cs2 where "cs2 = save_attached acid c2 cs1"
    have new: "cs_attached cs1 acid = Some ?new" "claims_inv cs1" "extends cs cs1" "cs_attached cs acid = None"
      using row c by auto
    obtain cs3 where f: "rfold (inherit_criterion acid) (criteria_of parent cs2) cs2 = Inr cs3"
      and d: "claim_inherit_data env db acid cs3 = Inr cs'"
      using r p True g c new by (auto simp: inherit_claim_def get_attached_def rbind_eq_Inr Let_def cs2_def c2_def)
    have "percentage_ok p" using inv p percentages_ok_row by (auto simp: claims_inv_def)
    then have ok: "percentage_ok c2" "attachment cs2 = attachment cs1"
      using new by (auto simp: c2_def percentage_ok_def cs2_def attachment_def new_attached_def fun_eq_iff)
    have inv2: "claims_inv cs2"
      using new(2) ok by (auto simp: claims_inv_def percentages_ok_def attached_once_def cs2_def)
    have ext2: "extends cs cs2" using new(3,4) by (auto simp: extends_def cs2_def)
    have s3: "same_attached cs2 cs3" by (rule rfold_same_attached [OF f inherit_criterion_same])
    have e: "edits True acid cs3 cs'" using claim_inherit_data_edits [OF d] by blast
    have e3: "edits True acid cs2 cs'" by (rule edits_trans [OF edits_same [OF s3] e])
    have "attachment cs' acid = Some (ac_claim p, OnBatch bid)"
      using edits_attachment [OF e3] new(1) ok(2) by (simp add: attachment_def new_attached_def)
    then show ?thesis using edits_inv [OF e3 inv2] extends_edits_new [OF ext2 e3 new(4)] by blast
  qed
qed

text \<open>One pass over the claims of a source batch, and over the sources.\<close>

lemma extends_attachment: "extends cs cs' \<Longrightarrow> attachment cs i = Some x \<Longrightarrow> attachment cs' i = Some x"
  by (auto simp: extends_def attachment_def)

lemma inherit_source:
  assumes "rfold (inherit_claim env db bid) is' cs = Inr cs'" "claims_inv cs"
    "\<forall>i\<in>set is'. cs_attached cs i \<noteq> None"
  shows "claims_inv cs' \<and> extends cs cs' \<and>
    (\<forall>i\<in>set is'. \<forall>p. cs_attached cs i = Some p \<longrightarrow> ac_status p = STATUS_APPROVED \<longrightarrow>
       (\<exists>j. attachment cs' j = Some (ac_claim p, OnBatch bid)))"
  using assms
proof (induction is' arbitrary: cs)
  case (Cons i is')
  obtain d where d: "inherit_claim env db bid i cs = Inr d" "rfold (inherit_claim env db bid) is' d = Inr cs'"
    using Cons.prems(1) by (auto simp: rbind_eq_Inr)
  obtain p where p: "cs_attached cs i = Some p" using Cons.prems(3) by auto
  note step = inherit_claim_step [OF Cons.prems(2) d(1) p]
  have keep: "cs_attached d j = Some q" if "cs_attached cs j = Some q" for j q
    using step that by (auto simp: extends_def)
  have "\<forall>j\<in>set is'. cs_attached d j \<noteq> None" using Cons.prems(3) keep by fastforce
  from Cons.IH [OF d(2) _ this] step
  have ih: "claims_inv cs'" "extends d cs'"
    "\<forall>j\<in>set is'. \<forall>p. cs_attached d j = Some p \<longrightarrow> ac_status p = STATUS_APPROVED \<longrightarrow>
       (\<exists>k. attachment cs' k = Some (ac_claim p, OnBatch bid))" by auto
  have ext: "extends cs cs'" using step ih(2) by (blast intro: extends_trans)
  have head: "ac_status p = STATUS_APPROVED \<longrightarrow> (\<exists>j. attachment cs' j = Some (ac_claim p, OnBatch bid))"
    using step extends_attachment [OF ih(2)] by blast
  show ?case
    using ih(1,3) ext p keep head by auto
qed simp

lemma inherit_sources:
  assumes "rfold (\<lambda>source cs. rfold (inherit_claim env db bid) (batch_claims source cs) cs) bs cs = Inr cs'"
    and "claims_inv cs"
  shows "claims_inv cs' \<and> extends cs cs' \<and>
    (\<forall>b\<in>set bs. \<forall>i p. cs_attached cs i = Some p \<longrightarrow> ac_target p = OnBatch b \<longrightarrow> ac_status p = STATUS_APPROVED \<longrightarrow>
       (\<exists>j. attachment cs' j = Some (ac_claim p, OnBatch bid)))"
  using assms
proof (induction bs arbitrary: cs)
  case (Cons b bs)
  obtain d where d: "rfold (inherit_claim env db bid) (batch_claims b cs) cs = Inr d"
    "rfold (\<lambda>source cs. rfold (inherit_claim env db bid) (batch_claims source cs) cs) bs d = Inr cs'"
    using Cons.prems(1) by (auto simp: rbind_eq_Inr)
  have "\<forall>i\<in>set (batch_claims b cs). cs_attached cs i \<noteq> None" by (auto simp: batch_claims_iff)
  note step = inherit_source [OF d(1) Cons.prems(2) this]
  note ih = Cons.IH [OF d(2) conjunct1 [OF step]]
  have first: "\<exists>j. attachment cs' j = Some (ac_claim p, OnBatch bid)"
    if hyp: "cs_attached cs i = Some p" "ac_target p = OnBatch b" "ac_status p = STATUS_APPROVED" for i p
  proof -
    have "attachment cs i \<noteq> None" using hyp by (simp add: attachment_def)
    then have "i < cs_next_attached cs" using Cons.prems(2) by (simp add: claims_inv_def attached_once_def)
    then have "i \<in> set (batch_claims b cs)" using hyp by (simp add: batch_claims_iff)
    then obtain j where "attachment d j = Some (ac_claim p, OnBatch bid)" using step hyp by blast
    then show ?thesis using ih extends_attachment by blast
  qed
  have later: "\<exists>j. attachment cs' j = Some (ac_claim p, OnBatch bid)"
    if hyp: "b' \<in> set bs" "cs_attached cs i = Some p" "ac_target p = OnBatch b'" "ac_status p = STATUS_APPROVED" for b' i p
  proof -
    have "cs_attached d i = Some p" using step hyp by (simp add: extends_def)
    then show ?thesis using ih hyp by blast
  qed
  show ?case using ih step first later by (auto intro: extends_trans)
qed simp

lemma inherit_claims_keeps:
  "claims_inv cs \<Longrightarrow> inherit_claims env db bid cs = Inr cs' \<Longrightarrow> claims_inv cs' \<and> extends cs cs'"
  using inherit_sources by (fastforce simp: inherit_claims_def rbind_eq_Inr)



definition demo_approved :: "rat \<Rightarrow> claims_db" where
  "demo_approved p = (demo_claims None)\<lparr>cs_attached := [4 \<mapsto> demo_attached\<lparr>ac_target := OnBatch 6,
     ac_status := STATUS_APPROVED, ac_percentage := p\<rparr>]\<rparr>"

lemma demo_inherit: "is_ok (inherit_claims demo_claims_env (demo_trade 9) 7 (demo_approved 40))"
  by code_simp

lemma demo_approved_inv: "0 \<le> p \<Longrightarrow> p \<le> 100 \<Longrightarrow> claims_inv (demo_approved p)"
  by (simp add: claims_inv_def percentages_ok_def percentage_ok_def attached_once_def attachment_def demo_approved_def
      demo_claims_def demo_attached_def new_attached_def)

lemma demo_approved_row:
  "\<exists>c. cs_attached (demo_approved p) 4 = Some c \<and> ac_claim c = 3 \<and> ac_target c = OnBatch 6 \<and> ac_status c = STATUS_APPROVED"
  by (simp add: demo_approved_def demo_attached_def new_attached_def)


section \<open>Quantities\<close>

text \<open>
  \<open>Batch.inherit_claims\<close> copies the percentage of one source, whatever was taken of it: changing the quantities of
  the sources changes nothing.
\<close>

definition requantify :: "(source_batch \<Rightarrow> int) \<Rightarrow> 'c stock_db \<Rightarrow> 'c stock_db" where
  "requantify f db = db\<lparr>st_sources := map (\<lambda>s. s\<lparr>sb_quantity := f s\<rparr>) (st_sources db)\<rparr>"

lemma requantify_sel [simp]:
  "st_batches (requantify f db) = st_batches db" "st_txs (requantify f db) = st_txs db"
  "st_parents (requantify f db) = st_parents db" "st_next_tx (requantify f db) = st_next_tx db"
  "st_node_type (requantify f db) = st_node_type db"
  by (simp_all add: requantify_def)

lemma requantify_sources [simp]: "source_batches (requantify f db) t = source_batches db t"
proof -
  have "concat (map (\<lambda>s. if sb_tx s = t then [sb_batch s] else []) (map (\<lambda>s. s\<lparr>sb_quantity := f s\<rparr>) xs)) =
      concat (map (\<lambda>s. if sb_tx s = t then [sb_batch s] else []) xs)" for xs
    by (induction xs) simp_all
  then show ?thesis by (simp add: source_batches_def requantify_def)
qed

lemma requantify_verify [simp]:
  "root_transactions (requantify f db) bid = root_transactions db bid"
  "root_source (requantify f db) = root_source db"
  "guji_step env (requantify f db) = guji_step env db"
  "farmer_step env (requantify f db) = farmer_step env db"
  "system_verify env (requantify f db) = system_verify env db"
  "criterion_verify env (requantify f db) = criterion_verify env db"
proof -
  show r: "root_transactions (requantify f db) bid = root_transactions db bid" for bid
    by (simp add: root_transactions_def)
  show s: "root_source (requantify f db) = root_source db"
    by (simp add: root_source_def fun_eq_iff)
  show g: "guji_step env (requantify f db) = guji_step env db" "farmer_step env (requantify f db) = farmer_step env db"
    by (simp_all add: guji_step_def farmer_step_def s fun_eq_iff)
  show v: "system_verify env (requantify f db) = system_verify env db"
    by (simp add: system_verify_def guji_verify_def farmer_verify_def r g fun_eq_iff split: verifier_key.splits)
  show "criterion_verify env (requantify f db) = criterion_verify env db"
    by (simp add: criterion_verify_def v fun_eq_iff cong: if_cong)
qed

lemma requantify_inherit [simp]:
  "criterion_inherit_data env (requantify f db) = criterion_inherit_data env db"
  "source_statuses (requantify f db) = source_statuses db"
  by (simp_all add: criterion_inherit_data_def claim_sources_def source_statuses_def fun_eq_iff)

lemma requantify_claim_data [simp]: "claim_inherit_data env (requantify f db) = claim_inherit_data env db"
  by (simp add: claim_inherit_data_def fun_eq_iff cong: if_cong)

lemma requantify_inherit_claim [simp]: "inherit_claim env (requantify f db) = inherit_claim env db"
  by (simp add: inherit_claim_def fun_eq_iff cong: if_cong)

text \<open>
  The percentages that inheritance gives do not depend on the quantities taken from the sources: the result is the
  same for any quantities.
\<close>

theorem inherit_claims_ignores_quantities:
  "inherit_claims env (requantify f db) bid cs = inherit_claims env db bid cs"
  by (simp add: inherit_claims_def)

text \<open>The verification of an attached claim weighs them: a reference definition.\<close>

definition approved_rows :: "nat \<Rightarrow> 'h claims_db_scheme \<Rightarrow> nat \<Rightarrow> attached_claim list" where
  "approved_rows clm cs b =
     [c. i \<leftarrow> claims_for b clm cs, c \<leftarrow> (case cs_attached cs i of Some c \<Rightarrow> [c] | None \<Rightarrow> []), ac_status c = STATUS_APPROVED]"

definition approved_share :: "nat \<Rightarrow> 'h claims_db_scheme \<Rightarrow> nat \<Rightarrow> rat" where
  "approved_share clm cs b = sum_list (map ac_percentage (approved_rows clm cs b)) / 100"

lemma share_step_eq:
  assumes "claims_inv cs"
  shows "share_step clm cs sb (t, v) = Inr (t + of_int (sb_quantity sb),
     v + of_int (sb_quantity sb) * approved_share clm cs (sb_batch sb))"
proof -
  have "approved_rows clm cs (sb_batch sb) = [] \<or> (\<exists>c. approved_rows clm cs (sb_batch sb) = [c])"
    using claims_for_at_most_one [OF assms, of "sb_batch sb" clm]
    by (auto simp: approved_rows_def split: option.splits)
  then show ?thesis
    unfolding share_step_def Let_def prod.case approved_rows_def [symmetric] approved_share_def by auto
qed

lemma rfold_share:
  assumes "claims_inv cs"
  shows "rfold (share_step clm cs) sbs (t, v) = Inr (t + sum_list [of_int (sb_quantity s). s \<leftarrow> sbs],
     v + sum_list [of_int (sb_quantity s) * approved_share clm cs (sb_batch s). s \<leftarrow> sbs])"
  by (induction sbs arbitrary: t v) (simp_all add: share_step_eq [OF assms] add.assoc)

text \<open>
  C34: When every batch has a claim at most once, the percentage that verification gives an inherited claim is the share of
  the source quantities that carries the approved claim, each source weighted by its own percentage, and computing it raises
  nothing.
\<close>

theorem inherited_percentage_weighted:
  assumes inv: "claims_inv cs" and b: "st_batches db bid = Some b" "b_source_tx b = Some t"
  shows "inherited_percentage db bid clm cs =
    (let sbs = [s\<leftarrow>st_sources db. sb_tx s = t] in
     Inr (percentage (sum_list [of_int (sb_quantity s) * approved_share clm cs (sb_batch s). s \<leftarrow> sbs])
        (sum_list [of_int (sb_quantity s). s \<leftarrow> sbs])))"
  using b by (simp add: inherited_percentage_def rfold_share [OF inv] Let_def)

theorem inherited_percentage_weighted_witness:
  "inherited_percentage (demo_trade 9) 7 3 (demo_approved 40) = Inr 40"
proof -
  define b where "b = (demo_batch 1000)\<lparr>b_node := 2, b_source_tx := Some 3, b_parents := [6]\<rparr>"
  have b: "st_batches (demo_trade 9) 7 = Some b" "b_source_tx b = Some 3"
    by (simp_all add: demo_trade_def b_def)
  have "approved_rows 3 (demo_approved 40) 6 = [demo_attached\<lparr>ac_target := OnBatch 6, ac_status := STATUS_APPROVED, ac_percentage := 40\<rparr>]"
    by code_simp
  then have s: "approved_share 3 (demo_approved 40) 6 = 40 / 100" by (simp add: approved_share_def)
  have f: "[s\<leftarrow>st_sources (demo_trade 9). sb_tx s = 3] = [\<lparr>sb_tx = 3, sb_batch = 6, sb_quantity = 1000\<rparr>]"
    by (simp add: demo_trade_def)
  have p: "percentage 400 1000 = 40" by code_simp
  have inv: "claims_inv (demo_approved 40)" by (simp add: demo_approved_inv)
  show ?thesis unfolding inherited_percentage_weighted [OF inv b] f Let_def using p by (simp add: s)
qed


section \<open>Attaching keeps the invariant\<close>

lemma edits_nonneg_inv:
  "sources_nonneg db \<Longrightarrow> edits (sources_nonneg db) acid cs cs' \<Longrightarrow> claims_inv cs \<Longrightarrow> claims_inv cs'"
  using edits_inv [of acid cs cs'] by simp

lemma same_attached_inv: "same_attached cs cs' \<Longrightarrow> claims_inv cs' = claims_inv cs"
  by (rule claims_inv_cong) (simp_all add: same_attached_def)

lemma fold_create_item: "same_attached cs (fold (\<lambda>cr cs. fst (create_item (a cr) cs)) crs cs)"
  by (rule same_attached_fold) simp

lemma save_attached_inv:
  assumes "claims_inv cs" "cs_attached cs acid = Some c" "same_row c c'" "percentage_ok c'"
  shows "claims_inv (save_attached acid c' cs)"
  by (rule edits_inv [OF edits_save [OF assms(2,3)]]) (use assms in simp_all)

lemma save_attached_inv':
  assumes "claims_inv cs" "cs_attached cs acid = Some c" "ac_claim c' = ac_claim c" "ac_target c' = ac_target c"
    "percentage_ok c'"
  shows "claims_inv (save_attached acid c' cs)"
proof -
  have "attachment (save_attached acid c' cs) = attachment cs"
    using assms by (auto simp: attachment_def fun_eq_iff)
  then show ?thesis using assms by (simp add: claims_inv_def attached_once_def percentages_ok_def)
qed

text \<open>What an accepted \<open>create\<close> did.\<close>

lemma batch_claim_create_cases:
  assumes r: "batch_claim_create env db node bid clm from verifier cs = Inr (cs', acid)"
  obtains "get_or_create_claim bid clm cs = Inr (cs', acid, False)"
  | cs1 c1 cs2 cs3 mk and crs :: "nat list" where "get_or_create_claim bid clm cs = Inr (cs1, acid, True)"
      "\<And>c. cs_attached cs1 acid = Some c \<Longrightarrow> ac_claim c1 = ac_claim c \<and> ac_target c1 = ac_target c \<and>
         ac_percentage c1 = ac_percentage c"
      "same_attached (save_attached acid c1 cs1) cs2"
      "(if from = ATTACHED_BY_INHERITANCE then claim_inherit_data env db acid cs2
        else Inr (claim_notify acid c1 cs2)) = Inr cs3"
      "batch_claim_verify env db acid cs3 = Inr cs'"
      "cs2 = fold (\<lambda>cr cs. fst (create_item (mk cr) cs)) crs (save_attached acid c1 cs1)"
proof -
  obtain cl where cl: "cs_claims cs clm = Some cl"
    using r by (cases "cs_claims cs clm") (auto simp: batch_claim_create_def get_claim_def)
  obtain b where b: "st_batches db bid = Some b"
    using r cl by (cases "st_batches db bid") (auto simp: batch_claim_create_def get_claim_def)
  obtain cs1 i created where g: "get_or_create_claim bid clm cs = Inr (cs1, i, created)"
    using r cl b by (cases "get_or_create_claim bid clm cs") (auto simp: batch_claim_create_def get_claim_def)
  show thesis
  proof (cases created)
    case False
    then show ?thesis using r cl b g that(1) by (simp add: batch_claim_create_def get_claim_def)
  next
    case True
    obtain c where c: "cs_attached cs1 i = Some c"
      using r cl b g True by (cases "cs_attached cs1 i") (auto simp: batch_claim_create_def get_claim_def get_attached_def)
    define c1 where "c1 = c\<lparr>ac_from := from,
         ac_verifier := (if cl_verified_by cl = VERIFIED_BY_SECOND_PARTY then Some (b_node b) else verifier),
         ac_attached_by := (if from = ATTACHED_BY_INHERITANCE then None else Some node)\<rparr>"
    define cs2 where "cs2 = fold (\<lambda>cr cs. fst (create_item
                        \<lparr>at_owner = i, at_criterion = cr, at_from = from, at_status = STATUS_PENDING,
                         at_info = [], at_evidence = None\<rparr> cs)) (claim_criteria clm cs1) (save_attached i c1 cs1)"
    have "rbind (if from = ATTACHED_BY_INHERITANCE then claim_inherit_data env db i cs2
                     else Inr (claim_notify i c1 cs2)) (\<lambda>cs3.
              rbind (batch_claim_verify env db i cs3) (\<lambda>cs4. Inr (cs4, i))) = Inr (cs', acid)"
      using r True
      unfolding batch_claim_create_def get_claim_def get_attached_def cl b g c of_option_simps rbind_simps prod.case
        Let_def c1_def cs2_def by (simp only: simp_thms if_True if_False)
    then obtain cs3 where steps: "(if from = ATTACHED_BY_INHERITANCE then claim_inherit_data env db i cs2
                     else Inr (claim_notify i c1 cs2)) = Inr cs3" "batch_claim_verify env db i cs3 = Inr cs'" and i: "i = acid"
      by (auto simp: rbind_eq_Inr)
    have s2: "same_attached (save_attached i c1 cs1) cs2" unfolding cs2_def by (rule fold_create_item)
    have c1: "ac_claim c1 = ac_claim x \<and> ac_target c1 = ac_target x \<and> ac_percentage c1 = ac_percentage x"
      if "cs_attached cs1 i = Some x" for x using that c by (simp add: c1_def)
    have g1: "get_or_create_claim bid clm cs = Inr (cs1, acid, True)" using g True i by simp
    show thesis
      by (rule that(2) [OF g1 _ s2 [unfolded i] steps [unfolded i] cs2_def [unfolded i]]) (rule c1 [unfolded i])
  qed
qed

lemma batch_claim_create_inv:
  assumes n: "sources_nonneg db" and inv: "claims_inv cs"
    and r: "batch_claim_create env db node bid clm from verifier cs = Inr (cs', acid)"
  shows "claims_inv cs'"
  using r
proof (cases rule: batch_claim_create_cases)
  case 1
  then show ?thesis using get_or_create_claim_inv [OF inv 1] by blast
next
  case (2 cs1 c1 cs2 cs3 mk crs)
  note row = get_or_create_claim_inv [OF inv 2(1)]
  have new: "cs_attached cs1 acid = Some (new_attached clm (OnBatch bid))" using row by simp
  have "claims_inv (save_attached acid c1 cs1)"
    by (rule save_attached_inv' [OF _ new]) (use row 2(2) [OF new] in \<open>auto simp: new_attached_def percentage_ok_def\<close>)
  then have i2: "claims_inv cs2" using same_attached_inv [OF 2(3)] by simp
  have i3: "claims_inv cs3"
  proof (cases "from = ATTACHED_BY_INHERITANCE")
    case True
    then have "claim_inherit_data env db acid cs2 = Inr cs3" using 2(4) by simp
    then have "edits True acid cs2 cs3" by (rule claim_inherit_data_edits [THEN conjunct1])
    then show ?thesis using edits_inv i2 by blast
  next
    case False
    then have "cs3 = claim_notify acid c1 cs2" using 2(4) by simp
    moreover have "same_attached cs2 (claim_notify acid c1 cs2)" by simp
    ultimately show ?thesis using same_attached_inv i2 by metis
  qed
  show ?thesis using edits_nonneg_inv [OF n _ i3] batch_claim_verify_edits [OF 2(5)] by blast
qed


lemma attach_batch_claims_inv:
  assumes "sources_nonneg db" "claims_inv cs" "attach_batch_claims env db node bid vs cs = Inr cs'"
  shows "claims_inv cs'"
  using assms(3) unfolding attach_batch_claims_def
  by (rule rfold_invariant [where P = claims_inv])
    (use assms(1,2) batch_claim_create_inv in \<open>auto simp: rbind_eq_Inr\<close>)

lemma initiate_guardian_claim_inv:
  assumes inv: "claims_inv cs" and r: "initiate_guardian_claim db t clm cs = Inr cs'"
  shows "claims_inv cs'"
proof -
  have row: "claims_inv ((save_attached i (c\<lparr>ac_status := STATUS_PENDING\<rparr>) cs)\<lparr>cs_guardian := g\<rparr>)"
    if c: "cs_attached cs i = Some c" for i c g
  proof -
    have "percentage_ok c" using inv c percentages_ok_row by (auto simp: claims_inv_def)
    then have "claims_inv (save_attached i (c\<lparr>ac_status := STATUS_PENDING\<rparr>) cs)"
      by (intro save_attached_inv' [OF inv c]) (simp_all add: percentage_ok_def)
    then show ?thesis by (subst same_attached_inv [OF same_attached_simps(6)])
  qed
  obtain cl where cl: "cs_claims cs clm = Some cl"
    using r by (auto simp: initiate_guardian_claim_def rbind_eq_Inr get_claim_def)
  show ?thesis
  proof (cases "cl_processor cl = GUARDIAN")
    case False
    then show ?thesis using r cl inv by (simp add: initiate_guardian_claim_def get_claim_def)
  next
    case True
    then show ?thesis using r cl row
      by (auto simp: initiate_guardian_claim_def get_claim_def get_attached_def rbind_eq_Inr split: list.splits)
  qed
qed

lemma attach_one_claim_inv:
  assumes n: "sources_nonneg db" and inv: "claims_inv cs" and r: "attach_one_claim env db node t v cs = Inr cs'"
  shows "claims_inv cs'"
proof -
  define frm where "frm = (if cv_inherited v then ATTACHED_BY_INHERITANCE else ATTACHED_FROM_TRANSACTION)"
  obtain cs1 lg src where f: "rfold (\<lambda>bid cs.
               rbind (of_option PyKeyError (cv_verifier v)) (\<lambda>verifier.
               rbind (batch_claim_create env db node bid (cv_claim v) frm verifier cs) (\<lambda>(cs1, _). Inr cs1)))
               (result_batches t db) cs = Inr cs1"
    and rest: "(if st_node_type db src = NODE_FARM then initiate_guardian_claim db t (cv_claim v) (cs1\<lparr>cs_logs := lg\<rparr>)
           else Inr (cs1\<lparr>cs_logs := lg\<rparr>)) = Inr cs'"
    using r unfolding attach_one_claim_def frm_def by (auto simp: rbind_eq_Inr Let_def)
  have 1: "claims_inv cs1"
    by (rule rfold_invariant [OF f]) (use n inv batch_claim_create_inv in \<open>auto simp: rbind_eq_Inr\<close>)
  then have "claims_inv (cs1\<lparr>cs_logs := lg\<rparr>)" by (subst same_attached_inv [OF same_attached_simps(8)])
  then show ?thesis using rest initiate_guardian_claim_inv by (auto split: if_splits)
qed

lemma attach_claims_inv:
  assumes "sources_nonneg db" "claims_inv cs" "attach_claims env db node t vs cs = Inr cs'"
  shows "claims_inv cs'"
  using assms(3) unfolding attach_claims_def
  by (rule rfold_invariant [where P = claims_inv]) (use assms(1,2) attach_one_claim_inv in auto)


section \<open>Company claims\<close>

lemma delete_attached_inv: "claims_inv cs \<Longrightarrow> claims_inv (delete_attached acid cs)"
proof -
  assume inv: "claims_inv cs"
  have att: "attachment (delete_attached acid cs) = (attachment cs)(acid := None)"
    by (auto simp: attachment_def delete_attached_def Let_def fun_eq_iff)
  have "percentages_ok (delete_attached acid cs)"
    using inv by (auto simp: claims_inv_def percentages_ok_def delete_attached_def Let_def)
  moreover have "attached_once (delete_attached acid cs)"
    using inv unfolding claims_inv_def attached_once_def att by (auto simp: delete_attached_def Let_def)
  ultimately show ?thesis by (simp add: claims_inv_def)
qed

lemma fold_delete_inv: "claims_inv cs \<Longrightarrow> claims_inv (fold delete_attached is' cs)"
  by (induction is' arbitrary: cs) (simp_all add: delete_attached_inv)

lemma create_company_attached_inv:
  assumes "claims_inv cs" "create_attached c cs = (cs', acid)" "ac_target c = OnNode n" "percentage_ok c"
  shows "claims_inv cs'"
  using create_attached_inv [OF assms(1,4) _ assms(2)] assms(3) by simp

lemma company_claim_create_cases:
  fixes current node clm override cs
  defines "cs0 \<equiv> (if override then fold delete_attached (company_claims_for node clm current cs) cs else cs)"
  assumes r: "company_claim_create current node clm override cs = Inr (cs', acid)"
  obtains "cs' = cs0"
  | c mk cs1 ok and crs :: "nat list" where "create_attached c cs0 = (cs1, acid)" "ac_target c = OnNode (Some node)" "ac_percentage c = 0"
      "company_claim_verify acid (claim_notify acid c (fold (\<lambda>cr cs. fst (create_item (mk cr) cs)) crs cs1)) = Inr (cs', ok)"
proof -
  obtain cl where cl: "cs_claims cs clm = Some cl"
    using r by (auto simp: company_claim_create_def rbind_eq_Inr get_claim_def)
  define c where "c = (new_attached clm (OnNode (Some node)))
       \<lparr>ac_attached_by := Some current, ac_verifier := (case cl_verifiers cl of [] \<Rightarrow> None | v # _ \<Rightarrow> Some v)\<rparr>"
  obtain cs1 i where new: "create_attached c cs0 = (cs1, i)" by fastforce
  define mk where "mk = (\<lambda>cr. \<lparr>at_owner = i, at_criterion = cr, at_from = ATTACHED_FROM_TRANSACTION,
                         at_status = STATUS_PENDING, at_info = [], at_evidence = None\<rparr>)"
  have r': "(case company_claims_for node clm current cs0 of
            [i] \<Rightarrow> Inr (cs0, i)
          | _ # _ # _ \<Rightarrow> Inl MultipleObjectsReturned
          | [] \<Rightarrow> rbind (company_claim_verify i (claim_notify i c
                (fold (\<lambda>cr cs. fst (create_item (mk cr) cs)) (claim_criteria clm cs1) cs1))) (\<lambda>(cs3, _). Inr (cs3, i))) =
        Inr (cs', acid)"
    using r new unfolding company_claim_create_def get_claim_def cl of_option_simps rbind_simps Let_def
      cs0_def [symmetric] c_def [symmetric] mk_def by (simp only: prod.case)
  show thesis
  proof (cases "company_claims_for node clm current cs0")
    case Nil
    then obtain ok where v: "company_claim_verify i (claim_notify i c
        (fold (\<lambda>cr cs. fst (create_item (mk cr) cs)) (claim_criteria clm cs1) cs1)) = Inr (cs', ok)" and i: "i = acid"
      using r' by (auto simp: rbind_eq_Inr)
    show thesis by (rule that(2) [OF new [unfolded i] _ _ v [unfolded i]]) (simp_all add: c_def new_attached_def)
  next
    case (Cons j rest)
    then show thesis using r' that(1) by (auto split: list.splits)
  qed
qed

lemma company_claim_create_inv:
  assumes inv: "claims_inv cs" and r: "company_claim_create current node clm override cs = Inr (cs', acid)"
  shows "claims_inv cs'"
  using r
proof (cases rule: company_claim_create_cases)
  case 1
  then show ?thesis by (simp add: fold_delete_inv inv)
next
  case (2 c mk cs1 ok crs)
  have "claims_inv (if override then fold delete_attached (company_claims_for node clm current cs) cs else cs)"
    by (simp add: fold_delete_inv inv)
  then have inv1: "claims_inv cs1"
    by (rule create_company_attached_inv [OF _ 2(1,2)]) (simp add: 2(3) percentage_ok_def)
  have "same_attached cs1 (claim_notify acid c (fold (\<lambda>cr cs. fst (create_item (mk cr) cs)) crs cs1))"
    by (rule same_attached_trans [OF fold_create_item [of cs1 mk crs]]) simp
  then show ?thesis
    using company_claim_verify_edits [OF 2(4), of True] edits_inv same_attached_inv inv1 by blast
qed

lemma attach_company_claims_inv:
  assumes "claims_inv cs" "attach_company_claims current node clms override cs = Inr cs'"
  shows "claims_inv cs'"
proof -
  have step: "claims_inv d'"
    if hyp: "claims_inv d" "rbind (company_claim_create current node clm override d) (\<lambda>(cs1, acid).
       rbind (get_attached acid cs1) (\<lambda>c.
       rbind (get_claim (ac_claim c) cs1) (\<lambda>cl.
         if cl_processor cl = GUARDIAN
         then Inr ((save_attached acid (c\<lparr>ac_status := STATUS_PENDING\<rparr>) cs1)\<lparr>cs_guardian := cs_guardian cs1 @ [acid]\<rparr>)
         else Inr cs1))) = Inr d'" for clm d d'
  proof -
    obtain cs1 acid c where c: "company_claim_create current node clm override d = Inr (cs1, acid)"
      "cs_attached cs1 acid = Some c" and d': "d' = cs1 \<or>
        d' = (save_attached acid (c\<lparr>ac_status := STATUS_PENDING\<rparr>) cs1)\<lparr>cs_guardian := cs_guardian cs1 @ [acid]\<rparr>"
      using hyp(2) by (auto simp: rbind_eq_Inr get_attached_def split: if_splits)
    have inv1: "claims_inv cs1" by (rule company_claim_create_inv [OF hyp(1) c(1)])
    have "percentage_ok c" using inv1 c(2) percentages_ok_row by (auto simp: claims_inv_def)
    then have "claims_inv (save_attached acid (c\<lparr>ac_status := STATUS_PENDING\<rparr>) cs1)"
      by (intro save_attached_inv' [OF inv1 c(2)]) (simp_all add: percentage_ok_def)
    then show ?thesis using d' inv1 same_attached_inv [OF same_attached_simps(6)] by auto
  qed
  show ?thesis
    using assms(2) unfolding attach_company_claims_def
    by (rule rfold_invariant [where P = claims_inv]) (rule assms(1), erule (1) step)
qed

end
