(* ===== verification/Claims_Runs.thy ===== *)
theory Claims_Runs
  imports Claims_Inheritance
begin

text \<open>
  The requests on claims as a step relation: in every reachable state a batch has a claim at
  most once and percentages are between 0 and 100. Then single operations: which claims can
  be inherited, new versions of a claim, the farmer check and removed claims.
\<close>

section \<open>Reachable tables\<close>

text \<open>
  One request on the claims beside the stock ledger \<open>db\<close>, whose source quantities are not
  negative where percentages are computed from them.
\<close>

inductive claims_step :: "'c stock_db \<Rightarrow> 'h claims_db_scheme \<Rightarrow> 'h claims_db_scheme \<Rightarrow> bool" where
  attach_batch: "sources_nonneg db \<Longrightarrow> attach_batch_claims env db node bid vs cs = Inr cs' \<Longrightarrow> claims_step db cs cs'"
| attach_transaction: "sources_nonneg db \<Longrightarrow> attach_claims env db node t vs cs = Inr cs' \<Longrightarrow> claims_step db cs cs'"
| attach_company: "attach_company_claims node other clms override cs = Inr cs' \<Longrightarrow> claims_step db cs cs'"
| inherit: "inherit_claims env db bid cs = Inr cs' \<Longrightarrow> claims_step db cs cs'"
| verification: "sources_nonneg db \<Longrightarrow> verification_update env db node acid status remark cs = Inr cs' \<Longrightarrow> claims_step db cs cs'"
| message_hash: "claim_update_message_hash acid txid hash cs = Inr cs' \<Longrightarrow> claims_step db cs cs'"
| delete: "delete_claim node acid cs = (cs', r) \<Longrightarrow> claims_step db cs cs'"
| rejected: "claims_step db cs (remove_txn_notifications t db cs)"
| batch_response: "add_batch_response hash_file node bid d cs = Inr cs' \<Longrightarrow> claims_step db cs cs'"
| transaction_response: "add_transaction_response hash_file db node t d cs = Inr cs' \<Longrightarrow> claims_step db cs cs'"
| new_version: "create_new_version i cs = Inr (cs', j) \<Longrightarrow> claims_step db cs cs'"

text \<open>Between two requests the ledger may have become any other.\<close>

inductive claims_reachable :: "'c stock_db \<Rightarrow> 'h claims_db_scheme \<Rightarrow> bool" where
  start: "cs_attached cs = Map.empty \<Longrightarrow> claims_reachable db cs"
| step: "claims_reachable db cs \<Longrightarrow> claims_step db cs cs' \<Longrightarrow> claims_reachable db cs'"
| ledger: "claims_reachable db cs \<Longrightarrow> claims_reachable db' cs"

lemma message_hash_inv:
  assumes inv: "claims_inv cs" and r: "claim_update_message_hash acid txid hash cs = Inr cs'"
  shows "claims_inv cs'"
proof -
  obtain c where c: "cs_attached cs acid = Some c" "cs' = save_attached acid (c\<lparr>ac_bc_id := txid, ac_bc_address := hash\<rparr>) cs"
    using r by (auto simp: claim_update_message_hash_def rbind_eq_Inr get_attached_def)
  have "percentage_ok c" using inv c percentages_ok_row by (auto simp: claims_inv_def)
  then show ?thesis unfolding c(2) by (intro save_attached_inv' [OF inv c(1)]) (simp_all add: percentage_ok_def)
qed

lemma notices_inv [simp]: "claims_inv (cs\<lparr>cs_notices := n\<rparr>) = claims_inv cs"
  by (rule same_attached_inv) simp

lemma delete_claim_inv: "claims_inv cs \<Longrightarrow> claims_inv (fst (delete_claim node acid cs))"
  by (auto simp: delete_claim_def Let_def delete_attached_inv split: option.splits claim_target.splits)

lemma store_response_attached: "same_attached cs (store_response node fld resp hash i cs)"
  by (auto simp: store_response_def same_attached_def split: list.splits)

lemma store_response_inv [simp]:
  "claims_inv (store_response node fld resp hash i cs) = claims_inv cs"
  "claims_inv (fold (store_response node fld resp hash) is' cs) = claims_inv cs"
  by (rule same_attached_inv, rule store_response_attached)
    (rule same_attached_inv, rule same_attached_fold, rule store_response_attached)

lemma response_inv:
  "claims_inv cs \<Longrightarrow> add_batch_response hash_file node bid d cs = Inr cs' \<Longrightarrow> claims_inv cs'"
  "claims_inv cs \<Longrightarrow> add_transaction_response hash_file db node t d cs = Inr cs' \<Longrightarrow> claims_inv cs'"
  by (auto simp: add_batch_response_def add_transaction_response_def rbind_eq_Inr)

lemma copy_field_attached [simp]:
  "cs_attached (copy_field new f cs) = cs_attached cs" "cs_next_attached (copy_field new f cs) = cs_next_attached cs"
  "cs_claims (copy_field new f cs) = cs_claims cs" "cs_criteria (copy_field new f cs) = cs_criteria cs"
  by (simp_all add: copy_field_def split: option.splits)

lemma fold_keeps: "(\<And>x d. g (f x d) = g d) \<Longrightarrow> g (fold f xs cs) = g cs"
  by (induction xs arbitrary: cs) simp_all

lemma fold_copy_field_attached [simp]:
  "cs_attached (fold (copy_field new) fs cs) = cs_attached cs"
  "cs_next_attached (fold (copy_field new) fs cs) = cs_next_attached cs"
  "cs_claims (fold (copy_field new) fs cs) = cs_claims cs"
  by (rule fold_keeps, simp)+

lemma copy_criterion_attached [simp]:
  "cs_attached (copy_criterion new i cs) = cs_attached cs"
  "cs_next_attached (copy_criterion new i cs) = cs_next_attached cs"
  "cs_claims (copy_criterion new i cs) = cs_claims cs"
  by (simp_all add: copy_criterion_def Let_def split: option.splits)

lemma fold_copy_criterion_attached [simp]:
  "cs_attached (fold (copy_criterion new) is' cs) = cs_attached cs"
  "cs_next_attached (fold (copy_criterion new) is' cs) = cs_next_attached cs"
  "cs_claims (fold (copy_criterion new) is' cs) = cs_claims cs"
  by (rule fold_keeps, simp)+

lemma create_new_version_Inr:
  assumes "create_new_version i cs = Inr (cs', j)"
  obtains c where "cs_claims cs i = Some c" "j = cs_next_claim cs"
    "cs_attached cs' = cs_attached cs" "cs_next_attached cs' = cs_next_attached cs"
    "cs_claims cs' = (cs_claims cs)(j \<mapsto> c\<lparr>cl_version := max_version (claim_versions (cl_reference c) cs) + 1,
        cl_supply_chains := [], cl_owners := [], cl_verifiers := []\<rparr>, i \<mapsto> c\<lparr>cl_active := False, cl_latest := False\<rparr>)"
  using assms by (auto simp: create_new_version_def rbind_eq_Inr get_claim_def Let_def)

lemma create_new_version_inv:
  assumes "claims_inv cs" "create_new_version i cs = Inr (cs', j)"
  shows "claims_inv cs'"
  using assms(1) claims_inv_cong [of cs' cs] by (rule_tac create_new_version_Inr [OF assms(2)]) simp

lemma claims_step_inv:
  assumes "claims_step db cs cs'" and inv: "claims_inv cs"
  shows "claims_inv cs'"
  using assms(1)
proof (cases rule: claims_step.cases)
  case attach_batch
  then show ?thesis by (blast intro: attach_batch_claims_inv [OF _ inv])
next
  case attach_transaction
  then show ?thesis by (blast intro: attach_claims_inv [OF _ inv])
next
  case attach_company
  then show ?thesis by (blast intro: attach_company_claims_inv [OF inv])
next
  case inherit
  then show ?thesis using inherit_claims_keeps [OF inv] by blast
next
  case (verification env node acid status remark)
  then obtain c where "cs_attached cs acid = Some c"
    by (auto simp: verification_update_def rbind_eq_Inr get_attached_def)
  from verification_update_edits [OF verification(2) this] show ?thesis
    by (rule edits_nonneg_inv [OF verification(1) _ inv])
next
  case message_hash
  then show ?thesis by (blast intro: message_hash_inv [OF inv])
next
  case (delete node acid r)
  then show ?thesis using delete_claim_inv [OF inv, of node acid] by simp
next
  case rejected
  then show ?thesis using inv by (simp add: remove_txn_notifications_def)
next
  case batch_response
  then show ?thesis by (blast intro: response_inv(1) [OF inv])
next
  case transaction_response
  then show ?thesis by (blast intro: response_inv(2) [OF inv])
next
  case new_version
  then show ?thesis by (blast intro: create_new_version_inv [OF inv])
qed



definition demo_start :: claims_db where
  "demo_start = (demo_claims None)\<lparr>cs_attached := Map.empty, cs_items := Map.empty\<rparr>"

definition demo_asked :: claim_verifier where
  "demo_asked = \<lparr>cv_claim = 3, cv_verifier = Some (Some 5), cv_inherited = False\<rparr>"

lemma demo_attach: "is_ok (attach_batch_claims demo_claims_env (demo_trade 9) 2 7 [demo_asked] demo_start)"
  by code_simp


section \<open>New versions of a claim\<close>

lemma max_version_ge: "v \<in> set vs \<Longrightarrow> v \<le> max_version vs"
  unfolding max_version_def Max.set_eq_fold [symmetric] by (rule Max_ge) auto

lemma claim_versions_iff:
  "v \<in> set (claim_versions ref cs) \<longleftrightarrow>
     (\<exists>i c. i < cs_next_claim cs \<and> cs_claims cs i = Some c \<and> cl_reference c = ref \<and> cl_version c = v)"
proof
  assume "v \<in> set (claim_versions ref cs)"
  then show "\<exists>i c. i < cs_next_claim cs \<and> cs_claims cs i = Some c \<and> cl_reference c = ref \<and> cl_version c = v"
    unfolding claim_versions_def by (auto split: option.splits if_splits) metis
next
  assume "\<exists>i c. i < cs_next_claim cs \<and> cs_claims cs i = Some c \<and> cl_reference c = ref \<and> cl_version c = v"
  then obtain i c where "i \<in> set [0..<cs_next_claim cs]" "cs_claims cs i = Some c" "cl_reference c = ref" "cl_version c = v"
    by auto
  then show "v \<in> set (claim_versions ref cs)" unfolding claim_versions_def
    by (auto intro!: bexI [where x = i])
qed

text \<open>
  A new version of a claim has a higher version number than every claim with the same reference, the old version is
  neither active nor the latest, and no other claim changes.
\<close>

theorem new_version_is_newest:
  assumes r: "create_new_version i cs = Inr (cs', j)" and i: "i < cs_next_claim cs"
  shows "\<exists>c n. cs_claims cs i = Some c \<and> cs_claims cs' j = Some n \<and> cl_reference n = cl_reference c \<and>
    (\<forall>k d. k < cs_next_claim cs \<and> cs_claims cs k = Some d \<and> cl_reference d = cl_reference c \<longrightarrow> cl_version d < cl_version n) \<and>
    cs_claims cs' i = Some (c\<lparr>cl_active := False, cl_latest := False\<rparr>) \<and>
    (\<forall>k. k \<noteq> i \<longrightarrow> k < cs_next_claim cs \<longrightarrow> cs_claims cs' k = cs_claims cs k)"
proof (rule create_new_version_Inr [OF r])
  fix c
  assume c: "cs_claims cs i = Some c" and j: "j = cs_next_claim cs"
    and cs': "cs_claims cs' = (cs_claims cs)(j \<mapsto> c\<lparr>cl_version := max_version (claim_versions (cl_reference c) cs) + 1,
        cl_supply_chains := [], cl_owners := [], cl_verifiers := []\<rparr>, i \<mapsto> c\<lparr>cl_active := False, cl_latest := False\<rparr>)"
  have newest: "cl_version d < max_version (claim_versions (cl_reference c) cs) + 1"
    if "k < cs_next_claim cs" "cs_claims cs k = Some d" "cl_reference d = cl_reference c" for k d
  proof -
    have "cl_version d \<in> set (claim_versions (cl_reference c) cs)"
      unfolding claim_versions_iff using that by blast
    then show ?thesis using max_version_ge by fastforce
  qed
  show ?thesis using c i newest by (auto simp: cs' j)
qed

theorem new_version_is_newest_witness:
  "\<exists>cs' n. create_new_version 3 (demo_claims None) = Inr (cs', 4) \<and> cs_claims cs' 4 = Some n \<and> 1 < cl_version n"
proof -
  obtain cs' where r: "create_new_version 3 (demo_claims None) = Inr (cs', 4)"
    by (simp add: create_new_version_def get_claim_def demo_claims_def Let_def)
  have "3 < cs_next_claim (demo_claims None)" by (simp add: demo_claims_def)
  from new_version_is_newest [OF r this] obtain c n where c: "cs_claims (demo_claims None) 3 = Some c" "cs_claims cs' 4 = Some n"
    "\<forall>k d. k < cs_next_claim (demo_claims None) \<and> cs_claims (demo_claims None) k = Some d \<and> cl_reference d = cl_reference c \<longrightarrow>
       cl_version d < cl_version n" by blast
  have "cl_version c < cl_version n" using c(1,3) \<open>3 < cs_next_claim (demo_claims None)\<close> by blast
  moreover have "c = demo_claim" using c(1) by (simp add: demo_claims_sel)
  then have "cl_version c = 1" by (simp add: demo_claim_def)
  ultimately show ?thesis using r c(2) by auto
qed

text \<open>
  The new version has no verifiers, so a company attaching the new version of a global company claim to itself has
  it approved at once, also when the old version needed a verifier.
\<close>

theorem new_version_self_approves:
  assumes r: "create_new_version i cs = Inr (cs', j)" and i: "i < cs_next_claim cs"
    and a: "cs_attached ds acid = Some c" "ac_claim c = j" "ac_target c = OnNode (Some node)"
    and d: "cs_claims ds = cs_claims cs'"
  shows "\<exists>ds'. company_claim_verify acid ds = Inr (ds', True) \<and> map_option ac_status (cs_attached ds' acid) = Some STATUS_APPROVED"
proof (rule create_new_version_Inr [OF r])
  fix n
  assume "j = cs_next_claim cs" "cs_claims cs' = (cs_claims cs)(j \<mapsto> n\<lparr>cl_version := max_version (claim_versions (cl_reference n) cs) + 1,
        cl_supply_chains := [], cl_owners := [], cl_verifiers := []\<rparr>, i \<mapsto> n\<lparr>cl_active := False, cl_latest := False\<rparr>)"
  then have "\<exists>cl. cs_claims ds (ac_claim c) = Some cl \<and> cl_verifiers cl = []" using i a(2) d by simp
  then show ?thesis using a
    by (auto simp: company_claim_verify_def company_claim_approve_def get_attached_def get_claim_def)
qed

definition demo_company :: "nat \<Rightarrow> claims_db \<Rightarrow> claims_db" where
  "demo_company clm cs = cs\<lparr>cs_attached := [4 \<mapsto> (new_attached clm (OnNode (Some 2)))\<lparr>ac_verifier := Some 5\<rparr>]\<rparr>"

definition demo_audit :: claims_db where
  "demo_audit = (demo_claims None)\<lparr>cs_claims := [3 \<mapsto> demo_claim\<lparr>cl_type := CLAIM_TYPE_COMPANY, cl_verifiers := [5]\<rparr>]\<rparr>"

theorem new_version_self_approves_witness:
  "\<exists>cs'. create_new_version 3 demo_audit = Inr (cs', 4) \<and>
     (\<exists>ds'. company_claim_verify 4 (demo_company 4 cs') = Inr (ds', True)) \<and>
     (\<exists>ds'. company_claim_verify 4 (demo_company 3 demo_audit) = Inr (ds', False))"
proof -
  obtain cs' where r: "create_new_version 3 demo_audit = Inr (cs', 4)"
    by (simp add: create_new_version_def get_claim_def demo_audit_def demo_claims_def Let_def)
  have "\<exists>ds'. company_claim_verify 4 (demo_company 4 cs') = Inr (ds', True) \<and>
      map_option ac_status (cs_attached ds' 4) = Some STATUS_APPROVED"
    by (rule new_version_self_approves [OF r, where node = 2 and c = "(new_attached 4 (OnNode (Some 2)))\<lparr>ac_verifier := Some 5\<rparr>"])
      (simp_all add: demo_audit_def demo_claims_def demo_company_def new_attached_def)
  moreover have "\<exists>ds'. company_claim_verify 4 (demo_company 3 demo_audit) = Inr (ds', False)"
    by (simp add: company_claim_verify_def get_attached_def get_claim_def demo_company_def demo_audit_def new_attached_def demo_claim_def)
  ultimately show ?thesis using r by blast
qed

section \<open>The farmer check\<close>

text \<open>The transactions without parents from which a transaction descends.\<close>

definition roots_of :: "'c stock_db \<Rightarrow> nat \<Rightarrow> nat set" where
  "roots_of db t = {r. (t, r) \<in> (parent_rel (st_parents db))\<^sup>* \<and> st_parents db r = []}"

lemma get_root_nodes_finite: "get_root_nodes k par n = Inr S \<Longrightarrow> finite S"
proof (induction k arbitrary: n S)
  case (Suc k)
  show ?case
  proof (cases "par n = []")
    case False
    then have u: "rfold (\<lambda>p acc. rbind (get_root_nodes k par p) (\<lambda>s. Inr (acc \<union> s))) (par n) {} = Inr S"
      using Suc.prems by simp
    have "finite (case get_root_nodes k par p of Inr s \<Rightarrow> s | Inl _ \<Rightarrow> {})" for p
      using Suc.IH by (auto split: sum.splits)
    then show ?thesis using rfold_union [OF u] by auto
  qed (use Suc.prems in auto)
qed simp

lemma root_transactions_eq:
  assumes b: "st_batches db bid = Some b" "b_source_tx b = Some t" and w: "ranked (st_parents db)" "t < st_next_tx db"
  shows "\<exists>rs. root_transactions db bid = Inr rs \<and> set rs = roots_of db t"
proof -
  obtain S where S: "get_root_nodes (Suc (st_next_tx db)) (st_parents db) t = Inr S"
    using get_root_nodes_returns [OF w(1), of t "Suc (st_next_tx db)"] w(2) by auto
  have "set (rev (sorted_list_of_set S)) = roots_of db t"
    using get_root_nodes_sound [OF S] get_root_nodes_finite [OF S] by (simp add: roots_of_def)
  then show ?thesis using b S by (simp add: root_transactions_def)
qed

lemma rfold_farmer:
  assumes "\<forall>r\<in>set rs. \<exists>s. root_source db r = Inr s"
  shows "\<exists>info' ev'. rfold (farmer_step env db) rs (ok, info, ev) =
     Inr (ok \<and> (\<forall>r\<in>set rs. \<forall>s. root_source db r = Inr s \<longrightarrow> st_node_type db s = NODE_FARM), info', ev')"
  using assms
proof (induction rs arbitrary: ok info ev)
  case (Cons r rs)
  then obtain s where s: "root_source db r = Inr s" by auto
  have "\<exists>i e. farmer_step env db r (ok, info, ev) = Inr (ok \<and> st_node_type db s = NODE_FARM, i, e)"
    by (simp add: farmer_step_def s Let_def)
  then obtain i e where st: "farmer_step env db r (ok, info, ev) = Inr (ok \<and> st_node_type db s = NODE_FARM, i, e)" by blast
  show ?case using Cons.IH [of "ok \<and> st_node_type db s = NODE_FARM" i e] Cons.prems by (simp add: st s)
qed simp

text \<open>
  C36: In an acyclic transaction graph whose first transactions are all external, the farmer check of a batch returns, and
  it passes exactly when every supplier of a first transaction behind the batch is a farm.
\<close>

theorem farmer_verify_iff:
  assumes b: "st_batches db bid = Some b" "b_source_tx b = Some t" and w: "ranked (st_parents db)" "t < st_next_tx db"
    and e: "\<forall>r\<in>roots_of db t. \<exists>s. root_source db r = Inr s"
  shows "\<exists>info evidence. farmer_verify env db bid =
    Inr (\<forall>r\<in>roots_of db t. \<forall>s. root_source db r = Inr s \<longrightarrow> st_node_type db s = NODE_FARM, info, evidence)"
proof -
  obtain rs where rs: "root_transactions db bid = Inr rs" "set rs = roots_of db t"
    using root_transactions_eq [OF b w] by blast
  from rfold_farmer [of rs db env True "[]" "[]"] e show ?thesis by (simp add: farmer_verify_def rs)
qed

theorem farmer_verify_iff_witness:
  "\<exists>info evidence. farmer_verify demo_claims_env (demo_trade 9) 7 = Inr (True, info, evidence)"
proof -
  define b where "b = (demo_batch 1000)\<lparr>b_node := 2, b_source_tx := Some 3, b_parents := [6]\<rparr>"
  have b: "st_batches (demo_trade 9) 7 = Some b" "b_source_tx b = Some 3" by (simp_all add: demo_trade_def b_def)
  have w: "ranked (st_parents (demo_trade 9))" "3 < st_next_tx (demo_trade 9)"
    by (simp_all add: ranked_def demo_trade_def)
  have none: "parent_rel (st_parents (demo_trade 9)) = {}" by (simp add: parent_rel_def demo_trade_def)
  have r: "roots_of (demo_trade 9) 3 = {3}" unfolding roots_of_def none by (auto simp: demo_trade_def)
  have s: "root_source (demo_trade 9) 3 = Inr 9" "st_node_type (demo_trade 9) 9 = NODE_FARM"
    by (simp_all add: root_source_def demo_trade_def)
  from farmer_verify_iff [OF b w, of demo_claims_env] show ?thesis by (simp add: r s)
qed


section \<open>Which claims can be inherited\<close>

lemma fold_inter: "c \<in> fold (\<lambda>j s. s \<inter> A j) xs S \<longleftrightarrow> c \<in> S \<and> (\<forall>j\<in>set xs. c \<in> A j)"
  by (induction xs arbitrary: S) auto

lemma fold_union2: "c \<in> fold (\<lambda>j s. s \<union> A j \<union> B j) xs S \<longleftrightarrow> c \<in> S \<or> (\<exists>j\<in>set xs. c \<in> A j \<or> c \<in> B j)"
  by (induction xs arbitrary: S) auto

lemma common_claims_iff:
  assumes "items \<noteq> []"
  shows "c \<in> common_claims items cs \<longleftrightarrow>
    (\<forall>j\<in>set items. c \<in> approved_claims (it_id j) cs) \<or>
    (\<exists>j\<in>set items. c \<in> approved_claims (it_id j) cs) \<and>
      (\<exists>cl. cs_claims cs c = Some cl \<and> (cl_proportional cl \<or> cl_inheritable cl = INHERITANCE_TYPE_ALL))"
proof (cases items)
  case (Cons i rest)
  have q: "(\<exists>cl\<in>set_option (cs_claims cs c). P cl) \<longleftrightarrow> (\<exists>cl. cs_claims cs c = Some cl \<and> P cl)" for P
    by auto
  show ?thesis unfolding common_claims_def Cons list.case fold_union2 fold_inter mem_Collect_eq q
    by (simp add: disj_commute) blast
qed (use assms in simp)

lemma finite_common_claims: "finite (common_claims items cs)"
proof (cases "items = []")
  case False
  have "common_claims items cs \<subseteq> (\<Union>j\<in>set items. approved_claims (it_id j) cs)"
    using common_claims_iff [OF False] False by (fastforce simp: neq_Nil_conv)
  then show ?thesis by (rule finite_subset) (unfold approved_claims_def, intro finite_UN_I finite_set)
qed (simp add: common_claims_def)

lemma rfold_collect:
  assumes "rfold (\<lambda>x acc. rbind (get x) (\<lambda>cl.
     if \<not> P cl then Inr acc else rbind (share x) (\<lambda>p. Inr (acc @ [(x, rem x cl, p)])))) xs acc = Inr res"
  shows "map (\<lambda>(x, r, _). (x, r)) res = map (\<lambda>(x, r, _). (x, r)) acc @
      [(x, rem x cl). x \<leftarrow> xs, cl \<leftarrow> (case get x of Inr cl \<Rightarrow> [cl] | Inl _ \<Rightarrow> []), P cl]"
  using assms
proof (induction xs arbitrary: acc)
  case (Cons x xs)
  obtain cl where cl: "get x = Inr cl" using Cons.prems by (auto simp: rbind_eq_Inr)
  show ?case
  proof (cases "P cl")
    case False
    then show ?thesis using Cons.IH [of acc] Cons.prems cl by simp
  next
    case True
    then obtain p where "share x = Inr p" using Cons.prems cl by (auto simp: rbind_eq_Inr)
    then show ?thesis using Cons.IH [of "acc @ [(x, rem x cl, p)]"] Cons.prems cl True by simp
  qed
qed simp

text \<open>
  C35: The claims offered for inheritance are those whose kind lets them pass to the output products and that are approved on
  every batch, or, for proportional claims and claims inherited always, on at least one batch. A claim
  that the stock request asks for cannot be removed; otherwise the claim itself says so.
\<close>

theorem inheritable_claims_iff:
  assumes r: "inheritable_claims products items wanted cs = Inr res"
  shows "(\<exists>p. (c, removable, p) \<in> set res) \<longleftrightarrow>
    (\<exists>cl. cs_claims cs c = Some cl \<and> claim_is_inheritable products items cl \<and>
       removable = (c \<notin> wanted \<and> cl_removable cl) \<and>
       ((\<forall>j\<in>set items. c \<in> approved_claims (it_id j) cs) \<or>
        (cl_proportional cl \<or> cl_inheritable cl = INHERITANCE_TYPE_ALL) \<and> (\<exists>j\<in>set items. c \<in> approved_claims (it_id j) cs)))"
proof -
  have ne: "items \<noteq> []" using r by (auto simp: inheritable_claims_def rbind_eq_Inr)
  let ?rem = "\<lambda>clm cl. if clm \<in> wanted then False else cl_removable cl"
  have f: "rfold (\<lambda>clm acc. rbind (get_claim clm cs) (\<lambda>cl.
       if \<not> claim_is_inheritable products items cl then Inr acc
       else rbind (inheritable_share clm items cs) (\<lambda>p. Inr (acc @ [(clm, ?rem clm cl, p)]))))
     (sorted_list_of_set (common_claims items cs)) [] = Inr res"
    using r ne by (simp add: inheritable_claims_def)
  have m: "map (\<lambda>(x, r, _). (x, r)) res = [(x, ?rem x cl). x \<leftarrow> sorted_list_of_set (common_claims items cs),
      cl \<leftarrow> (case get_claim x cs of Inr cl \<Rightarrow> [cl] | Inl _ \<Rightarrow> []), claim_is_inheritable products items cl]"
    using rfold_collect [OF f] by simp
  have "(\<exists>p. (c, removable, p) \<in> set res) \<longleftrightarrow> (c, removable) \<in> set (map (\<lambda>(x, r, _). (x, r)) res)"
    by force
  also have "\<dots> \<longleftrightarrow> c \<in> common_claims items cs \<and> (\<exists>cl. cs_claims cs c = Some cl \<and> claim_is_inheritable products items cl \<and>
       removable = ?rem c cl)"
    unfolding m using finite_common_claims [of items cs]
    by (auto simp: get_claim_def of_option_def split: option.splits)
  finally show ?thesis unfolding common_claims_iff [OF ne] by auto
qed


definition demo_offer :: "item list" where
  "demo_offer = [\<lparr>it_id = 6, it_batch = demo_batch 1000, it_qty = 1000\<rparr>]"

lemma demo_inheritable: "is_ok (inheritable_claims [1] demo_offer {} (demo_approved 40))"
  by code_simp

lemma demo_approved_on: "3 \<in> approved_claims 6 (demo_approved 40)"
  by code_simp

theorem inheritable_claims_iff_witness:
  "\<exists>res. inheritable_claims [1] demo_offer {} (demo_approved 40) = Inr res \<and> (\<exists>p. (3, True, p) \<in> set res)"
proof -
  obtain res where r: "inheritable_claims [1] demo_offer {} (demo_approved 40) = Inr res"
    using demo_inheritable by (auto simp: is_ok_def split: sum.splits)
  have "cs_claims (demo_approved 40) 3 = Some demo_claim" by (simp add: demo_approved_def demo_claims_sel)
  then have "\<exists>p. (3, True, p) \<in> set res"
    using demo_approved_on
    by (simp add: inheritable_claims_iff [OF r] claim_is_inheritable_def demo_claim_def demo_offer_def)
  then show ?thesis using r by blast
qed

section \<open>Removing a claim\<close>

text \<open>
  Asking to remove a product claim is refused, whoever asks, but the verification notifications of the claim
  are gone: they are deleted before the checks.
\<close>

theorem refused_removal_forgets:
  assumes c: "cs_attached cs acid = Some c" "cs_claims cs (ac_claim c) = Some cl" "cl_type cl \<noteq> CLAIM_TYPE_COMPANY"
  shows "snd (delete_claim node acid cs) = Inl (BadRequest ''Only Company claims can be removed'') \<and>
    acid \<notin> set (cs_notices (fst (delete_claim node acid cs))) \<and>
    cs_attached (fst (delete_claim node acid cs)) = cs_attached cs"
  using c by (simp add: delete_claim_def Let_def)

theorem refused_removal_forgets_witness:
  "4 \<in> set (cs_notices (demo_claims None)) \<and> 4 \<notin> set (cs_notices (fst (delete_claim 77 4 (demo_claims None))))"
  using refused_removal_forgets [of "demo_claims None" 4 demo_attached demo_claim 77]
  by (simp add: demo_claims_sel demo_attached_def new_attached_def demo_claim_def)
    (simp add: demo_claims_def)

end
