(* ===== verification/Claims_Evidence.thy ===== *)
theory Claims_Evidence
  imports Claims_Runs
begin

text \<open>
  The evidence of a claim is well typed: the response stored for an option field is one of
  the field's options, in every state that the operations on claims lead to. What an
  operation may do to the responses is \<open>answered\<close>: copy and drop, but not invent.
\<close>

section \<open>Copying responses\<close>

definition answers :: "'h claims_db_scheme \<Rightarrow> (nat \<times> string) set" where
  "answers cs = (\<lambda>r. (fr_field r, fr_response r)) ` set (cs_responses cs)"

definition answered :: "'h claims_db_scheme \<Rightarrow> 'h claims_db_scheme \<Rightarrow> bool" where
  "answered cs cs' \<longleftrightarrow> cs_fields cs' = cs_fields cs \<and> cs_next_field cs' = cs_next_field cs \<and> answers cs' \<subseteq> answers cs"

lemma answered_refl [simp]: "answered cs cs"
  by (simp add: answered_def)

lemma answered_trans [trans]: "answered a b \<Longrightarrow> answered b c \<Longrightarrow> answered a c"
  by (auto simp: answered_def)

lemma answered_same [intro]:
  "cs_fields cs' = cs_fields cs \<Longrightarrow> cs_next_field cs' = cs_next_field cs \<Longrightarrow> cs_responses cs' = cs_responses cs \<Longrightarrow>
     answered cs cs'"
  by (simp add: answered_def answers_def)

lemma answered_fold: "(\<And>x d. answered d (f x d)) \<Longrightarrow> answered cs (fold f xs cs)"
  by (induction xs arbitrary: cs) (auto intro: answered_trans)

lemma answered_rfold:
  assumes "\<And>x d d'. f x d = Inr d' \<Longrightarrow> answered d d'" and r: "rfold f xs cs = Inr cs'"
  shows "answered cs cs'"
  by (rule rfold_invariant [OF r]) (auto intro: answered_trans assms(1))

lemma same_evidence_writes [simp]:
  "answered cs (save_attached i c cs)" "answered cs (save_item k a cs)"
  "answered cs (fst (create_attached c cs))" "answered cs (fst (create_item a cs))"
  "answered cs (claim_notify i c cs)" "answered cs (cs\<lparr>cs_notices := ns\<rparr>)"
  "answered cs (cs\<lparr>cs_logs := ls\<rparr>)" "answered cs (cs\<lparr>cs_guardian := gs\<rparr>)" "answered cs (cs\<lparr>cs_messages := ms\<rparr>)"
  by (auto simp: save_attached_def save_item_def create_attached_def create_item_def claim_notify_def Let_def)

text \<open>The same after earlier steps, for the simplifier.\<close>

lemmas answered_writes [simp] =
  answered_trans [OF _ same_evidence_writes(1)] answered_trans [OF _ same_evidence_writes(2)]
  answered_trans [OF _ same_evidence_writes(3)] answered_trans [OF _ same_evidence_writes(4)]
  answered_trans [OF _ same_evidence_writes(5)] answered_trans [OF _ same_evidence_writes(6)]
  answered_trans [OF _ same_evidence_writes(7)] answered_trans [OF _ same_evidence_writes(8)]
  answered_trans [OF _ same_evidence_writes(9)]

lemma answered_copy [simp]:
  assumes "(fr_field r, fr_response r) \<in> answers cs"
  shows "answered cs (copy_response i r cs)"
  using assms by (auto simp: answered_def answers_def copy_response_def)

lemma answered_copies:
  assumes "(\<lambda>r. (fr_field r, fr_response r)) ` set rs \<subseteq> answers cs"
  shows "answered cs (fold (copy_response i) rs cs)"
  using assms
proof (induction rs arbitrary: cs)
  case (Cons r rs)
  have 1: "answered cs (copy_response i r cs)" using Cons.prems by simp
  have "answers cs \<subseteq> answers (copy_response i r cs)" by (auto simp: answers_def copy_response_def)
  then have "answered (copy_response i r cs) (fold (copy_response i) rs (copy_response i r cs))"
    using Cons.prems by (intro Cons.IH) auto
  then show ?case using 1 by (auto intro: answered_trans)
qed simp

section \<open>The operations\<close>

lemma check_and_approve_answered [simp]: "answered cs (check_and_approve acid cs)"
  by (auto simp: check_and_approve_def split: prod.split list.split option.split)

lemmas check_and_approve_after [simp] = answered_trans [OF _ check_and_approve_answered]

lemma criterion_verify_answered: "criterion_verify env db i cs = Inr cs' \<Longrightarrow> answered cs cs'"
  unfolding criterion_verify_def rbind_eq_Inr by (auto simp: rbind_eq_Inr split: if_split_asm)

lemma batch_claim_verify_answered:
  assumes "batch_claim_verify env db acid cs = Inr cs'"
  shows "answered cs cs'"
proof -
  obtain P Q A c cs2 where
    r: "rfold (criterion_verify env db) (criteria_of acid (if P then save_attached acid c cs else cs))
      (if P then save_attached acid c cs else cs) = Inr cs2"
    and e: "(if Q then rbind A (\<lambda>p. rbind (get_attached acid cs2) (\<lambda>c2. Inr (save_attached acid (c2\<lparr>ac_percentage := p\<rparr>) cs2)))
      else Inr (check_and_approve acid cs2)) = Inr cs'"
    using assms unfolding batch_claim_verify_def Let_def rbind_eq_Inr by blast
  have "answered cs (if P then save_attached acid c cs else cs)" by simp
  also have "answered (if P then save_attached acid c cs else cs) cs2"
    using criterion_verify_answered r by (rule answered_rfold)
  also have "answered cs2 cs'" using e by (auto simp: rbind_eq_Inr split: if_split_asm)
  finally show ?thesis .
qed

lemma criterion_inherit_answered:
  assumes "criterion_inherit_data env db t clm i cs = Inr cs'"
  shows "answered cs cs'"
proof -
  obtain bs crit where v: "criterion_verify env db i (fold (copy_response i) (responses_of_sources bs crit cs) cs) = Inr cs'"
    using assms unfolding criterion_inherit_data_def rbind_eq_Inr by blast
  have "answered cs (fold (copy_response i) (responses_of_sources bs crit cs) cs)"
    by (rule answered_copies) (auto simp: answers_def responses_of_sources_def)
  then show ?thesis using criterion_verify_answered [OF v] by (rule answered_trans)
qed

lemma claim_inherit_answered:
  assumes "claim_inherit_data env db acid cs = Inr cs'"
  shows "answered cs cs'"
proof -
  consider "cs' = cs" | t clm cs1 c where "rfold (criterion_inherit_data env db t clm) (criteria_of acid cs) cs = Inr cs1"
      "cs' = save_attached acid c cs1"
    using assms by (auto simp: claim_inherit_data_def rbind_eq_Inr split: if_split_asm)
  then show ?thesis
  proof cases
    case (2 t clm cs1 c)
    have "answered cs cs1" using criterion_inherit_answered 2(1) by (rule answered_rfold)
    then show ?thesis unfolding 2(2) by (rule answered_trans) simp
  qed simp
qed

lemma get_or_create_answered: "get_or_create_claim bid clm cs = Inr (cs', i, created) \<Longrightarrow> answered cs cs'"
  using same_evidence_writes(3) [of cs "new_attached clm (OnBatch bid)"]
  by (cases "create_attached (new_attached clm (OnBatch bid)) cs") (auto simp: get_or_create_claim_def split: list.split_asm)

lemma inherit_criterion_answered: "inherit_criterion acid parent cs = Inr cs' \<Longrightarrow> answered cs cs'"
  unfolding inherit_criterion_def rbind_eq_Inr by (elim exE conjE) (simp split: list.split_asm, auto)

lemma inherit_claim_answered:
  assumes "inherit_claim env db bid parent cs = Inr cs'"
  shows "answered cs cs'"
proof -
  consider "cs' = cs" | clm i where "get_or_create_claim bid clm cs = Inr (cs', i, False)"
    | clm cs1 acid c cs3 where "get_or_create_claim bid clm cs = Inr (cs1, acid, True)"
      "rfold (inherit_criterion acid) (criteria_of parent (save_attached acid c cs1)) (save_attached acid c cs1) = Inr cs3"
      "claim_inherit_data env db acid cs3 = Inr cs'"
    using assms by (auto simp: inherit_claim_def rbind_eq_Inr Let_def split: if_split_asm)
  then show ?thesis
  proof cases
    case (3 clm cs1 acid c cs3)
    have "answered cs (save_attached acid c cs1)" using get_or_create_answered [OF 3(1)] by (rule answered_trans) simp
    also have "answered (save_attached acid c cs1) cs3" using inherit_criterion_answered 3(2) by (rule answered_rfold)
    also have "answered cs3 cs'" by (rule claim_inherit_answered [OF 3(3)])
    finally show ?thesis .
  qed (auto dest: get_or_create_answered)
qed

lemma inherit_claims_answered:
  assumes "inherit_claims env db bid cs = Inr cs'"
  shows "answered cs cs'"
proof -
  obtain bs where r: "rfold (\<lambda>source cs. rfold (inherit_claim env db bid) (batch_claims source cs) cs) bs cs = Inr cs'"
    using assms by (auto simp: inherit_claims_def rbind_eq_Inr)
  show ?thesis by (rule answered_rfold [OF _ r]) (rule answered_rfold [OF inherit_claim_answered])
qed

lemma new_items_answered: "answered cs (fold (\<lambda>cr cs. fst (create_item (mk cr) cs)) crs cs)"
  by (rule answered_fold) simp

lemma batch_claim_create_answered:
  assumes "batch_claim_create env db node bid clm frm verifier cs = Inr (cs', acid)"
  shows "answered cs cs'"
  using assms
proof (cases rule: batch_claim_create_cases)
  case 1
  then show ?thesis by (rule get_or_create_answered)
next
  case (2 cs1 c1 cs2 cs3 mk crs)
  have "answered cs (save_attached acid c1 cs1)" using get_or_create_answered [OF 2(1)] by simp
  also have "answered (save_attached acid c1 cs1) cs2" unfolding 2(6) by (rule new_items_answered)
  also have "answered cs2 cs3" using 2(4) claim_inherit_answered by (auto split: if_split_asm)
  also have "answered cs3 cs'" by (rule batch_claim_verify_answered [OF 2(5)])
  finally show ?thesis .
qed

lemma attach_batch_answered: "attach_batch_claims env db node bid vs cs = Inr cs' \<Longrightarrow> answered cs cs'"
  unfolding attach_batch_claims_def
  by (rule answered_rfold) (auto simp: rbind_eq_Inr dest: batch_claim_create_answered)

lemma guardian_answered: "initiate_guardian_claim db t clm cs = Inr cs' \<Longrightarrow> answered cs cs'"
  by (auto simp: initiate_guardian_claim_def rbind_eq_Inr intro: answered_trans split: if_split_asm list.split_asm)

lemma attach_one_answered:
  assumes "attach_one_claim env db node t v cs = Inr cs'"
  shows "answered cs cs'"
proof -
  obtain frm cs1 ls where r: "rfold (\<lambda>bid cs. rbind (of_option PyKeyError (cv_verifier v)) (\<lambda>verifier.
       rbind (batch_claim_create env db node bid (cv_claim v) frm verifier cs) (\<lambda>(cs1, _). Inr cs1)))
       (result_batches t db) cs = Inr cs1"
    and e: "cs' = cs1\<lparr>cs_logs := ls\<rparr> \<or> initiate_guardian_claim db t (cv_claim v) (cs1\<lparr>cs_logs := ls\<rparr>) = Inr cs'"
    using assms unfolding attach_one_claim_def Let_def rbind_eq_Inr by (auto split: if_split_asm)
  have "answered cs cs1" by (rule answered_rfold [OF _ r]) (auto simp: rbind_eq_Inr dest: batch_claim_create_answered)
  then have "answered cs (cs1\<lparr>cs_logs := ls\<rparr>)" by (rule answered_trans) simp
  then show ?thesis using e guardian_answered answered_trans by blast
qed

lemma attach_claims_answered: "attach_claims env db node t vs cs = Inr cs' \<Longrightarrow> answered cs cs'"
  unfolding attach_claims_def by (rule answered_rfold [OF attach_one_answered])

lemma company_verify_answered: "company_claim_verify acid cs = Inr (cs', ok) \<Longrightarrow> answered cs cs'"
proof -
  have "answered d (approve_item i d)" for i and d :: "'a claims_db_scheme"
    by (auto simp: approve_item_def split: option.split)
  then have f: "answered cs (fold approve_item is' cs)" for is' by (rule answered_fold)
  assume "company_claim_verify acid cs = Inr (cs', ok)"
  then show ?thesis
    by (auto simp: company_claim_verify_def company_claim_approve_def rbind_eq_Inr f split: if_split_asm)
qed

lemma delete_attached_answered [simp]: "answered cs (delete_attached acid cs)"
  by (auto simp: delete_attached_def answered_def answers_def Let_def)

lemma company_create_answered:
  assumes "company_claim_create current node clm override cs = Inr (cs', acid)"
  shows "answered cs cs'"
proof -
  define cs0 where "cs0 = (if override then fold delete_attached (company_claims_for node clm current cs) cs else cs)"
  have 0: "answered cs cs0" by (auto simp: cs0_def intro: answered_fold)
  from assms show ?thesis
  proof (cases rule: company_claim_create_cases)
    case 1
    then show ?thesis using 0 by (simp add: cs0_def)
  next
    case (2 c mk cs1 ok crs)
    have "answered cs cs1" using same_evidence_writes(3) [of cs0 c] 2(1) 0 by (auto simp: cs0_def intro: answered_trans)
    also have "answered cs1 (claim_notify acid c (fold (\<lambda>cr cs. fst (create_item (mk cr) cs)) crs cs1))"
      by (simp add: new_items_answered)
    also have "answered (claim_notify acid c (fold (\<lambda>cr cs. fst (create_item (mk cr) cs)) crs cs1)) cs'"
      by (rule company_verify_answered [OF 2(4)])
    finally show ?thesis .
  qed
qed

lemma attach_company_answered: "attach_company_claims current node clms override cs = Inr cs' \<Longrightarrow> answered cs cs'"
  unfolding attach_company_claims_def
  by (rule answered_rfold)
    (auto simp: rbind_eq_Inr dest!: company_create_answered intro: answered_trans split: if_split_asm)

lemma log_answered [simp]: "answered cs (log_to_blockchain env acid p cs)"
  by (auto simp: log_to_blockchain_def Let_def intro: answered_trans split: option.split)

lemma attached_verify_answered:
  assumes "attached_verify env db acid cs = Inr cs'"
  shows "answered cs cs'"
proof -
  obtain c cl where "(case claim_object c cl of
         None \<Rightarrow> Inr cs
       | Some (OnBatch _) \<Rightarrow> batch_claim_verify env db acid cs
       | Some (OnNode _) \<Rightarrow> rbind (company_claim_verify acid cs) (\<lambda>(cs1, _). Inr cs1)) = Inr cs'"
    using assms unfolding attached_verify_def rbind_eq_Inr by blast
  then consider "cs' = cs" | "batch_claim_verify env db acid cs = Inr cs'" | ok where "company_claim_verify acid cs = Inr (cs', ok)"
    by (cases "claim_object c cl"; cases "the (claim_object c cl)") (auto simp: rbind_eq_Inr)
  then show ?thesis by cases (simp_all add: batch_claim_verify_answered company_verify_answered)
qed

lemma verification_answered:
  assumes "verification_update env db current acid status remark cs = Inr cs'"
  shows "answered cs cs'"
proof -
  obtain p cs2 where v: "attached_verify env db acid (save_attached acid p cs) = Inr cs2"
    and e: "cs' = cs2 \<or> cs' = log_to_blockchain env acid p cs2"
    using assms unfolding verification_update_def Let_def rbind_eq_Inr by (auto split: if_split_asm)
  have "answered cs cs2" using same_evidence_writes(1) attached_verify_answered [OF v] by (rule answered_trans)
  then show ?thesis using e answered_trans log_answered by blast
qed

lemma delete_answered: "answered cs (fst (delete_claim node acid cs))"
proof -
  have "answered cs (delete_attached acid (cs\<lparr>cs_notices := ns\<rparr>))" for ns
    by (rule answered_trans [OF same_evidence_writes(6) delete_attached_answered])
  then show ?thesis by (auto simp: delete_claim_def Let_def split: option.split claim_target.split)
qed

section \<open>New responses and fields\<close>

lemma store_response_answers:
  "answers (store_response node fld resp h i cs) \<subseteq> insert (fld, case resp of Some x \<Rightarrow> x | None \<Rightarrow> []) (answers cs) \<and>
   (resp = None \<longrightarrow> answers (store_response node fld resp h i cs) \<subseteq> insert (fld, []) (answers cs))"
  by (auto simp: store_response_def answers_def split: list.split option.splits)

lemma store_response_fields [simp]:
  "cs_fields (store_response node fld resp h i cs) = cs_fields cs"
  "cs_next_field (store_response node fld resp h i cs) = cs_next_field cs"
  by (auto simp: store_response_def split: list.split)

text \<open>A response fits its field; a field of options takes one of them.\<close>

definition answer_fits :: "'h claims_db_scheme \<Rightarrow> nat \<times> string \<Rightarrow> bool" where
  "answer_fits cs a = (case cs_fields cs (fst a) of
      Some f \<Rightarrow> cf_type f = FIELD_TYPE_OPTION \<longrightarrow> snd a \<in> set (get_options f) | None \<Rightarrow> False)"

definition responses_typed :: "'h claims_db_scheme \<Rightarrow> bool" where
  "responses_typed cs \<longleftrightarrow> (\<forall>k f. cs_fields cs k = Some f \<longrightarrow> k < cs_next_field cs) \<and> (\<forall>a\<in>answers cs. answer_fits cs a)"

lemma answered_typed: "answered cs cs' \<Longrightarrow> responses_typed cs \<Longrightarrow> responses_typed cs'"
  by (auto simp: responses_typed_def answered_def answer_fits_def)

lemma stored_typed:
  assumes f: "cs_fields cs fld = Some f" and v: "response_validate hash_file f d = Inr h"
    and "rd_field d = fld" and t: "responses_typed cs"
  shows "responses_typed (store_response node fld (rd_response d) h i cs)"
proof -
  have "answer_fits cs (fld, case rd_response d of Some x \<Rightarrow> x | None \<Rightarrow> [])"
    using f v by (auto simp: answer_fits_def response_validate_def split: field_type.split_asm option.splits if_split_asm)
  then have "\<forall>a\<in>insert (fld, case rd_response d of Some x \<Rightarrow> x | None \<Rightarrow> []) (answers cs). answer_fits cs a"
    using t by (simp add: responses_typed_def)
  then show ?thesis
    using t store_response_answers [of node fld "rd_response d" h i cs] unfolding responses_typed_def
    by (auto simp: answer_fits_def)
qed

lemma batch_response_typed:
  "add_batch_response hash_file node bid d cs = Inr cs' \<Longrightarrow> responses_typed cs \<Longrightarrow> responses_typed cs'"
  by (auto simp: add_batch_response_def rbind_eq_Inr intro: stored_typed)

lemma stored_all_typed:
  assumes f: "cs_fields cs (rd_field d) = Some f" and v: "response_validate hash_file f d = Inr h" and t: "responses_typed cs"
  shows "responses_typed (fold (store_response node (rd_field d) (rd_response d) h) is' cs)"
  using f t
proof (induction is' arbitrary: cs)
  case (Cons i is')
  from stored_typed [OF Cons.prems(1) v refl Cons.prems(2)] show ?case using Cons.prems(1) by (simp add: Cons.IH)
qed simp

lemma transaction_response_typed:
  assumes "add_transaction_response hash_file db node t d cs = Inr cs'" "responses_typed cs"
  shows "responses_typed cs'"
proof -
  obtain f h is' where "cs_fields cs (rd_field d) = Some f" "response_validate hash_file f d = Inr h"
    "cs' = fold (store_response node (rd_field d) (rd_response d) h) is' cs"
    using assms(1) by (auto simp: add_transaction_response_def rbind_eq_Inr)
  then show ?thesis using stored_all_typed assms(2) by blast
qed

text \<open>New versions copy the fields under new keys.\<close>

definition fields_added :: "'h claims_db_scheme \<Rightarrow> 'h claims_db_scheme \<Rightarrow> bool" where
  "fields_added cs cs' \<longleftrightarrow> cs_next_field cs \<le> cs_next_field cs' \<and>
     (\<forall>k<cs_next_field cs. cs_fields cs' k = cs_fields cs k) \<and>
     (\<forall>k f. cs_fields cs' k = Some f \<longrightarrow> cs_fields cs k = None \<longrightarrow> k < cs_next_field cs') \<and>
     answers cs' = answers cs"

lemma fields_added_refl [simp]: "fields_added cs cs"
  by (simp add: fields_added_def)

lemma fields_added_trans: "fields_added a b \<Longrightarrow> fields_added b c \<Longrightarrow> fields_added a c"
  unfolding fields_added_def by (metis less_le_trans not_less option.exhaust order_trans)

lemma fields_added_fold:
  assumes "fields_added a cs" and "\<And>x d. fields_added d (f x d)"
  shows "fields_added a (fold f xs cs)"
  using assms(1) by (induction xs arbitrary: cs) (simp_all add: fields_added_trans [OF _ assms(2)])

lemma copy_field_added: "fields_added cs (copy_field new f cs)"
  by (auto simp: copy_field_def fields_added_def answers_def split: option.split if_split_asm)

lemma copy_criterion_added: "fields_added cs (copy_criterion new i cs)"
proof (cases "cs_criteria cs i")
  case (Some c)
  have same: "fields_added cs (cs\<lparr>cs_criteria := cr, cs_next_criterion := n\<rparr>)" for cr n
    by (simp add: fields_added_def answers_def)
  show ?thesis unfolding copy_criterion_def Some option.case Let_def
    by (rule fields_added_fold [OF same copy_field_added])
qed (simp add: copy_criterion_def)

lemma new_version_added:
  assumes "create_new_version i cs = Inr (cs', j)"
  shows "fields_added cs cs'"
proof -
  have same: "fields_added cs (cs\<lparr>cs_claims := c, cs_next_claim := n\<rparr>)" for c n
    by (simp add: fields_added_def answers_def)
  obtain new cls n where "cs' = fold (copy_criterion new) (claim_criteria i cs) (cs\<lparr>cs_claims := cls, cs_next_claim := n\<rparr>)"
    using assms by (auto simp: create_new_version_def rbind_eq_Inr Let_def)
  then show ?thesis by (simp only:) (rule fields_added_fold [OF same copy_criterion_added])
qed

lemma fields_added_typed:
  assumes "fields_added cs cs'" "responses_typed cs"
  shows "responses_typed cs'"
proof -
  have "answer_fits cs' a" if "a \<in> answers cs" for a
  proof -
    have fit: "answer_fits cs a" using that assms(2) by (simp add: responses_typed_def)
    then have "fst a < cs_next_field cs" using assms(2) by (auto simp: responses_typed_def answer_fits_def split: option.split_asm)
    then show ?thesis using fit assms(1) by (simp add: fields_added_def answer_fits_def)
  qed
  moreover have "k < cs_next_field cs'" if "cs_fields cs' k = Some f" for k f
  proof (cases "cs_fields cs k")
    case (Some f')
    then have "k < cs_next_field cs" using assms(2) by (auto simp: responses_typed_def)
    then show ?thesis using assms(1) by (simp add: fields_added_def)
  qed (use assms(1) that in \<open>simp add: fields_added_def\<close>)
  ultimately show ?thesis using assms(1) by (simp add: responses_typed_def fields_added_def)
qed

section \<open>Every state\<close>

lemma claims_step_typed:
  assumes "claims_step db cs cs'" and t: "responses_typed cs"
  shows "responses_typed cs'"
proof -
  have "answered cs cs' \<or> responses_typed cs'"
    using assms(1)
  proof (cases rule: claims_step.cases)
    case attach_batch
    then show ?thesis by (blast intro: attach_batch_answered)
  next
    case attach_transaction
    then show ?thesis by (blast intro: attach_claims_answered)
  next
    case attach_company
    then show ?thesis by (blast intro: attach_company_answered)
  next
    case inherit
    then show ?thesis by (blast intro: inherit_claims_answered)
  next
    case verification
    then show ?thesis by (blast intro: verification_answered)
  next
    case message_hash
    then show ?thesis by (auto simp: claim_update_message_hash_def rbind_eq_Inr)
  next
    case (delete node acid r)
    then show ?thesis using delete_answered [of cs node acid] by simp
  next
    case rejected
    then show ?thesis by (simp add: remove_txn_notifications_def)
  next
    case batch_response
    then show ?thesis using t by (blast intro: batch_response_typed)
  next
    case transaction_response
    then show ?thesis using t by (blast intro: transaction_response_typed)
  next
    case new_version
    then show ?thesis using t by (blast intro: fields_added_typed new_version_added)
  qed
  then show ?thesis using answered_typed t by blast
qed


text \<open>A choice between two options, answered with the second.\<close>

definition demo_choice :: claims_db where
  "demo_choice = (demo_claims None)\<lparr>cs_fields := [2 \<mapsto> \<lparr>cf_criterion = 3, cf_title = ''t'', cf_options = ''a, b'',
     cf_type = FIELD_TYPE_OPTION\<rparr>], cs_next_field := 3\<rparr>"

abbreviation "demo_answer \<equiv> \<lparr>rd_field = 2, rd_response = Some ''b'', rd_file = None\<rparr>"

lemma demo_answered: "is_ok (add_batch_response id 5 7 demo_answer demo_choice)"
  by code_simp


end
