(* ===== verification/Supply_Chain.thy ===== *)
theory Supply_Chain
  imports Stock_Ledger
begin

text \<open>
  Companies, farmers and their connections: \<open>Connection\<close> and \<open>ConnectionTag\<close> of
  \<open>v2/supply_chains/models/supply_chain.py\<close>, the relations of \<open>Node\<close> in
  \<open>models/node.py\<close>, invitations and tag updates of \<open>serializers/supply_chain.py\<close>, and
  the tiers that \<open>models/graph.py\<close> computes from the rows of a graph query. The graph
  database, which mirrors the tables after each commit, is outside the model: its query
  is the list of rows that the tier functions get. Statistics, caches, e-mails and the
  accounts of new companies are not modelled.
\<close>

section \<open>Tables\<close>

datatype connection_status = CONNECTION_STATUS_CLAIMED | CONNECTION_STATUS_VERIFIED | CONNECTION_STATUS_REJECTED
datatype invite_relation = INVITE_RELATION_SUPPLIER | INVITE_RELATION_BUYER
datatype invitation_type = INVITATION_TYPE_DIRECT | INVITATION_TYPE_INDIRECT

record sc_node =
  sn_type :: node_type
  sn_joined :: "int option"
  sn_managers :: "nat list"
  sn_full_disclosure :: bool
  sn_test :: bool

record connection =
  cn_buyer :: nat
  cn_supplier :: nat
  cn_chain :: nat
  cn_status :: connection_status
  cn_active :: bool
  cn_creator :: "nat option"

record connection_tag =
  tg_buyer_connection :: nat
  tg_supplier_connection :: nat
  tg_creator :: "nat option"

record invitation =
  iv_inviter :: nat
  iv_invitee :: nat
  iv_connection :: nat
  iv_relation :: invite_relation
  iv_type :: invitation_type
  iv_message :: string

record node_supply_chain =
  ns_primary_operation :: "nat option"
  ns_other_operations :: "nat list"

record sc_db =
  sc_nodes :: "nat \<rightharpoonup> sc_node"
  sc_next_node :: nat
  sc_connections :: "nat \<rightharpoonup> connection"
  sc_next_connection :: nat
  sc_tags :: "nat \<rightharpoonup> connection_tag"
  sc_next_tag :: nat
  sc_invitations :: "invitation list"
  sc_access :: "nat \<times> nat \<rightharpoonup> node_supply_chain"

section \<open>Connections\<close>

definition connections_where :: "(connection \<Rightarrow> bool) \<Rightarrow> 'h sc_db_scheme \<Rightarrow> nat list" where
  "connections_where p db =
     [i\<leftarrow>[0..<sc_next_connection db]. case sc_connections db i of Some c \<Rightarrow> p c | None \<Rightarrow> False]"

definition save_connection :: "nat \<Rightarrow> connection \<Rightarrow> 'h sc_db_scheme \<Rightarrow> 'h sc_db_scheme" where
  "save_connection i c db = db\<lparr>sc_connections := (sc_connections db)(i \<mapsto> c)\<rparr>"

text \<open>\<open>None\<close> as the supply chain asks for all of them; \<open>parent\<close> filters by tags.\<close>

definition in_chain :: "nat option \<Rightarrow> connection \<Rightarrow> bool" where
  "in_chain chain c \<longleftrightarrow> (case chain of None \<Rightarrow> True | Some s \<Rightarrow> cn_chain c = s)"

definition buyer_connections :: "nat \<Rightarrow> nat option \<Rightarrow> 'h sc_db_scheme \<Rightarrow> nat list" where
  "buyer_connections node chain = connections_where (\<lambda>c. cn_supplier c = node \<and> in_chain chain c)"

definition supplier_connections :: "nat \<Rightarrow> nat option \<Rightarrow> 'h sc_db_scheme \<Rightarrow> nat list" where
  "supplier_connections node chain = connections_where (\<lambda>c. cn_buyer c = node \<and> in_chain chain c)"

text \<open>Tags by the connection they belong to on either side.\<close>

definition buyer_tags :: "nat \<Rightarrow> 'h sc_db_scheme \<Rightarrow> nat list" where
  "buyer_tags cid db =
     [i\<leftarrow>[0..<sc_next_tag db]. case sc_tags db i of Some t \<Rightarrow> tg_supplier_connection t = cid | None \<Rightarrow> False]"

definition supplier_tags :: "nat \<Rightarrow> 'h sc_db_scheme \<Rightarrow> nat list" where
  "supplier_tags cid db =
     [i\<leftarrow>[0..<sc_next_tag db]. case sc_tags db i of Some t \<Rightarrow> tg_buyer_connection t = cid | None \<Rightarrow> False]"

text \<open>Sets of companies are lists without duplicates.\<close>

definition end_of :: "(connection \<Rightarrow> nat) \<Rightarrow> nat \<Rightarrow> 'h sc_db_scheme \<Rightarrow> nat option" where
  "end_of f cid db = map_option f (sc_connections db cid)"

definition ends_of :: "(connection \<Rightarrow> nat) \<Rightarrow> nat list \<Rightarrow> 'h sc_db_scheme \<Rightarrow> nat list" where
  "ends_of f cids db = remdups [f c. i \<leftarrow> cids, c \<leftarrow> (case sc_connections db i of Some c \<Rightarrow> [c] | None \<Rightarrow> [])]"

definition get_buyers :: "nat \<Rightarrow> nat option \<Rightarrow> nat option \<Rightarrow> 'h sc_db_scheme \<Rightarrow> nat list" where
  "get_buyers node chain parent db =
     (let cs = buyer_connections node chain db;
          cs1 = (case parent of None \<Rightarrow> cs
                 | Some p \<Rightarrow> [i\<leftarrow>cs. \<exists>t\<in>set (supplier_tags i db).
                     Option.bind (map_option tg_supplier_connection (sc_tags db t)) (\<lambda>s. end_of cn_supplier s db) = Some p])
      in ends_of cn_buyer cs1 db)"

definition get_suppliers :: "nat \<Rightarrow> nat option \<Rightarrow> nat option \<Rightarrow> 'h sc_db_scheme \<Rightarrow> nat list" where
  "get_suppliers node chain parent db =
     (let cs = supplier_connections node chain db;
          cs1 = (case parent of None \<Rightarrow> cs
                 | Some p \<Rightarrow> [i\<leftarrow>cs. \<exists>t\<in>set (buyer_tags i db).
                     Option.bind (map_option tg_buyer_connection (sc_tags db t)) (\<lambda>b. end_of cn_buyer b db) = Some p])
      in ends_of cn_supplier cs1 db)"

definition get_connections :: "nat \<Rightarrow> nat option \<Rightarrow> 'h sc_db_scheme \<Rightarrow> nat list" where
  "get_connections node chain db = remdups (get_buyers node chain None db @ get_suppliers node chain None db)"

definition is_supplier :: "nat \<Rightarrow> nat \<Rightarrow> nat option \<Rightarrow> 'h sc_db_scheme \<Rightarrow> bool" where
  "is_supplier self node chain db \<longleftrightarrow>
     connections_where (\<lambda>c. cn_buyer c = node \<and> cn_supplier c = self \<and> in_chain chain c) db \<noteq> []"

definition is_buyer :: "nat \<Rightarrow> nat \<Rightarrow> nat option \<Rightarrow> 'h sc_db_scheme \<Rightarrow> bool" where
  "is_buyer self node chain db \<longleftrightarrow>
     connections_where (\<lambda>c. cn_supplier c = node \<and> cn_buyer c = self \<and> in_chain chain c) db \<noteq> []"

definition is_directly_connected_to :: "nat \<Rightarrow> nat \<Rightarrow> nat option \<Rightarrow> 'h sc_db_scheme \<Rightarrow> bool" where
  "is_directly_connected_to self node chain db \<longleftrightarrow> is_supplier self node chain db \<or> is_buyer self node chain db"

text \<open>Suppliers of suppliers and buyers of buyers, along the tags.\<close>

definition get_t2_suppliers :: "nat \<Rightarrow> nat option \<Rightarrow> nat option \<Rightarrow> 'h sc_db_scheme \<Rightarrow> nat list" where
  "get_t2_suppliers node through chain db =
     (let cs = [i\<leftarrow>supplier_connections node chain db. through = None \<or> end_of cn_supplier i db = through] in
      ends_of cn_supplier
        [tg_supplier_connection t. i \<leftarrow> cs, k \<leftarrow> supplier_tags i db,
           t \<leftarrow> (case sc_tags db k of Some t \<Rightarrow> [t] | None \<Rightarrow> [])] db)"

definition get_t2_buyers :: "nat \<Rightarrow> nat option \<Rightarrow> nat option \<Rightarrow> 'h sc_db_scheme \<Rightarrow> nat list" where
  "get_t2_buyers node through chain db =
     (let cs = [i\<leftarrow>buyer_connections node chain db. through = None \<or> end_of cn_buyer i db = through] in
      ends_of cn_buyer
        [tg_buyer_connection t. i \<leftarrow> cs, k \<leftarrow> buyer_tags i db,
           t \<leftarrow> (case sc_tags db k of Some t \<Rightarrow> [t] | None \<Rightarrow> [])] db)"

section \<open>Who may manage and read whom\<close>

definition invited :: "nat \<Rightarrow> nat \<Rightarrow> nat option \<Rightarrow> 'h sc_db_scheme \<Rightarrow> bool" where
  "invited self node chain db \<longleftrightarrow>
     (\<exists>v\<in>set (sc_invitations db). iv_inviter v = self \<and> iv_invitee v = node \<and>
        (case chain of None \<Rightarrow> True | Some s \<Rightarrow> end_of cn_chain (iv_connection v) db = Some s))"

definition can_manage :: "nat \<Rightarrow> nat \<Rightarrow> nat option \<Rightarrow> 'h sc_db_scheme \<Rightarrow> bool" where
  "can_manage self node chain db =
     (if node = self then True
      else if \<exists>n\<in>set_option (sc_nodes db node). self \<in> set (sn_managers n) then True
      else if node \<in> set (get_suppliers self chain None db) then True
      else if node \<in> set (get_buyers self chain None db) then True
      else if invited self node chain db then True
      else False)"

definition get_managed_nodes :: "nat \<Rightarrow> nat option \<Rightarrow> 'h sc_db_scheme \<Rightarrow> nat set" where
  "get_managed_nodes self chain db =
     {self} \<union> {n. \<exists>x\<in>set_option (sc_nodes db n). self \<in> set (sn_managers x)}
     \<union> set (get_suppliers self chain None db) \<union> set (get_buyers self chain None db)
     \<union> {n. \<exists>v\<in>set (sc_invitations db). iv_inviter v = self \<and> iv_invitee v = n \<and>
              end_of cn_chain (iv_connection v) db = chain}"

definition can_read :: "nat \<Rightarrow> nat \<Rightarrow> nat option \<Rightarrow> 'h sc_db_scheme \<Rightarrow> bool" where
  "can_read self node chain db =
     (if \<exists>n\<in>set_option (sc_nodes db node). sn_full_disclosure n then True else can_manage self node chain db)"

section \<open>Tags\<close>

definition is_valid :: "connection_tag \<Rightarrow> 'h sc_db_scheme \<Rightarrow> bool" where
  "is_valid t db =
     (case (sc_connections db (tg_buyer_connection t), sc_connections db (tg_supplier_connection t)) of
        (Some b, Some s) \<Rightarrow> if cn_supplier b = cn_buyer s then if cn_chain b = cn_chain s then True else False else False
      | _ \<Rightarrow> False)"

definition get_or_create_tag :: "nat \<Rightarrow> nat \<Rightarrow> nat option \<Rightarrow> 'h sc_db_scheme \<Rightarrow> 'h sc_db_scheme" where
  "get_or_create_tag b s creator db =
     (if \<exists>i\<in>set [0..<sc_next_tag db]. \<exists>t\<in>set_option (sc_tags db i). tg_buyer_connection t = b \<and> tg_supplier_connection t = s
      then db
      else db\<lparr>sc_tags := (sc_tags db)(sc_next_tag db \<mapsto>
                \<lparr>tg_buyer_connection = b, tg_supplier_connection = s, tg_creator = creator\<rparr>),
              sc_next_tag := Suc (sc_next_tag db)\<rparr>)"

definition invalid_tag :: error where
  "invalid_tag = BadRequest ''Invalid tag. corresponding connection does not exist.''"

definition tag_buyer :: "nat \<Rightarrow> nat option \<Rightarrow> nat \<Rightarrow> 'h sc_db_scheme \<Rightarrow> 'h sc_db_scheme result" where
  "tag_buyer cid creator node db =
     rbind (of_option DoesNotExist (sc_connections db cid)) (\<lambda>c.
       case connections_where (\<lambda>d. cn_supplier d = cn_buyer c \<and> cn_buyer d = node \<and> cn_chain d = cn_chain c) db of
         [b] \<Rightarrow> Inr (get_or_create_tag b cid creator db)
       | _ \<Rightarrow> Inl invalid_tag)"

definition tag_supplier :: "nat \<Rightarrow> nat option \<Rightarrow> nat \<Rightarrow> 'h sc_db_scheme \<Rightarrow> 'h sc_db_scheme result" where
  "tag_supplier cid creator node db =
     rbind (of_option DoesNotExist (sc_connections db cid)) (\<lambda>c.
       case connections_where (\<lambda>d. cn_supplier d = node \<and> cn_buyer d = cn_supplier c \<and> cn_chain d = cn_chain c) db of
         [s] \<Rightarrow> Inr (get_or_create_tag cid s creator db)
       | _ \<Rightarrow> Inl invalid_tag)"

definition tag_buyers :: "nat \<Rightarrow> nat list \<Rightarrow> 'h sc_db_scheme \<Rightarrow> 'h sc_db_scheme result" where
  "tag_buyers cid nodes db = rfold (tag_buyer cid None) nodes db"

definition tag_suppliers :: "nat \<Rightarrow> nat list \<Rightarrow> 'h sc_db_scheme \<Rightarrow> 'h sc_db_scheme result" where
  "tag_suppliers cid nodes db = rfold (tag_supplier cid None) nodes db"

text \<open>Outside a database transaction a loop keeps what it did before the error.\<close>

fun each :: "('a \<Rightarrow> 's \<Rightarrow> 's result) \<Rightarrow> 'a list \<Rightarrow> 's \<Rightarrow> 's \<times> unit result" where
  "each f [] s = (s, Inr ())"
| "each f (x # xs) s = (case f x s of Inl e \<Rightarrow> (s, Inl e) | Inr s' \<Rightarrow> each f xs s')"

definition delete_tags :: "nat list \<Rightarrow> 'h sc_db_scheme \<Rightarrow> 'h sc_db_scheme" where
  "delete_tags ids db = db\<lparr>sc_tags := (\<lambda>i. if i \<in> set ids then None else sc_tags db i)\<rparr>"

text \<open>
  \<open>UpdateTagSerializer.update\<close>, which is not atomic: the tables and the outcome.
  \<open>base\<close> is the caller's node, \<open>instance\<close> the node of the URL.
\<close>

definition not_connected :: error where
  "not_connected = BadRequest ''Not connected. You can only change tags of your direct connection''"

definition update_supplier_for ::
    "nat \<Rightarrow> nat \<Rightarrow> nat \<Rightarrow> nat list \<Rightarrow> 'h sc_db_scheme \<Rightarrow> 'h sc_db_scheme \<times> unit result"
where
  "update_supplier_for base instance chain nodes db =
     (case connections_where (\<lambda>c. cn_buyer c = base \<and> cn_supplier c = instance \<and> cn_chain c = chain) db of
        [] \<Rightarrow> (db, Inl not_connected)
      | cid # _ \<Rightarrow>
          each (tag_buyer cid None) nodes
            (delete_tags [k\<leftarrow>buyer_tags cid db.
               \<not> (case Option.bind (map_option tg_buyer_connection (sc_tags db k)) (\<lambda>b. end_of cn_buyer b db) of
                     Some n \<Rightarrow> n \<in> set nodes | None \<Rightarrow> False)] db))"

definition update_buyer_for ::
    "nat \<Rightarrow> nat \<Rightarrow> nat \<Rightarrow> nat list \<Rightarrow> 'h sc_db_scheme \<Rightarrow> 'h sc_db_scheme \<times> unit result"
where
  "update_buyer_for base instance chain nodes db =
     (case connections_where (\<lambda>c. cn_buyer c = instance \<and> cn_supplier c = base \<and> cn_chain c = chain) db of
        [] \<Rightarrow> (db, Inl not_connected)
      | cid # _ \<Rightarrow>
          each (tag_supplier cid None) nodes
            (delete_tags [k\<leftarrow>supplier_tags cid db.
               \<not> (case Option.bind (map_option tg_supplier_connection (sc_tags db k)) (\<lambda>s. end_of cn_supplier s db) of
                     Some n \<Rightarrow> n \<in> set nodes | None \<Rightarrow> False)] db))"

definition update_tags ::
    "nat \<Rightarrow> nat \<Rightarrow> nat \<Rightarrow> nat list option \<Rightarrow> nat list option \<Rightarrow> 'h sc_db_scheme \<Rightarrow> 'h sc_db_scheme \<times> unit result"
where
  "update_tags base instance chain supplier_for buyer_for db =
     (case (case supplier_for of Some ns \<Rightarrow> update_supplier_for base instance chain ns db | None \<Rightarrow> (db, Inr ())) of
        (db1, Inl e) \<Rightarrow> (db1, Inl e)
      | (db1, Inr _) \<Rightarrow>
          (case buyer_for of Some ns \<Rightarrow> update_buyer_for base instance chain ns db1 | None \<Rightarrow> (db1, Inr ())))"

section \<open>Joining\<close>

definition joined :: "nat \<Rightarrow> 'h sc_db_scheme \<Rightarrow> bool" where
  "joined n db \<longleftrightarrow> (case sc_nodes db n of Some x \<Rightarrow> sn_joined x \<noteq> None | None \<Rightarrow> False)"

definition verify_connection :: "nat \<Rightarrow> 'h sc_db_scheme \<Rightarrow> 'h sc_db_scheme" where
  "verify_connection cid db =
     (case sc_connections db cid of
        None \<Rightarrow> db
      | Some c \<Rightarrow>
          if cn_status c = CONNECTION_STATUS_CLAIMED \<and> joined (cn_buyer c) db \<and> joined (cn_supplier c) db
          then save_connection cid (c\<lparr>cn_status := CONNECTION_STATUS_VERIFIED\<rparr>) db else db)"

definition verify_connections :: "nat \<Rightarrow> 'h sc_db_scheme \<Rightarrow> 'h sc_db_scheme" where
  "verify_connections node db =
     (let db1 = fold verify_connection (buyer_connections node None db) db
      in fold verify_connection (supplier_connections node None db1) db1)"

definition update_date_joined :: "int \<Rightarrow> nat \<Rightarrow> 'h sc_db_scheme \<Rightarrow> 'h sc_db_scheme" where
  "update_date_joined now node db =
     (case sc_nodes db node of
        None \<Rightarrow> db
      | Some n \<Rightarrow>
          if sn_joined n \<noteq> None then db
          else
            verify_connections node
              (db\<lparr>sc_nodes := (sc_nodes db)(node \<mapsto> n\<lparr>sn_joined := Some now,
                    sn_managers := (if sn_type n = NODE_COMPANY then [] else sn_managers n)\<rparr>)\<rparr>))"

section \<open>Invitations\<close>

text \<open>
  The validated data of \<open>InviteSerializer\<close>; the outer option is an absent key. A company
  may be an existing one (\<open>node_object\<close>).
\<close>

record invite_data =
  in_node :: "nat option"
  in_type :: node_type
  in_full_disclosure :: bool
  in_connected_to :: "nat option"
  in_supplier_for :: "nat list"
  in_buyer_for :: "nat list"
  in_map_all_suppliers :: bool
  in_map_all_buyers :: bool
  in_supply_chain :: nat
  in_relation :: invite_relation
  in_primary_operation :: "nat option option"
  in_other_operations :: "nat list"
  in_message :: string

definition get_or_create_connection ::
    "nat \<Rightarrow> nat \<Rightarrow> nat \<Rightarrow> 'h sc_db_scheme \<Rightarrow> ('h sc_db_scheme \<times> nat \<times> bool) result"
where
  "get_or_create_connection buyer supplier chain db =
     (case connections_where (\<lambda>c. cn_buyer c = buyer \<and> cn_supplier c = supplier \<and> cn_chain c = chain) db of
        [] \<Rightarrow> (let i = sc_next_connection db in
               Inr ((save_connection i \<lparr>cn_buyer = buyer, cn_supplier = supplier, cn_chain = chain,
                       cn_status = CONNECTION_STATUS_CLAIMED, cn_active = True, cn_creator = None\<rparr> db)
                      \<lparr>sc_next_connection := Suc i\<rparr>, i, True))
      | [i] \<Rightarrow> Inr (db, i, False)
      | _ \<Rightarrow> Inl MultipleObjectsReturned)"

text \<open>\<open>NodeSerializer.serializer_create\<close> and the managers of the new node.\<close>

definition create_node :: "nat \<Rightarrow> nat \<Rightarrow> invite_data \<Rightarrow> 'h sc_db_scheme \<Rightarrow> 'h sc_db_scheme \<times> nat" where
  "create_node inviter connected_to d db =
     (let i = sc_next_node db;
          test = (\<exists>x\<in>set_option (sc_nodes db inviter). sn_test x)
      in (db\<lparr>sc_nodes := (sc_nodes db)(i \<mapsto>
               \<lparr>sn_type = in_type d, sn_joined = None,
                sn_managers = (if in_type d = NODE_FARM then remdups [inviter, connected_to] else [inviter]),
                sn_full_disclosure = in_full_disclosure d, sn_test = test\<rparr>),
             sc_next_node := Suc i\<rparr>, i))"

definition access_supply_chain ::
    "nat \<Rightarrow> nat \<Rightarrow> nat option \<Rightarrow> nat list \<Rightarrow> 'h sc_db_scheme \<Rightarrow> 'h sc_db_scheme"
where
  "access_supply_chain node chain primary others db =
     (let old = (case sc_access db (node, chain) of Some a \<Rightarrow> ns_other_operations a | None \<Rightarrow> [])
      in db\<lparr>sc_access := (sc_access db)((node, chain) \<mapsto>
              \<lparr>ns_primary_operation = primary, ns_other_operations = remdups (old @ others)\<rparr>)\<rparr>)"

definition connect_invitee ::
    "nat \<Rightarrow> nat \<Rightarrow> nat \<Rightarrow> invite_data \<Rightarrow> 'h sc_db_scheme \<Rightarrow> ('h sc_db_scheme \<times> nat) result"
where
  "connect_invitee user node connected_to d db =
     (let chain = in_supply_chain d;
          status = (if joined node db then CONNECTION_STATUS_VERIFIED else CONNECTION_STATUS_CLAIMED);
          finish = (\<lambda>cid tag nodes created db1.
             rbind (ensure created (BadRequest ''Connection already exists'')) (\<lambda>_.
             rbind (of_option DoesNotExist (sc_connections db1 cid)) (\<lambda>c.
             rbind (tag cid nodes (save_connection cid (c\<lparr>cn_status := status, cn_creator := Some user\<rparr>) db1)) (\<lambda>db2.
               Inr (db2, cid)))))
      in case in_relation d of
           INVITE_RELATION_BUYER \<Rightarrow>
             rbind (get_or_create_connection node connected_to chain db) (\<lambda>(db1, cid, created).
               finish cid tag_suppliers
                 (if in_map_all_suppliers d then get_suppliers connected_to (Some chain) None db1 else in_buyer_for d)
                 created db1)
         | INVITE_RELATION_SUPPLIER \<Rightarrow>
             rbind (get_or_create_connection connected_to node chain db) (\<lambda>(db1, cid, created).
               finish cid tag_buyers
                 (if in_map_all_buyers d then get_buyers connected_to (Some chain) None db1 else in_supplier_for d)
                 created db1))"

text \<open>\<open>InviteSerializer.serializer_create\<close>; atomic.\<close>

definition invite :: "nat \<Rightarrow> nat \<Rightarrow> invite_data \<Rightarrow> 'h sc_db_scheme \<Rightarrow> ('h sc_db_scheme \<times> nat) result" where
  "invite inviter user d db =
     (let connected_to = (case in_connected_to d of Some n \<Rightarrow> n | None \<Rightarrow> inviter);
          (db1, node) = (case in_node d of Some n \<Rightarrow> (db, n) | None \<Rightarrow> create_node inviter connected_to d db)
      in rbind (ensure (node \<noteq> inviter) (BadRequest ''Cannot connect to yourself'')) (\<lambda>_.
         rbind (of_option PyKeyError (in_primary_operation d)) (\<lambda>primary.
         rbind (connect_invitee user node connected_to d
                  (access_supply_chain node (in_supply_chain d) primary (in_other_operations d) db1)) (\<lambda>(db2, cid).
         rbind (of_option DoesNotExist (sc_connections db2 cid)) (\<lambda>c.
           Inr (db2\<lparr>sc_invitations := sc_invitations db2 @
                   [\<lparr>iv_inviter = inviter, iv_invitee = node, iv_connection = cid, iv_relation = in_relation d,
                     iv_type = (if inviter \<in> {cn_buyer c, cn_supplier c} then INVITATION_TYPE_DIRECT
                                else INVITATION_TYPE_INDIRECT),
                     iv_message = in_message d\<rparr>]\<rparr>, cid))))))"

definition disable :: "nat \<Rightarrow> 'h sc_db_scheme \<Rightarrow> 'h sc_db_scheme" where
  "disable cid db =
     (case sc_connections db cid of Some c \<Rightarrow> save_connection cid (c\<lparr>cn_active := False\<rparr>) db | None \<Rightarrow> db)"

section \<open>Tiers\<close>

text \<open>
  A row of the graph query: the node reached, the distances of the first and the last
  connection and of the tags between them, and the data of the last connection. The key
  of a node is its number; its encoded form is left out.
\<close>

record chain_item =
  ci_node :: nat
  ci_type :: node_type
  ci_start :: rat
  ci_end :: rat
  ci_tags :: "rat list"
  ci_parent :: nat
  ci_parent_name :: string
  ci_status :: connection_status
  ci_email_sent :: bool
  ci_labels :: "nat list"
  ci_supplier_for :: "nat list"
  ci_buyer_for :: "nat list"
  ci_managers :: "nat list"

record parent_data =
  pd_name :: string
  pd_status :: "connection_status option"
  pd_email_sent :: "bool option"
  pd_labels :: "nat list"
  pd_supplier_for :: "nat list"
  pd_buyer_for :: "nat list"
  pd_managers :: "nat list"

record tier_item =
  ti_connected_to :: "(nat \<times> parent_data) list"
  ti_distance :: rat
  ti_tier :: int
  ti_type :: node_type

definition no_parent :: "bool option \<Rightarrow> parent_data" where
  "no_parent sent = \<lparr>pd_name = [], pd_status = None, pd_email_sent = sent, pd_labels = [],
     pd_supplier_for = [], pd_buyer_for = [], pd_managers = []\<rparr>"

definition chain_distance :: "chain_item \<Rightarrow> rat" where
  "chain_distance r = (ci_start r + ci_end r) / 2 + sum_list (ci_tags r)"

definition chain_parent :: "bool \<Rightarrow> chain_item \<Rightarrow> nat \<times> parent_data" where
  "chain_parent fast r =
     (if fast then (0, no_parent None)
      else (ci_parent r, \<lparr>pd_name = ci_parent_name r, pd_status = Some (ci_status r), pd_email_sent = Some (ci_email_sent r),
              pd_labels = ci_labels r, pd_supplier_for = ci_supplier_for r, pd_buyer_for = ci_buyer_for r,
              pd_managers = ci_managers r\<rparr>))"

definition chain_step ::
    "(chain_item \<Rightarrow> int) \<Rightarrow> bool \<Rightarrow> chain_item \<Rightarrow> (nat \<rightharpoonup> tier_item) \<Rightarrow> (nat \<rightharpoonup> tier_item)"
where
  "chain_step tier_of fast r data =
     (let parent = chain_parent fast r in
      case data (ci_node r) of
        None \<Rightarrow> data(ci_node r \<mapsto> \<lparr>ti_connected_to = [parent], ti_distance = chain_distance r, ti_tier = tier_of r,
                                    ti_type = ci_type r\<rparr>)
      | Some t \<Rightarrow>
          data(ci_node r \<mapsto> t
            \<lparr>ti_connected_to := (if fst parent \<in> fst ` set (ti_connected_to t) then ti_connected_to t
                                 else ti_connected_to t @ [parent]),
             ti_distance := min (chain_distance r) (ti_distance t),
             ti_tier := min (tier_of r) (ti_tier t)\<rparr>))"

definition chain_of ::
    "(chain_item \<Rightarrow> int) \<Rightarrow> bool option \<Rightarrow> nat \<Rightarrow> node_type \<Rightarrow> bool \<Rightarrow> bool \<Rightarrow> chain_item list \<Rightarrow>
     nat set \<times> (nat \<rightharpoonup> tier_item)"
where
  "chain_of tier_of sent self ty include_self fast rows =
     (set ((if include_self then [self] else []) @ map ci_node rows),
      fold (chain_step tier_of fast) rows
        [self \<mapsto> \<lparr>ti_connected_to = [(0, no_parent sent)], ti_distance = 0, ti_tier = 0, ti_type = ty\<rparr>])"

definition get_supplier_chain ::
    "nat \<Rightarrow> node_type \<Rightarrow> bool \<Rightarrow> bool \<Rightarrow> chain_item list \<Rightarrow> nat set \<times> (nat \<rightharpoonup> tier_item)"
where
  "get_supplier_chain = chain_of (\<lambda>r. int (length (ci_tags r)) + 1) (Some True)"

definition get_buyer_chain ::
    "nat \<Rightarrow> node_type \<Rightarrow> bool \<Rightarrow> bool \<Rightarrow> chain_item list \<Rightarrow> nat set \<times> (nat \<rightharpoonup> tier_item)"
where
  "get_buyer_chain = chain_of (\<lambda>r. - (int (length (ci_tags r)) + 1)) None"

text \<open>\<open>Node.get_tier\<close>: only the first row of either query counts, suppliers first.\<close>

definition get_tier ::
    "(rat list \<times> connection_status) list \<Rightarrow> (rat list \<times> connection_status) list \<Rightarrow>
     int \<times> invite_relation option \<times> connection_status option"
where
  "get_tier supplier_rows buyer_rows =
     (case supplier_rows of
        (tags, s) # _ \<Rightarrow> (- (int (length tags) + 1), Some INVITE_RELATION_SUPPLIER, Some s)
      | [] \<Rightarrow>
          (case buyer_rows of
             (tags, s) # _ \<Rightarrow> (int (length tags) + 1, Some INVITE_RELATION_BUYER, Some s)
           | [] \<Rightarrow> (0, None, None)))"

end
