(* ===== verification/Supply_Chain_Properties.thy ===== *)
theory Supply_Chain_Properties
  imports Supply_Chain
begin

text \<open>
  Connections and tags: in every reachable state two parties are connected at most once in a
  chain, every tag joins two connections of one company, and a claimed connection has a
  party that has not joined. What an update of tags does, who can connect whom, and
  which of several paths the tiers stand for.
\<close>

lemma joined_iff: "joined n db \<longleftrightarrow> (\<exists>x. sc_nodes db n = Some x \<and> sn_joined x \<noteq> None)"
  by (cases "sc_nodes db n") (simp_all add: joined_def)

section \<open>What connections are\<close>

definition parties :: "'h sc_db_scheme \<Rightarrow> nat \<Rightarrow> (nat \<times> nat \<times> nat) option" where
  "parties db i = map_option (\<lambda>c. (cn_buyer c, cn_supplier c, cn_chain c)) (sc_connections db i)"

definition tag_fits :: "(nat \<Rightarrow> (nat \<times> nat \<times> nat) option) \<Rightarrow> connection_tag \<Rightarrow> bool" where
  "tag_fits p t \<longleftrightarrow> (\<exists>b s x chain. p (tg_buyer_connection t) = Some (b, x, chain) \<and>
      p (tg_supplier_connection t) = Some (x, s, chain))"

lemma is_valid_fits: "is_valid t db \<longleftrightarrow> tag_fits (parties db) t"
  by (auto simp: is_valid_def tag_fits_def parties_def split: option.splits)

definition connected_once :: "'h sc_db_scheme \<Rightarrow> bool" where
  "connected_once db \<longleftrightarrow> (\<forall>i. parties db i \<noteq> None \<longrightarrow> i < sc_next_connection db) \<and>
     (\<forall>i j k. parties db i = Some k \<longrightarrow> parties db j = Some k \<longrightarrow> i = j)"

definition tags_valid :: "'h sc_db_scheme \<Rightarrow> bool" where
  "tags_valid db \<longleftrightarrow> (\<forall>k t. sc_tags db k = Some t \<longrightarrow> k < sc_next_tag db \<and> tag_fits (parties db) t)"

definition claimed_pending :: "'h sc_db_scheme \<Rightarrow> bool" where
  "claimed_pending db \<longleftrightarrow> (\<forall>i c. sc_connections db i = Some c \<longrightarrow> cn_status c = CONNECTION_STATUS_CLAIMED \<longrightarrow>
      \<not> (joined (cn_buyer c) db \<and> joined (cn_supplier c) db))"

definition sc_inv :: "'h sc_db_scheme \<Rightarrow> bool" where
  "sc_inv db \<longleftrightarrow> connected_once db \<and> tags_valid db \<and> claimed_pending db"

lemma connection_key_less: "connected_once db \<Longrightarrow> sc_connections db i = Some c \<Longrightarrow> i < sc_next_connection db"
  unfolding connected_once_def parties_def by (metis option.distinct(1) option.simps(9))

lemma connections_where_iff:
  assumes "connected_once db"
  shows "i \<in> set (connections_where p db) \<longleftrightarrow> (\<exists>c. sc_connections db i = Some c \<and> p c)"
  using connection_key_less [OF assms, of i]
  by (cases "sc_connections db i") (simp_all add: connections_where_def)

lemma connections_where_in: "i \<in> set (connections_where p db) \<Longrightarrow> \<exists>c. sc_connections db i = Some c \<and> p c"
  by (auto simp: connections_where_def split: option.splits)

lemma distinct_connections_where [simp]: "distinct (connections_where p db)"
  by (simp add: connections_where_def)

text \<open>The connection between two parties in a chain.\<close>

lemma connection_unique:
  assumes once: "connected_once db"
    and p: "\<And>c. p c \<longleftrightarrow> cn_buyer c = b \<and> cn_supplier c = s \<and> cn_chain c = ch"
  shows "connections_where p db = [] \<or> (\<exists>i. connections_where p db = [i] \<and> parties db i = Some (b, s, ch))"
proof (cases "connections_where p db")
  case (Cons i rest)
  have key: "parties db j = Some (b, s, ch)" if "j \<in> set (connections_where p db)" for j
    using connections_where_in [OF that] p by (auto simp: parties_def)
  have "rest = []"
  proof (cases rest)
    case (Cons j more)
    have "i = j" using key [of i] key [of j] once \<open>connections_where p db = i # rest\<close> Cons
      by (auto simp: connected_once_def)
    then show ?thesis using distinct_connections_where [of p db] \<open>connections_where p db = i # rest\<close> Cons by simp
  qed simp
  then show ?thesis using Cons key [of i] by simp
qed simp

section \<open>Tags\<close>

text \<open>What the tag operations leave alone.\<close>

definition only_tags :: "'h sc_db_scheme \<Rightarrow> 'h sc_db_scheme \<Rightarrow> bool" where
  "only_tags db db' \<longleftrightarrow> sc_connections db' = sc_connections db \<and> sc_next_connection db' = sc_next_connection db \<and>
     sc_nodes db' = sc_nodes db \<and> sc_next_node db' = sc_next_node db \<and> sc_invitations db' = sc_invitations db \<and>
     sc_access db' = sc_access db"

lemma only_tags_refl [simp]: "only_tags db db"
  by (simp add: only_tags_def)

lemma only_tags_trans: "only_tags a b \<Longrightarrow> only_tags b c \<Longrightarrow> only_tags a c"
  by (simp add: only_tags_def)

lemma only_tags_facts:
  assumes "only_tags db db'"
  shows "parties db' = parties db" "connected_once db' = connected_once db" "claimed_pending db' = claimed_pending db"
    "connections_where p db' = connections_where p db" "end_of f i db' = end_of f i db"
proof -
  show p: "parties db' = parties db" using assms by (simp add: parties_def fun_eq_iff only_tags_def)
  show "connected_once db' = connected_once db" using assms by (simp add: connected_once_def p only_tags_def)
  show "claimed_pending db' = claimed_pending db"
    using assms by (simp add: claimed_pending_def joined_iff only_tags_def)
  show "connections_where p db' = connections_where p db" "end_of f i db' = end_of f i db"
    using assms by (simp_all add: connections_where_def end_of_def only_tags_def)
qed

text \<open>The pairs that are tagged.\<close>

definition tagged :: "'h sc_db_scheme \<Rightarrow> (nat \<times> nat) set" where
  "tagged db = (\<lambda>t. (tg_buyer_connection t, tg_supplier_connection t)) ` ran (sc_tags db)"

lemma get_or_create_tag_ok:
  assumes tv: "tags_valid db" and fit: "tag_fits (parties db) \<lparr>tg_buyer_connection = b, tg_supplier_connection = s, tg_creator = u\<rparr>"
  shows "only_tags db (get_or_create_tag b s u db) \<and> tags_valid (get_or_create_tag b s u db) \<and>
     tagged (get_or_create_tag b s u db) = insert (b, s) (tagged db)"
proof (cases "\<exists>i\<in>set [0..<sc_next_tag db]. \<exists>t\<in>set_option (sc_tags db i). tg_buyer_connection t = b \<and> tg_supplier_connection t = s")
  case True
  then obtain i t where "sc_tags db i = Some t" "tg_buyer_connection t = b" "tg_supplier_connection t = s" by auto
  then have "(b, s) \<in> tagged db" unfolding tagged_def by (auto intro!: image_eqI [where x = t] ranI)
  then show ?thesis using True tv by (auto simp: get_or_create_tag_def)
next
  case False
  let ?t = "\<lparr>tg_buyer_connection = b, tg_supplier_connection = s, tg_creator = u\<rparr>"
  have eq: "get_or_create_tag b s u db = db\<lparr>sc_tags := (sc_tags db)(sc_next_tag db \<mapsto> ?t), sc_next_tag := Suc (sc_next_tag db)\<rparr>"
    using False by (simp only: get_or_create_tag_def if_False)
  have o: "only_tags db (get_or_create_tag b s u db)" by (simp add: eq only_tags_def)
  have free: "sc_tags db (sc_next_tag db) = None" using tv by (cases "sc_tags db (sc_next_tag db)") (auto simp: tags_valid_def)
  have "tags_valid (get_or_create_tag b s u db)"
    unfolding tags_valid_def only_tags_facts(1) [OF o] using tv fit by (auto simp: eq tags_valid_def less_Suc_eq)
  moreover have "tagged (get_or_create_tag b s u db) = insert (b, s) (tagged db)"
    unfolding tagged_def eq using ran_map_upd [where m = "sc_tags db", OF free] by simp
  ultimately show ?thesis using o by blast
qed

lemma tag_buyer_ok:
  assumes once: "connected_once db" and tv: "tags_valid db" and t: "tag_buyer cid u n db = Inr db'"
  shows "only_tags db db' \<and> tags_valid db' \<and>
    (\<exists>b. end_of cn_buyer b db = Some n \<and> tagged db' = insert (b, cid) (tagged db))"
proof -
  obtain c where c: "sc_connections db cid = Some c" using t by (auto simp: tag_buyer_def rbind_eq_Inr)
  obtain b where b: "connections_where (\<lambda>d. cn_supplier d = cn_buyer c \<and> cn_buyer d = n \<and> cn_chain d = cn_chain c) db = [b]"
    and db': "db' = get_or_create_tag b cid u db"
    using t c by (auto simp: tag_buyer_def split: list.splits)
  have "b \<in> set (connections_where (\<lambda>d. cn_supplier d = cn_buyer c \<and> cn_buyer d = n \<and> cn_chain d = cn_chain c) db)"
    using b by simp
  then obtain d where d: "sc_connections db b = Some d" "cn_supplier d = cn_buyer c" "cn_buyer d = n" "cn_chain d = cn_chain c"
    using connections_where_in by blast
  then have "tag_fits (parties db) \<lparr>tg_buyer_connection = b, tg_supplier_connection = cid, tg_creator = u\<rparr>"
    using c by (auto simp: tag_fits_def parties_def)
  from get_or_create_tag_ok [OF tv this] d(1,3) show ?thesis unfolding db' by (auto simp: end_of_def)
qed

lemma tag_supplier_ok:
  assumes once: "connected_once db" and tv: "tags_valid db" and t: "tag_supplier cid u n db = Inr db'"
  shows "only_tags db db' \<and> tags_valid db' \<and>
    (\<exists>s. end_of cn_supplier s db = Some n \<and> tagged db' = insert (cid, s) (tagged db))"
proof -
  obtain c where c: "sc_connections db cid = Some c" using t by (auto simp: tag_supplier_def rbind_eq_Inr)
  obtain s where s: "connections_where (\<lambda>d. cn_supplier d = n \<and> cn_buyer d = cn_supplier c \<and> cn_chain d = cn_chain c) db = [s]"
    and db': "db' = get_or_create_tag cid s u db"
    using t c by (auto simp: tag_supplier_def split: list.splits)
  have "s \<in> set (connections_where (\<lambda>d. cn_supplier d = n \<and> cn_buyer d = cn_supplier c \<and> cn_chain d = cn_chain c) db)"
    using s by simp
  then obtain d where d: "sc_connections db s = Some d" "cn_supplier d = n" "cn_buyer d = cn_supplier c" "cn_chain d = cn_chain c"
    using connections_where_in by blast
  then have "tag_fits (parties db) \<lparr>tg_buyer_connection = cid, tg_supplier_connection = s, tg_creator = u\<rparr>"
    using c by (auto simp: tag_fits_def parties_def)
  from get_or_create_tag_ok [OF tv this] d(1,2) show ?thesis unfolding db' by (auto simp: end_of_def)
qed


lemma rfold_tag:
  assumes r: "rfold f ns db = Inr db'" and inv: "connected_once db" "tags_valid db"
    and f: "\<And>n d d'. connected_once d \<Longrightarrow> tags_valid d \<Longrightarrow> f n d = Inr d' \<Longrightarrow> only_tags d d' \<and> tags_valid d'"
  shows "only_tags db db' \<and> tags_valid db'"
proof (rule rfold_invariant [OF r])
  fix n d d' assume d: "only_tags db d \<and> tags_valid d" and s: "f n d = Inr d'"
  have "connected_once d" using only_tags_facts(2) inv(1) d by blast
  from f [OF this _ s] d show "only_tags db d' \<and> tags_valid d'" by (blast intro: only_tags_trans)
qed (simp add: inv)

lemma tag_nodes_ok:
  "tag_buyers cid ns db = Inr db' \<Longrightarrow> connected_once db \<Longrightarrow> tags_valid db \<Longrightarrow> only_tags db db' \<and> tags_valid db'"
  "tag_suppliers cid ns db = Inr db' \<Longrightarrow> connected_once db \<Longrightarrow> tags_valid db \<Longrightarrow> only_tags db db' \<and> tags_valid db'"
  unfolding tag_buyers_def tag_suppliers_def
  by (erule rfold_tag, assumption, assumption, blast dest: tag_buyer_ok tag_supplier_ok)+

text \<open>The loop outside a transaction adds the tags up to the first error.\<close>

lemma each_tag_prefix:
  assumes e: "each f ns db = (db', r)" and inv: "connected_once db" "tags_valid db"
    and f: "\<And>n d d'. connected_once d \<Longrightarrow> tags_valid d \<Longrightarrow> f n d = Inr d' \<Longrightarrow>
       only_tags d d' \<and> tags_valid d' \<and> (\<exists>i. ends n i d \<and> tagged d' = insert (pair i) (tagged d))"
    and ends: "\<And>n i d d'. only_tags d d' \<Longrightarrow> ends n i d' = ends n i d"
  shows "only_tags db db' \<and> tags_valid db' \<and>
     (\<exists>is'. list_all2 (\<lambda>n i. ends n i db) (take (length is') ns) is' \<and> tagged db' = tagged db \<union> pair ` set is' \<and>
        (r = Inr () \<longrightarrow> length is' = length ns))"
  using e inv
proof (induction ns arbitrary: db)
  case Nil
  then show ?case by simp
next
  case (Cons n ns)
  show ?case
  proof (cases "f n db")
    case (Inl e)
    then have "db' = db" "r = Inl e" using Cons.prems by auto
    then show ?thesis using Cons.prems by (intro conjI exI [of _ "[]"]) simp_all
  next
    case (Inr d)
    note fd = f [OF Cons.prems(2,3) Inr]
    then obtain i where i: "ends n i db" "tagged d = insert (pair i) (tagged db)" and o: "only_tags db d" by blast
    have once: "connected_once d" using only_tags_facts(2) [OF o] Cons.prems(2) by blast
    have "each f ns d = (db', r)" using Cons.prems(1) Inr by simp
    note ih = Cons.IH [OF this once conjunct1 [OF conjunct2 [OF fd]]]
    then obtain is' where is': "list_all2 (\<lambda>n i. ends n i d) (take (length is') ns) is'"
      "tagged db' = tagged d \<union> pair ` set is'" "r = Inr () \<longrightarrow> length is' = length ns" by blast
    have "list_all2 (\<lambda>n i. ends n i db) (take (length (i # is')) (n # ns)) (i # is')"
      using i(1) is'(1) unfolding ends [OF o] by simp
    moreover have "tagged db' = tagged db \<union> pair ` set (i # is')" using is'(2) i(2) by auto
    moreover have "r = Inr () \<longrightarrow> length (i # is') = length (n # ns)" using is'(3) by simp
    ultimately show ?thesis using ih o by (blast intro: only_tags_trans)
  qed
qed

lemma each_tag:
  assumes "each f ns db = (db', r)" "connected_once db" "tags_valid db"
    "\<And>n d d'. connected_once d \<Longrightarrow> tags_valid d \<Longrightarrow> f n d = Inr d' \<Longrightarrow>
       only_tags d d' \<and> tags_valid d' \<and> (\<exists>i. ends n i d \<and> tagged d' = insert (pair i) (tagged d))"
    "\<And>n i d d'. only_tags d d' \<Longrightarrow> ends n i d' = ends n i d"
  shows "only_tags db db' \<and> tags_valid db' \<and>
     (r = Inr () \<longrightarrow> (\<exists>is'. list_all2 (\<lambda>n i. ends n i db) ns is' \<and> tagged db' = tagged db \<union> pair ` set is'))"
  using each_tag_prefix [of f ns db db' r, OF assms] by fastforce

lemma delete_tags_ok:
  "only_tags db (delete_tags ids db)"
  "tags_valid db \<Longrightarrow> tags_valid (delete_tags ids db)"
proof -
  show o: "only_tags db (delete_tags ids db)" by (simp add: delete_tags_def only_tags_def)
  show "tags_valid db \<Longrightarrow> tags_valid (delete_tags ids db)"
    unfolding tags_valid_def only_tags_facts(1) [OF o] by (auto simp: delete_tags_def split: if_splits)
qed


lemma tagged_iff: "(b, s) \<in> tagged db \<longleftrightarrow>
    (\<exists>k t. sc_tags db k = Some t \<and> tg_buyer_connection t = b \<and> tg_supplier_connection t = s)"
  by (auto simp: tagged_def ran_def)

lemma tagged_delete:
  assumes ids: "\<And>k t. sc_tags db k = Some t \<Longrightarrow> k \<in> set ids \<longleftrightarrow> \<not> Q (tg_buyer_connection t) (tg_supplier_connection t)"
  shows "(b, s) \<in> tagged (delete_tags ids db) \<longleftrightarrow> (b, s) \<in> tagged db \<and> Q b s"
proof -
  have row: "sc_tags (delete_tags ids db) k = Some t \<longleftrightarrow>
      sc_tags db k = Some t \<and> Q (tg_buyer_connection t) (tg_supplier_connection t)" for k t
    using ids [of k t] by (auto simp: delete_tags_def)
  show ?thesis unfolding tagged_iff row by blast
qed

lemma tagged_delete_buyer:
  assumes "tags_valid db"
  shows "(b, s) \<in> tagged (delete_tags [k\<leftarrow>buyer_tags cid db. \<not> P (map_option tg_buyer_connection (sc_tags db k))] db) \<longleftrightarrow>
    (b, s) \<in> tagged db \<and> (s = cid \<longrightarrow> P (Some b))"
proof (rule tagged_delete)
  fix k t assume t: "sc_tags db k = Some t"
  then have "k < sc_next_tag db" using assms unfolding tags_valid_def by blast
  then show "k \<in> set [k\<leftarrow>buyer_tags cid db. \<not> P (map_option tg_buyer_connection (sc_tags db k))] \<longleftrightarrow>
      \<not> (tg_supplier_connection t = cid \<longrightarrow> P (Some (tg_buyer_connection t)))"
    using t by (simp add: buyer_tags_def)
qed

lemma tagged_delete_supplier:
  assumes "tags_valid db"
  shows "(b, s) \<in> tagged (delete_tags [k\<leftarrow>supplier_tags cid db. \<not> P (map_option tg_supplier_connection (sc_tags db k))] db) \<longleftrightarrow>
    (b, s) \<in> tagged db \<and> (b = cid \<longrightarrow> P (Some s))"
proof (rule tagged_delete)
  fix k t assume t: "sc_tags db k = Some t"
  then have "k < sc_next_tag db" using assms unfolding tags_valid_def by blast
  then show "k \<in> set [k\<leftarrow>supplier_tags cid db. \<not> P (map_option tg_supplier_connection (sc_tags db k))] \<longleftrightarrow>
      \<not> (tg_buyer_connection t = cid \<longrightarrow> P (Some (tg_supplier_connection t)))"
    using t by (simp add: supplier_tags_def)
qed

text \<open>The companies a connection's goods are tagged to.\<close>

definition tagged_buyers :: "nat \<Rightarrow> 'h sc_db_scheme \<Rightarrow> nat set" where
  "tagged_buyers cid db = {n. \<exists>b. (b, cid) \<in> tagged db \<and> end_of cn_buyer b db = Some n}"

definition ended_in :: "(connection \<Rightarrow> nat) \<Rightarrow> nat list \<Rightarrow> 'h sc_db_scheme \<Rightarrow> nat option \<Rightarrow> bool" where
  "ended_in f ns db i \<longleftrightarrow> (case Option.bind i (\<lambda>b. end_of f b db) of Some n \<Rightarrow> n \<in> set ns | None \<Rightarrow> False)"

lemma update_supplier_for_eq:
  assumes c: "connections_where (\<lambda>c. cn_buyer c = base \<and> cn_supplier c = inst \<and> cn_chain c = chain) db = cid # others"
  shows "update_supplier_for base inst chain ns db = each (tag_buyer cid None) ns
    (delete_tags [k\<leftarrow>buyer_tags cid db. \<not> ended_in cn_buyer ns db (map_option tg_buyer_connection (sc_tags db k))] db)"
  by (simp add: update_supplier_for_def c ended_in_def)

lemma update_supplier_for_ok:
  assumes once: "connected_once db" and tv: "tags_valid db"
    and u: "update_supplier_for base inst chain ns db = (db', r)"
  shows "only_tags db db' \<and> tags_valid db' \<and> (r = Inr () \<longrightarrow>
    (\<exists>cid. parties db cid = Some (base, inst, chain) \<and> tagged_buyers cid db' = set ns \<and>
       (\<forall>b s. s \<noteq> cid \<longrightarrow> ((b, s) \<in> tagged db' \<longleftrightarrow> (b, s) \<in> tagged db))))"
proof (cases "connections_where (\<lambda>c. cn_buyer c = base \<and> cn_supplier c = inst \<and> cn_chain c = chain) db")
  case Nil
  then show ?thesis using u tv by (auto simp: update_supplier_for_def)
next
  case (Cons cid others)
  have key: "parties db cid = Some (base, inst, chain)"
    using connection_unique [OF once, of "\<lambda>c. cn_buyer c = base \<and> cn_supplier c = inst \<and> cn_chain c = chain" base inst chain] Cons
    by auto
  define d where "d = delete_tags [k\<leftarrow>buyer_tags cid db. \<not> ended_in cn_buyer ns db (map_option tg_buyer_connection (sc_tags db k))] db"
  have d: "only_tags db d" "tags_valid d" using delete_tags_ok tv by (auto simp: d_def)
  have td: "(b, s) \<in> tagged d \<longleftrightarrow> (b, s) \<in> tagged db \<and> (s = cid \<longrightarrow> ended_in cn_buyer ns db (Some b))" for b s
    unfolding d_def by (rule tagged_delete_buyer [OF tv])
  have once': "connected_once d" using only_tags_facts(2) [OF d(1)] once by blast
  have e: "each (tag_buyer cid None) ns d = (db', r)" using u unfolding update_supplier_for_eq [OF Cons] d_def .
  have each: "only_tags d db' \<and> tags_valid db' \<and> (r = Inr () \<longrightarrow>
      (\<exists>is'. list_all2 (\<lambda>n i. end_of cn_buyer i d = Some n) ns is' \<and> tagged db' = tagged d \<union> (\<lambda>b. (b, cid)) ` set is'))"
    by (rule each_tag [OF e once' d(2), where ends = "\<lambda>n i d. end_of cn_buyer i d = Some n"])
      (use tag_buyer_ok only_tags_facts(5) in \<open>blast, metis\<close>)
  have o: "only_tags db db'" using d each by (blast intro: only_tags_trans)
  have res: "tagged_buyers cid db' = set ns \<and> (\<forall>b s. s \<noteq> cid \<longrightarrow> ((b, s) \<in> tagged db' \<longleftrightarrow> (b, s) \<in> tagged db))"
    if hyp: "r = Inr ()"
  proof -
    obtain is' where is': "list_all2 (\<lambda>n i. end_of cn_buyer i d = Some n) ns is'"
      and t: "tagged db' = tagged d \<union> (\<lambda>b. (b, cid)) ` set is'" using each hyp by blast
    have end_d: "end_of cn_buyer i d = end_of cn_buyer i db" "end_of cn_buyer i db' = end_of cn_buyer i db" for i
      using only_tags_facts(5) d(1) o by blast+
    have new: "end_of cn_buyer i db = Some n" "n \<in> set ns" if "(n, i) \<in> set (zip ns is')" for n i
      using is' that end_d by (auto simp: list_all2_iff dest: set_zip_leftD)
    have len: "length ns = length is'" using is' by (rule list_all2_lengthD)
    have "n \<in> set ns" if "(b, cid) \<in> tagged db'" "end_of cn_buyer b db' = Some n" for n b
    proof (cases "(b, cid) \<in> tagged d")
      case True
      then show ?thesis using that end_d by (simp add: td ended_in_def)
    next
      case False
      then have "b \<in> set is'" using that t by auto
      then obtain m where "(m, b) \<in> set (zip ns is')" using len by (metis in_set_impl_in_set_zip2)
      then show ?thesis using new that end_d by force
    qed
    moreover have "\<exists>b. (b, cid) \<in> tagged db' \<and> end_of cn_buyer b db' = Some n" if hyp2: "n \<in> set ns" for n
    proof -
      obtain i where i: "(n, i) \<in> set (zip ns is')" using hyp2 len by (metis in_set_impl_in_set_zip1)
      then have "i \<in> set is'" by (rule set_zip_rightD)
      then show ?thesis using new [OF i] t end_d by auto
    qed
    ultimately have "tagged_buyers cid db' = set ns" unfolding tagged_buyers_def by blast
    then show ?thesis using td t by auto
  qed
  show ?thesis using o each res key by blast
qed


lemma update_supplier_for_sub:
  assumes once: "connected_once db" and tv: "tags_valid db" and key: "parties db cid = Some (base, inst, chain)"
    and u: "update_supplier_for base inst chain ns db = (db', r)"
  shows "tagged_buyers cid db' \<subseteq> set ns"
proof -
  let ?p = "\<lambda>c. cn_buyer c = base \<and> cn_supplier c = inst \<and> cn_chain c = chain"
  have "cid \<in> set (connections_where ?p db)" using key by (auto simp: connections_where_iff [OF once] parties_def)
  then have cs: "connections_where ?p db = [cid]" using connection_unique [OF once, of ?p base inst chain] by auto
  define d where "d = delete_tags [k\<leftarrow>buyer_tags cid db. \<not> ended_in cn_buyer ns db (map_option tg_buyer_connection (sc_tags db k))] db"
  have d: "only_tags db d" "tags_valid d" using delete_tags_ok tv by (auto simp: d_def)
  have td: "(b, s) \<in> tagged d \<longleftrightarrow> (b, s) \<in> tagged db \<and> (s = cid \<longrightarrow> ended_in cn_buyer ns db (Some b))" for b s
    unfolding d_def by (rule tagged_delete_buyer [OF tv])
  have once': "connected_once d" using only_tags_facts(2) [OF d(1)] once by blast
  have e: "each (tag_buyer cid None) ns d = (db', r)" using u unfolding update_supplier_for_eq [OF cs] d_def .
  have "only_tags d db' \<and> tags_valid db' \<and>
      (\<exists>is'. list_all2 (\<lambda>n i. end_of cn_buyer i d = Some n) (take (length is') ns) is' \<and>
         tagged db' = tagged d \<union> (\<lambda>b. (b, cid)) ` set is' \<and> (r = Inr () \<longrightarrow> length is' = length ns))"
    by (rule each_tag_prefix [OF e once' d(2), where ends = "\<lambda>n i d. end_of cn_buyer i d = Some n"])
      (use tag_buyer_ok only_tags_facts(5) in \<open>blast, metis\<close>)
  then obtain is' where o: "only_tags d db'"
    and is': "list_all2 (\<lambda>n i. end_of cn_buyer i d = Some n) (take (length is') ns) is'"
    and t: "tagged db' = tagged d \<union> (\<lambda>b. (b, cid)) ` set is'" by blast
  have end_d: "end_of cn_buyer i d = end_of cn_buyer i db" "end_of cn_buyer i db' = end_of cn_buyer i db" for i
    using only_tags_facts(5) d(1) only_tags_trans [OF d(1) o] by blast+
  have "n \<in> set ns" if hyp: "(b, cid) \<in> tagged db'" "end_of cn_buyer b db' = Some n" for n b
  proof (cases "(b, cid) \<in> tagged d")
    case True
    then show ?thesis using hyp end_d by (simp add: td ended_in_def)
  next
    case False
    then have "b \<in> set is'" using hyp t by auto
    then obtain m where "(m, b) \<in> set (zip (take (length is') ns) is')"
      using list_all2_lengthD [OF is'] by (metis in_set_impl_in_set_zip2)
    then have "m \<in> set (take (length is') ns)" "end_of cn_buyer b d = Some m"
      using is' by (auto simp: list_all2_iff dest: set_zip_leftD)
    then show ?thesis using hyp end_d by (auto dest: in_set_takeD)
  qed
  then show ?thesis unfolding tagged_buyers_def by blast
qed

lemma update_buyer_for_ok:
  assumes once: "connected_once db" and tv: "tags_valid db"
    and u: "update_buyer_for base inst chain ns db = (db', r)"
  shows "only_tags db db' \<and> tags_valid db'"
proof (cases "connections_where (\<lambda>c. cn_buyer c = inst \<and> cn_supplier c = base \<and> cn_chain c = chain) db")
  case Nil
  then show ?thesis using u tv by (auto simp: update_buyer_for_def)
next
  case (Cons cid others)
  define d where "d = delete_tags [k\<leftarrow>supplier_tags cid db. \<not> ended_in cn_supplier ns db (map_option tg_supplier_connection (sc_tags db k))] db"
  have d: "only_tags db d" "tags_valid d" using delete_tags_ok tv by (auto simp: d_def)
  have once': "connected_once d" using only_tags_facts(2) [OF d(1)] once by blast
  have e: "each (tag_supplier cid None) ns d = (db', r)" using u Cons by (simp add: update_buyer_for_def d_def ended_in_def)
  have "only_tags d db' \<and> tags_valid db' \<and> (r = Inr () \<longrightarrow>
      (\<exists>is'. list_all2 (\<lambda>n i. end_of cn_supplier i d = Some n) ns is' \<and> tagged db' = tagged d \<union> (\<lambda>s. (cid, s)) ` set is'))"
    by (rule each_tag [OF e once' d(2), where ends = "\<lambda>n i d. end_of cn_supplier i d = Some n"])
      (use tag_supplier_ok only_tags_facts(5) in \<open>blast, metis\<close>)
  then show ?thesis using d by (blast intro: only_tags_trans)
qed

lemma only_tags_inv: "only_tags db db' \<Longrightarrow> tags_valid db' \<Longrightarrow> sc_inv db \<Longrightarrow> sc_inv db'"
  using only_tags_facts [of db db'] by (simp add: sc_inv_def)

lemma update_tags_inv:
  assumes inv: "sc_inv db" and u: "update_tags base inst chain sf bf db = (db', r)"
  shows "sc_inv db'"
proof -
  obtain db1 r1 where 1: "(case sf of Some ns \<Rightarrow> update_supplier_for base inst chain ns db | None \<Rightarrow> (db, Inr ())) = (db1, r1)"
    by fastforce
  have inv1: "sc_inv db1"
  proof (cases sf)
    case (Some ns)
    then have "update_supplier_for base inst chain ns db = (db1, r1)" using 1 by simp
    from update_supplier_for_ok [OF _ _ this] inv show ?thesis by (blast intro: only_tags_inv elim: sc_inv_def [THEN iffD1, THEN conjE])
  qed (use 1 inv in simp)
  show ?thesis
  proof (cases r1)
    case (Inl e)
    then show ?thesis using u 1 inv1 by (simp add: update_tags_def)
  next
    case (Inr x)
    show ?thesis
    proof (cases bf)
      case None
      then show ?thesis using u 1 Inr inv1 by (simp add: update_tags_def)
    next
      case (Some ns)
      then have "update_buyer_for base inst chain ns db1 = (db', r)" using u 1 Inr by (simp add: update_tags_def)
      from update_buyer_for_ok [OF _ _ this] inv1 show ?thesis by (blast intro: only_tags_inv elim: sc_inv_def [THEN iffD1, THEN conjE])
    qed
  qed
qed

section \<open>Joining\<close>

definition settles :: "'h sc_db_scheme \<Rightarrow> 'h sc_db_scheme \<Rightarrow> bool" where
  "settles db db' \<longleftrightarrow> parties db' = parties db \<and> sc_next_connection db' = sc_next_connection db \<and>
     sc_tags db' = sc_tags db \<and> sc_next_tag db' = sc_next_tag db \<and> sc_nodes db' = sc_nodes db \<and>
     (\<forall>i c'. sc_connections db' i = Some c' \<longrightarrow> cn_status c' = CONNECTION_STATUS_CLAIMED \<longrightarrow> sc_connections db i = Some c')"

lemma settles_refl [simp]: "settles db db"
  by (simp add: settles_def)

lemma settles_trans: "settles a b \<Longrightarrow> settles b c \<Longrightarrow> settles a c"
  by (simp add: settles_def)

lemma verify_connection_ok:
  "settles db (verify_connection cid db) \<and>
   (\<forall>c. sc_connections (verify_connection cid db) cid = Some c \<longrightarrow> cn_status c = CONNECTION_STATUS_CLAIMED \<longrightarrow>
      \<not> (joined (cn_buyer c) db \<and> joined (cn_supplier c) db))"
proof (cases "sc_connections db cid")
  case None
  then show ?thesis by (simp add: verify_connection_def)
next
  case (Some c)
  show ?thesis
  proof (cases "cn_status c = CONNECTION_STATUS_CLAIMED \<and> joined (cn_buyer c) db \<and> joined (cn_supplier c) db")
    case True
    then show ?thesis using Some
      by (auto simp: verify_connection_def settles_def save_connection_def parties_def fun_eq_iff)
  next
    case False
    then have "verify_connection cid db = db" unfolding verify_connection_def Some option.case by (rule if_not_P)
    then show ?thesis using Some False by auto
  qed
qed

lemma fold_verify_ok:
  "settles db (fold verify_connection is' db) \<and>
   (\<forall>i\<in>set is'. \<forall>c. sc_connections (fold verify_connection is' db) i = Some c \<longrightarrow> cn_status c = CONNECTION_STATUS_CLAIMED \<longrightarrow>
      \<not> (joined (cn_buyer c) db \<and> joined (cn_supplier c) db))"
proof (induction is' arbitrary: db)
  case (Cons i is')
  define d where "d = verify_connection i db"
  note v = verify_connection_ok [of db i, folded d_def]
  note ih = Cons.IH [of d]
  have j: "joined n d = joined n db" for n using v by (simp add: joined_iff settles_def)
  have e: "fold verify_connection (i # is') db = fold verify_connection is' d" by (simp add: d_def)
  have "\<not> (joined (cn_buyer c) db \<and> joined (cn_supplier c) db)"
    if hyp: "k \<in> set (i # is')" "sc_connections (fold verify_connection is' d) k = Some c" "cn_status c = CONNECTION_STATUS_CLAIMED" for k c
  proof (cases "k = i")
    case True
    have "sc_connections d k = Some c" using ih hyp unfolding settles_def by blast
    then show ?thesis using v hyp True by blast
  next
    case False
    then show ?thesis using ih hyp j by auto
  qed
  then show ?case unfolding e using v ih by (blast intro: settles_trans)
qed simp

lemma settles_once: "settles db db' \<Longrightarrow> connected_once db' = connected_once db"
  unfolding settles_def connected_once_def by (elim conjE) (simp only:)

lemma settles_tags_valid: "settles db db' \<Longrightarrow> tags_valid db' = tags_valid db"
  unfolding settles_def tags_valid_def by (elim conjE) (simp only:)

text \<open>After a company's connections were verified, none of them is claimed with both parties joined.\<close>

lemma verify_connections_ok:
  assumes once: "connected_once db"
  shows "settles db (verify_connections node db) \<and>
   (\<forall>i c. sc_connections (verify_connections node db) i = Some c \<longrightarrow> cn_status c = CONNECTION_STATUS_CLAIMED \<longrightarrow>
      node \<in> {cn_buyer c, cn_supplier c} \<longrightarrow> \<not> (joined (cn_buyer c) db \<and> joined (cn_supplier c) db))"
proof -
  define d where "d = fold verify_connection (buyer_connections node None db) db"
  define e where "e = fold verify_connection (supplier_connections node None d) d"
  have ve: "verify_connections node db = e" by (simp add: verify_connections_def Let_def d_def e_def)
  note fd = fold_verify_ok [of db "buyer_connections node None db", folded d_def]
  note fe = fold_verify_ok [of d "supplier_connections node None d", folded e_def]
  have j: "joined n d = joined n db" for n using fd by (simp add: joined_iff settles_def)
  have once': "connected_once d" using settles_once fd once by blast
  have "\<not> (joined (cn_buyer c) db \<and> joined (cn_supplier c) db)"
    if hyp: "sc_connections e i = Some c" "cn_status c = CONNECTION_STATUS_CLAIMED" "node \<in> {cn_buyer c, cn_supplier c}" for i c
  proof -
    have d: "sc_connections d i = Some c" using fe hyp unfolding settles_def by blast
    have db: "sc_connections db i = Some c" using fd d hyp unfolding settles_def by blast
    show ?thesis
    proof (cases "cn_supplier c = node")
      case True
      then have "i \<in> set (buyer_connections node None db)"
        unfolding buyer_connections_def connections_where_iff [OF once] using db by (simp add: in_chain_def)
      then show ?thesis using fd d hyp by blast
    next
      case False
      then have "i \<in> set (supplier_connections node None d)"
        unfolding supplier_connections_def connections_where_iff [OF once'] using d hyp by (simp add: in_chain_def)
      then show ?thesis using fe hyp j by blast
    qed
  qed
  then show ?thesis unfolding ve using fd fe by (blast intro: settles_trans)
qed


lemma update_date_joined_inv:
  assumes inv: "sc_inv db"
  shows "sc_inv (update_date_joined now node db)"
proof (cases "\<exists>n. sc_nodes db node = Some n \<and> sn_joined n = None")
  case False
  then have "update_date_joined now node db = db"
    by (cases "sc_nodes db node") (auto simp: update_date_joined_def)
  then show ?thesis using inv by simp
next
  case True
  then obtain n where n: "sc_nodes db node = Some n" "sn_joined n = None" by blast
  define d where "d = db\<lparr>sc_nodes := (sc_nodes db)(node \<mapsto> n\<lparr>sn_joined := Some now,
      sn_managers := (if sn_type n = NODE_COMPANY then [] else sn_managers n)\<rparr>)\<rparr>"
  have e: "update_date_joined now node db = verify_connections node d"
    using n by (simp add: update_date_joined_def d_def)
  have p: "parties d = parties db" by (simp add: parties_def fun_eq_iff d_def)
  have sel: "sc_next_connection d = sc_next_connection db" "sc_tags d = sc_tags db" "sc_next_tag d = sc_next_tag db"
    "sc_connections d = sc_connections db" by (simp_all add: d_def)
  have once: "connected_once d" using inv unfolding sc_inv_def connected_once_def p sel by blast
  have tv: "tags_valid d" using inv unfolding sc_inv_def tags_valid_def p sel by blast
  have j: "joined m d \<Longrightarrow> m = node \<or> joined m db" for m by (auto simp: joined_iff d_def split: if_splits)
  note v = verify_connections_ok [OF once, of node]
  have j': "joined m (verify_connections node d) = joined m d" for m using v by (simp add: joined_iff settles_def)
  have "\<not> (joined (cn_buyer c) d \<and> joined (cn_supplier c) d)"
    if hyp: "sc_connections (verify_connections node d) i = Some c" "cn_status c = CONNECTION_STATUS_CLAIMED" for i c
  proof (cases "node \<in> {cn_buyer c, cn_supplier c}")
    case True
    then show ?thesis using v hyp by blast
  next
    case False
    have "sc_connections d i = Some c" using v hyp unfolding settles_def by blast
    then have "\<not> (joined (cn_buyer c) db \<and> joined (cn_supplier c) db)"
      using inv hyp(2) unfolding sc_inv_def claimed_pending_def sel by blast
    then show ?thesis using j False by blast
  qed
  then have "claimed_pending (verify_connections node d)" unfolding claimed_pending_def j' by blast
  then show ?thesis unfolding e sc_inv_def using once tv v settles_once settles_tags_valid by blast
qed

section \<open>Invitations\<close>

text \<open>A connection that is new or keeps its parties.\<close>

lemma save_connection_sel [simp]:
  "sc_connections (save_connection i c db) = (sc_connections db)(i \<mapsto> c)"
  "sc_next_connection (save_connection i c db) = sc_next_connection db" "sc_tags (save_connection i c db) = sc_tags db"
  "sc_next_tag (save_connection i c db) = sc_next_tag db" "sc_nodes (save_connection i c db) = sc_nodes db"
  "sc_invitations (save_connection i c db) = sc_invitations db" "sc_access (save_connection i c db) = sc_access db"
  "sc_next_node (save_connection i c db) = sc_next_node db"
  by (simp_all add: save_connection_def)

lemma tag_fits_mono:
  assumes "tag_fits p t" "\<And>i k. p i = Some k \<Longrightarrow> q i = Some k"
  shows "tag_fits q t"
  using assms unfolding tag_fits_def by blast

lemma new_connection_ok:
  assumes once: "connected_once db" and tv: "tags_valid db"
    and r: "get_or_create_connection buyer supplier chain db = Inr (db', i, True)"
  shows "connected_once db' \<and> tags_valid db' \<and> sc_nodes db' = sc_nodes db \<and> parties db' i = Some (buyer, supplier, chain) \<and>
    (\<forall>j. j \<noteq> i \<longrightarrow> sc_connections db' j = sc_connections db j)"
proof -
  let ?p = "\<lambda>c. cn_buyer c = buyer \<and> cn_supplier c = supplier \<and> cn_chain c = chain"
  have none: "connections_where ?p db = []"
    using r by (auto simp: get_or_create_connection_def split: list.splits)
  then have i: "i = sc_next_connection db" and nx: "sc_next_connection db' = Suc i"
    and rows: "sc_connections db' = (sc_connections db)(i \<mapsto> \<lparr>cn_buyer = buyer, cn_supplier = supplier, cn_chain = chain,
                       cn_status = CONNECTION_STATUS_CLAIMED, cn_active = True, cn_creator = None\<rparr>)"
    and sel: "sc_tags db' = sc_tags db" "sc_next_tag db' = sc_next_tag db" "sc_nodes db' = sc_nodes db"
    using r by (auto simp: get_or_create_connection_def Let_def)
  have p: "parties db' = (parties db)(i \<mapsto> (buyer, supplier, chain))"
    by (auto simp: parties_def rows fun_eq_iff)
  have less: "parties db j \<noteq> None \<Longrightarrow> j < i" for j using once unfolding connected_once_def i by blast
  have fresh: "parties db j \<noteq> Some (buyer, supplier, chain)" for j
    using connections_where_iff [OF once, of j ?p] none by (auto simp: parties_def)
  have uniq: "j = k" if "parties db j = Some x" "parties db k = Some x" for j k x
    using once that unfolding connected_once_def by blast
  have "connected_once db'" unfolding connected_once_def p nx
    using less fresh uniq by (auto split: if_splits intro: less_SucI)
  moreover have "tag_fits (parties db') t" if "tag_fits (parties db) t" for t
  proof (rule tag_fits_mono [OF that])
    fix j k assume "parties db j = Some k"
    then show "parties db' j = Some k" using less [of j] by (auto simp: p)
  qed
  then have "tags_valid db'" using tv unfolding tags_valid_def sel by blast
  ultimately show ?thesis using p rows sel by simp
qed

lemma same_parties_inv:
  assumes "parties db' = parties db" "sc_next_connection db' = sc_next_connection db" "sc_tags db' = sc_tags db"
    "sc_next_tag db' = sc_next_tag db"
  shows "connected_once db' = connected_once db" "tags_valid db' = tags_valid db"
  using assms by (simp_all only: connected_once_def tags_valid_def)

lemma connect_invitee_cases:
  assumes r: "connect_invitee user node partner d db = Inr (db', cid)"
  obtains buyer supplier db1 c tag ns where
    "get_or_create_connection buyer supplier (in_supply_chain d) db = Inr (db1, cid, True)"
    "node \<in> {buyer, supplier}" "sc_connections db1 cid = Some c" "tag = tag_buyers \<or> tag = tag_suppliers"
    "tag cid ns (save_connection cid (c\<lparr>cn_status := (if joined node db then CONNECTION_STATUS_VERIFIED
       else CONNECTION_STATUS_CLAIMED), cn_creator := Some user\<rparr>) db1) = Inr db'"
proof (cases "in_relation d")
  case INVITE_RELATION_SUPPLIER
  then show ?thesis
    using r that [of partner node _ _ tag_buyers]
    unfolding connect_invitee_def Let_def by (auto simp: rbind_eq_Inr)
next
  case INVITE_RELATION_BUYER
  then show ?thesis
    using r that [of node partner _ _ tag_suppliers]
    unfolding connect_invitee_def Let_def by (auto simp: rbind_eq_Inr)
qed

lemma connect_invitee_ok:
  assumes inv: "sc_inv db" and r: "connect_invitee user node partner d db = Inr (db', cid)"
  shows "sc_inv db' \<and> (\<exists>c. sc_connections db' cid = Some c \<and> node \<in> {cn_buyer c, cn_supplier c})"
proof -
  define st where "st = (if joined node db then CONNECTION_STATUS_VERIFIED else CONNECTION_STATUS_CLAIMED)"
  obtain buyer supplier db1 c tag ns where g: "get_or_create_connection buyer supplier (in_supply_chain d) db = Inr (db1, cid, True)"
    and n: "node \<in> {buyer, supplier}" and c: "sc_connections db1 cid = Some c"
    and tag: "tag = tag_buyers \<or> tag = tag_suppliers"
    and t: "tag cid ns (save_connection cid (c\<lparr>cn_status := st, cn_creator := Some user\<rparr>) db1) = Inr db'"
    using r unfolding st_def by (rule connect_invitee_cases)
  have inv': "connected_once db" "tags_valid db" "claimed_pending db" using inv by (auto simp: sc_inv_def)
  note new = new_connection_ok [OF inv'(1,2) g]
  define db2 where "db2 = save_connection cid (c\<lparr>cn_status := st, cn_creator := Some user\<rparr>) db1"
  have p2: "parties db2 = parties db1" using c by (auto simp: parties_def db2_def fun_eq_iff)
  have sel2: "sc_next_connection db2 = sc_next_connection db1" "sc_tags db2 = sc_tags db1" "sc_next_tag db2 = sc_next_tag db1"
    by (simp_all add: db2_def)
  have once2: "connected_once db2" "tags_valid db2" using same_parties_inv [OF p2 sel2] new by blast+
  have pc: "cn_buyer c = buyer" "cn_supplier c = supplier" using new c by (auto simp: parties_def)
  have j: "joined m db2 = joined m db" for m using new by (simp add: joined_iff db2_def)
  have "\<not> (joined (cn_buyer x) db \<and> joined (cn_supplier x) db)"
    if hyp: "sc_connections db2 i = Some x" "cn_status x = CONNECTION_STATUS_CLAIMED" for i x
  proof (cases "i = cid")
    case True
    then have x: "x = c\<lparr>cn_status := st, cn_creator := Some user\<rparr>" using hyp by (simp add: db2_def)
    then have "\<not> joined node db" using hyp by (auto simp: st_def split: if_splits)
    then show ?thesis using n pc by (auto simp: x)
  next
    case False
    then have "sc_connections db i = Some x" using new hyp by (simp add: db2_def)
    then show ?thesis using inv'(3) hyp(2) unfolding claimed_pending_def by blast
  qed
  then have "claimed_pending db2" unfolding claimed_pending_def j by blast
  then have inv2: "sc_inv db2" using once2 by (simp add: sc_inv_def)
  have o: "only_tags db2 db' \<and> tags_valid db'" using tag t tag_nodes_ok once2 unfolding db2_def by blast
  have "sc_connections db' cid = Some (c\<lparr>cn_status := st, cn_creator := Some user\<rparr>)" using o by (simp add: only_tags_def db2_def)
  then show ?thesis using only_tags_inv [OF _ _ inv2] o n pc by auto
qed

lemma invite_inv:
  assumes inv: "sc_inv db" and r: "invite inviter user d db = Inr (db', cid)"
  shows "sc_inv db'"
proof -
  define partner where "partner = (case in_connected_to d of Some n \<Rightarrow> n | None \<Rightarrow> inviter)"
  obtain db1 node where n: "(case in_node d of Some n \<Rightarrow> (db, n) | None \<Rightarrow> create_node inviter partner d db) = (db1, node)"
    by fastforce
  have new: "db1 = db \<or> (db1, node) = create_node inviter partner d db" using n by (auto split: option.splits)
  obtain primary db2 v where
    c: "connect_invitee user node partner d
        (access_supply_chain node (in_supply_chain d) primary (in_other_operations d) db1) = Inr (db2, cid)"
    and db': "db' = db2\<lparr>sc_invitations := v\<rparr>"
    using r unfolding invite_def Let_def partner_def [symmetric] n prod.case by (auto simp: rbind_eq_Inr)
  let ?a = "access_supply_chain node (in_supply_chain d) primary (in_other_operations d) db1"
  have sel: "sc_connections ?a = sc_connections db" "sc_next_connection ?a = sc_next_connection db" "sc_tags ?a = sc_tags db"
    "sc_next_tag ?a = sc_next_tag db"
    using new by (auto simp: access_supply_chain_def create_node_def Let_def)
  have p: "parties ?a = parties db" unfolding parties_def sel fun_eq_iff by simp
  have j: "joined m ?a \<Longrightarrow> joined m db" for m
    using new by (auto simp: joined_iff access_supply_chain_def create_node_def Let_def split: if_splits)
  have "claimed_pending ?a" using inv j unfolding sc_inv_def claimed_pending_def sel by blast
  then have "sc_inv ?a" using inv same_parties_inv [OF p sel(2-4)] by (simp only: sc_inv_def)
  from connect_invitee_ok [OF this c] have "sc_inv db2" by blast
  moreover have "sc_inv (db2\<lparr>sc_invitations := v\<rparr>) = sc_inv db2" for v
  proof -
    have p: "parties (db2\<lparr>sc_invitations := v\<rparr>) = parties db2" by (simp add: parties_def fun_eq_iff)
    have "claimed_pending (db2\<lparr>sc_invitations := v\<rparr>) = claimed_pending db2" by (simp add: claimed_pending_def joined_iff)
    then show ?thesis using same_parties_inv [OF p] by (simp add: sc_inv_def)
  qed
  ultimately show ?thesis using db' by auto
qed


section \<open>Reachable states\<close>

inductive sc_step :: "sc_db \<Rightarrow> sc_db \<Rightarrow> bool" where
  invite: "invite inviter user d db = Inr (db', cid) \<Longrightarrow> sc_step db db'"
| tags: "update_tags base inst chain sf bf db = (db', r) \<Longrightarrow> sc_step db db'"
| join: "sc_step db (update_date_joined now node db)"
| disable: "sc_step db (disable cid db)"

inductive sc_reachable :: "sc_db \<Rightarrow> bool" where
  start: "sc_connections db = Map.empty \<Longrightarrow> sc_tags db = Map.empty \<Longrightarrow> sc_reachable db"
| step: "sc_reachable db \<Longrightarrow> sc_step db db' \<Longrightarrow> sc_reachable db'"

lemma disable_inv: "sc_inv db \<Longrightarrow> sc_inv (disable cid db)"
proof (cases "sc_connections db cid")
  case None
  then show "sc_inv db \<Longrightarrow> ?thesis" by (simp add: disable_def)
next
  case (Some c)
  assume inv: "sc_inv db"
  have eq: "disable cid db = save_connection cid (c\<lparr>cn_active := False\<rparr>) db" by (simp add: disable_def Some)
  have p: "parties (disable cid db) = parties db" using Some by (auto simp: parties_def eq fun_eq_iff)
  have "claimed_pending (disable cid db)"
    using inv Some by (auto simp: sc_inv_def claimed_pending_def joined_iff eq split: if_splits)
  then show ?thesis using inv same_parties_inv [OF p] by (simp add: sc_inv_def eq)
qed

lemma sc_step_inv: "sc_step db db' \<Longrightarrow> sc_inv db \<Longrightarrow> sc_inv db'"
  by (induction rule: sc_step.induct) (blast intro: invite_inv update_tags_inv update_date_joined_inv disable_inv)+

lemma sc_reachable_inv: "sc_reachable db \<Longrightarrow> sc_inv db"
proof (induction rule: sc_reachable.induct)
  case (start db)
  then show ?case by (simp add: sc_inv_def connected_once_def tags_valid_def claimed_pending_def parties_def)
next
  case (step db db')
  then show ?case by (blast intro: sc_step_inv)
qed

lemma no_second_connection:
  assumes "connected_once db"
  shows "get_or_create_connection b s ch db \<noteq> Inl e"
  using connection_unique [OF assms, of "\<lambda>c. cn_buyer c = b \<and> cn_supplier c = s \<and> cn_chain c = ch" b s ch]
  by (auto simp: get_or_create_connection_def Let_def)

definition demo_sc :: sc_db where
  "demo_sc = \<lparr>sc_nodes = (\<lambda>n. if n \<in> {2, 3, 4} then Some \<lparr>sn_type = NODE_COMPANY, sn_joined = Some 5, sn_managers = [],
       sn_full_disclosure = False, sn_test = False\<rparr> else None),
     sc_next_node = 7, sc_connections = Map.empty, sc_next_connection = 2, sc_tags = Map.empty, sc_next_tag = 2,
     sc_invitations = [], sc_access = Map.empty\<rparr>"

definition demo_invite :: "nat \<Rightarrow> nat option \<Rightarrow> invite_relation \<Rightarrow> nat list \<Rightarrow> invite_data" where
  "demo_invite m p rel tags = \<lparr>in_node = Some m, in_type = NODE_COMPANY, in_full_disclosure = False, in_connected_to = p,
     in_supplier_for = tags, in_buyer_for = tags, in_map_all_suppliers = False, in_map_all_buyers = False,
     in_supply_chain = 9, in_relation = rel, in_primary_operation = Some None, in_other_operations = [], in_message = []\<rparr>"

definition run_invites :: "(nat \<times> invite_data) list \<Rightarrow> sc_db \<Rightarrow> sc_db" where
  "run_invites = fold (\<lambda>(n, d) db. case invite n n d db of Inr (db', _) \<Rightarrow> db' | Inl _ \<Rightarrow> db)"

lemma invite_reachable: "invite n u d db = Inr (db', cid) \<Longrightarrow> sc_reachable db \<Longrightarrow> sc_reachable db'"
  by (blast intro: sc_reachable.step sc_step.invite)

lemma run_invites_reachable: "sc_reachable db \<Longrightarrow> sc_reachable (run_invites ds db)"
  unfolding run_invites_def
  by (rule fold_invariant [where Q = "\<lambda>_. True"])
    (auto split: sum.splits elim: invite_reachable)

lemma demo_sc_reachable: "sc_reachable (run_invites ds demo_sc)"
  by (intro run_invites_reachable sc_reachable.start) (simp_all add: demo_sc_def)

text \<open>
  Two is the buyer of three, three of four; four is tagged as selling on to two.
\<close>

definition demo_chain :: sc_db where
  "demo_chain = run_invites [(2, demo_invite 3 None INVITE_RELATION_SUPPLIER []),
     (3, demo_invite 4 None INVITE_RELATION_SUPPLIER [2])] demo_sc"

lemma demo_chain_reachable: "sc_reachable demo_chain"
  unfolding demo_chain_def by (rule demo_sc_reachable)


text \<open>
  C39: In every state that invitations, tag updates, joins and disabled connections lead
  to, a buyer and a supplier have at most one connection in a supply chain, so that
  \<open>Connection.objects.get_or_create\<close> never meets several; every tag joins a connection
  into a company with one out of it in the same chain; and a connection that is only
  claimed has a party that has not joined.
\<close>

theorem connections_reachable_consistent:
  assumes "sc_reachable db"
  shows "(\<forall>i j c d. sc_connections db i = Some c \<and> sc_connections db j = Some d \<and>
            (cn_buyer c, cn_supplier c, cn_chain c) = (cn_buyer d, cn_supplier d, cn_chain d) \<longrightarrow> i = j) \<and>
    (\<forall>b s chain e. get_or_create_connection b s chain db \<noteq> Inl e) \<and>
    (\<forall>k t. sc_tags db k = Some t \<longrightarrow> is_valid t db) \<and>
    (\<forall>i c. sc_connections db i = Some c \<and> cn_status c = CONNECTION_STATUS_CLAIMED \<longrightarrow>
       \<not> (joined (cn_buyer c) db \<and> joined (cn_supplier c) db))"
proof (intro conjI)
  note inv = sc_reachable_inv [OF assms, unfolded sc_inv_def]
  have once: "parties db i = Some x \<Longrightarrow> parties db j = Some x \<Longrightarrow> i = j" for i j x
    using inv unfolding connected_once_def by blast
  have "i = j" if "sc_connections db i = Some c" "sc_connections db j = Some d"
      "(cn_buyer c, cn_supplier c, cn_chain c) = (cn_buyer d, cn_supplier d, cn_chain d)" for i j c d
    by (rule once [where x = "(cn_buyer d, cn_supplier d, cn_chain d)"]) (use that in \<open>simp_all add: parties_def\<close>)
  then show "\<forall>i j c d. sc_connections db i = Some c \<and> sc_connections db j = Some d \<and>
      (cn_buyer c, cn_supplier c, cn_chain c) = (cn_buyer d, cn_supplier d, cn_chain d) \<longrightarrow> i = j" by blast
  show "\<forall>b s chain e. get_or_create_connection b s chain db \<noteq> Inl e" using inv no_second_connection by blast
  show "\<forall>k t. sc_tags db k = Some t \<longrightarrow> is_valid t db" using inv unfolding tags_valid_def is_valid_fits by blast
  show "\<forall>i c. sc_connections db i = Some c \<and> cn_status c = CONNECTION_STATUS_CLAIMED \<longrightarrow>
       \<not> (joined (cn_buyer c) db \<and> joined (cn_supplier c) db)"
    using inv unfolding claimed_pending_def by blast
qed

theorem connections_reachable_consistent_witness:
  "is_valid \<lparr>tg_buyer_connection = 2, tg_supplier_connection = 3, tg_creator = None\<rparr> demo_chain"
proof -
  have "sc_tags demo_chain 2 = Some \<lparr>tg_buyer_connection = 2, tg_supplier_connection = 3, tg_creator = None\<rparr>"
    by code_simp
  then show ?thesis using connections_reachable_consistent [OF demo_chain_reachable] by blast
qed

text \<open>
  A successful update of the companies a supplier delivers for leaves exactly the
  requested companies tagged on the connection to the supplier, keeps the tags of every
  other connection, and changes no connection.
\<close>

theorem supplier_tags_replaced:
  assumes "sc_reachable db" and "update_tags base inst chain (Some ns) None db = (db', Inr ())"
  shows "sc_connections db' = sc_connections db \<and>
    (\<exists>cid. parties db cid = Some (base, inst, chain) \<and> tagged_buyers cid db' = set ns \<and>
       (\<forall>b s. s \<noteq> cid \<longrightarrow> ((b, s) \<in> tagged db' \<longleftrightarrow> (b, s) \<in> tagged db)))"
proof -
  have u: "update_supplier_for base inst chain ns db = (db', Inr ())"
    using assms(2) by (auto simp: update_tags_def split: prod.splits sum.splits)
  from update_supplier_for_ok [OF _ _ u] sc_reachable_inv [OF assms(1)]
  show ?thesis unfolding sc_inv_def only_tags_def by blast
qed

theorem supplier_tags_replaced_witness:
  "\<exists>cid. parties demo_chain cid = Some (3, 4, 9) \<and> tagged_buyers cid (fst (update_tags 3 4 9 (Some []) None demo_chain)) = {}"
proof -
  have "update_tags 3 4 9 (Some []) None demo_chain = (fst (update_tags 3 4 9 (Some []) None demo_chain), Inr ())"
    by (rule prod_eqI) (simp, code_simp)
  from supplier_tags_replaced [OF demo_chain_reachable this] show ?thesis by auto
qed


text \<open>
  The update of tags is not atomic: when it fails, because one of the requested
  companies is no buyer, every tag to a company outside the request has been deleted
  already. The caller gets an error and the old tags are lost.
\<close>

theorem failed_tag_update_drops_tags:
  assumes "sc_reachable db" and "parties db cid = Some (base, inst, chain)"
    and "update_tags base inst chain (Some ns) None db = (db', Inl e)" and "n \<notin> set ns"
  shows "n \<notin> tagged_buyers cid db'"
proof -
  have "update_supplier_for base inst chain ns db = (db', Inl e)"
    using assms(3) by (auto simp: update_tags_def split: prod.splits sum.splits)
  from update_supplier_for_sub [OF _ _ assms(2) this] sc_reachable_inv [OF assms(1)] assms(4)
  show ?thesis unfolding sc_inv_def by blast
qed

theorem failed_tag_update_drops_tags_witness:
  "2 \<in> tagged_buyers 3 demo_chain \<and> 2 \<notin> tagged_buyers 3 (fst (update_tags 3 4 9 (Some [4]) None demo_chain)) \<and>
   snd (update_tags 3 4 9 (Some [4]) None demo_chain) = Inl invalid_tag"
proof -
  have r: "snd (update_tags 3 4 9 (Some [4]) None demo_chain) = Inl invalid_tag" by code_simp
  then have u: "update_tags 3 4 9 (Some [4]) None demo_chain = (fst (update_tags 3 4 9 (Some [4]) None demo_chain), Inl invalid_tag)"
    by (simp add: prod_eq_iff)
  have p: "parties demo_chain 3 = Some (3, 4, 9)" by code_simp
  have "sc_tags demo_chain 2 = Some \<lparr>tg_buyer_connection = 2, tg_supplier_connection = 3, tg_creator = None\<rparr>"
    "end_of cn_buyer 2 demo_chain = Some 2" by code_simp+
  then have "2 \<in> tagged_buyers 3 demo_chain" unfolding tagged_buyers_def tagged_iff by force
  then show ?thesis using r failed_tag_update_drops_tags [OF demo_chain_reachable p u, of 2] by simp
qed

section \<open>Who connects whom\<close>

text \<open>
  Any company can connect any other existing company to any third one, as long as
  those two are not connected in the chain: neither the relation of the inviter to the two
  companies nor their consent is asked for, and when the invited company has joined, the
  connection counts as verified, even if its partner has not.
\<close>

theorem strangers_connected:
  assumes "in_node d = Some m" and "m \<noteq> inviter" and "in_connected_to d = Some p"
    and "in_primary_operation d = Some primary" and "in_relation d = INVITE_RELATION_SUPPLIER"
    and "\<not> in_map_all_buyers d" and "in_supplier_for d = []"
    and "connections_where (\<lambda>c. cn_buyer c = p \<and> cn_supplier c = m \<and> cn_chain c = in_supply_chain d) db = []"
  shows "\<exists>db' cid. invite inviter user d db = Inr (db', cid) \<and>
     sc_connections db' cid = Some \<lparr>cn_buyer = p, cn_supplier = m, cn_chain = in_supply_chain d,
       cn_status = (if joined m db then CONNECTION_STATUS_VERIFIED else CONNECTION_STATUS_CLAIMED),
       cn_active = True, cn_creator = Some user\<rparr>"
proof -
  let ?a = "access_supply_chain m (in_supply_chain d) primary (in_other_operations d) db"
  have j: "joined m ?a = joined m db" by (simp add: joined_iff access_supply_chain_def)
  have cw: "connections_where q ?a = connections_where q db" for q
    by (simp add: connections_where_def access_supply_chain_def)
  have c: "connect_invitee user m p d ?a =
      Inr (save_connection (sc_next_connection ?a) \<lparr>cn_buyer = p, cn_supplier = m, cn_chain = in_supply_chain d,
         cn_status = (if joined m db then CONNECTION_STATUS_VERIFIED else CONNECTION_STATUS_CLAIMED),
         cn_active = True, cn_creator = Some user\<rparr>
         ((save_connection (sc_next_connection ?a) \<lparr>cn_buyer = p, cn_supplier = m, cn_chain = in_supply_chain d,
             cn_status = CONNECTION_STATUS_CLAIMED, cn_active = True, cn_creator = None\<rparr> ?a)
           \<lparr>sc_next_connection := Suc (sc_next_connection ?a)\<rparr>), sc_next_connection ?a)"
    using assms by (simp add: connect_invitee_def get_or_create_connection_def cw Let_def j tag_buyers_def)
  show ?thesis unfolding invite_def Let_def assms(1,3) option.case prod.case
    using assms(2) by (simp add: assms(4) c)
qed

theorem strangers_connected_witness:
  "\<not> can_manage 2 3 None demo_sc \<and> \<not> can_manage 2 4 None demo_sc \<and>
   (\<exists>db' cid c. invite 2 8 (demo_invite 3 (Some 4) INVITE_RELATION_SUPPLIER []) demo_sc = Inr (db', cid) \<and>
      sc_connections db' cid = Some c \<and> cn_buyer c = 4 \<and> cn_supplier c = 3 \<and> cn_status c = CONNECTION_STATUS_VERIFIED)"
proof -
  have "\<not> can_manage 2 3 None demo_sc" "\<not> can_manage 2 4 None demo_sc" "joined 3 demo_sc" by code_simp+
  moreover have "connections_where (\<lambda>c. cn_buyer c = 4 \<and> cn_supplier c = 3 \<and> cn_chain c = 9) demo_sc = []"
    by (simp add: connections_where_def demo_sc_def)
  moreover note strangers_connected [of "demo_invite 3 (Some 4) INVITE_RELATION_SUPPLIER []" 3 2 4 None demo_sc 8]
  ultimately show ?thesis by (auto simp: demo_invite_def)
qed

section \<open>Tiers\<close>

text \<open>What the loop over the rows of the graph query keeps for a node.\<close>

lemma chain_fold_known:
  assumes "data n = Some t"
  shows "\<exists>t'. fold (chain_step tier_of fast) rows data n = Some t' \<and>
     ti_tier t' = fold min (map tier_of [r\<leftarrow>rows. ci_node r = n]) (ti_tier t) \<and>
     ti_distance t' = fold min (map chain_distance [r\<leftarrow>rows. ci_node r = n]) (ti_distance t)"
  using assms
proof (induction rows arbitrary: data t)
  case (Cons r rows)
  show ?case
  proof (cases "ci_node r = n")
    case True
    let ?t = "t\<lparr>ti_connected_to := (if fst (chain_parent fast r) \<in> fst ` set (ti_connected_to t) then ti_connected_to t
        else ti_connected_to t @ [chain_parent fast r]), ti_distance := min (chain_distance r) (ti_distance t),
        ti_tier := min (tier_of r) (ti_tier t)\<rparr>"
    have "chain_step tier_of fast r data n = Some ?t" using True Cons.prems by (simp add: chain_step_def Let_def)
    from Cons.IH [where data = "chain_step tier_of fast r data", OF this] show ?thesis using True by simp
  next
    case False
    then have "chain_step tier_of fast r data n = Some t" using Cons.prems
      by (simp add: chain_step_def Let_def split: option.split)
    from Cons.IH [where data = "chain_step tier_of fast r data", OF this] show ?thesis using False by simp
  qed
qed simp

lemma Min_image_Cons: "Min (f ` set (x # xs)) = fold min (map f xs) (f x)" for f :: "'a \<Rightarrow> 'b::linorder"
  by (simp only: set_map [symmetric] list.map Min.set_eq_fold)

lemma chain_fold_new:
  assumes "data n = None"
  shows "case [r\<leftarrow>rows. ci_node r = n] of
      [] \<Rightarrow> fold (chain_step tier_of fast) rows data n = None
    | r # rs \<Rightarrow> \<exists>t'. fold (chain_step tier_of fast) rows data n = Some t' \<and>
        ti_tier t' = Min (tier_of ` set (r # rs)) \<and> ti_distance t' = Min (chain_distance ` set (r # rs))"
  using assms
proof (induction rows arbitrary: data)
  case (Cons r rows)
  show ?case
  proof (cases "ci_node r = n")
    case True
    then have "chain_step tier_of fast r data n = Some \<lparr>ti_connected_to = [chain_parent fast r],
        ti_distance = chain_distance r, ti_tier = tier_of r, ti_type = ci_type r\<rparr>"
      using Cons.prems by (simp add: chain_step_def Let_def)
    from chain_fold_known [where data = "chain_step tier_of fast r data", OF this, of tier_of fast rows]
    show ?thesis using True unfolding Min_image_Cons by (simp add: Min_image_Cons [unfolded list.set(2)])
  next
    case False
    then have "chain_step tier_of fast r data n = None" using Cons.prems
      by (simp add: chain_step_def Let_def split: option.split)
    from Cons.IH [where data = "chain_step tier_of fast r data", OF this] show ?thesis using False by (simp cong: list.case_cong)
  qed
qed simp


lemma tier_of_chain:
  assumes "n \<noteq> self" and rs: "[r\<leftarrow>rows. ci_node r = n] \<noteq> []"
  shows "\<exists>t. snd (chain_of tier_of sent self ty include_self fast rows) n = Some t \<and>
    ti_tier t = Min (tier_of ` {r \<in> set rows. ci_node r = n}) \<and>
    ti_distance t = Min (chain_distance ` {r \<in> set rows. ci_node r = n})"
proof -
  have set: "{r \<in> set rows. ci_node r = n} = set [r\<leftarrow>rows. ci_node r = n]" by simp
  obtain r rest where "[r\<leftarrow>rows. ci_node r = n] = r # rest" using rs by (cases "[r\<leftarrow>rows. ci_node r = n]") auto
  then show ?thesis unfolding set chain_of_def
    using chain_fold_new [where data = "[self \<mapsto> \<lparr>ti_connected_to = [(0, no_parent sent)], ti_distance = 0, ti_tier = 0, ti_type = ty\<rparr>]"
        and n = n and rows = rows and tier_of = tier_of and fast = fast] assms(1) by (simp only:) simp
qed

lemma Min_uminus_image:
  "finite A \<Longrightarrow> A \<noteq> {} \<Longrightarrow> Min ((\<lambda>x. - f x) ` A) = - Max (f ` A)" for f :: "'a \<Rightarrow> int"
proof -
  assume A: "finite A" "A \<noteq> {}"
  then have "Max (f ` A) \<in> f ` A" by (intro Max_in) auto
  then obtain x where "x \<in> A" "f x = Max (f ` A)" by auto
  show ?thesis
  proof (rule Min_eqI)
    show "- Max (f ` A) \<in> (\<lambda>x. - f x) ` A" using \<open>x \<in> A\<close> unfolding \<open>f x = Max (f ` A)\<close> [symmetric] by (rule imageI)
  qed (use A in auto)
qed

text \<open>
  C40: A supplier several paths lead to has the tier and the distance of the nearest of
  them. A buyer has the distance of its nearest path but, since its tiers are negative
  and the smaller one is kept, the tier of its farthest.
\<close>

theorem tiers_of_several_paths:
  assumes "n \<noteq> self" and "{r \<in> set rows. ci_node r = n} \<noteq> {}"
  shows "\<exists>s b. snd (get_supplier_chain self ty incl fast rows) n = Some s \<and>
    snd (get_buyer_chain self ty incl fast rows) n = Some b \<and>
    ti_tier s = Min ((\<lambda>r. int (length (ci_tags r)) + 1) ` {r \<in> set rows. ci_node r = n}) \<and>
    ti_tier b = - Max ((\<lambda>r. int (length (ci_tags r)) + 1) ` {r \<in> set rows. ci_node r = n}) \<and>
    ti_distance s = Min (chain_distance ` {r \<in> set rows. ci_node r = n}) \<and> ti_distance b = ti_distance s"
proof -
  have rs: "[r\<leftarrow>rows. ci_node r = n] \<noteq> []" using assms(2) unfolding filter_empty_conv by blast
  have fin: "finite {r \<in> set rows. ci_node r = n}" by simp
  show ?thesis unfolding get_supplier_chain_def get_buyer_chain_def Min_uminus_image [OF fin assms(2), symmetric]
    using tier_of_chain [OF assms(1) rs, of "\<lambda>r. int (length (ci_tags r)) + 1" "Some True" ty incl fast]
      tier_of_chain [OF assms(1) rs, of "\<lambda>r. - (int (length (ci_tags r)) + 1)" None ty incl fast]
    by (elim exE conjE) (intro exI conjI, assumption+, simp)
qed

definition demo_row :: "nat \<Rightarrow> rat list \<Rightarrow> chain_item" where
  "demo_row n tags = \<lparr>ci_node = n, ci_type = NODE_COMPANY, ci_start = 1, ci_end = 1, ci_tags = tags, ci_parent = 2,
     ci_parent_name = [], ci_status = CONNECTION_STATUS_VERIFIED, ci_email_sent = True, ci_labels = [],
     ci_supplier_for = [], ci_buyer_for = [], ci_managers = []\<rparr>"

theorem tiers_of_several_paths_witness:
  "\<exists>b. snd (get_buyer_chain 2 NODE_COMPANY True True [demo_row 3 [], demo_row 3 [1, 1]]) 3 = Some b \<and>
     ti_tier b = - 3 \<and> ti_distance b = 1"
proof -
  have set: "{r \<in> set [demo_row 3 [], demo_row 3 [1, 1]]. ci_node r = 3} = {demo_row 3 [], demo_row 3 [1, 1]}"
    by (auto simp: demo_row_def)
  have images: "(\<lambda>r. int (length (ci_tags r)) + 1) ` {demo_row 3 [], demo_row 3 [1, 1]} = {1, 3}"
    "chain_distance ` {demo_row 3 [], demo_row 3 [1, 1]} = {1, 3}"
    by (simp_all add: demo_row_def chain_distance_def)
  show ?thesis
    using tiers_of_several_paths [of 3 2 "[demo_row 3 [], demo_row 3 [1, 1]]" NODE_COMPANY True True]
    unfolding set images by auto
qed

end
