(* ===== verification/Trace_Server.thy ===== *)
theory Trace_Server
  imports Stock_Balance Owner_Tables Claims_Runs Supply_Chain_Properties
begin

text \<open>
  The server as a whole. The claims are among the tables whose owners handle callbacks, so
  they are the assets of the wallet database; the ledger calls the wallets (accounts of the
  parties), the claims (inheritance, notifications) and the supply chain (connections).
  \<open>server_env\<close> gives the ledger these services, and the contract \<open>stock_services\<close>
  is shown for them; \<open>server_step\<close> interleaves the requests of all components.
\<close>

section \<open>The claims as owners of message requests\<close>

text \<open>
  \<open>getattr(self, self.object_related_name)\<close> of a message request of a claim.
\<close>

definition claim_of_request :: "nat \<Rightarrow> 'h claims_db_scheme \<Rightarrow> nat option" where
  "claim_of_request rid cs =
     find (\<lambda>i. case cs_attached cs i of Some c \<Rightarrow> ac_request c = Some rid | None \<Rightarrow> False)
       [0..<cs_next_attached cs]"

text \<open>
  \<open>SubmitMessageRequest.handle_response\<close> with \<open>AttachedClaim.update_message_hash\<close>. The
  requests of batches and transactions write the tables of \<open>Assets\<close>, which the claims do not
  read; \<open>others\<close> is the outcome of their handlers.
\<close>

definition claim_handle ::
    "(nat \<Rightarrow> response \<Rightarrow> bool result) \<Rightarrow> nat \<Rightarrow> response \<Rightarrow> 'h claims_db_scheme \<Rightarrow>
     'h claims_db_scheme \<times> bool result"
where
  "claim_handle others rid resp cs =
     (case claim_of_request rid cs of
        None \<Rightarrow> (cs, others rid resp)
      | Some acid \<Rightarrow>
          (if rs_data resp = Some (Resp_Dict [] None) then (cs, Inr False)
           else case rbind (response_dict resp) (\<lambda>data.
                  rbind (of_option PyKeyError (map_of data ''transactionId'')) (\<lambda>tx.
                  rbind (of_option PyKeyError (map_of data ''transactionHash'')) (\<lambda>hash.
                    claim_update_message_hash acid tx hash cs))) of
                Inl e \<Rightarrow> (cs, Inl e) | Inr cs' \<Rightarrow> (cs', Inr True)))"

lemma claim_handle_inv:
  assumes "claims_inv cs"
  shows "claims_inv (fst (claim_handle others rid resp cs))"
  using assms
  by (auto simp: claim_handle_def rbind_eq_Inr intro: message_hash_inv split: option.splits sum.splits)

section \<open>The server\<close>

record server =
  sv_wallets :: "claims_db wallet_db"
  sv_posts :: "(nat \<times> nat option) list"
  sv_chain :: sc_db

definition server_claims :: "server \<Rightarrow> claims_db" where
  "server_claims s = wl_assets (sv_wallets s)"

definition with_claims :: "claims_db \<Rightarrow> server \<Rightarrow> server" where
  "with_claims cs s = s\<lparr>sv_wallets := (sv_wallets s)\<lparr>wl_assets := cs\<rparr>\<rparr>"

definition with_wallets :: "claims_db wallet_db \<Rightarrow> server \<Rightarrow> server" where
  "with_wallets w s = s\<lparr>sv_wallets := w\<rparr>"

text \<open>
  The services of the ledger: \<open>node.setup_blockchain_account()\<close>, \<open>inherit_claims\<close>,
  \<open>get_connections(supply_chain)\<close> and the deletion of a rejected transaction's
  notifications. \<open>key\<close> and \<open>pw\<close> are what is drawn for a node's account.
\<close>

definition server_env ::
    "int \<Rightarrow> (nat \<Rightarrow> string) \<Rightarrow> (nat \<Rightarrow> string) \<Rightarrow> claims_env \<Rightarrow> server stock_env" where
  "server_env now key pw cenv =
     \<lparr>se_now = now,
      se_setup = (\<lambda>node s. rbind (setup_blockchain_account now (key node) (pw node) node False (sv_wallets s))
        (\<lambda>(w, wid). Inr (with_wallets w s, wid))),
      se_inherit = (\<lambda>bid db. rbind (inherit_claims cenv db bid (server_claims (st_rest db)))
        (\<lambda>cs. Inr (with_claims cs (st_rest db)))),
      se_connections = (\<lambda>s chain node. get_connections node (Some chain) (sv_chain s)),
      se_remove_notifications = (\<lambda>t db. with_claims (remove_txn_notifications t db (server_claims (st_rest db))) (st_rest db))\<rparr>"

definition server_good :: "server \<Rightarrow> bool" where
  "server_good s \<longleftrightarrow> run_inv (sv_wallets s, sv_posts s) \<and> claims_inv (server_claims s) \<and> sc_inv (sv_chain s)"

lemma run_inv_follows: "run_inv (db, fl) \<Longrightarrow> follows ks db db' \<Longrightarrow> run_inv (db', fl)"
  unfolding follows_def by (elim conjE) (rule run_inv_step [where ks = ks, OF _ _ _ _ subset_refl])

lemma with_claims_good:
  assumes "server_good s" "claims_inv cs"
  shows "server_good (with_claims cs s)"
proof -
  have "bc_inv (sv_wallets s)" using assms(1) by (simp add: server_good_def run_inv_def)
  then have "follows {} (sv_wallets s) ((sv_wallets s)\<lparr>wl_assets := cs\<rparr>)" by (rule same_bc_follows) simp
  then show ?thesis using assms run_inv_follows by (simp add: server_good_def with_claims_def server_claims_def) blast
qed

lemma with_wallets_good:
  assumes "server_good s" "follows ks (sv_wallets s) w" "wl_assets w = wl_assets (sv_wallets s)"
  shows "server_good (with_wallets w s)"
  using assms run_inv_follows by (simp add: server_good_def with_wallets_def server_claims_def) blast

text \<open>The components meet the contract of the ledger.\<close>

interpretation server: stock_services "server_env now key pw cenv" server_good for now key pw cenv
proof unfold_locales
  fix c c' node w
  assume good: "server_good c" and s: "se_setup (server_env now key pw cenv) node c = Inr (c', w)"
  then obtain ws where s: "setup_blockchain_account now (key node) (pw node) node False (sv_wallets c) = Inr (ws, w)"
    and e: "c' = with_wallets ws c"
    by (auto simp: server_env_def rbind_eq_Inr)
  have "bc_inv (sv_wallets c)" using good by (simp add: server_good_def run_inv_def)
  then show "server_good c'" using setup_follows [OF _ s] with_wallets_good [OF good] e by blast
next
  fix db :: "server stock_db" and bid c
  assume good: "server_good (st_rest db)" and i: "se_inherit (server_env now key pw cenv) bid db = Inr c"
  then obtain cs where "inherit_claims cenv db bid (server_claims (st_rest db)) = Inr cs" "c = with_claims cs (st_rest db)"
    by (auto simp: server_env_def rbind_eq_Inr)
  then show "server_good c"
    using with_claims_good [OF good] inherit_claims_keeps good unfolding server_good_def by blast
next
  fix db :: "server stock_db" and t
  assume good: "server_good (st_rest db)"
  then have "claims_inv (remove_txn_notifications t db (server_claims (st_rest db)))"
    by (simp add: server_good_def remove_txn_notifications_def)
  from with_claims_good [OF good this]
  show "server_good (se_remove_notifications (server_env now key pw cenv) t db)"
    by (simp add: server_env_def)
qed

section \<open>Runs of the server\<close>

text \<open>
  A step is a request on the ledger, on the claims, on the supply chain, or a step of the
  blockchain protocol, whose callbacks reach wallets and claims. All times, keys, settings
  and outcomes of services may differ from step to step.
\<close>

inductive server_step :: "server stock_db \<Rightarrow> server stock_db \<Rightarrow> bool" where
  trade: "trade_step (server_env now key pw cenv) db db' \<Longrightarrow> server_step db db'"
| claims: "claims_step db (server_claims (st_rest db)) cs \<Longrightarrow>
    server_step db (db\<lparr>st_rest := with_claims cs (st_rest db)\<rparr>)"
| chain: "sc_step (sv_chain (st_rest db)) sc \<Longrightarrow>
    server_step db (db\<lparr>st_rest := (st_rest db)\<lparr>sv_chain := sc\<rparr>\<rparr>)"
| blockchain: "bc_step (wallet_topup now k pw initiator) (wallet_handle now newkey tokens enc dec (claim_handle others))
      cfg decode ks (sv_wallets (st_rest db), sv_posts (st_rest db)) (w, posts) \<Longrightarrow>
    server_step db (db\<lparr>st_rest := (st_rest db)\<lparr>sv_wallets := w, sv_posts := posts\<rparr>\<rparr>)"

lemma rest_trades:
  "trade_ok server_good db \<Longrightarrow> server_good c \<Longrightarrow> trades server_good db (db\<lparr>st_rest := c\<rparr>)"
  by (rule quiet_trades) simp_all

lemma server_step_trades:
  assumes "server_step db db'" and ok: "trade_ok server_good db"
  shows "trades server_good db db'"
  using assms(1)
proof (cases rule: server_step.cases)
  case trade
  then show ?thesis using server.step_trades ok by blast
next
  case (claims cs)
  have "claims_inv cs" using claims_step_inv [OF claims(2)] ok by (simp add: trade_ok_def server_good_def)
  then show ?thesis unfolding claims(1) using rest_trades [OF ok] with_claims_good ok by (simp add: trade_ok_def)
next
  case (chain sc)
  have "sc_inv (sv_chain (st_rest db))" using ok by (simp add: trade_ok_def server_good_def)
  then have "sc_inv sc" by (rule sc_step_inv [OF chain(2)])
  then show ?thesis unfolding chain(1)
    using ok by (intro rest_trades [OF ok]) (simp add: trade_ok_def server_good_def server_claims_def)
next
  case (blockchain now k pw initiator newkey tokens enc dec others cfg decode ks w posts)
  have "run_inv (w, posts)" using wallets.step_ok(1) [OF blockchain(2)] ok by (simp add: trade_ok_def server_good_def)
  moreover have "claims_inv (wl_assets (fst (w, posts)))"
    by (rule bc_step_assets [OF blockchain(2)]) (use ok claim_handle_inv in \<open>auto simp: trade_ok_def server_good_def server_claims_def\<close>)
  ultimately show ?thesis unfolding blockchain(1)
    using ok by (intro rest_trades [OF ok]) (simp add: trade_ok_def server_good_def server_claims_def)
qed

lemma server_steps_trades:
  "server_step\<^sup>*\<^sup>* db db' \<Longrightarrow> trade_ok server_good db \<Longrightarrow> trades server_good db db'"
proof (induction rule: rtranclp_induct)
  case base
  then show ?case by (rule trades_refl)
next
  case (step a b)
  have t: "trades server_good db a" using step.IH step.prems .
  show ?case using t server_step_trades [OF step.hyps(2) trades_ok [OF t]] by (rule trades_trans)
qed

text \<open>The server of a new deployment, with the claims, users and products it starts from.\<close>

definition new_server :: "server stock_db \<Rightarrow> bool" where
  "new_server db \<longleftrightarrow> st_batches db = Map.empty \<and> st_txs db = Map.empty \<and> st_parents db = (\<lambda>_. []) \<and>
     sv_wallets (st_rest db) = empty_wallet_db (server_claims (st_rest db)) \<and> sv_posts (st_rest db) = [] \<and>
     cs_attached (server_claims (st_rest db)) = Map.empty \<and>
     sc_connections (sv_chain (st_rest db)) = Map.empty \<and> sc_tags (sv_chain (st_rest db)) = Map.empty"

lemma new_server_ok:
  assumes "new_server db"
  shows "trade_ok server_good db"
proof -
  have "ledger_wf db"
    using assms by (simp add: new_server_def ledger_wf_def stock_wf_def kind_of_def ranked_def)
  moreover have "run_inv (sv_wallets (st_rest db), sv_posts (st_rest db))"
    using assms run_inv_empty_wallet_db by (simp add: new_server_def)
  moreover have "claims_inv (server_claims (st_rest db))"
    using assms by (simp add: new_server_def claims_inv_def percentages_ok_def attached_once_def attachment_def)
  moreover have "sc_inv (sv_chain (st_rest db))"
    using assms by (intro sc_reachable_inv sc_reachable.start) (simp_all add: new_server_def)
  ultimately show ?thesis by (simp add: trade_ok_def server_good_def)
qed


text \<open>
  A new deployment: node two invites node three, a farmer, buys from him, and after the
  commit both have accounts.
\<close>

definition demo_server :: "server stock_db" where
  "demo_server = \<lparr>st_batches = Map.empty, st_next_batch = 2, st_txs = Map.empty, st_next_tx = 2,
     st_parents = (\<lambda>_. []), st_sources = [], st_farmers = [],
     st_products = [1 \<mapsto> \<lparr>pr_supply_chain = 9, pr_local = False\<rparr>], st_owners = [],
     st_node_type = (\<lambda>n. if n = 3 then NODE_FARM else NODE_COMPANY), st_requests = Map.empty, st_followups = [],
     st_rest = \<lparr>sv_wallets = empty_wallet_db demo_start, sv_posts = [], sv_chain = demo_sc\<rparr>\<rparr>"

abbreviation "demo_services \<equiv> server_env 0 (\<lambda>n. replicate n CHR ''k'') (\<lambda>_. ''p'') demo_claims_env"

definition demo_invited :: "server stock_db" where
  "demo_invited = demo_server\<lparr>st_rest := (st_rest demo_server)\<lparr>sv_chain :=
     (case invite 2 2 (demo_invite 3 None INVITE_RELATION_SUPPLIER []) demo_sc of Inr (c, _) \<Rightarrow> c | Inl _ \<Rightarrow> demo_sc)\<rparr>\<rparr>"

definition demo_bought :: "server stock_db" where
  "demo_bought = (case external_request demo_services 7 (\<lambda>_. ''n'') 2 None
      ((demo_sale False 5000)\<lparr>ed_type := INCOMING, ed_node := 3\<rparr>) demo_invited of
     Inr (db, _) \<Rightarrow> db | Inl _ \<Rightarrow> demo_invited)"

definition demo_committed :: "server stock_db" where
  "demo_committed = (case post_commit demo_services 2 3 2 demo_bought of Inr db \<Rightarrow> db | Inl _ \<Rightarrow> demo_bought)"

lemma demo_server_ok:
  "is_ok (invite 2 2 (demo_invite 3 None INVITE_RELATION_SUPPLIER []) demo_sc)"
  "is_ok (external_request demo_services 7 (\<lambda>_. ''n'') 2 None
      ((demo_sale False 5000)\<lparr>ed_type := INCOMING, ed_node := 3\<rparr>) demo_invited)"
  "is_ok (post_commit demo_services 2 3 2 demo_bought)"
  "bc_requests (sv_wallets (st_rest demo_committed)) 2 \<noteq> None"
  "st_batches demo_committed 3 \<noteq> None"
  by code_simp+

lemma demo_server_run: "server_step\<^sup>*\<^sup>* demo_server demo_committed"
proof -
  obtain c k where c: "invite 2 2 (demo_invite 3 None INVITE_RELATION_SUPPLIER []) demo_sc = Inr (c, k)"
    using demo_server_ok(1) by (auto simp: is_ok_def split: sum.splits)
  have "demo_invited = demo_server\<lparr>st_rest := (st_rest demo_server)\<lparr>sv_chain := c\<rparr>\<rparr>"
    by (simp add: demo_invited_def c)
  moreover have "sv_chain (st_rest demo_server) = demo_sc" by (simp add: demo_server_def)
  ultimately have 1: "server_step demo_server demo_invited" using server_step.chain sc_step.invite [OF c] by metis
  obtain t x where "external_request demo_services 7 (\<lambda>_. ''n'') 2 None
      ((demo_sale False 5000)\<lparr>ed_type := INCOMING, ed_node := 3\<rparr>) demo_invited = Inr (demo_bought, t, x)"
    using demo_server_ok(2) by (auto simp: is_ok_def demo_bought_def split: sum.splits)
  then have 2: "server_step demo_invited demo_bought" by (blast intro: server_step.trade trade_step.external)
  have "post_commit demo_services 2 3 2 demo_bought = Inr demo_committed"
    using demo_server_ok(3) by (auto simp: is_ok_def demo_committed_def split: sum.splits)
  then have 3: "server_step demo_bought demo_committed" by (blast intro: server_step.trade trade_step.commit)
  show ?thesis using 1 2 3 by (meson converse_rtranclp_into_rtranclp r_into_rtranclp)
qed


end
