(* ===== verification/Accounts.thy ===== *)
theory Accounts
  imports Callback_Auth
begin

text \<open>
  Users and what they log in with: \<open>FairfoodUser\<close>, \<open>ValidationToken\<close> and
  \<open>AccessToken\<close> of \<open>v2/accounts/models.py\<close>, the views of
  \<open>v2/accounts/views/auth.py\<close>, the login serializers of
  \<open>v2/accounts/serializers/auth.py\<close> and the permissions of
  \<open>v2/accounts/permissions.py\<close>.

  An operation that may fail after it has written returns the database next to its result.
  \<open>key\<close> is what \<open>generate_unique_key\<close> returns; \<open>draws\<close> are the random
  strings it tries. E-mails, devices and the single sign-on service are not modelled.
\<close>

section \<open>Users and tokens\<close>

text \<open>The type of a user is an integer column; serializers do not check its choices.\<close>

definition USER_TYPE_NODE_USER :: int where
  "USER_TYPE_NODE_USER = 1"

definition USER_TYPE_FAIRFOOD_ADMIN :: int where
  "USER_TYPE_FAIRFOOD_ADMIN = 2"

definition USER_TYPE_FAIRFOOD_MANAGER :: int where
  "USER_TYPE_FAIRFOOD_MANAGER = 3"

datatype vtoken_type = VTOKEN_TYPE_VERIFY_EMAIL | VTOKEN_TYPE_CHANGE_EMAIL | VTOKEN_TYPE_RESET_PASS
  | VTOKEN_TYPE_OTP | VTOKEN_TYPE_MAGIC_LOGIN | VTOKEN_TYPE_INVITE | VTOKEN_TYPE_NOTIFICATION

datatype vtoken_status = VTOKEN_STATUS_UNUSED | VTOKEN_STATUS_USED

record fairfood_user =
  us_username :: string
  us_email :: string
  us_updated_email :: string
  us_password :: string
  us_type :: int
  us_blocked :: bool
  us_email_verified :: bool
  us_default_node :: "nat option"
  us_joined :: int

record vtoken =
  vt_user :: nat
  vt_key :: string
  vt_status :: vtoken_status
  vt_expiry :: int
  vt_type :: vtoken_type
  vt_creator :: "nat option"

record access_token =
  at_user :: nat
  at_device :: "nat option"
  at_key :: string

text \<open>\<open>type\<close> has choices, but the serializer that creates members takes any integer.\<close>

record node_member =
  nm_node :: nat
  nm_user :: nat
  nm_type :: int
  nm_active :: bool
  nm_vtoken :: "nat option"
  nm_creator :: "nat option"

record accounts_db =
  ad_users :: "nat \<rightharpoonup> fairfood_user"
  ad_next_user :: nat
  ad_tokens :: "nat \<rightharpoonup> vtoken"
  ad_next_token :: nat
  ad_access :: "nat \<rightharpoonup> access_token"
  ad_next_access :: nat
  ad_members :: "nat \<rightharpoonup> node_member"
  ad_next_member :: nat
  ad_nodes :: "nat list"

definition save_user :: "nat \<Rightarrow> fairfood_user \<Rightarrow> accounts_db \<Rightarrow> accounts_db" where
  "save_user u x db = db\<lparr>ad_users := (ad_users db)(u \<mapsto> x)\<rparr>"

definition save_vtoken :: "nat \<Rightarrow> vtoken \<Rightarrow> accounts_db \<Rightarrow> accounts_db" where
  "save_vtoken i t db = db\<lparr>ad_tokens := (ad_tokens db)(i \<mapsto> t)\<rparr>"

definition tokens_where :: "(vtoken \<Rightarrow> bool) \<Rightarrow> accounts_db \<Rightarrow> nat list" where
  "tokens_where p db = [i\<leftarrow>[0..<ad_next_token db]. case ad_tokens db i of Some t \<Rightarrow> p t | None \<Rightarrow> False]"

definition users_where :: "(fairfood_user \<Rightarrow> bool) \<Rightarrow> accounts_db \<Rightarrow> nat list" where
  "users_where p db = [u\<leftarrow>[0..<ad_next_user db]. case ad_users db u of Some x \<Rightarrow> p x | None \<Rightarrow> False]"

definition members_where :: "(node_member \<Rightarrow> bool) \<Rightarrow> accounts_db \<Rightarrow> nat list" where
  "members_where p db = [m\<leftarrow>[0..<ad_next_member db]. case ad_members db m of Some x \<Rightarrow> p x | None \<Rightarrow> False]"

definition save_member :: "nat \<Rightarrow> node_member \<Rightarrow> accounts_db \<Rightarrow> accounts_db" where
  "save_member m x db = db\<lparr>ad_members := (ad_members db)(m \<mapsto> x)\<rparr>"

definition get_user :: "nat \<Rightarrow> accounts_db \<Rightarrow> fairfood_user result" where
  "get_user u db = of_option DoesNotExist (ad_users db u)"

text \<open>The column \<open>username\<close> is unique.\<close>

definition rename_user :: "nat \<Rightarrow> fairfood_user \<Rightarrow> accounts_db \<Rightarrow> accounts_db result" where
  "rename_user u x db =
     (if [v\<leftarrow>users_where (\<lambda>y. us_username y = us_username x) db. v \<noteq> u] \<noteq> [] then Inl IntegrityError
      else Inr (save_user u x db))"

text \<open>
  The answer to a request comes with the database it leaves behind, since what was saved
  before an exception stays saved.
\<close>

type_synonym 'a reply = "accounts_db \<times> 'a result"

definition reply :: "accounts_db \<Rightarrow> (accounts_db \<times> 'a) result \<Rightarrow> 'a reply" where
  "reply db r = (case r of Inl e \<Rightarrow> (db, Inl e) | Inr (db', x) \<Rightarrow> (db', Inr x))"

definition and_then :: "'a reply \<Rightarrow> (accounts_db \<Rightarrow> 'a \<Rightarrow> 'b reply) \<Rightarrow> 'b reply" where
  "and_then r f = (case r of (db, Inl e) \<Rightarrow> (db, Inl e) | (db, Inr x) \<Rightarrow> f db x)"

definition is_fairtrace_admin :: "fairfood_user \<Rightarrow> bool" where
  "is_fairtrace_admin x \<longleftrightarrow> us_type x \<in> {USER_TYPE_FAIRFOOD_ADMIN, USER_TYPE_FAIRFOOD_MANAGER}"

text \<open>\<open>TOKEN_VALIDITY\<close>, in minutes.\<close>

definition get_validity_period :: "vtoken_type \<Rightarrow> int" where
  "get_validity_period ty =
     (case ty of
        VTOKEN_TYPE_VERIFY_EMAIL \<Rightarrow> 525600 | VTOKEN_TYPE_CHANGE_EMAIL \<Rightarrow> 525600 | VTOKEN_TYPE_RESET_PASS \<Rightarrow> 2880
      | VTOKEN_TYPE_OTP \<Rightarrow> 1440 | VTOKEN_TYPE_MAGIC_LOGIN \<Rightarrow> 2880 | VTOKEN_TYPE_INVITE \<Rightarrow> 525600
      | VTOKEN_TYPE_NOTIFICATION \<Rightarrow> 525600)"

definition vt_get_expiry :: "int \<Rightarrow> vtoken_type \<Rightarrow> int" where
  "vt_get_expiry now ty = now + get_validity_period ty * 60 * 1000000"

definition vt_is_valid :: "int \<Rightarrow> vtoken \<Rightarrow> bool" where
  "vt_is_valid now t = (if vt_expiry t > now \<and> vt_status t = VTOKEN_STATUS_UNUSED then True else False)"

text \<open>\<open>ValidationToken.generate_unique_key\<close>: until the key is not that of an unused token of the type.\<close>

definition vt_generate_unique_key :: "vtoken_type \<Rightarrow> accounts_db \<Rightarrow> string list \<Rightarrow> string option" where
  "vt_generate_unique_key ty db =
     cb_get_key (\<lambda>k. tokens_where (\<lambda>t. vt_key t = k \<and> vt_type t = ty \<and> vt_status t = VTOKEN_STATUS_UNUSED) db \<noteq> [])"

definition vt_mark_as_used :: "vtoken \<Rightarrow> vtoken" where
  "vt_mark_as_used t = t\<lparr>vt_status := VTOKEN_STATUS_USED\<rparr>"

definition vt_invalidate :: "int \<Rightarrow> vtoken \<Rightarrow> vtoken" where
  "vt_invalidate now t = (vt_mark_as_used t)\<lparr>vt_expiry := now\<rparr>"

definition vt_refresh :: "int \<Rightarrow> string \<Rightarrow> vtoken \<Rightarrow> vtoken" where
  "vt_refresh now key t =
     (let t1 = (if \<not> vt_is_valid now t then t\<lparr>vt_key := key, vt_status := VTOKEN_STATUS_UNUSED\<rparr> else t)
      in t1\<lparr>vt_expiry := vt_get_expiry now (vt_type t)\<rparr>)"

definition vt_validate :: "int \<Rightarrow> vtoken \<Rightarrow> vtoken \<times> bool" where
  "vt_validate now t = (t\<lparr>vt_status := VTOKEN_STATUS_USED\<rparr>, vt_is_valid now t)"

text \<open>\<open>ValidationToken.initialize\<close>: \<open>get_or_create\<close>, and a token that was there is refreshed.\<close>

definition vt_initialize ::
    "int \<Rightarrow> string \<Rightarrow> nat \<Rightarrow> vtoken_type \<Rightarrow> nat option \<Rightarrow> accounts_db \<Rightarrow> (accounts_db \<times> nat) result"
where
  "vt_initialize now key user ty creator db =
     (let by = (case creator of Some c \<Rightarrow> c | None \<Rightarrow> user) in
      case tokens_where (\<lambda>t. vt_user t = user \<and> vt_status t = VTOKEN_STATUS_UNUSED \<and> vt_type t = ty \<and>
             vt_creator t = Some by) db of
        [] \<Rightarrow>
          (let i = ad_next_token db;
               t = \<lparr>vt_user = user, vt_key = key, vt_status = VTOKEN_STATUS_UNUSED, vt_expiry = vt_get_expiry now ty,
                    vt_type = ty, vt_creator = Some by\<rparr>
           in Inr ((save_vtoken i t db)\<lparr>ad_next_token := Suc i\<rparr>, i))
      | [i] \<Rightarrow>
          (case ad_tokens db i of
             None \<Rightarrow> Inl DoesNotExist
           | Some t \<Rightarrow> Inr (save_vtoken i (vt_refresh now key t) db, i))
      | _ \<Rightarrow> Inl MultipleObjectsReturned)"

section \<open>Access tokens\<close>

text \<open>
  \<open>AccessToken.generate_unique_key\<close>: the recursive call's result is dropped. The key
  column is unique, so saving a taken key is an \<open>IntegrityError\<close>.
\<close>

definition access_key_taken :: "accounts_db \<Rightarrow> string \<Rightarrow> bool" where
  "access_key_taken db k \<longleftrightarrow>
     [i\<leftarrow>[0..<ad_next_access db]. case ad_access db i of Some a \<Rightarrow> at_key a = k | None \<Rightarrow> False] \<noteq> []"

fun at_generate_unique_key :: "accounts_db \<Rightarrow> string list \<Rightarrow> string option" where
  "at_generate_unique_key db [] = None"
| "at_generate_unique_key db (key # draws) =
     (if access_key_taken db key
      then (case at_generate_unique_key db draws of None \<Rightarrow> None | Some _ \<Rightarrow> Some key)
      else Some key)"

definition tokens_of_user :: "nat \<Rightarrow> accounts_db \<Rightarrow> nat list" where
  "tokens_of_user user db =
     [i\<leftarrow>[0..<ad_next_access db]. case ad_access db i of Some a \<Rightarrow> at_user a = user | None \<Rightarrow> False]"

definition save_access :: "nat \<Rightarrow> access_token \<Rightarrow> accounts_db \<Rightarrow> accounts_db result" where
  "save_access i a db =
     (if [j\<leftarrow>[0..<ad_next_access db]. j \<noteq> i \<and> (case ad_access db j of Some b \<Rightarrow> at_key b = at_key a | None \<Rightarrow> False)] \<noteq> []
      then Inl IntegrityError else Inr (db\<lparr>ad_access := (ad_access db)(i \<mapsto> a)\<rparr>))"

definition at_refresh :: "string list \<Rightarrow> nat \<Rightarrow> accounts_db \<Rightarrow> (accounts_db \<times> string) result" where
  "at_refresh draws i db =
     rbind (of_option DoesNotExist (ad_access db i)) (\<lambda>a.
     rbind (of_option PyRecursionError (at_generate_unique_key db draws)) (\<lambda>k.
     rbind (save_access i (a\<lparr>at_key := k\<rparr>) db) (\<lambda>db'. Inr (db', k))))"

text \<open>\<open>FairfoodUser.issue_access_token\<close>.\<close>

definition issue_access_token ::
    "string list \<Rightarrow> nat option \<Rightarrow> nat \<Rightarrow> accounts_db \<Rightarrow> (accounts_db \<times> string) result"
where
  "issue_access_token draws device user db =
     (let old = [i\<leftarrow>tokens_of_user user db. map_option at_device (ad_access db i) = Some device];
          db1 = (if length old > 1 then db\<lparr>ad_access := (\<lambda>i. if i \<in> set (tl old) then None else ad_access db i)\<rparr> else db)
      in case old of
           i # _ \<Rightarrow> rbind (of_option DoesNotExist (ad_access db1 i)) (\<lambda>a. Inr (db1, at_key a))
         | [] \<Rightarrow>
             rbind (of_option PyRecursionError (at_generate_unique_key db1 draws)) (\<lambda>k.
             rbind (save_access (ad_next_access db1) \<lparr>at_user = user, at_device = device, at_key = k\<rparr>
                      (db1\<lparr>ad_next_access := Suc (ad_next_access db1)\<rparr>)) (\<lambda>db2. Inr (db2, k))))"

text \<open>\<open>logout\<close>: exceptions of the token are ignored, among them several tokens.\<close>

definition logout :: "string list \<Rightarrow> nat \<Rightarrow> accounts_db \<Rightarrow> accounts_db" where
  "logout draws user db =
     (case tokens_of_user user db of
        [i] \<Rightarrow> (case at_refresh draws i db of Inl e \<Rightarrow> db | Inr (db', k) \<Rightarrow> db')
      | _ \<Rightarrow> db)"

section \<open>What a user asks for\<close>

definition generate_magic_link :: "int \<Rightarrow> string \<Rightarrow> nat \<Rightarrow> accounts_db \<Rightarrow> (accounts_db \<times> nat) result" where
  "generate_magic_link now key user db = vt_initialize now key user VTOKEN_TYPE_MAGIC_LOGIN None db"

definition reset_password :: "int \<Rightarrow> string \<Rightarrow> nat \<Rightarrow> accounts_db \<Rightarrow> (accounts_db \<times> nat) result" where
  "reset_password now key user db = vt_initialize now key user VTOKEN_TYPE_RESET_PASS None db"

definition verify_email :: "int \<Rightarrow> string \<Rightarrow> nat \<Rightarrow> accounts_db \<Rightarrow> (accounts_db \<times> nat) result" where
  "verify_email now key user db = vt_initialize now key user VTOKEN_TYPE_VERIFY_EMAIL None db"

text \<open>The tokens are ordered newest first, so \<open>last()\<close> is the oldest.\<close>

definition sent_otp :: "int \<Rightarrow> string \<Rightarrow> nat \<Rightarrow> accounts_db \<Rightarrow> (accounts_db \<times> nat) result" where
  "sent_otp now key user db =
     (case tokens_where (\<lambda>t. vt_user t = user \<and> vt_type t = VTOKEN_TYPE_OTP \<and> vt_status t = VTOKEN_STATUS_UNUSED \<and>
            vt_expiry t > now) db of
        i # _ \<Rightarrow> Inr (db, i)
      | [] \<Rightarrow> vt_initialize now key user VTOKEN_TYPE_OTP None db)"

end
