(* ===== verification/Logins.thy ===== *)
theory Logins
  imports Accounts
begin

text \<open>
  Requests about a login: the views of \<open>v2/accounts/views/auth.py\<close>, the serializers of
  \<open>v2/accounts/serializers/auth.py\<close>, \<open>UserSerializer.create\<close> and the permissions of
  \<open>v2/accounts/permissions.py\<close>.

  \<open>hash\<close> is the password hasher, \<open>email_ok\<close> and \<open>password_ok\<close> the validators, \<open>dev_ok\<close>
  says whether the device of the request is accepted, \<open>sso_ok\<close> whether the single sign-on
  service answered 201. A salt is the decoded id, \<open>None\<close> where it does not decode.
\<close>

section \<open>The e-mail address of a user\<close>

definition update_email :: "int \<Rightarrow> nat \<Rightarrow> string \<Rightarrow> accounts_db \<Rightarrow> unit reply" where
  "update_email now u email db =
     and_then (reply db (rbind (get_user u db) (\<lambda>x.
       rbind (rename_user u (x\<lparr>us_email := email, us_username := email\<rparr>) db) (\<lambda>db'. Inr (db', ())))))
     (\<lambda>db1 _. (db1\<lparr>ad_tokens := (\<lambda>i. map_option (\<lambda>t. if vt_user t = u then vt_invalidate now t else t)
        (ad_tokens db1 i))\<rparr>, Inr ()))"

datatype username_state = Not_valid | Not_available | Available

definition validate_username :: "(string \<Rightarrow> bool) \<Rightarrow> string \<Rightarrow> accounts_db \<Rightarrow> username_state" where
  "validate_username email_ok username db =
     (if \<not> email_ok username then Not_valid
      else if users_where (\<lambda>y. us_username y = username) db \<noteq> [] then Not_available else Available)"

definition request_email_update ::
    "(string \<Rightarrow> bool) \<Rightarrow> int \<Rightarrow> string \<Rightarrow> nat \<Rightarrow> string \<Rightarrow> accounts_db \<Rightarrow> unit reply"
where
  "request_email_update email_ok now key u email db =
     and_then (db, get_user u db) (\<lambda>_ x.
       case validate_username email_ok email db of
         Not_valid \<Rightarrow> (db, Inl PyValueError)
       | Not_available \<Rightarrow> (db, Inl PyValueError)
       | Available \<Rightarrow>
           (let db1 = save_user u (x\<lparr>us_updated_email := email\<rparr>) db in
            and_then (reply db1 (vt_initialize now key u VTOKEN_TYPE_CHANGE_EMAIL None db1)) (\<lambda>db2 _. (db2, Inr ()))))"

definition confirm_updated_email :: "nat \<Rightarrow> accounts_db \<Rightarrow> (accounts_db \<times> bool) result" where
  "confirm_updated_email u db =
     rbind (get_user u db) (\<lambda>x.
       if us_updated_email x \<noteq> [] then
         rbind (rename_user u (x\<lparr>us_email := us_updated_email x, us_username := us_updated_email x,
                                us_updated_email := []\<rparr>) db) (\<lambda>db'. Inr (db', True))
       else Inr (db, False))"

section \<open>Tokens sent by e-mail\<close>

definition check_token_validity :: "int \<Rightarrow> string \<Rightarrow> nat option \<Rightarrow> accounts_db \<Rightarrow> nat option" where
  "check_token_validity now key pk db =
     (case pk of None \<Rightarrow> None
      | Some i \<Rightarrow>
          (case ad_tokens db i of None \<Rightarrow> None
           | Some t \<Rightarrow> if vt_key t = key \<and> vt_status t = VTOKEN_STATUS_UNUSED \<and> vt_is_valid now t then Some i else None))"

text \<open>\<open>ManageValidator.validate\<close> answers \<open>set_password\<close> and \<open>valid\<close>, the latter possibly unset.\<close>

record validator_answer =
  va_set_password :: bool
  va_valid :: "bool option"

definition manage_validate :: "int \<Rightarrow> string \<Rightarrow> string \<Rightarrow> nat option \<Rightarrow> accounts_db \<Rightarrow> validator_answer reply" where
  "manage_validate now key salt pk db =
     (if key = [] then (db, Inl (BadRequest ''token can not be empty''))
      else if salt = [] then (db, Inl (BadRequest ''salt can not be empty''))
      else case check_token_validity now key pk db of
        None \<Rightarrow> (db, Inr \<lparr>va_set_password = False, va_valid = Some False\<rparr>)
      | Some i \<Rightarrow>
          and_then (db, of_option DoesNotExist (ad_tokens db i)) (\<lambda>_ t.
          and_then (db, get_user (vt_user t) db) (\<lambda>_ x.
            let db1 = save_user (vt_user t) (x\<lparr>us_email_verified := True\<rparr>) db;
                sp = \<not> (us_password x \<noteq> [] \<and> vt_type t \<noteq> VTOKEN_TYPE_RESET_PASS);
                used = save_vtoken i (vt_mark_as_used t) db1
            in case vt_type t of
                 VTOKEN_TYPE_VERIFY_EMAIL \<Rightarrow> (used, Inr \<lparr>va_set_password = sp, va_valid = Some True\<rparr>)
               | VTOKEN_TYPE_CHANGE_EMAIL \<Rightarrow>
                   and_then (reply used (confirm_updated_email (vt_user t) used)) (\<lambda>db2 success.
                     (db2, Inr \<lparr>va_set_password = sp, va_valid = (if success then Some True else None)\<rparr>))
               | _ \<Rightarrow> (db1, Inr \<lparr>va_set_password = sp, va_valid = Some True\<rparr>))))"

definition user_by_name :: "error \<Rightarrow> string \<Rightarrow> accounts_db \<Rightarrow> nat result" where
  "user_by_name missing name db =
     (case users_where (\<lambda>y. us_username y = name) db of
        [u] \<Rightarrow> Inr u | [] \<Rightarrow> Inl missing | _ \<Rightarrow> Inl MultipleObjectsReturned)"

definition email_login :: "int \<Rightarrow> string \<Rightarrow> string \<Rightarrow> accounts_db \<Rightarrow> unit reply" where
  "email_login now key email db =
     (if email = [] then (db, Inl (ValidationError ''email is required.''))
      else and_then (db, user_by_name (ValidationError ''Invalid email.'') email db) (\<lambda>_ u.
           and_then (reply db (sent_otp now key u db)) (\<lambda>db1 _. (db1, Inr ()))))"

definition verify_code :: "int \<Rightarrow> nat \<Rightarrow> string \<Rightarrow> accounts_db \<Rightarrow> bool reply" where
  "verify_code now u otp db =
     (case tokens_where (\<lambda>t. vt_user t = u \<and> vt_key t = otp \<and> vt_type t = VTOKEN_TYPE_OTP) db of
        [] \<Rightarrow> (db, Inr False)
      | [i] \<Rightarrow>
          (case ad_tokens db i of
             None \<Rightarrow> (db, Inr False)
           | Some t \<Rightarrow> if \<not> vt_is_valid now t then (db, Inr False)
                       else (save_vtoken i (vt_invalidate now t) db, Inr True))
      | _ \<Rightarrow> (db, Inl MultipleObjectsReturned))"

text \<open>A login answers with the magic token: its key and its id.\<close>

definition magic_answer :: "int \<Rightarrow> string \<Rightarrow> nat \<Rightarrow> accounts_db \<Rightarrow> (string \<times> nat) reply" where
  "magic_answer now key u db =
     and_then (reply db (generate_magic_link now key u db)) (\<lambda>db1 i.
     (db1, rbind (of_option DoesNotExist (ad_tokens db1 i)) (\<lambda>t. Inr (vt_key t, i))))"

definition email_login_code :: "int \<Rightarrow> string \<Rightarrow> string \<Rightarrow> string \<Rightarrow> accounts_db \<Rightarrow> (string \<times> nat) reply" where
  "email_login_code now key email otp db =
     (if email = [] \<or> otp = [] then (db, Inl (ValidationError ''email and code is required.''))
      else and_then (db, user_by_name (ValidationError ''Invalid User'') email db) (\<lambda>_ u.
           and_then (verify_code now u otp db) (\<lambda>db1 verified.
             if \<not> verified then (db1, Inl (ValidationError ''Invalid code.''))
             else and_then (db1, get_user u db1) (\<lambda>_ x.
               let db2 = (if \<not> us_email_verified x then save_user u (x\<lparr>us_email_verified := True\<rparr>) db1 else db1)
               in magic_answer now key u db2))))"

text \<open>\<open>MagicLink\<close>: the first user with the address.\<close>

definition magic_link :: "int \<Rightarrow> string \<Rightarrow> string \<Rightarrow> accounts_db \<Rightarrow> unit reply" where
  "magic_link now key email db =
     (case users_where (\<lambda>y. us_email y = email) db of
        [] \<Rightarrow> (db, Inl (BadRequest ''User is not registered''))
      | u # _ \<Rightarrow> and_then (reply db (generate_magic_link now key u db)) (\<lambda>db1 _. (db1, Inr ())))"

definition reset_password_view :: "int \<Rightarrow> string \<Rightarrow> string \<Rightarrow> accounts_db \<Rightarrow> unit reply" where
  "reset_password_view now key email db =
     (case users_where (\<lambda>y. us_email y = email) db of
        [u] \<Rightarrow> and_then (reply db (reset_password now key u db)) (\<lambda>db1 _. (db1, Inr ()))
      | _ \<Rightarrow> (db, Inl (BadRequest ''Invalid email, reset failed.'')))"

definition verification_email :: "int \<Rightarrow> string \<Rightarrow> nat \<Rightarrow> accounts_db \<Rightarrow> unit reply" where
  "verification_email now key u db = and_then (reply db (verify_email now key u db)) (\<lambda>db1 _. (db1, Inr ()))"

section \<open>Using a token\<close>

definition is_validation_token_valid :: "int \<Rightarrow> string \<Rightarrow> string \<Rightarrow> nat option \<Rightarrow> accounts_db \<Rightarrow> nat result" where
  "is_validation_token_valid now key salt pk db =
     (if key = [] then Inl (BadRequest ''token can not be empty'')
      else if salt = [] then Inl (BadRequest ''salt can not be empty'')
      else case pk of None \<Rightarrow> Inl (UnauthorizedAccess ''Invalid token.'')
        | Some i \<Rightarrow>
            (case ad_tokens db i of
               None \<Rightarrow> Inl (UnauthorizedAccess ''Invalid token.'')
             | Some t \<Rightarrow>
                 if vt_key t \<noteq> key \<or> vt_status t \<noteq> VTOKEN_STATUS_UNUSED \<or> \<not> vt_is_valid now t
                 then Inl (UnauthorizedAccess ''Invalid token.'') else Inr i))"

text \<open>\<open>SetPassword\<close> answers with a login: a magic token of the user.\<close>

definition set_password ::
    "(string \<Rightarrow> string) \<Rightarrow> (string \<Rightarrow> bool) \<Rightarrow> int \<Rightarrow> string \<Rightarrow> string \<Rightarrow> string \<Rightarrow> nat option \<Rightarrow> string \<Rightarrow>
     accounts_db \<Rightarrow> (string \<times> nat) reply"
where
  "set_password hash password_ok now newkey key salt pk password db =
     and_then (db, is_validation_token_valid now key salt pk db) (\<lambda>_ i.
       if password = [] then (db, Inl (BadRequest ''Password not found''))
       else if \<not> password_ok password then (db, Inl (BadRequest ''invalid password''))
       else
         and_then (db, of_option DoesNotExist (ad_tokens db i)) (\<lambda>_ t.
         and_then (db, get_user (vt_user t) db) (\<lambda>_ x.
           let db1 = save_user (vt_user t) (x\<lparr>us_password := hash password\<rparr>) db;
               db2 = save_vtoken i (vt_mark_as_used t) db1
           in magic_answer now newkey (vt_user t) db2)))"

definition nodes_exist :: "nat \<Rightarrow> accounts_db \<Rightarrow> bool" where
  "nodes_exist u db \<longleftrightarrow> members_where (\<lambda>m. nm_user m = u) db \<noteq> []"

text \<open>
  \<open>MagicLoginSerializer.create\<close>: every exception of the first half is caught. The token
  is consumed before the device is looked at.
\<close>

definition consume_magic_token ::
    "bool \<Rightarrow> int \<Rightarrow> string \<Rightarrow> nat option \<Rightarrow> nat \<Rightarrow> accounts_db \<Rightarrow> accounts_db \<times> nat option"
where
  "consume_magic_token dev_ok now key pk uid db =
     (case pk of None \<Rightarrow> (db, None)
      | Some i \<Rightarrow>
          (case ad_tokens db i of None \<Rightarrow> (db, None)
           | Some t \<Rightarrow>
               if vt_user t \<noteq> uid \<or> vt_key t \<noteq> key \<or> vt_type t \<noteq> VTOKEN_TYPE_MAGIC_LOGIN \<or> \<not> vt_is_valid now t
               then (db, None)
               else
                 (let db1 = save_vtoken i (vt_invalidate now t) db in
                  case ad_users db1 uid of None \<Rightarrow> (db1, None)
                  | Some x \<Rightarrow>
                      (let db2 = (if is_fairtrace_admin x \<and> \<not> us_email_verified x
                                  then save_user uid (x\<lparr>us_email_verified := True\<rparr>) db1 else db1)
                       in if dev_ok then (db2, Some uid) else (db2, None)))))"

definition magic_login ::
    "bool \<Rightarrow> int \<Rightarrow> string list \<Rightarrow> string \<Rightarrow> nat option \<Rightarrow> nat \<Rightarrow> accounts_db \<Rightarrow> string reply"
where
  "magic_login dev_ok now draws key pk uid db =
     (case consume_magic_token dev_ok now key pk uid db of
        (db1, None) \<Rightarrow> (db1, Inl (AccessForbidden ''Login failed. Try again.''))
      | (db1, Some u) \<Rightarrow>
          and_then (db1, get_user u db1) (\<lambda>_ x.
            if \<not> is_fairtrace_admin x \<and> \<not> nodes_exist u db1
            then (db1, Inl (UnauthorizedAccess ''User does not have access to any nodes''))
            else reply db1 (issue_access_token draws None u db1)))"

text \<open>\<open>LoginSerializer\<close>; \<open>auth\<close> is Django's \<open>authenticate\<close>.\<close>

definition login ::
    "(string \<Rightarrow> string \<Rightarrow> accounts_db \<Rightarrow> nat option) \<Rightarrow> bool \<Rightarrow> int \<Rightarrow> string \<Rightarrow> string \<Rightarrow> string \<Rightarrow> accounts_db \<Rightarrow>
     (string \<times> nat) reply"
where
  "login auth dev_ok now newkey username password db =
     (case auth username password db of
        None \<Rightarrow> (db, Inl (UnauthorizedAccess ''Invalid email or password''))
      | Some u \<Rightarrow>
          and_then (db, get_user u db) (\<lambda>_ x.
            if \<not> is_fairtrace_admin x \<and> us_joined x \<le> now - 60 * 60 * 1000000 \<and> \<not> nodes_exist u db
            then (db, Inl (UnauthorizedAccess ''User does not have access to any nodes''))
            else if \<not> dev_ok then (db, Inl (BadRequest ''device''))
            else magic_answer now newkey u db))"

definition ff_admin_login ::
    "(string \<Rightarrow> string \<Rightarrow> accounts_db \<Rightarrow> nat option) \<Rightarrow> bool \<Rightarrow> string list \<Rightarrow> string \<Rightarrow> string \<Rightarrow> accounts_db \<Rightarrow>
     string reply"
where
  "ff_admin_login auth dev_ok draws username password db =
     (case auth username password db of
        None \<Rightarrow> (db, Inl (UnauthorizedAccess ''Invalid email or password''))
      | Some u \<Rightarrow>
          and_then (db, get_user u db) (\<lambda>_ x.
            if us_type x \<noteq> USER_TYPE_FAIRFOOD_ADMIN
            then (db, Inl (UnauthorizedAccess ''Invalid email or password''))
            else if \<not> dev_ok then (db, Inl (BadRequest ''device''))
            else reply db (issue_access_token draws None u db)))"

section \<open>Invitees\<close>

definition invitee_set_user :: "int \<Rightarrow> string \<Rightarrow> nat option \<Rightarrow> accounts_db \<Rightarrow> (nat \<times> nat) result" where
  "invitee_set_user now key pk db =
     (case pk of None \<Rightarrow> Inl (ValidationError ''Invalid Token'')
      | Some i \<Rightarrow>
          (case ad_tokens db i of None \<Rightarrow> Inl (ValidationError ''Invalid Token'')
           | Some t \<Rightarrow>
               if vt_key t \<noteq> key \<or> \<not> vt_is_valid now t then Inl (ValidationError ''Invalid Token'')
               else Inr (i, vt_user t)))"

text \<open>
  \<open>InviteeUserViewSet.update\<close>, one database transaction. \<open>url_user\<close> is the user of the
  URL; the serializer sets \<open>generated\<close>, a random password.
\<close>

definition invitee_update ::
    "(string \<Rightarrow> string) \<Rightarrow> int \<Rightarrow> string \<Rightarrow> nat \<Rightarrow> string \<Rightarrow> string \<Rightarrow> nat option \<Rightarrow> accounts_db \<Rightarrow> (accounts_db \<times> nat) result"
where
  "invitee_update hash now generated url_user key salt pk db =
     (if key = [] \<or> salt = [] then Inl (ValidationError ''token and salt required.'')
      else
        rbind (invitee_set_user now key pk db) (\<lambda>(i, u).
        rbind (of_option DoesNotExist (ad_tokens db i)) (\<lambda>t.
        let db1 = save_vtoken i (vt_invalidate now t) db in
        if url_user \<noteq> u then Inl DoesNotExist
        else
          rbind (get_user u db1) (\<lambda>x.
          let db2 = save_user u (x\<lparr>us_email_verified := True, us_password := hash generated\<rparr>) db1 in
          case members_where (\<lambda>m. Some (nm_node m) = us_default_node x \<and> nm_user m = u) db2 of
            [] \<Rightarrow> Inr (db2, u)
          | m # _ \<Rightarrow> rbind (of_option DoesNotExist (ad_members db2 m)) (\<lambda>mem.
              Inr (save_member m (mem\<lparr>nm_active := True\<rparr>) db2, u))))))"

section \<open>Signing up\<close>

text \<open>
  \<open>UserSerializer.create\<close>: the record is created with the password of the request as it
  is; the hash is set on the object, and saved only where no password was given, or where
  the single sign-on service accepts the user. The request may give the type of the user
  and say that the address is verified. \<open>silent\<close> is the view's \<open>silent_registration\<close>,
  \<open>None\<close> where the serializer was made without a view. The answer is the user's id and
  the object in memory.
\<close>

definition user_create ::
    "(string \<Rightarrow> bool) \<Rightarrow> (string \<Rightarrow> string) \<Rightarrow> bool option \<Rightarrow> bool \<Rightarrow> int \<Rightarrow> string \<Rightarrow> string \<Rightarrow>
     int option \<Rightarrow> bool \<Rightarrow> string \<Rightarrow> string option \<Rightarrow> accounts_db \<Rightarrow> (nat \<times> fairfood_user) reply"
where
  "user_create email_ok hash silent sso_ok now key generated ty verified email password db =
     (case validate_username email_ok email db of
        Not_valid \<Rightarrow> (db, Inl (ValidationError ''Invalid username''))
      | Not_available \<Rightarrow> (db, Inl (ValidationError ''Email already taken''))
      | Available \<Rightarrow>
          (let u = ad_next_user db;
               x = \<lparr>us_username = email, us_email = email, us_updated_email = [],
                    us_password = (case password of Some p \<Rightarrow> p | None \<Rightarrow> hash generated),
                    us_type = (case ty of Some n \<Rightarrow> n | None \<Rightarrow> USER_TYPE_NODE_USER), us_blocked = False,
                    us_email_verified = verified,
                    us_default_node = None, us_joined = now\<rparr>;
               hashed = x\<lparr>us_password := (case password of Some p \<Rightarrow> hash p | None \<Rightarrow> hash generated)\<rparr>;
               db1 = (save_user u x db)\<lparr>ad_next_user := Suc u\<rparr>
           in case silent of
                None \<Rightarrow> (db1, Inl PyKeyError)
              | Some quiet \<Rightarrow>
                  and_then (if quiet then (db1, Inr 0) else reply db1 (verify_email now key u db1)) (\<lambda>db2 _.
                  (if sso_ok then save_user u hashed db2 else db2, Inr (u, hashed)))))"

section \<open>Who sends the request\<close>

definition is_authenticated :: "(nat \<Rightarrow> string) \<Rightarrow> string \<Rightarrow> nat option \<Rightarrow> accounts_db \<Rightarrow> nat result" where
  "is_authenticated enc header who db =
     (if header = [] then Inl (BadRequest ''Can not find User-Id in the request header.'')
      else case who of
        None \<Rightarrow> Inl (UnauthorizedAccess ''Invalid User-Id or login, please re-login.'')
      | Some u \<Rightarrow>
          if enc u \<noteq> header then Inl (UnauthorizedAccess ''Invalid User-Id or login, please re-login.'')
          else rbind (get_user u db) (\<lambda>x.
            if us_blocked x then Inl (AccessForbidden ''user account is blocked, contact admin.'') else Inr u))"

definition is_authenticated_with_verified_email ::
    "(nat \<Rightarrow> string) \<Rightarrow> string \<Rightarrow> string \<Rightarrow> nat option \<Rightarrow> accounts_db \<Rightarrow> nat result"
where
  "is_authenticated_with_verified_email enc session_type header who db =
     (if header = [] then Inl (BadRequest ''Can not find User-Id in the request header.'')
      else case who of
        None \<Rightarrow> Inl (UnauthorizedAccess ''Invalid User-Id or login, please re-login.'')
      | Some u \<Rightarrow>
          if enc u \<noteq> header then Inl (UnauthorizedAccess ''Invalid User-Id or login, please re-login.'')
          else rbind (get_user u db) (\<lambda>x.
            if us_blocked x then Inl (AccessForbidden ''User account is blocked, contact admin.'')
            else if \<not> nodes_exist u db \<and> session_type = ''NODE_USER''
            then Inl (UnauthorizedAccess ''User does not have access to any nodes'') else Inr u))"

definition has_user_access :: "nat option \<Rightarrow> nat \<Rightarrow> nat result" where
  "has_user_access pk u =
     (case pk of None \<Rightarrow> Inr u | Some q \<Rightarrow> if q = u then Inr u else Inl (AccessForbidden ''Access denied.''))"

definition totp_permission ::
    "(string \<Rightarrow> string \<Rightarrow> bool) \<Rightarrow> bool \<Rightarrow> string option \<Rightarrow> string option \<Rightarrow> unit result"
where
  "totp_permission totp_verify local otp_secret otp =
     (if local then Inr ()
      else case otp_secret of
        None \<Rightarrow> Inl (UnauthorizedAccess ''Failed OTP.'')
      | Some secret \<Rightarrow>
          (case otp of
             None \<Rightarrow> Inl (BadRequest ''Can not find OTP in the request header.'')
           | Some given \<Rightarrow> if totp_verify secret given then Inr () else Inl (UnauthorizedAccess ''Invalid OTP.'')))"

end
