(* ===== verification/Node_Access.thy ===== *)
theory Node_Access
  imports Logins
begin

text \<open>
  Who may act for a company: the permissions of \<open>v2/supply_chains/permissions.py\<close>, the
  members of a node (\<open>NodeMember\<close> in \<open>models/profile.py\<close>) and the requests that add,
  change and remove them (\<open>serializers/node.py\<close>, \<open>views/node.py\<close>, and the company pages of
  the administrators in \<open>serializers/admin_dashboard.py\<close>).

  Activities, notifications and the calls to the single sign-on service, Navigate and
  Connect that follow a new member are not modelled; \<open>sso_ok\<close> is what the service answers.
\<close>

definition NODE_MEMBER_TYPE_ADMIN :: int where
  "NODE_MEMBER_TYPE_ADMIN = 1"

definition NODE_MEMBER_TYPE_MEMBER :: int where
  "NODE_MEMBER_TYPE_MEMBER = 2"

definition NODE_MEMBER_TYPE_VIEWER :: int where
  "NODE_MEMBER_TYPE_VIEWER = 3"

text \<open>The session carries the \<open>type\<close> and the \<open>nodes\<close> of the access token.\<close>

record login_session =
  se_type :: string
  se_nodes :: "nat list"

definition admin_session :: "login_session \<Rightarrow> bool" where
  "admin_session s \<longleftrightarrow> se_type s \<in> {''ADMIN'', ''MANAGER''}"

definition node_members :: "nat \<Rightarrow> nat \<Rightarrow> accounts_db \<Rightarrow> nat list" where
  "node_members n u db = members_where (\<lambda>m. nm_node m = n \<and> nm_user m = u) db"

definition make_member_active :: "nat \<Rightarrow> nat \<Rightarrow> accounts_db \<Rightarrow> accounts_db result" where
  "make_member_active n u db =
     (case node_members n u db of
        [m] \<Rightarrow> rbind (of_option DoesNotExist (ad_members db m)) (\<lambda>x. Inr (save_member m (x\<lparr>nm_active := True\<rparr>) db))
      | [] \<Rightarrow> Inl DoesNotExist
      | _ \<Rightarrow> Inl MultipleObjectsReturned)"

section \<open>Permissions\<close>

definition has_node_access ::
    "login_session \<Rightarrow> string option \<Rightarrow> nat \<Rightarrow> nat option \<Rightarrow> accounts_db \<Rightarrow> (accounts_db \<times> nat option) result"
where
  "has_node_access s impersonate u node db =
     (let admin = admin_session s in
      case node of
        None \<Rightarrow> if \<not> admin then Inl (BadRequest ''Node ID is required'') else Inr (db, None)
      | Some n \<Rightarrow>
          if n \<notin> set (ad_nodes db) then Inl DoesNotExist
          else if admin \<and> impersonate = Some ''true'' then Inr (db, Some n)
          else if admin then Inl (AccessForbidden ''Admin has no direct access to the node.'')
          else if node_members n u db = [] then Inl (AccessForbidden ''User does not have access to the node.'')
          else rbind (make_member_active n u db) (\<lambda>db'. Inr (db', Some n)))"

definition has_node_write_access ::
    "login_session \<Rightarrow> string option \<Rightarrow> nat \<Rightarrow> nat option \<Rightarrow> accounts_db \<Rightarrow> (accounts_db \<times> nat option) result"
where
  "has_node_write_access s impersonate u node db =
     (let admin = admin_session s in
      case node of
        None \<Rightarrow> Inl (BadRequest ''Node ID is required'')
      | Some n \<Rightarrow>
          if n \<notin> set (ad_nodes db) then Inl DoesNotExist
          else if admin \<and> impersonate = Some ''true'' then Inr (db, Some n)
          else if members_where (\<lambda>m. nm_node m = n \<and> nm_user m = u \<and>
                    nm_type m \<in> {NODE_MEMBER_TYPE_ADMIN, NODE_MEMBER_TYPE_MEMBER}) db = []
          then Inl (AccessForbidden ''User does not have access to the node.'')
          else if admin then Inl (AccessForbidden ''Admin has no direct access to the node.'')
          else rbind (make_member_active n u db) (\<lambda>db'. Inr (db', Some n)))"

definition has_node_admin_access ::
    "login_session \<Rightarrow> string option \<Rightarrow> nat \<Rightarrow> nat option \<Rightarrow> accounts_db \<Rightarrow> (accounts_db \<times> nat option) result"
where
  "has_node_admin_access s impersonate u node db =
     (let admin = admin_session s in
      case node of
        None \<Rightarrow> Inl (BadRequest ''Node ID is missing in Header'')
      | Some n \<Rightarrow>
          if n \<notin> set (ad_nodes db) then Inl DoesNotExist
          else if admin \<and> impersonate = Some ''true'' then Inr (db, Some n)
          else if length (members_where (\<lambda>m. nm_node m = n \<and> nm_user m = u \<and> nm_type m = NODE_MEMBER_TYPE_ADMIN) db) \<noteq> 1
          then Inl (AccessForbidden ''You need to be Admin of the Node to perform this action.'')
          else if admin then Inl (AccessForbidden ''Admin has no direct access to the node.'')
          else if n \<notin> set (se_nodes s) then Inl (AccessForbidden ''User does not have access to the node.'')
          else rbind (make_member_active n u db) (\<lambda>db'. Inr (db', Some n)))"

text \<open>\<open>managers\<close> are the managers of a node in its supply chains.\<close>

definition has_indirect_node_access ::
    "(nat \<Rightarrow> nat list) \<Rightarrow> nat option \<Rightarrow> nat option \<Rightarrow> accounts_db \<Rightarrow> unit result"
where
  "has_indirect_node_access managers base pk db =
     (case pk of
        None \<Rightarrow> Inl (BadRequest ''Node ID is required in the URL.'')
      | Some n \<Rightarrow>
          if n \<notin> set (ad_nodes db) then Inl DoesNotExist
          else if base \<notin> Some ` set (managers n) \<and> base \<noteq> Some n
          then Inl (AccessForbidden ''Access denied to the Node'') else Inr ())"

definition is_fairfood_admin :: "login_session \<Rightarrow> nat option \<Rightarrow> unit result" where
  "is_fairfood_admin s user =
     (if user = None \<or> \<not> admin_session s
      then Inl (AccessForbidden ''You need to be Admin of the fairfood to perform this action.'') else Inr ())"

definition has_node_access_or_is_fairfood_admin ::
    "login_session \<Rightarrow> string option \<Rightarrow> nat \<Rightarrow> nat option \<Rightarrow> accounts_db \<Rightarrow> (accounts_db \<times> nat option) result"
where
  "has_node_access_or_is_fairfood_admin s impersonate u node db =
     (case has_node_access s impersonate u node db of
        Inr r \<Rightarrow> Inr r
      | Inl e \<Rightarrow> rbind (is_fairfood_admin s (Some u)) (\<lambda>_. Inr (db, None)))"

section \<open>Members of a node\<close>

text \<open>\<open>send_invite\<close>: the token column of a member is one to one.\<close>

definition send_invite :: "int \<Rightarrow> string \<Rightarrow> nat \<Rightarrow> accounts_db \<Rightarrow> unit reply" where
  "send_invite now key m db =
     and_then (db, of_option DoesNotExist (ad_members db m)) (\<lambda>_ x.
     and_then (db, get_user (nm_user x) db) (\<lambda>_ y.
       if us_password y \<noteq> [] then (db, Inr ())
       else case nm_vtoken x of
         Some i \<Rightarrow>
           and_then (db, of_option DoesNotExist (ad_tokens db i)) (\<lambda>_ t.
             (save_vtoken i (vt_refresh now key t) db, Inr ()))
       | None \<Rightarrow>
           and_then (reply db (vt_initialize now key (nm_user x) VTOKEN_TYPE_INVITE (nm_creator x) db)) (\<lambda>db1 i.
             if members_where (\<lambda>z. nm_vtoken z = Some i) db1 \<noteq> [] then (db1, Inl IntegrityError)
             else (save_member m (x\<lparr>nm_vtoken := Some i\<rparr>) db1, Inr ()))))"

definition set_member_type :: "int \<Rightarrow> nat \<Rightarrow> accounts_db \<Rightarrow> accounts_db result" where
  "set_member_type ty m db =
     rbind (of_option DoesNotExist (ad_members db m)) (\<lambda>x. Inr (save_member m (x\<lparr>nm_type := ty\<rparr>) db))"

definition make_admin :: "nat \<Rightarrow> accounts_db \<Rightarrow> accounts_db result" where
  "make_admin = set_member_type NODE_MEMBER_TYPE_ADMIN"

definition make_member :: "nat \<Rightarrow> accounts_db \<Rightarrow> accounts_db result" where
  "make_member = set_member_type NODE_MEMBER_TYPE_MEMBER"

definition make_viewer :: "nat \<Rightarrow> accounts_db \<Rightarrow> accounts_db result" where
  "make_viewer = set_member_type NODE_MEMBER_TYPE_VIEWER"

definition delete_member :: "nat \<Rightarrow> accounts_db \<Rightarrow> accounts_db result" where
  "delete_member m db =
     rbind (of_option DoesNotExist (ad_members db m)) (\<lambda>x.
     rbind (get_user (nm_user x) db) (\<lambda>y.
     let db1 = (if us_default_node y = Some (nm_node x)
                then save_user (nm_user x) (y\<lparr>us_default_node := None\<rparr>) db else db)
     in Inr (db1\<lparr>ad_members := (ad_members db1)(m := None)\<rparr>)))"

text \<open>
  \<open>NodeMemberSerializer.create\<close>. The request names the user, or gives an address: of one
  user, or of a user to create. \<open>keys\<close> are the keys of the two tokens it may make.
\<close>

record member_form =
  mf_user :: "nat option"
  mf_email :: string
  mf_email_verified :: bool
  mf_password :: "string option"
  mf_type :: "int option"

record accounts_services =
  av_email_ok :: "string \<Rightarrow> bool"
  av_password_ok :: "string \<Rightarrow> bool"
  av_hash :: "string \<Rightarrow> string"
  av_authenticate :: "string \<Rightarrow> string \<Rightarrow> accounts_db \<Rightarrow> nat option"

definition create_member ::
    "accounts_services \<Rightarrow> bool \<Rightarrow> bool \<Rightarrow> int \<Rightarrow> string \<times> string \<Rightarrow> string \<Rightarrow> nat \<Rightarrow> nat \<Rightarrow> member_form \<Rightarrow>
     accounts_db \<Rightarrow> nat reply"
where
  "create_member env silent sso_ok now keys generated current n f db =
     and_then
       (case mf_user f of
          Some u \<Rightarrow> (db, rbind (get_user u db) (\<lambda>x. Inr (u, x)))
        | None \<Rightarrow>
            (case users_where (\<lambda>y. us_email y = mf_email f) db of
               [u] \<Rightarrow> (db, rbind (get_user u db) (\<lambda>x. Inr (u, x)))
             | _ \<Rightarrow> user_create (av_email_ok env) (av_hash env) (Some silent) sso_ok now (fst keys) generated None
                      (mf_email_verified f) (mf_email f) (mf_password f) db))
       (\<lambda>db1 (u, x).
         and_then
           (case node_members n u db1 of
              m # _ \<Rightarrow> (db1, Inr m)
            | [] \<Rightarrow>
                (let m = ad_next_member db1;
                     fresh = \<lparr>nm_node = n, nm_user = u, nm_type = NODE_MEMBER_TYPE_MEMBER, nm_active = False,
                              nm_vtoken = None, nm_creator = None\<rparr>;
                     db2 = (save_member m fresh db1)\<lparr>ad_next_member := Suc m\<rparr>
                 in case mf_type f of
                      None \<Rightarrow> (db2, Inl IntegrityError)
                    | Some ty \<Rightarrow>
                        (let db3 = save_member m (fresh\<lparr>nm_type := ty, nm_creator := Some current, nm_active := True\<rparr>) db2
                         in and_then (if silent then (db3, Inr ()) else send_invite now (snd keys) m db3)
                              (\<lambda>db4 _. (db4, Inr m)))))
           (\<lambda>db5 m. (save_user u x db5, Inr m)))"

text \<open>
  The company pages of the administrators: \<open>FFAdminNodeMemberSerializer.create\<close> leaves the
  type of the member in the data the user is made from, and makes the user's serializer
  without a view.
\<close>

definition ff_create_member ::
    "accounts_services \<Rightarrow> int \<Rightarrow> string \<times> string \<Rightarrow> string \<Rightarrow> nat \<Rightarrow> nat \<Rightarrow> member_form \<Rightarrow> accounts_db \<Rightarrow> nat reply"
where
  "ff_create_member env now keys generated current n f db =
     (if n \<notin> set (ad_nodes db) then (db, Inl DoesNotExist)
      else and_then
       (case mf_user f of
          Some u \<Rightarrow> (db, rbind (get_user u db) (\<lambda>x. Inr (u, x)))
        | None \<Rightarrow>
            (case users_where (\<lambda>y. us_email y = mf_email f) db of
               [u] \<Rightarrow> (db, rbind (get_user u db) (\<lambda>x. Inr (u, x)))
             | _ \<Rightarrow> user_create (av_email_ok env) (av_hash env) None False now (fst keys) generated (mf_type f)
                      (mf_email_verified f) (mf_email f) (mf_password f) db))
       (\<lambda>db1 (u, x).
         case node_members n u db1 of
           m # _ \<Rightarrow> (db1, Inr m)
         | [] \<Rightarrow>
             (let m = ad_next_member db1;
                  fresh = \<lparr>nm_node = n, nm_user = u, nm_type = NODE_MEMBER_TYPE_MEMBER, nm_active = False,
                           nm_vtoken = None, nm_creator = None\<rparr>;
                  db2 = (save_member m fresh db1)\<lparr>ad_next_member := Suc m\<rparr>
              in case mf_type f of
                   None \<Rightarrow> (db2, Inl PyKeyError)
                 | Some ty \<Rightarrow>
                     (let db3 = save_member m (fresh\<lparr>nm_type := ty, nm_creator := Some current\<rparr>) db2
                      in and_then (send_invite now (snd keys) m db3) (\<lambda>db4 _. (db4, Inr m))))))"

text \<open>The \<open>update\<close> of both serializers; names are not modelled.\<close>

definition change_member ::
    "int \<Rightarrow> string \<Rightarrow> nat \<Rightarrow> string option \<Rightarrow> int option \<Rightarrow> accounts_db \<Rightarrow> unit reply"
where
  "change_member now key m email ty db =
     and_then (db, of_option DoesNotExist (ad_members db m)) (\<lambda>_ x.
     and_then
       (case email of
          None \<Rightarrow> (db, Inr ())
        | Some e \<Rightarrow>
            if users_where (\<lambda>y. us_email y = e) db \<noteq> [] then (db, Inl (ValidationError ''Email already taken''))
            else and_then (update_email now (nm_user x) e db) (\<lambda>db1 _. send_invite now key m db1))
       (\<lambda>db2 _.
         case ty of None \<Rightarrow> (db2, Inr ())
         | Some n \<Rightarrow> and_then (reply db2 (rbind (set_member_type n m db2) (\<lambda>d. Inr (d, ())))) (\<lambda>d _. (d, Inr ()))))"

text \<open>
  \<open>UserSerializer.update\<close>: an address to confirm, a new password with the current one, and
  the default node; other details of the user are not modelled.
\<close>

definition activate_members :: "nat list \<Rightarrow> accounts_db \<Rightarrow> accounts_db" where
  "activate_members ms db =
     fold (\<lambda>m d. case ad_members d m of None \<Rightarrow> d | Some x \<Rightarrow> save_member m (x\<lparr>nm_active := True\<rparr>) d) ms db"

definition update_password ::
    "accounts_services \<Rightarrow> nat \<Rightarrow> string option \<Rightarrow> string \<Rightarrow> accounts_db \<Rightarrow> unit reply"
where
  "update_password env u current password db =
     (case current of
        None \<Rightarrow> (db, Inl (BadRequest ''Old password is required to update password''))
      | Some cur \<Rightarrow>
          and_then (db, get_user u db) (\<lambda>_ x.
            if av_authenticate env (us_email x) cur db = None
            then (db, Inl (AccessForbidden ''Old password supplied is wrong''))
            else if \<not> av_password_ok env password then (db, Inl (BadRequest ''invalid password''))
            else (save_user u (x\<lparr>us_password := av_hash env password\<rparr>) db, Inr ())))"

definition user_update ::
    "accounts_services \<Rightarrow> int \<Rightarrow> string \<Rightarrow> nat \<Rightarrow> string option \<Rightarrow> string option \<Rightarrow> string option \<Rightarrow> nat option \<Rightarrow>
     accounts_db \<Rightarrow> unit reply"
where
  "user_update env now key u email current password default_node db =
     and_then (case email of None \<Rightarrow> (db, Inr ()) | Some e \<Rightarrow> request_email_update (av_email_ok env) now key u e db) (\<lambda>db1 _.
     and_then (case password of None \<Rightarrow> (db1, Inr ()) | Some p \<Rightarrow> update_password env u current p db1) (\<lambda>db2 _.
       case default_node of None \<Rightarrow> (db2, Inr ())
       | Some n \<Rightarrow>
           if node_members n u db2 = []
           then (db2, Inl (AccessForbidden ''Invalid default_node. User does not have access to the node.''))
           else and_then (db2, get_user u db2) (\<lambda>_ x.
             let db3 = save_user u (x\<lparr>us_default_node := Some n\<rparr>) db2
             in (activate_members (node_members n u db3) db3, Inr ()))))"

section \<open>The requests\<close>

text \<open>\<open>CreateListNodeMember.post\<close>: any access to the node is enough.\<close>

definition node_member_post ::
    "accounts_services \<Rightarrow> login_session \<Rightarrow> string option \<Rightarrow> bool \<Rightarrow> int \<Rightarrow> string \<times> string \<Rightarrow> string \<Rightarrow> nat \<Rightarrow>
     nat option \<Rightarrow> member_form \<Rightarrow> accounts_db \<Rightarrow> nat reply"
where
  "node_member_post env s impersonate sso_ok now keys generated u node f db =
     and_then (reply db (has_node_access s impersonate u node db)) (\<lambda>db1 base.
       case base of
         None \<Rightarrow> (db1, Inl PyAttributeError)
       | Some n \<Rightarrow>
           if mf_type f = None then (db1, Inl (ValidationError ''type''))
           else create_member env False sso_ok now keys generated u n f db1)"

definition member_of_view :: "nat \<Rightarrow> nat \<Rightarrow> nat \<Rightarrow> accounts_db \<Rightarrow> node_member result" where
  "member_of_view n u m db =
     (case ad_members db m of
        None \<Rightarrow> Inl DoesNotExist
      | Some x \<Rightarrow> if nm_node x = n \<and> nm_user x \<noteq> u then Inr x else Inl DoesNotExist)"

definition node_member_patch ::
    "login_session \<Rightarrow> string option \<Rightarrow> nat \<Rightarrow> nat option \<Rightarrow> nat \<Rightarrow> int option \<Rightarrow> accounts_db \<Rightarrow> unit reply"
where
  "node_member_patch s impersonate u node m ty db =
     and_then (reply db (has_node_admin_access s impersonate u node db)) (\<lambda>db1 base.
       case base of
         None \<Rightarrow> (db1, Inl DoesNotExist)
       | Some n \<Rightarrow>
           and_then (db1, member_of_view n u m db1) (\<lambda>_ x.
           case ty of
             None \<Rightarrow> (db1, Inl (ValidationError ''Type is required''))
           | Some ty' \<Rightarrow>
               if ty' = NODE_MEMBER_TYPE_ADMIN
               then reply db1 (rbind (make_admin m db1) (\<lambda>d. Inr (d, ())))
               else if ty' = NODE_MEMBER_TYPE_MEMBER
               then reply db1 (rbind (make_member m db1) (\<lambda>d. Inr (d, ())))
               else if ty' = NODE_MEMBER_TYPE_VIEWER
               then reply db1 (rbind (make_viewer m db1) (\<lambda>d. Inr (d, ())))
               else (db1, Inl (ValidationError ''invalid choice''))))"

definition node_member_delete ::
    "login_session \<Rightarrow> string option \<Rightarrow> bool \<Rightarrow> nat \<Rightarrow> nat option \<Rightarrow> nat \<Rightarrow> accounts_db \<Rightarrow> unit reply"
where
  "node_member_delete s impersonate sso_ok u node m db =
     and_then (reply db (has_node_admin_access s impersonate u node db)) (\<lambda>db1 base.
       case base of
         None \<Rightarrow> (db1, Inl DoesNotExist)
       | Some n \<Rightarrow>
           and_then (db1, member_of_view n u m db1) (\<lambda>_ x.
             if members_where (\<lambda>z. nm_user z = nm_user x \<and> nm_node z \<noteq> nm_node x) db1 = [] \<and> \<not> sso_ok
             then (db1, Inl (BadRequest ''User deactivation failed''))
             else reply db1 (rbind (delete_member m db1) (\<lambda>d. Inr (d, ())))))"

definition resend_invite ::
    "int \<Rightarrow> string \<Rightarrow> login_session \<Rightarrow> string option \<Rightarrow> nat \<Rightarrow> nat option \<Rightarrow> nat \<Rightarrow> accounts_db \<Rightarrow> unit reply"
where
  "resend_invite now key s impersonate u node m db =
     and_then (reply db (has_node_access s impersonate u node db)) (\<lambda>db1 base.
       case ad_members db1 m of
         None \<Rightarrow> (db1, Inl (BadRequest ''Invalid node member id''))
       | Some x \<Rightarrow>
           if Some (nm_node x) \<noteq> base then (db1, Inl (BadRequest ''Invalid node member id''))
           else send_invite now key m db1)"

end
