(* ===== verification/Account_Moves.thy ===== *)
theory Account_Moves
  imports Node_Access
begin

text \<open>
  What the requests about users, tokens and members may do to the database, as a locale
  over a relation between the database before and after: every request of the earlier
  theories is a composition of the moves the locale names. Its interpretations say what
  becomes of the validation tokens and of the members.
\<close>

section \<open>Moves\<close>

text \<open>A token keeps its key and is not unused again, or its key is one that was drawn.\<close>

definition token_moves :: "string set \<Rightarrow> vtoken \<Rightarrow> vtoken \<Rightarrow> bool" where
  "token_moves K t t' \<longleftrightarrow>
     vt_key t' \<in> K \<or>
     vt_key t' = vt_key t \<and> (vt_status t = VTOKEN_STATUS_USED \<longrightarrow> vt_status t' = VTOKEN_STATUS_USED)"

lemma token_moves_refl [simp]: "token_moves K t t"
  by (simp add: token_moves_def)

lemma token_moves_trans: "token_moves K t t' \<Longrightarrow> token_moves K t' t'' \<Longrightarrow> token_moves K t t''"
  by (auto simp: token_moves_def)

lemma token_moves_used [simp]:
  "token_moves K t (vt_mark_as_used t)" "token_moves K t (vt_invalidate now t)"
  by (simp_all add: token_moves_def vt_mark_as_used_def vt_invalidate_def)

lemma token_moves_refresh [simp]: "key \<in> K \<Longrightarrow> token_moves K t (vt_refresh now key t)"
  by (auto simp: token_moves_def vt_refresh_def vt_is_valid_def Let_def)

lemmas token_requests =
  generate_magic_link_def reset_password_def verify_email_def

locale account_moves =
  fixes R :: "accounts_db \<Rightarrow> accounts_db \<Rightarrow> bool" and K :: "string set"
  assumes move_refl: "R db db"
    and move_trans: "R a b \<Longrightarrow> R b c \<Longrightarrow> R a c"
    and move_user: "R db (save_user u w db)"
    and move_new_user: "R db ((save_user u w db)\<lparr>ad_next_user := n\<rparr>)"
    and move_access: "R db (db\<lparr>ad_access := acc\<rparr>)"
    and move_next_access: "R db (db\<lparr>ad_next_access := n\<rparr>)"
    and move_token: "ad_tokens db i = Some t \<Longrightarrow> token_moves K t t' \<Longrightarrow> R db (save_vtoken i t' db)"
    and move_new_token: "vt_key t \<in> K \<Longrightarrow>
      R db ((save_vtoken (ad_next_token db) t db)\<lparr>ad_next_token := Suc (ad_next_token db)\<rparr>)"
    and move_all_tokens: "(\<And>t. token_moves K t (g t)) \<Longrightarrow>
      R db (db\<lparr>ad_tokens := (\<lambda>i. map_option g (ad_tokens db i))\<rparr>)"
    and move_member: "ad_members db m = Some x \<Longrightarrow> nm_node y = nm_node x \<Longrightarrow> nm_user y = nm_user x \<Longrightarrow>
      nm_type y = nm_type x \<Longrightarrow> R db (save_member m y db)"
    and move_new_member: "R db ((save_member (ad_next_member db) y db)\<lparr>ad_next_member := Suc (ad_next_member db)\<rparr>)"

text \<open>Changing the type of a member, or removing one, is a move of its own.\<close>

locale account_all_moves = account_moves +
  assumes move_any_member: "R db (save_member m y db)"
    and move_members: "R db (db\<lparr>ad_members := ms\<rparr>)"

lemma vt_initialize_members: "vt_initialize now key u ty by db = Inr (db', i) \<Longrightarrow> ad_members db' = ad_members db"
  by (auto simp: vt_initialize_def Let_def save_vtoken_def split: list.split_asm option.split_asm)

lemma invitee_update_cases:
  assumes "invitee_update hash now gen uu k salt pk db = Inr (d, u)"
  obtains i t x where "invitee_set_user now k pk db = Inr (i, u)" "ad_tokens db i = Some t"
    and "d = save_user u x (save_vtoken i (vt_invalidate now t) db) \<or>
         (\<exists>m y. ad_members db m = Some y \<and>
           d = save_member m (y\<lparr>nm_active := True\<rparr>) (save_user u x (save_vtoken i (vt_invalidate now t) db)))"
proof (cases "invitee_set_user now k pk db")
  case (Inr iu)
  obtain i u' where iu: "iu = (i, u')" by (cases iu)
  from assms obtain t where t: "ad_tokens db i = Some t"
    by (auto simp: invitee_update_def Inr iu rbind_eq_Inr split: if_split_asm)
  from assms obtain x where
    "(case members_where (\<lambda>m. Some (nm_node m) = us_default_node x \<and> nm_user m = u')
         (save_user u' (x\<lparr>us_email_verified := True, us_password := hash gen\<rparr>) (save_vtoken i (vt_invalidate now t) db)) of
        [] \<Rightarrow> Inr (save_user u' (x\<lparr>us_email_verified := True, us_password := hash gen\<rparr>)
                  (save_vtoken i (vt_invalidate now t) db), u')
      | m # _ \<Rightarrow> rbind (of_option DoesNotExist (ad_members
            (save_user u' (x\<lparr>us_email_verified := True, us_password := hash gen\<rparr>) (save_vtoken i (vt_invalidate now t) db)) m))
          (\<lambda>mem. Inr (save_member m (mem\<lparr>nm_active := True\<rparr>)
            (save_user u' (x\<lparr>us_email_verified := True, us_password := hash gen\<rparr>) (save_vtoken i (vt_invalidate now t) db)), u')))
      = Inr (d, u)"
    unfolding invitee_update_def Let_def by (auto simp: Inr iu t rbind_eq_Inr split: if_split_asm)
  then have "u' = u" and "d = save_user u (x\<lparr>us_email_verified := True, us_password := hash gen\<rparr>)
        (save_vtoken i (vt_invalidate now t) db) \<or>
      (\<exists>m y. ad_members db m = Some y \<and>
        d = save_member m (y\<lparr>nm_active := True\<rparr>) (save_user u (x\<lparr>us_email_verified := True, us_password := hash gen\<rparr>)
          (save_vtoken i (vt_invalidate now t) db)))"
    by (auto simp: rbind_eq_Inr save_user_def save_vtoken_def split: list.split_asm)
  then show thesis using that Inr iu t by blast
qed (use assms in \<open>simp add: invitee_update_def split: if_split_asm\<close>)

lemma new_member_twice:
  "save_member m y (save_member m y' db\<lparr>ad_next_member := n\<rparr>) = (save_member m y db)\<lparr>ad_next_member := n\<rparr>"
  by (simp add: save_member_def)

context account_moves
begin

declare move_refl [simp] move_user [simp] move_new_user [simp]

lemma member_activated: "ad_members db m = Some x \<Longrightarrow> R db (save_member m (x\<lparr>nm_active := b\<rparr>) db)"
  by (rule move_member) simp_all

lemma member_invited:
  assumes "ad_members db m = Some x" and "reply db (vt_initialize now key u ty cr db) = (d, Inr i)"
  shows "R d (save_member m (x\<lparr>nm_vtoken := v\<rparr>) d)"
  using assms vt_initialize_members
  by (intro move_member [of _ _ x]) (auto simp: reply_def split: sum.split_asm)

lemma follows_and_then:
  assumes "R db (fst r)" and "\<And>db1 x. r = (db1, Inr x) \<Longrightarrow> R db1 (fst (f db1 x))"
  shows "R db (fst (and_then r f))"
  using assms by (cases r) (auto simp: and_then_def split: sum.split intro: move_trans)

lemma follows_reply:
  assumes "\<And>d x. r = Inr (d, x) \<Longrightarrow> R db d"
  shows "R db (fst (reply db r))"
  using assms by (auto simp: reply_def split: sum.split)

lemma vt_initialize_follows:
  assumes "vt_initialize now key u ty by db = Inr (db', i)" and "key \<in> K"
  shows "R db db'"
  using assms unfolding vt_initialize_def Let_def
  by (auto split: list.split_asm option.split_asm intro!: move_new_token intro: move_token [OF _ token_moves_refresh])

lemma magic_answer_follows: "key \<in> K \<Longrightarrow> R db (fst (magic_answer now key u db))"
  unfolding magic_answer_def token_requests
  by (intro follows_and_then follows_reply) (auto intro: vt_initialize_follows)

lemma magic_answer_after:
  "R db d \<Longrightarrow> key \<in> K \<Longrightarrow> R db (fst (magic_answer now key u d))"
  by (rule move_trans [OF _ magic_answer_follows])

lemma follows_reply_after:
  "R db d \<Longrightarrow> (\<And>d' x. r = Inr (d', x) \<Longrightarrow> R d d') \<Longrightarrow> R db (fst (reply d r))"
  by (rule move_trans [OF _ follows_reply])

lemma follows_save_after: "R db d \<Longrightarrow> R db (save_user u x d)"
  by (rule move_trans [OF _ move_user])

lemma follows_refreshed:
  "ad_tokens db i = Some t \<Longrightarrow> key \<in> K \<Longrightarrow> R db (save_vtoken i (vt_refresh now key t) db)"
  by (rule move_token, assumption) simp

lemma sent_otp_follows: "sent_otp now key u db = Inr (db', i) \<Longrightarrow> key \<in> K \<Longrightarrow> R db db'"
  unfolding sent_otp_def by (auto split: list.split_asm intro: vt_initialize_follows)

lemma save_access_follows: "save_access i a db = Inr d \<Longrightarrow> R db d"
  by (auto simp: save_access_def move_access split: if_split_asm)

lemma issue_access_token_follows:
  assumes "issue_access_token draws dev u db = Inr (db', k)"
  shows "R db db'"
proof -
  define old where "old = [i\<leftarrow>tokens_of_user u db. map_option at_device (ad_access db i) = Some dev]"
  define db1 where "db1 = (if length old > 1
    then db\<lparr>ad_access := (\<lambda>i. if i \<in> set (tl old) then None else ad_access db i)\<rparr> else db)"
  have one: "R db db1" by (simp add: db1_def move_access move_refl)
  have "db' = db1 \<or> (\<exists>i a. save_access i a (db1\<lparr>ad_next_access := Suc (ad_next_access db1)\<rparr>) = Inr db')"
    using assms unfolding issue_access_token_def Let_def old_def [symmetric] db1_def [symmetric]
    by (auto simp: rbind_eq_Inr split: list.split_asm)
  then have "R db1 db'"
    using move_refl move_trans [OF move_next_access save_access_follows] by blast
  then show ?thesis by (rule move_trans [OF one])
qed

lemma logout_follows: "R db (logout draws u db)"
  unfolding logout_def at_refresh_def
  by (auto simp: rbind_eq_Inr move_refl split: list.split sum.split elim!: save_access_follows)

lemma rename_user_follows: "rename_user u x db = Inr db' \<Longrightarrow> R db db'"
  by (auto simp: rename_user_def move_user split: if_split_asm)

lemma update_email_follows: "R db (fst (update_email now u email db))"
  unfolding update_email_def
  by (intro follows_and_then follows_reply)
    (auto simp: rbind_eq_Inr intro!: move_all_tokens intro: rename_user_follows)

lemma confirm_updated_email_follows: "confirm_updated_email u db = Inr (db', b) \<Longrightarrow> R db db'"
  unfolding confirm_updated_email_def
  by (auto simp: rbind_eq_Inr simp: move_refl split: if_split_asm intro: rename_user_follows)

lemma request_email_update_follows:
  "key \<in> K \<Longrightarrow> R db (fst (request_email_update email_ok now key u email db))"
  unfolding request_email_update_def Let_def
  by (intro follows_and_then)
    (auto split: username_state.split intro!: follows_and_then follows_reply
      intro: move_trans [OF move_user] vt_initialize_follows)

lemma follows_save_both:
  assumes "ad_tokens db i = Some t" and "token_moves K t t'"
  shows "R db (save_vtoken i t' (save_user u x db))"
proof (rule move_trans [OF move_user])
  show "R (save_user u x db) (save_vtoken i t' (save_user u x db))"
    using assms by (intro move_token) (simp_all add: save_user_def)
qed

lemmas follows_used = follows_save_both [OF _ token_moves_used(1)]

lemmas follows_after = magic_answer_after follows_reply_after follows_save_after

lemma manage_validate_follows: "R db (fst (manage_validate now k salt pk db))"
  unfolding manage_validate_def Let_def
  by (auto split: option.split vtoken_type.split intro!: follows_and_then follows_after follows_used
      intro: confirm_updated_email_follows simp: of_option_def)

lemma verify_code_follows: "R db (fst (verify_code now u otp db))"
  unfolding verify_code_def by (auto split: list.split option.split intro: move_token)

lemma email_login_follows: "key \<in> K \<Longrightarrow> R db (fst (email_login now key email db))"
  unfolding email_login_def
  by (auto intro!: follows_and_then follows_reply intro: sent_otp_follows)

lemma email_login_code_follows: "key \<in> K \<Longrightarrow> R db (fst (email_login_code now key email otp db))"
  unfolding email_login_code_def Let_def
  by (auto intro!: follows_and_then verify_code_follows magic_answer_after)

lemma magic_link_follows: "key \<in> K \<Longrightarrow> R db (fst (magic_link now key email db))"
  unfolding magic_link_def token_requests
  by (auto split: list.split intro!: follows_and_then follows_reply intro: vt_initialize_follows)

lemma reset_password_view_follows: "key \<in> K \<Longrightarrow> R db (fst (reset_password_view now key email db))"
  unfolding reset_password_view_def token_requests
  by (auto split: list.split intro!: follows_and_then follows_reply intro: vt_initialize_follows)

lemma verification_email_follows: "key \<in> K \<Longrightarrow> R db (fst (verification_email now key u db))"
  unfolding verification_email_def token_requests
  by (auto intro!: follows_and_then follows_reply intro: vt_initialize_follows)

lemma set_password_follows:
  "key \<in> K \<Longrightarrow> R db (fst (set_password hash ok now key k salt pk password db))"
  unfolding set_password_def Let_def
  by (auto intro!: follows_and_then magic_answer_after follows_used simp: of_option_def split: option.split_asm)

lemma consume_magic_token_follows: "R db (fst (consume_magic_token dev now k pk uid db))"
  unfolding consume_magic_token_def Let_def
  by (auto split: option.split simp: move_refl intro!: move_token move_trans [OF move_token move_user])

lemma magic_login_follows: "R db (fst (magic_login dev now draws k pk uid db))"
  using consume_magic_token_follows [of db dev now k pk uid]
  unfolding magic_login_def
  by (auto split: prod.split option.split intro!: follows_and_then follows_reply
      intro: move_trans issue_access_token_follows)

lemma login_follows: "key \<in> K \<Longrightarrow> R db (fst (login auth dev now key name password db))"
  unfolding login_def by (auto split: option.split intro!: follows_and_then magic_answer_follows)

lemma ff_admin_login_follows: "R db (fst (ff_admin_login auth dev draws name password db))"
  unfolding ff_admin_login_def
  by (auto split: option.split intro!: follows_and_then follows_reply intro: issue_access_token_follows)

lemma activate_members_follows: "R db (activate_members ms db)"
  unfolding activate_members_def
proof (induction ms arbitrary: db)
  case (Cons m ms)
  have "R db (case ad_members db m of None \<Rightarrow> db | Some x \<Rightarrow> save_member m (x\<lparr>nm_active := True\<rparr>) db)"
    by (auto split: option.split intro: member_activated)
  then show ?case using Cons.IH by (simp add: move_trans)
qed simp

lemma update_password_follows: "R db (fst (update_password env u cur p db))"
  unfolding update_password_def by (auto split: option.split intro!: follows_and_then)

lemma user_update_follows:
  "key \<in> K \<Longrightarrow> R db (fst (user_update env now key u email cur password node db))"
  unfolding user_update_def Let_def
  by (auto split: option.split intro!: follows_and_then request_email_update_follows update_password_follows
      move_trans [OF move_user activate_members_follows])

lemma user_create_follows:
  "key \<in> K \<Longrightarrow> R db (fst (user_create email_ok hash silent sso now key gen ty ver email password db))"
  unfolding user_create_def Let_def token_requests
  by (auto split: username_state.split option.split intro!: follows_and_then follows_after
      intro: vt_initialize_follows)

lemma make_member_active_follows: "make_member_active n u db = Inr d \<Longrightarrow> R db d"
  by (auto simp: make_member_active_def rbind_eq_Inr intro!: member_activated split: list.split_asm)

lemma access_follows:
  "has_node_access s imp u node db = Inr (d, r) \<Longrightarrow> R db d"
  "has_node_write_access s imp u node db = Inr (d, r) \<Longrightarrow> R db d"
  "has_node_admin_access s imp u node db = Inr (d, r) \<Longrightarrow> R db d"
  by (auto simp: has_node_access_def has_node_write_access_def has_node_admin_access_def Let_def rbind_eq_Inr make_member_active_follows
      split: option.split_asm if_split_asm)

lemma invitee_update_follows:
  assumes "invitee_update hash now gen uu k salt pk db = Inr (d, u)"
  shows "R db d"
  using assms
proof (rule invitee_update_cases)
  fix i t x
  assume "invitee_set_user now k pk db = Inr (i, u)" and t: "ad_tokens db i = Some t"
    and d: "d = save_user u x (save_vtoken i (vt_invalidate now t) db) \<or>
      (\<exists>m y. ad_members db m = Some y \<and>
        d = save_member m (y\<lparr>nm_active := True\<rparr>) (save_user u x (save_vtoken i (vt_invalidate now t) db)))"
  let ?d = "save_user u x (save_vtoken i (vt_invalidate now t) db)"
  have "R db ?d" by (rule follows_save_after, rule move_token [OF t]) simp
  moreover have "R ?d (save_member m (y\<lparr>nm_active := True\<rparr>) ?d)" if "ad_members db m = Some y" for m y
    using that by (intro move_member [of _ _ y]) (simp_all add: save_user_def save_vtoken_def)
  ultimately show ?thesis using d move_trans by blast
qed

lemma send_invite_follows: "key \<in> K \<Longrightarrow> R db (fst (send_invite now key m db))"
  unfolding send_invite_def
  by (auto split: option.split intro!: follows_and_then follows_reply follows_refreshed
      simp: of_option_def elim!: vt_initialize_follows member_invited)

lemma create_member_follows:
  assumes "fst keys \<in> K" "snd keys \<in> K"
  shows "R db (fst (create_member env silent sso now keys gen cur n f db))"
  using assms unfolding create_member_def Let_def new_member_twice
  by (auto split: option.split list.split intro!: follows_and_then user_create_follows send_invite_follows
      move_new_member move_trans [OF move_new_member send_invite_follows] simp: move_refl move_user)

lemma ff_create_member_follows:
  assumes "fst keys \<in> K" "snd keys \<in> K"
  shows "R db (fst (ff_create_member env now keys gen cur n f db))"
  using assms unfolding ff_create_member_def Let_def new_member_twice
  by (auto split: option.split list.split intro!: follows_and_then user_create_follows send_invite_follows
      move_new_member move_trans [OF move_new_member send_invite_follows] simp: move_refl)

lemma node_member_post_follows:
  assumes "fst keys \<in> K" "snd keys \<in> K"
  shows "R db (fst (node_member_post env s imp sso now keys gen u node f db))"
  using assms unfolding node_member_post_def
  by (auto split: option.split intro!: follows_and_then follows_reply create_member_follows elim!: access_follows)

lemma resend_invite_follows: "key \<in> K \<Longrightarrow> R db (fst (resend_invite now key s imp u node m db))"
  unfolding resend_invite_def
  by (auto split: option.split intro!: follows_and_then follows_reply send_invite_follows elim!: access_follows)

end

context account_all_moves
begin

lemma set_member_type_follows: "set_member_type ty m db = Inr d \<Longrightarrow> R db d"
  by (auto simp: set_member_type_def rbind_eq_Inr move_any_member)

lemma delete_member_follows: "delete_member m db = Inr d \<Longrightarrow> R db d"
  by (auto simp: delete_member_def rbind_eq_Inr Let_def move_members move_trans [OF move_user move_members]
      split: if_split_asm)

lemma change_member_follows: "key \<in> K \<Longrightarrow> R db (fst (change_member now key m email ty db))"
  unfolding change_member_def
  by (auto split: option.split intro!: follows_and_then update_email_follows send_invite_follows follows_reply
      simp: rbind_eq_Inr elim!: set_member_type_follows)

lemma node_member_patch_follows: "R db (fst (node_member_patch s imp u node m ty db))"
  unfolding node_member_patch_def make_admin_def make_member_def make_viewer_def
  by (intro follows_and_then follows_reply)
    (auto split: option.split intro!: follows_and_then follows_reply simp: rbind_eq_Inr access_follows
      elim: access_follows set_member_type_follows)

lemma node_member_delete_follows: "R db (fst (node_member_delete s imp sso u node m db))"
  unfolding node_member_delete_def
  by (auto split: option.split intro!: follows_and_then follows_reply simp: rbind_eq_Inr
      elim!: access_follows delete_member_follows)

end

section \<open>The validation tokens along a request\<close>

definition tokens_follow :: "string set \<Rightarrow> accounts_db \<Rightarrow> accounts_db \<Rightarrow> bool" where
  "tokens_follow K db db' \<longleftrightarrow>
     ad_next_token db \<le> ad_next_token db' \<and>
     (\<forall>i t'. ad_tokens db' i = Some t' \<longrightarrow>
        (ad_next_token db \<le> i \<and> i < ad_next_token db' \<and> vt_key t' \<in> K) \<or>
        (\<exists>t. ad_tokens db i = Some t \<and> token_moves K t t'))"

lemma tokens_follow_same:
  "ad_tokens db' = ad_tokens db \<Longrightarrow> ad_next_token db' = ad_next_token db \<Longrightarrow> tokens_follow K db db'"
  by (auto simp: tokens_follow_def)

lemma tokens_follow_refl [simp]: "tokens_follow K db db"
  by (rule tokens_follow_same) simp_all

lemma tokens_follow_cases:
  assumes "tokens_follow K db db'" and "ad_tokens db' i = Some t'"
  obtains (drawn) "ad_next_token db \<le> i" "i < ad_next_token db'" "vt_key t' \<in> K"
    | (moved) t where "ad_tokens db i = Some t" "token_moves K t t'"
  using assms unfolding tokens_follow_def by blast

lemma tokens_follow_next: "tokens_follow K db db' \<Longrightarrow> ad_next_token db \<le> ad_next_token db'"
  by (simp add: tokens_follow_def)

lemma tokens_follow_trans [trans]:
  assumes one: "tokens_follow K db db'" and two: "tokens_follow K db' db''"
  shows "tokens_follow K db db''"
  unfolding tokens_follow_def
proof (intro conjI allI impI)
  show "ad_next_token db \<le> ad_next_token db''"
    using tokens_follow_next [OF one] tokens_follow_next [OF two] by simp
next
  fix i t'' assume there: "ad_tokens db'' i = Some t''"
  show "(ad_next_token db \<le> i \<and> i < ad_next_token db'' \<and> vt_key t'' \<in> K) \<or>
        (\<exists>t. ad_tokens db i = Some t \<and> token_moves K t t'')"
    using two there
  proof (cases rule: tokens_follow_cases)
    case drawn
    then show ?thesis using tokens_follow_next [OF one] by simp
  next
    case (moved t')
    from one moved(1) show ?thesis
    proof (cases rule: tokens_follow_cases)
      case drawn
      then show ?thesis using moved(2) tokens_follow_next [OF two] by (auto simp: token_moves_def)
    next
      case (moved t)
      then show ?thesis using \<open>token_moves K t' t''\<close> token_moves_trans by blast
    qed
  qed
qed

interpretation tk: account_all_moves "tokens_follow K" K for K
proof (unfold_locales, goal_cases)
  case 2
  then show ?case by (rule tokens_follow_trans)
next
  case (7 db i t t')
  then show ?case by (auto simp: tokens_follow_def save_vtoken_def)
next
  case (8 t db)
  then show ?case by (auto simp: tokens_follow_def save_vtoken_def split: if_splits)
next
  case (9 g db)
  then show ?case by (auto simp: tokens_follow_def)
qed (simp_all add: tokens_follow_same save_user_def save_member_def)

end
