(* ===== verification/Account_Runs.thy ===== *)
theory Account_Runs
  imports Account_Moves
begin

text \<open>
  Runs of requests about users, their tokens and the members of a node, and what holds
  along them.
\<close>

section \<open>Requests\<close>

record account_input =
  ai_now :: int
  ai_keys :: "string \<times> string"
  ai_draws :: "string list"
  ai_generated :: string
  ai_device_ok :: bool
  ai_sso_ok :: bool

datatype account_request =
    Validate string string "nat option"
  | Email_login string
  | Email_login_code string string
  | Magic_link string
  | Reset_password string
  | Verification_email nat
  | Set_password string string "nat option" string
  | Magic_login string "nat option" nat
  | Login string string
  | Ff_admin_login string string
  | Logout nat
  | Invitee_update nat string string "nat option"
  | Sign_up "int option" bool string "string option"
  | Update_user nat "string option" "string option" "string option" "nat option"
  | Member_post login_session "string option" nat "nat option" member_form
  | Member_patch login_session "string option" nat "nat option" nat "int option"
  | Member_delete login_session "string option" nat "nat option" nat
  | Resend_invite login_session "string option" nat "nat option" nat
  | Ff_create_member login_session nat nat member_form
  | Ff_change_member login_session nat nat "string option" "int option"
  | Ff_delete_member login_session nat nat

definition accepts :: "'a reply \<Rightarrow> accounts_db \<times> bool" where
  "accepts r = (fst r, is_ok (snd r))"

definition account_step ::
    "accounts_services \<Rightarrow> account_input \<Rightarrow> account_request \<Rightarrow> accounts_db \<Rightarrow> accounts_db \<times> bool"
where
  "account_step env inp req db =
     (let now = ai_now inp; key = fst (ai_keys inp) in
      case req of
        Validate k salt pk \<Rightarrow>
          (case manage_validate now k salt pk db of
             (db1, r) \<Rightarrow> (db1, case r of Inl e \<Rightarrow> False | Inr v \<Rightarrow> va_valid v \<noteq> Some False))
      | Email_login email \<Rightarrow> accepts (email_login now key email db)
      | Email_login_code email otp \<Rightarrow> accepts (email_login_code now key email otp db)
      | Magic_link email \<Rightarrow> accepts (magic_link now key email db)
      | Reset_password email \<Rightarrow> accepts (reset_password_view now key email db)
      | Verification_email u \<Rightarrow> accepts (verification_email now key u db)
      | Set_password k salt pk password \<Rightarrow>
          accepts (set_password (av_hash env) (av_password_ok env) now key k salt pk password db)
      | Magic_login k pk uid \<Rightarrow> accepts (magic_login (ai_device_ok inp) now (ai_draws inp) k pk uid db)
      | Login name password \<Rightarrow> accepts (login (av_authenticate env) (ai_device_ok inp) now key name password db)
      | Ff_admin_login name password \<Rightarrow>
          accepts (ff_admin_login (av_authenticate env) (ai_device_ok inp) (ai_draws inp) name password db)
      | Logout u \<Rightarrow> (logout (ai_draws inp) u db, True)
      | Invitee_update url_user k salt pk \<Rightarrow>
          accepts (reply db (invitee_update (av_hash env) now (ai_generated inp) url_user k salt pk db))
      | Sign_up ty verified email password \<Rightarrow>
          accepts (user_create (av_email_ok env) (av_hash env) (Some False) (ai_sso_ok inp) now key
            (ai_generated inp) ty verified email password db)
      | Update_user u email current password node \<Rightarrow>
          accepts (user_update env now key u email current password node db)
      | Member_post s imp u node f \<Rightarrow>
          accepts (node_member_post env s imp (ai_sso_ok inp) now (ai_keys inp) (ai_generated inp) u node f db)
      | Member_patch s imp u node m ty \<Rightarrow> accepts (node_member_patch s imp u node m ty db)
      | Member_delete s imp u node m \<Rightarrow> accepts (node_member_delete s imp (ai_sso_ok inp) u node m db)
      | Resend_invite s imp u node m \<Rightarrow> accepts (resend_invite now key s imp u node m db)
      | Ff_create_member s u n f \<Rightarrow>
          accepts (and_then (db, is_fairfood_admin s (Some u)) (\<lambda>_ _.
            ff_create_member env now (ai_keys inp) (ai_generated inp) u n f db))
      | Ff_change_member s u m email ty \<Rightarrow>
          accepts (and_then (db, is_fairfood_admin s (Some u)) (\<lambda>_ _. change_member now key m email ty db))
      | Ff_delete_member s u m \<Rightarrow>
          accepts (and_then (db, is_fairfood_admin s (Some u)) (\<lambda>_ _.
            reply db (rbind (delete_member m db) (\<lambda>d. Inr (d, ()))))))"

fun account_run ::
    "accounts_services \<Rightarrow> (account_input \<times> account_request) list \<Rightarrow> accounts_db \<Rightarrow> accounts_db"
where
  "account_run env [] db = db"
| "account_run env ((inp, req) # xs) db = account_run env xs (fst (account_step env inp req db))"

text \<open>The token a request presents, and whether an accepted request uses it up.\<close>

definition presents :: "account_request \<Rightarrow> (string \<times> nat) option" where
  "presents req =
     (case req of
        Validate k salt pk \<Rightarrow> map_option (Pair k) pk
      | Set_password k salt pk password \<Rightarrow> map_option (Pair k) pk
      | Magic_login k pk uid \<Rightarrow> map_option (Pair k) pk
      | Invitee_update url_user k salt pk \<Rightarrow> map_option (Pair k) pk
      | _ \<Rightarrow> None)"

definition uses_up :: "account_request \<Rightarrow> bool" where
  "uses_up req =
     (case req of Set_password _ _ _ _ \<Rightarrow> True | Magic_login _ _ _ \<Rightarrow> True | Invitee_update _ _ _ _ \<Rightarrow> True | _ \<Rightarrow> False)"

definition drawn_keys :: "account_input \<Rightarrow> string set" where
  "drawn_keys inp = {fst (ai_keys inp), snd (ai_keys inp)}"

text \<open>The requests that change the type of a member or remove one.\<close>

definition manages_members :: "account_request \<Rightarrow> bool" where
  "manages_members req =
     (case req of
        Member_patch _ _ _ _ _ _ \<Rightarrow> True | Member_delete _ _ _ _ _ \<Rightarrow> True | Ff_change_member _ _ _ _ _ \<Rightarrow> True
      | Ff_delete_member _ _ _ \<Rightarrow> True | _ \<Rightarrow> False)"

section \<open>Every request is a composition of moves\<close>

context account_moves
begin

lemmas request_follows =
  manage_validate_follows email_login_follows email_login_code_follows magic_link_follows
  reset_password_view_follows verification_email_follows set_password_follows magic_login_follows login_follows
  ff_admin_login_follows logout_follows user_create_follows user_update_follows
  node_member_post_follows resend_invite_follows ff_create_member_follows

lemma account_step_follows:
  assumes "drawn_keys inp \<subseteq> K" and "\<not> manages_members req"
  shows "R db (fst (account_step env inp req db))"
proof (cases req)
  case (Validate k salt pk)
  then show ?thesis
    using manage_validate_follows [of db "ai_now inp" k salt pk]
    by (cases "manage_validate (ai_now inp) k salt pk db") (simp add: account_step_def)
qed (use assms in \<open>auto simp: account_step_def Let_def accepts_def drawn_keys_def manages_members_def
    request_follows rbind_eq_Inr move_refl
    intro!: follows_and_then follows_reply elim!: invitee_update_follows\<close>)

end

context account_all_moves
begin

lemma any_account_step_follows:
  assumes "drawn_keys inp \<subseteq> K"
  shows "R db (fst (account_step env inp req db))"
proof (cases "manages_members req")
  case True
  then show ?thesis
    using assms by (cases req) (auto simp: account_step_def Let_def accepts_def drawn_keys_def manages_members_def
      node_member_patch_follows node_member_delete_follows change_member_follows rbind_eq_Inr move_refl
      intro!: follows_and_then follows_reply elim!: delete_member_follows)
qed (rule account_step_follows [OF assms])

lemma account_run_follows:
  assumes "\<forall>x \<in> set xs. drawn_keys (fst x) \<subseteq> K"
  shows "R db (account_run env xs db)"
  using assms
proof (induction xs arbitrary: db)
  case (Cons x xs)
  then have "R db (fst (account_step env (fst x) (snd x) db))"
    by (intro any_account_step_follows) simp
  with Cons show ?case by (cases x) (auto intro: move_trans)
qed (simp add: move_refl)

end

section \<open>A token works once\<close>

definition tokens_bounded :: "accounts_db \<Rightarrow> bool" where
  "tokens_bounded db \<longleftrightarrow> (\<forall>i t. ad_tokens db i = Some t \<longrightarrow> i < ad_next_token db)"

definition dead_token :: "string \<Rightarrow> nat \<Rightarrow> accounts_db \<Rightarrow> bool" where
  "dead_token k i db \<longleftrightarrow>
     i < ad_next_token db \<and>
     (\<forall>t. ad_tokens db i = Some t \<longrightarrow> vt_key t = k \<longrightarrow> vt_status t = VTOKEN_STATUS_USED)"

lemma tokens_follow_bounded:
  assumes "tokens_follow K db db'" and "tokens_bounded db"
  shows "tokens_bounded db'"
  using assms unfolding tokens_bounded_def
  by (metis tokens_follow_cases tokens_follow_next order_less_le_trans)

lemma tokens_follow_dead:
  assumes f: "tokens_follow K db db'" and k: "k \<notin> K" and dead: "dead_token k i db"
  shows "dead_token k i db'"
  unfolding dead_token_def
proof (intro conjI allI impI)
  show "i < ad_next_token db'" using dead tokens_follow_next [OF f] by (simp add: dead_token_def)
next
  fix t' assume t': "ad_tokens db' i = Some t'" and key: "vt_key t' = k"
  show "vt_status t' = VTOKEN_STATUS_USED"
    using f t'
  proof (cases rule: tokens_follow_cases)
    case drawn
    then show ?thesis using key k by simp
  next
    case (moved t)
    then show ?thesis using dead key k by (auto simp: token_moves_def dead_token_def)
  qed
qed

lemma and_then_ok: "is_ok (snd (and_then r f)) \<Longrightarrow> \<exists>db x. r = (db, Inr x) \<and> is_ok (snd (f db x))"
  by (cases r) (auto simp: and_then_def split: sum.split_asm)

lemma reply_ok: "is_ok (snd (reply db r)) \<longleftrightarrow> is_ok r"
  by (auto simp: reply_def is_ok_def split: sum.split)

lemma is_valid_unused: "vt_is_valid now t \<Longrightarrow> vt_status t = VTOKEN_STATUS_UNUSED"
  by (simp add: vt_is_valid_def split: if_split_asm)

lemma consume_magic_tokenD:
  assumes "consume_magic_token dev now k pk uid db = (d, Some u)"
  obtains i t where "pk = Some i" "ad_tokens db i = Some t" "vt_key t = k" "vt_status t = VTOKEN_STATUS_UNUSED"
    and "vt_type t = VTOKEN_TYPE_MAGIC_LOGIN" "vt_user t = uid" "u = uid" "ad_next_token d = ad_next_token db"
    and "ad_tokens d i = Some (vt_invalidate now t)"
proof -
  from assms obtain i where pk: "pk = Some i"
    by (cases pk) (simp_all add: consume_magic_token_def)
  from assms obtain t where t: "ad_tokens db i = Some t"
    by (cases "ad_tokens db i") (simp_all add: consume_magic_token_def pk)
  have ok: "vt_user t = uid \<and> vt_key t = k \<and> vt_type t = VTOKEN_TYPE_MAGIC_LOGIN \<and> vt_is_valid now t"
    using assms by (simp add: consume_magic_token_def pk t split: if_split_asm)
  then obtain x where x: "ad_users (save_vtoken i (vt_invalidate now t) db) uid = Some x"
    using assms by (cases "ad_users (save_vtoken i (vt_invalidate now t) db) uid")
      (simp_all add: consume_magic_token_def pk t Let_def)
  then have "u = uid \<and> (d = save_vtoken i (vt_invalidate now t) db \<or>
      d = save_user uid (x\<lparr>us_email_verified := True\<rparr>) (save_vtoken i (vt_invalidate now t) db))"
    using assms ok by (auto simp: consume_magic_token_def pk t Let_def split: if_split_asm)
  then show thesis
    using that [OF pk t] ok is_valid_unused by (auto simp: save_vtoken_def save_user_def)
qed

lemma is_validation_token_validD:
  assumes "is_validation_token_valid now k salt pk db = Inr i"
  obtains t where "pk = Some i" "ad_tokens db i = Some t" "vt_key t = k" "vt_status t = VTOKEN_STATUS_UNUSED"
  using assms unfolding is_validation_token_valid_def
  by (auto split: option.split_asm if_split_asm)

lemma invitee_set_userD:
  assumes "invitee_set_user now k pk db = Inr (i, u)"
  obtains t where "pk = Some i" "ad_tokens db i = Some t" "vt_key t = k" "vt_status t = VTOKEN_STATUS_UNUSED"
  using assms unfolding invitee_set_user_def
  by (auto split: option.split_asm if_split_asm dest: is_valid_unused)

lemma manage_validateD:
  assumes "manage_validate now k salt pk db = (d, Inr v)" and "va_valid v \<noteq> Some False"
  obtains i t where "pk = Some i" "ad_tokens db i = Some t" "vt_key t = k" "vt_status t = VTOKEN_STATUS_UNUSED"
  using assms unfolding manage_validate_def check_token_validity_def
  by (auto split: option.split_asm if_split_asm)

lemma step_of_use:
  "account_step env inp (Set_password k salt pk password) db =
     accepts (set_password (av_hash env) (av_password_ok env) (ai_now inp) (fst (ai_keys inp)) k salt pk password db)"
  "account_step env inp (Magic_login k pk uid) db =
     accepts (magic_login (ai_device_ok inp) (ai_now inp) (ai_draws inp) k pk uid db)"
  "account_step env inp (Invitee_update uu k salt pk) db =
     accepts (reply db (invitee_update (av_hash env) (ai_now inp) (ai_generated inp) uu k salt pk db))"
  by (simp_all add: account_step_def Let_def)

lemma accepts_sel [simp]: "fst (accepts r) = fst r" "snd (accepts r) = is_ok (snd r)"
  by (simp_all add: accepts_def)

lemma magic_login_okD:
  assumes "is_ok (snd (magic_login dev now draws k pk uid db))"
  obtains d u where "consume_magic_token dev now k pk uid db = (d, Some u)"
    and "tokens_follow {} d (fst (magic_login dev now draws k pk uid db))"
proof (cases "consume_magic_token dev now k pk uid db")
  case (Pair d r)
  with assms obtain u where r: "r = Some u" by (cases r) (auto simp: magic_login_def)
  have "tokens_follow {} d (fst (magic_login dev now draws k pk uid db))"
    unfolding magic_login_def Pair r
    by (auto intro!: tk.follows_and_then tk.follows_reply intro: tk.issue_access_token_follows)
  then show thesis using that Pair r by blast
qed

lemma set_password_okD:
  assumes "is_ok (snd (set_password hash good now key k salt pk password db))"
  obtains i t x where "is_validation_token_valid now k salt pk db = Inr i" and "ad_tokens db i = Some t"
    and "fst (set_password hash good now key k salt pk password db) =
      fst (magic_answer now key (vt_user t) (save_vtoken i (vt_mark_as_used t) (save_user (vt_user t) x db)))"
proof -
  from assms obtain i where i: "is_validation_token_valid now k salt pk db = Inr i"
    unfolding set_password_def by (auto dest!: and_then_ok)
  then obtain t where t: "ad_tokens db i = Some t" by (rule is_validation_token_validD)
  have p: "password \<noteq> []" "good password"
    using assms by (auto simp: set_password_def i and_then_def split: if_split_asm)
  obtain x where x: "get_user (vt_user t) db = Inr x"
    using assms by (cases "get_user (vt_user t) db") (auto simp: set_password_def i t p and_then_def of_option_def)
  show thesis
    by (rule that [OF i t, of "x\<lparr>us_password := hash password\<rparr>"])
      (simp add: set_password_def i t p x and_then_def of_option_def Let_def)
qed

lemma invitee_okD:
  assumes "is_ok (snd (reply db (invitee_update hash now gen uu k salt pk db)))"
  obtains i u d t x where "invitee_set_user now k pk db = Inr (i, u)" "ad_tokens db i = Some t"
    and "fst (reply db (invitee_update hash now gen uu k salt pk db)) = d"
    and "d = save_user u x (save_vtoken i (vt_invalidate now t) db) \<or>
         (\<exists>m y. ad_members db m = Some y \<and> d = save_member m (y\<lparr>nm_active := True\<rparr>) (save_user u x (save_vtoken i (vt_invalidate now t) db)))"
proof -
  from assms obtain d u where iu: "invitee_update hash now gen uu k salt pk db = Inr (d, u)"
    unfolding reply_ok by (auto simp: is_ok_def split: sum.split_asm)
  then show thesis
    by (rule invitee_update_cases) (rule that, (assumption | simp add: iu reply_def)+)
qed

lemma presented_live:
  assumes "snd (account_step env inp req db)" and "presents req = Some (k, i)"
  obtains t where "ad_tokens db i = Some t" "vt_key t = k" "vt_status t = VTOKEN_STATUS_UNUSED"
proof (cases req)
  case (Validate k' salt pk)
  obtain d r where mv: "manage_validate (ai_now inp) k' salt pk db = (d, r)"
    by (cases "manage_validate (ai_now inp) k' salt pk db")
  with assms(1) obtain v where "r = Inr v" "va_valid v \<noteq> Some False"
    by (cases r) (auto simp: account_step_def Validate)
  with mv show thesis
    using assms(2) that by (auto elim!: manage_validateD simp: presents_def Validate)
next
  case (Set_password k' salt pk password)
  with assms(1) obtain j where "is_validation_token_valid (ai_now inp) k' salt pk db = Inr j"
    by (auto simp: step_of_use elim!: set_password_okD)
  then show thesis
    using assms(2) that by (auto elim!: is_validation_token_validD simp: presents_def Set_password)
next
  case (Magic_login k' pk uid)
  with assms(1) obtain d u where "consume_magic_token (ai_device_ok inp) (ai_now inp) k' pk uid db = (d, Some u)"
    by (auto simp: step_of_use elim!: magic_login_okD)
  then show thesis
    using assms(2) that by (auto elim!: consume_magic_tokenD simp: presents_def Magic_login)
next
  case (Invitee_update uu k' salt pk)
  with assms(1) obtain j u where "invitee_set_user (ai_now inp) k' pk db = Inr (j, u)"
    by (auto simp: step_of_use elim!: invitee_okD)
  then show thesis
    using assms(2) that by (auto elim!: invitee_set_userD simp: presents_def Invitee_update)
qed (use assms in \<open>auto simp: presents_def\<close>)

lemma dead_marked:
  assumes "ad_tokens d i = Some t" "vt_status t = VTOKEN_STATUS_USED" "i < ad_next_token d"
  shows "dead_token k i d"
  using assms by (simp add: dead_token_def)

lemma used_statuses [simp]:
  "vt_status (vt_mark_as_used t) = VTOKEN_STATUS_USED" "vt_status (vt_invalidate now t) = VTOKEN_STATUS_USED"
  by (simp_all add: vt_mark_as_used_def vt_invalidate_def)

lemma uses_up_kills:
  assumes ok: "snd (account_step env inp req db)" and up: "uses_up req" and tok: "presents req = Some (k, i)"
    and fresh: "k \<notin> drawn_keys inp" and bounded: "tokens_bounded db"
  shows "dead_token k i (fst (account_step env inp req db))"
proof -
  obtain t0 where t0: "ad_tokens db i = Some t0" using presented_live [OF ok tok] .
  then have below: "i < ad_next_token db" using bounded by (simp add: tokens_bounded_def)
  show ?thesis
  proof (cases req)
    case (Set_password k' salt pk password)
    have keys: "k \<notin> {fst (ai_keys inp)}" using fresh by (auto simp: drawn_keys_def)
    from ok obtain j t x
      where j: "is_validation_token_valid (ai_now inp) k' salt pk db = Inr j"
        and t: "ad_tokens db j = Some t"
        and d: "fst (account_step env inp req db) =
          fst (magic_answer (ai_now inp) (fst (ai_keys inp)) (vt_user t)
            (save_vtoken j (vt_mark_as_used t) (save_user (vt_user t) x db)))"
      unfolding Set_password step_of_use accepts_sel by (rule set_password_okD)
    from j have "i = j" using tok by (auto elim!: is_validation_token_validD simp: presents_def Set_password)
    then have "dead_token k i (save_vtoken j (vt_mark_as_used t) (save_user (vt_user t) x db))"
      using below by (simp add: dead_token_def save_vtoken_def save_user_def)
    then show ?thesis
      unfolding d by (rule tokens_follow_dead [OF tk.magic_answer_follows keys, rotated]) simp
  next
    case (Magic_login k' pk uid)
    from ok obtain d u
      where c: "consume_magic_token (ai_device_ok inp) (ai_now inp) k' pk uid db = (d, Some u)"
        and f: "tokens_follow {} d (fst (account_step env inp req db))"
      unfolding Magic_login step_of_use accepts_sel by (rule magic_login_okD)
    from c have "dead_token k i d"
      using tok below by (auto elim!: consume_magic_tokenD simp: presents_def Magic_login dead_token_def)
    then show ?thesis by (rule tokens_follow_dead [OF f, rotated]) simp
  next
    case (Invitee_update uu k' salt pk)
    from ok obtain j u d t x
      where s: "invitee_set_user (ai_now inp) k' pk db = Inr (j, u)" and t: "ad_tokens db j = Some t"
        and d: "fst (account_step env inp req db) = d"
        and dd: "d = save_user u x (save_vtoken j (vt_invalidate (ai_now inp) t) db) \<or>
          (\<exists>m y. ad_members db m = Some y \<and> d = save_member m (y\<lparr>nm_active := True\<rparr>) (save_user u x (save_vtoken j (vt_invalidate (ai_now inp) t) db)))"
      unfolding Invitee_update step_of_use accepts_sel by (rule invitee_okD)
    from s have "i = j" using tok by (auto elim!: invitee_set_userD simp: presents_def Invitee_update)
    then show ?thesis
      using dd below unfolding d by (auto simp: dead_token_def save_user_def save_vtoken_def save_member_def)
  qed (use up in \<open>simp_all add: uses_up_def\<close>)
qed

text \<open>
  C17: Once a token has set a password, logged a user in or accepted an invitation, no
  later request that presents it is accepted, whatever requests come between, as long as
  none of them draws the same key again.
\<close>

theorem token_works_once:
  assumes "tokens_bounded start"
    and "db = account_run env before start"
    and "snd (account_step env inp req db)"
    and "uses_up req" and "presents req = Some tok"
    and "\<forall>x \<in> set ((inp, req) # between). fst tok \<notin> drawn_keys (fst x)"
    and "presents req' = Some tok"
  shows "\<not> snd (account_step env inp' req' (account_run env between (fst (account_step env inp req db))))"
proof
  obtain k i where tok: "tok = (k, i)" by (cases tok)
  assume again: "snd (account_step env inp' req' (account_run env between (fst (account_step env inp req db))))"
  have "tokens_follow UNIV start db"
    unfolding assms(2) by (rule tk.account_run_follows) simp
  then have "tokens_bounded db" using assms(1) by (rule tokens_follow_bounded)
  then have "dead_token k i (fst (account_step env inp req db))"
  proof (rule uses_up_kills [rotated 4])
    show "snd (account_step env inp req db)" and "uses_up req" by (rule assms(3), rule assms(4))
    show "presents req = Some (k, i)" and "k \<notin> drawn_keys inp" using assms(5,6) by (simp_all add: tok)
  qed
  moreover have "tokens_follow (\<Union>x \<in> set between. drawn_keys (fst x)) (fst (account_step env inp req db))
      (account_run env between (fst (account_step env inp req db)))"
    by (rule tk.account_run_follows) auto
  ultimately have "dead_token k i (account_run env between (fst (account_step env inp req db)))"
    using assms(6) by (elim tokens_follow_dead [rotated 2]) (auto simp: tok)
  moreover obtain t where "ad_tokens (account_run env between (fst (account_step env inp req db))) i = Some t"
    and "vt_key t = k" and "vt_status t = VTOKEN_STATUS_UNUSED"
    using presented_live [OF again] assms(7) unfolding tok .
  ultimately show False by (simp add: dead_token_def)
qed

section \<open>A node keeps an administrator\<close>

definition members_kept :: "accounts_db \<Rightarrow> accounts_db \<Rightarrow> bool" where
  "members_kept db db' \<longleftrightarrow>
     ad_next_member db \<le> ad_next_member db' \<and>
     (\<forall>m x. m < ad_next_member db \<longrightarrow> ad_members db m = Some x \<longrightarrow>
        (\<exists>y. ad_members db' m = Some y \<and> nm_node y = nm_node x \<and> nm_user y = nm_user x \<and> nm_type y = nm_type x))"

lemma members_kept_same:
  "ad_members db' = ad_members db \<Longrightarrow> ad_next_member db' = ad_next_member db \<Longrightarrow> members_kept db db'"
  by (simp add: members_kept_def)

lemma members_kept_trans:
  assumes "members_kept a b" and "members_kept b c"
  shows "members_kept a c"
  unfolding members_kept_def
proof (intro conjI allI impI)
  show "ad_next_member a \<le> ad_next_member c" using assms by (simp add: members_kept_def)
next
  fix m x assume m: "m < ad_next_member a" and x: "ad_members a m = Some x"
  then obtain y where y: "ad_members b m = Some y" "nm_node y = nm_node x" "nm_user y = nm_user x" "nm_type y = nm_type x"
    using assms(1) unfolding members_kept_def by blast
  have "m < ad_next_member b" using m assms(1) by (simp add: members_kept_def)
  then obtain z where "ad_members c m = Some z" "nm_node z = nm_node y" "nm_user z = nm_user y" "nm_type z = nm_type y"
    using y(1) assms(2) unfolding members_kept_def by blast
  then show "\<exists>y. ad_members c m = Some y \<and> nm_node y = nm_node x \<and> nm_user y = nm_user x \<and> nm_type y = nm_type x"
    using y by simp
qed

interpretation mk: account_moves members_kept UNIV
proof (unfold_locales, goal_cases)
  case (2 a b c)
  then show ?case by (rule members_kept_trans)
next
  case (10 db m x y)
  then show ?case by (auto simp: members_kept_def save_member_def)
next
  case (11 db y)
  then show ?case by (auto simp: members_kept_def save_member_def)
qed (simp_all add: members_kept_same save_user_def save_vtoken_def)

definition is_node_admin :: "nat \<Rightarrow> nat \<Rightarrow> accounts_db \<Rightarrow> bool" where
  "is_node_admin n m db \<longleftrightarrow>
     m < ad_next_member db \<and>
     (case ad_members db m of None \<Rightarrow> False | Some x \<Rightarrow> nm_node x = n \<and> nm_type x = NODE_MEMBER_TYPE_ADMIN)"

definition has_admin :: "nat \<Rightarrow> accounts_db \<Rightarrow> bool" where
  "has_admin n db \<longleftrightarrow> [m\<leftarrow>[0..<ad_next_member db]. is_node_admin n m db] \<noteq> []"

text \<open>Requests whose session is not one of an administrator of the platform.\<close>

definition ordinary :: "account_request \<Rightarrow> bool" where
  "ordinary req =
     (case req of
        Member_post s _ _ _ _ \<Rightarrow> \<not> admin_session s
      | Member_patch s _ _ _ _ _ \<Rightarrow> \<not> admin_session s
      | Member_delete s _ _ _ _ \<Rightarrow> \<not> admin_session s
      | Resend_invite s _ _ _ _ \<Rightarrow> \<not> admin_session s
      | Ff_create_member s _ _ _ \<Rightarrow> \<not> admin_session s
      | Ff_change_member s _ _ _ _ \<Rightarrow> \<not> admin_session s
      | Ff_delete_member s _ _ \<Rightarrow> \<not> admin_session s
      | _ \<Rightarrow> True)"

lemma has_admin_iff: "has_admin n db \<longleftrightarrow> (\<exists>m. is_node_admin n m db)"
  by (auto simp: has_admin_def filter_empty_conv is_node_admin_def)

lemma kept_admin: "members_kept db db' \<Longrightarrow> is_node_admin n m db \<Longrightarrow> is_node_admin n m db'"
  by (fastforce simp: members_kept_def is_node_admin_def split: option.split_asm)

lemma kept_has_admin: "members_kept db db' \<Longrightarrow> has_admin n db \<Longrightarrow> has_admin n db'"
  unfolding has_admin_iff by (blast intro: kept_admin)

lemma members_whereD:
  "m \<in> set (members_where p db) \<Longrightarrow> m < ad_next_member db \<and> (\<exists>x. ad_members db m = Some x \<and> p x)"
  by (auto simp: members_where_def split: option.split_asm)

text \<open>A user with the access of an administrator of a node is an administrator of it.\<close>

lemma admin_access_admin:
  assumes "has_node_admin_access s imp u node db = Inr (d, base)" and "\<not> admin_session s"
  obtains n m x where "base = Some n" "is_node_admin n m d" "ad_members d m = Some x" "nm_user x = u"
proof -
  from assms obtain n where node: "node = Some n" and base: "base = Some n"
    and one: "length (members_where (\<lambda>m. nm_node m = n \<and> nm_user m = u \<and> nm_type m = NODE_MEMBER_TYPE_ADMIN) db) = 1"
    by (auto simp: has_node_admin_access_def Let_def rbind_eq_Inr split: option.split_asm if_split_asm)
  have "members_where (\<lambda>m. nm_node m = n \<and> nm_user m = u \<and> nm_type m = NODE_MEMBER_TYPE_ADMIN) db \<noteq> []" (is "?ms \<noteq> []")
    using one by (rule contrapos_pn) simp
  then have "hd ?ms \<in> set ?ms" by (rule list.set_sel(1))
  then obtain m x where m: "m < ad_next_member db" "ad_members db m = Some x" "nm_node x = n" "nm_user x = u"
    "nm_type x = NODE_MEMBER_TYPE_ADMIN"
    using members_whereD by blast
  have kept: "members_kept db d" by (rule mk.access_follows(3) [OF assms(1)])
  then obtain y where "ad_members d m = Some y \<and> nm_user y = nm_user x"
    using m(1,2) unfolding members_kept_def by blast
  moreover have "is_node_admin n m d" by (rule kept_admin [OF kept]) (simp add: m is_node_admin_def)
  ultimately show thesis using that base m(4) by simp
qed

text \<open>What an administrator does to another member of his node leaves every node its administrators, or him.\<close>

lemma other_member_spares_admin:
  assumes "has_admin k d" and "is_node_admin n a d" and "ad_members d a = Some y" and "nm_user y = u"
    and "member_of_view n u m d = Inr x"
    and "\<And>j. j \<noteq> m \<Longrightarrow> ad_members d' j = ad_members d j" and "ad_next_member d' = ad_next_member d"
  shows "has_admin k d'"
proof -
  have m: "ad_members d m = Some x" "nm_node x = n" "nm_user x \<noteq> u"
    using assms(5) by (auto simp: member_of_view_def split: option.split_asm if_split_asm)
  obtain b where b: "is_node_admin k b d" using assms(1) by (auto simp: has_admin_iff)
  have spared: "is_node_admin k j d'" if "is_node_admin k j d" "j \<noteq> m" for j
    using that assms(6,7) by (simp add: is_node_admin_def)
  show ?thesis
  proof (cases "b = m")
    case True
    then have "k = n" using b m by (simp add: is_node_admin_def)
    moreover have "a \<noteq> m" using assms(3,4) m by auto
    ultimately show ?thesis using spared assms(2) by (auto simp: has_admin_iff)
  qed (use spared b in \<open>auto simp: has_admin_iff\<close>)
qed

lemma set_member_type_frame:
  "set_member_type ty m d = Inr d' \<Longrightarrow> (j \<noteq> m \<longrightarrow> ad_members d' j = ad_members d j) \<and> ad_next_member d' = ad_next_member d"
  by (auto simp: set_member_type_def rbind_eq_Inr save_member_def)

lemma delete_member_frame:
  "delete_member m d = Inr d' \<Longrightarrow> (j \<noteq> m \<longrightarrow> ad_members d' j = ad_members d j) \<and> ad_next_member d' = ad_next_member d"
  by (auto simp: delete_member_def rbind_eq_Inr save_user_def Let_def split: if_split_asm)

lemma fst_and_then: "fst (and_then r f) = (case snd r of Inl e \<Rightarrow> fst r | Inr x \<Rightarrow> fst (f (fst r) x))"
  by (cases r) (simp add: and_then_def split: sum.split)

lemma fst_reply: "fst (reply db r) = (case r of Inl e \<Rightarrow> db | Inr dx \<Rightarrow> fst dx)"
  by (simp add: reply_def split: sum.split prod.split)

lemma patch_has_admin:
  assumes "has_admin k db" and "\<not> admin_session s"
  shows "has_admin k (fst (node_member_patch s imp u node m ty db))"
proof (cases "has_node_admin_access s imp u node db")
  case (Inl e)
  then show ?thesis using assms by (simp add: node_member_patch_def and_then_def reply_def)
next
  case (Inr dr)
  obtain d base where dr: "dr = (d, base)" by (cases dr)
  note access = Inr [unfolded dr]
  have d: "has_admin k d" by (rule kept_has_admin [OF mk.access_follows(3) [OF access] assms(1)])
  obtain n a y where adm: "base = Some n" "is_node_admin n a d" "ad_members d a = Some y" "nm_user y = u"
    using admin_access_admin [OF access assms(2)] .
  let ?d' = "fst (node_member_patch s imp u node m ty db)"
  have "?d' = d \<or> (\<exists>x t. member_of_view n u m d = Inr x \<and> set_member_type t m d = Inr ?d')"
    unfolding node_member_patch_def make_admin_def make_member_def make_viewer_def
    by (auto simp: fst_and_then fst_reply access reply_def adm(1) rbind_def
        split: sum.split option.split)
  then show ?thesis
    using d other_member_spares_admin [OF d adm(2-4)] set_member_type_frame by blast
qed

lemma delete_has_admin:
  assumes "has_admin k db" and "\<not> admin_session s"
  shows "has_admin k (fst (node_member_delete s imp sso u node m db))"
proof (cases "has_node_admin_access s imp u node db")
  case (Inl e)
  then show ?thesis using assms by (simp add: node_member_delete_def and_then_def reply_def)
next
  case (Inr dr)
  obtain d base where dr: "dr = (d, base)" by (cases dr)
  note access = Inr [unfolded dr]
  have d: "has_admin k d" by (rule kept_has_admin [OF mk.access_follows(3) [OF access] assms(1)])
  obtain n a y where adm: "base = Some n" "is_node_admin n a d" "ad_members d a = Some y" "nm_user y = u"
    using admin_access_admin [OF access assms(2)] .
  let ?d' = "fst (node_member_delete s imp sso u node m db)"
  have "?d' = d \<or> (\<exists>x. member_of_view n u m d = Inr x \<and> delete_member m d = Inr ?d')"
    unfolding node_member_delete_def
    by (auto simp: fst_and_then fst_reply access reply_def adm(1) rbind_def split: sum.split)
  then show ?thesis
    using d other_member_spares_admin [OF d adm(2-4)] delete_member_frame by blast
qed

lemma not_fairfood_admin:
  "\<not> admin_session s \<Longrightarrow>
   is_fairfood_admin s v = Inl (AccessForbidden ''You need to be Admin of the fairfood to perform this action.'')"
  by (simp add: is_fairfood_admin_def)

lemma step_of_manage:
  "account_step env inp (Member_patch s imp u node m ty) db = accepts (node_member_patch s imp u node m ty db)"
  "account_step env inp (Member_delete s imp u node m) db =
     accepts (node_member_delete s imp (ai_sso_ok inp) u node m db)"
  "\<not> admin_session s \<Longrightarrow> account_step env inp (Ff_change_member s u m email ty) db = (db, False)"
  "\<not> admin_session s \<Longrightarrow> account_step env inp (Ff_delete_member s u m) db = (db, False)"
  by (simp_all add: account_step_def Let_def not_fairfood_admin and_then_def accepts_def)

lemma ordinary_step_has_admin:
  assumes "has_admin k db" and "ordinary req"
  shows "has_admin k (fst (account_step env inp req db))"
proof (cases "manages_members req")
  case False
  then have "members_kept db (fst (account_step env inp req db))"
    by (intro mk.account_step_follows) simp_all
  then show ?thesis using assms(1) by (rule kept_has_admin)
next
  case True
  then show ?thesis
    using assms
    by (cases req) (simp_all add: manages_members_def ordinary_def step_of_manage patch_has_admin delete_has_admin)
qed

text \<open>
  C18: A node that has an administrator among its members keeps one, whatever requests
  its members and other users send: an administrator of the node can remove or demote
  the others, and not himself. Only sessions of the platform's administrators are excluded.
\<close>

theorem node_keeps_an_admin:
  assumes "has_admin n db" and "\<forall>x \<in> set xs. ordinary (snd x)"
  shows "has_admin n (account_run env xs db)"
  using assms
proof (induction xs arbitrary: db)
  case (Cons x xs)
  then have "has_admin n (fst (account_step env (fst x) (snd x) db))"
    by (intro ordinary_step_has_admin) simp_all
  with Cons show ?case by (cases x) auto
qed simp

end
