(* ===== verification/Account_Properties.thy ===== *)
theory Account_Properties
  imports Account_Runs
begin

text \<open>
  What the access levels to a node imply of each other, and what the requests about
  users, tokens and members do that their documentation does not say.
\<close>

lemma members_where_mono:
  "members_where p db \<noteq> [] \<Longrightarrow> (\<And>x. p x \<Longrightarrow> q x) \<Longrightarrow> members_where q db \<noteq> []"
  by (fastforce simp: members_where_def filter_empty_conv split: option.split_asm)

lemma filter_one_not_empty: "length (members_where p db) = 1 \<Longrightarrow> members_where p db \<noteq> []"
  by auto

lemma vt_initialize_users: "vt_initialize now key u ty cr db = Inr (db', i) \<Longrightarrow> ad_users db' = ad_users db"
  by (auto simp: vt_initialize_def Let_def save_vtoken_def split: list.split_asm option.split_asm)

lemma magic_answer_users: "ad_users (fst (magic_answer now key u db)) = ad_users db"
  by (auto simp: magic_answer_def token_requests fst_and_then fst_reply vt_initialize_users split: sum.split)

definition demo_user :: "string \<Rightarrow> fairfood_user" where
  "demo_user name = \<lparr>us_username = name, us_email = name, us_updated_email = [], us_password = ''old'',
     us_type = USER_TYPE_NODE_USER, us_blocked = False, us_email_verified = True, us_default_node = None, us_joined = 0\<rparr>"

definition demo_member :: "nat \<Rightarrow> int \<Rightarrow> node_member" where
  "demo_member u ty = \<lparr>nm_node = 7, nm_user = u, nm_type = ty, nm_active = True, nm_vtoken = None, nm_creator = None\<rparr>"

text \<open>User 2 administers node 7 and has a notification token, user 3 is a viewer of it, user 4 is no member.\<close>

definition demo_accounts :: accounts_db where
  "demo_accounts =
     \<lparr>ad_users = Map.empty(2 \<mapsto> demo_user ''ann'', 3 \<mapsto> demo_user ''bob'', 4 \<mapsto> demo_user ''eve''), ad_next_user = 5,
      ad_tokens = Map.empty(2 \<mapsto> \<lparr>vt_user = 2, vt_key = ''abc'', vt_status = VTOKEN_STATUS_UNUSED, vt_expiry = 900,
        vt_type = VTOKEN_TYPE_NOTIFICATION, vt_creator = Some 2\<rparr>, 3 \<mapsto> \<lparr>vt_user = 2, vt_key = ''xyz'',
        vt_status = VTOKEN_STATUS_UNUSED, vt_expiry = 900, vt_type = VTOKEN_TYPE_MAGIC_LOGIN, vt_creator = Some 2\<rparr>),
      ad_next_token = 4, ad_access = Map.empty, ad_next_access = 0,
      ad_members = Map.empty(2 \<mapsto> demo_member 2 NODE_MEMBER_TYPE_ADMIN, 3 \<mapsto> demo_member 3 NODE_MEMBER_TYPE_VIEWER),
      ad_next_member = 4, ad_nodes = [7]\<rparr>"

definition demo_services :: accounts_services where
  "demo_services = \<lparr>av_email_ok = (\<lambda>e. e \<noteq> []), av_password_ok = (\<lambda>p. length p \<ge> 3), av_hash = rev,
     av_authenticate = (\<lambda>n p db. None)\<rparr>"

definition demo_input :: "string \<Rightarrow> account_input" where
  "demo_input key = \<lparr>ai_now = 500, ai_keys = (key, key @ ''2''), ai_draws = [key @ ''3''], ai_generated = key @ ''4'',
     ai_device_ok = True, ai_sso_ok = True\<rparr>"

definition user_session :: login_session where
  "user_session = \<lparr>se_type = ''NODE_USER'', se_nodes = [7]\<rparr>"

definition demo_form :: member_form where
  "demo_form = \<lparr>mf_user = None, mf_email = ''new'', mf_email_verified = False, mf_password = None,
     mf_type = Some NODE_MEMBER_TYPE_MEMBER\<rparr>"

lemma token_works_once_witness:
  "\<not> snd (account_step demo_services (demo_input ''k3'') (Magic_login ''xyz'' (Some 3) 2)
      (account_run demo_services [(demo_input ''k2'', Magic_link ''ann'')]
        (fst (account_step demo_services (demo_input ''k1'') (Magic_login ''xyz'' (Some 3) 2) demo_accounts))))"
proof (rule token_works_once [where start = demo_accounts and before = "[]" and tok = "(''xyz'', 3)"])
  show "tokens_bounded demo_accounts"
    by (simp add: tokens_bounded_def demo_accounts_def)
  show "demo_accounts = account_run demo_services [] demo_accounts" by simp
  show "snd (account_step demo_services (demo_input ''k1'') (Magic_login ''xyz'' (Some 3) 2) demo_accounts)"
    by code_simp
qed (simp_all add: uses_up_def presents_def drawn_keys_def demo_input_def)

lemma node_keeps_an_admin_witness:
  "has_admin 7 (account_run demo_services
     [(demo_input ''k1'', Member_patch user_session None 2 (Some 7) 3 (Some 1)),
      (demo_input ''k2'', Member_delete user_session None 3 (Some 7) 2)] demo_accounts)"
  by (rule node_keeps_an_admin)
    (code_simp, simp add: ordinary_def admin_session_def user_session_def)

section \<open>Access levels\<close>

text \<open>
  C25: The access of an administrator of a node includes write access, and write access
  includes access, with the same effect; and a session that is not one of the platform's
  administrators reaches a node only for a user who is a member of it.
\<close>

theorem access_levels:
  "(has_node_admin_access s imp u node db = Inr r \<longrightarrow> has_node_write_access s imp u node db = Inr r) \<and>
   (has_node_write_access s imp u node db = Inr r \<longrightarrow> has_node_access s imp u node db = Inr r) \<and>
   (has_node_access s imp u node db = Inr (d, Some n) \<and> \<not> admin_session s \<longrightarrow> node_members n u db \<noteq> [])"
proof (intro conjI impI)
  assume "has_node_admin_access s imp u node db = Inr r"
  moreover have "members_where (\<lambda>m. nm_node m = k \<and> nm_user m = u \<and> nm_type m \<in> {NODE_MEMBER_TYPE_ADMIN, NODE_MEMBER_TYPE_MEMBER}) db \<noteq> []"
    if "length (members_where (\<lambda>m. nm_node m = k \<and> nm_user m = u \<and> nm_type m = NODE_MEMBER_TYPE_ADMIN) db) = 1" for k
    using filter_one_not_empty [OF that] by (rule members_where_mono) simp
  ultimately show "has_node_write_access s imp u node db = Inr r"
    by (auto simp: has_node_admin_access_def has_node_write_access_def Let_def split: option.split_asm if_split_asm)
next
  assume "has_node_write_access s imp u node db = Inr r"
  moreover have "node_members k u db \<noteq> []"
    if "members_where (\<lambda>m. nm_node m = k \<and> nm_user m = u \<and> nm_type m \<in> {NODE_MEMBER_TYPE_ADMIN, NODE_MEMBER_TYPE_MEMBER}) db \<noteq> []" for k
    unfolding node_members_def using that by (rule members_where_mono) simp
  ultimately show "has_node_access s imp u node db = Inr r"
    by (auto simp: has_node_access_def has_node_write_access_def Let_def split: option.split_asm if_split_asm)
next
  assume "has_node_access s imp u node db = Inr (d, Some n) \<and> \<not> admin_session s"
  then show "node_members n u db \<noteq> []"
    by (auto simp: has_node_access_def Let_def rbind_eq_Inr split: option.split_asm if_split_asm)
qed

lemma access_levels_witness:
  "has_node_access user_session None 2 (Some 7) demo_accounts =
     Inr (fst (projr (has_node_admin_access user_session None 2 (Some 7) demo_accounts)), Some 7) \<and>
   node_members 7 2 demo_accounts \<noteq> []"
proof -
  obtain d where r: "has_node_admin_access user_session None 2 (Some 7) demo_accounts = Inr (d, Some 7)"
    by (rule that [of "save_member 2 ((demo_member 2 NODE_MEMBER_TYPE_ADMIN)\<lparr>nm_active := True\<rparr>) demo_accounts"])
      (simp add: has_node_admin_access_def user_session_def demo_accounts_def admin_session_def members_where_def
        make_member_active_def node_members_def demo_member_def upt_conv_Cons eval_nat_numeral of_option_def)
  then have "has_node_access user_session None 2 (Some 7) demo_accounts = Inr (d, Some 7)"
    using access_levels by blast
  moreover have "\<not> admin_session user_session" by code_simp
  ultimately show ?thesis using r access_levels by simp blast
qed

section \<open>Members\<close>

text \<open>
  Any member of a node, whatever his type, can add another user as an administrator
  of it: adding a member only needs access to the node, although only administrators
  manage members.
\<close>

theorem member_can_add_admin:
  assumes "\<not> admin_session s" and "n \<in> set (ad_nodes db)" and "node_members n u db = [m]"
    and "ad_users db v = Some x" and "us_password x \<noteq> []" and "node_members n v db = []"
    and "mf_user f = Some v" and "mf_type f = Some NODE_MEMBER_TYPE_ADMIN"
  shows "\<exists>db' new. node_member_post env s imp sso now keys gen u (Some n) f db = (db', Inr new) \<and>
    is_node_admin n new db' \<and> map_option nm_user (ad_members db' new) = Some v"
proof -
  have "m \<in> set (node_members n u db)" using assms(3) by simp
  then obtain y where m: "m < ad_next_member db" "ad_members db m = Some y" "nm_node y = n" "nm_user y = u"
    unfolding node_members_def using members_whereD by blast
  have vu: "v \<noteq> u" using assms(3,6) by auto
  define d where "d = save_member m (y\<lparr>nm_active := True\<rparr>) db"
  have access: "has_node_access s imp u (Some n) db = Inr (d, Some n)"
    using assms(1-3) m by (simp add: has_node_access_def make_member_active_def d_def)
  have none: "node_members n v d = []"
    using assms(6) vu m by (auto simp: node_members_def members_where_def d_def save_member_def filter_empty_conv
        split: option.split_asm)
  define new where "new = \<lparr>nm_node = n, nm_user = v, nm_type = NODE_MEMBER_TYPE_ADMIN, nm_active = True,
    nm_vtoken = None, nm_creator = Some u\<rparr>"
  define e where "e = (save_member (ad_next_member d) new d)\<lparr>ad_next_member := Suc (ad_next_member d)\<rparr>"
  have "ad_members e (ad_next_member d) = Some new" "ad_users e v = Some x"
    using assms(4) by (simp_all add: e_def save_member_def d_def)
  then have "send_invite now (snd keys) (ad_next_member d) e = (e, Inr ())"
    using assms(5) by (simp add: send_invite_def and_then_def get_user_def new_def)
  moreover have "ad_users d v = Some x" using assms(4) by (simp add: d_def save_member_def)
  ultimately have "node_member_post env s imp sso now keys gen u (Some n) f db = (save_user v x e, Inr (ad_next_member d))"
    using assms(7,8) none
    by (simp add: node_member_post_def create_member_def access reply_def and_then_def get_user_def Let_def
        new_member_twice e_def new_def)
  then show ?thesis
    by (simp add: is_node_admin_def e_def save_user_def save_member_def new_def)
qed

lemma member_can_add_admin_witness:
  "\<exists>db' new. node_member_post demo_services user_session None True 500 (''k1'', ''k2'') ''g'' 3 (Some 7)
      \<lparr>mf_user = Some 4, mf_email = [], mf_email_verified = False, mf_password = None, mf_type = Some NODE_MEMBER_TYPE_ADMIN\<rparr>
      demo_accounts = (db', Inr new) \<and>
    is_node_admin 7 new db' \<and> map_option nm_user (ad_members db' new) = Some 4"
  by (rule member_can_add_admin [where m = 3 and x = "demo_user ''eve''"])
    (simp_all add: demo_accounts_def user_session_def admin_session_def node_members_def members_where_def demo_member_def
      upt_conv_Cons eval_nat_numeral demo_user_def)

text \<open>
  When an administrator of the platform adds an unknown address to a company as an
  ordinary member, the request fails with a \<open>KeyError\<close>, and leaves behind a user whose
  type is that of an administrator of the platform.
\<close>

theorem ff_invite_leaves_administrator:
  assumes "n \<in> set (ad_nodes db)" and "mf_user f = None" and "mf_type f = Some NODE_MEMBER_TYPE_MEMBER"
    and "users_where (\<lambda>y. us_email y = mf_email f) db = []"
    and "validate_username (av_email_ok env) (mf_email f) db = Available"
  shows "\<exists>db' x. ff_create_member env now keys gen cur n f db = (db', Inl PyKeyError) \<and>
    ad_users db' (ad_next_user db) = Some x \<and> us_email x = mf_email f \<and> is_fairtrace_admin x"
  using assms
  by (simp add: ff_create_member_def user_create_def and_then_def Let_def save_user_def is_fairtrace_admin_def
      NODE_MEMBER_TYPE_MEMBER_def USER_TYPE_FAIRFOOD_ADMIN_def)

lemma ff_invite_leaves_administrator_witness:
  "\<exists>db' x. ff_create_member demo_services 500 (''k1'', ''k2'') ''g'' 2 7 demo_form demo_accounts = (db', Inl PyKeyError) \<and>
    ad_users db' (ad_next_user demo_accounts) = Some x \<and> us_email x = mf_email demo_form \<and> is_fairtrace_admin x"
proof (rule ff_invite_leaves_administrator)
  show "users_where (\<lambda>y. us_email y = mf_email demo_form) demo_accounts = []" by code_simp
  show "validate_username (av_email_ok demo_services) (mf_email demo_form) demo_accounts = Available" by code_simp
qed (simp_all add: demo_form_def demo_accounts_def)

section \<open>Passwords\<close>

text \<open>
  Any token that is live sets the password of its user, whatever it was sent for: the
  view that resets passwords does not look at the type of the token, so a notification's
  token, valid for a year, is as good as one for a reset.
\<close>

theorem any_token_sets_password:
  assumes "ad_tokens db i = Some t" and "vt_is_valid now t" and "vt_key t \<noteq> []" and "salt \<noteq> []"
    and "ad_users db (vt_user t) = Some x" and "password_ok password" and "password \<noteq> []"
  shows "map_option us_password (ad_users (fst (set_password hash password_ok now key (vt_key t) salt (Some i) password db))
    (vt_user t)) = Some (hash password)"
  using assms is_valid_unused [OF assms(2)]
  by (simp add: set_password_def is_validation_token_valid_def and_then_def get_user_def of_option_def Let_def
      magic_answer_users save_user_def save_vtoken_def)

lemma any_token_sets_password_witness:
  "map_option us_password (ad_users (fst (set_password rev (\<lambda>p. length p \<ge> 3) 500 ''k1''
      (vt_key (the (ad_tokens demo_accounts 2))) ''s'' (Some 2) ''new'' demo_accounts))
    (vt_user (the (ad_tokens demo_accounts 2)))) = Some (rev ''new'') \<and>
   vt_type (the (ad_tokens demo_accounts 2)) = VTOKEN_TYPE_NOTIFICATION"
proof
  show "map_option us_password (ad_users (fst (set_password rev (\<lambda>p. length p \<ge> 3) 500 ''k1''
      (vt_key (the (ad_tokens demo_accounts 2))) ''s'' (Some 2) ''new'' demo_accounts))
    (vt_user (the (ad_tokens demo_accounts 2)))) = Some (rev ''new'')"
    by (rule any_token_sets_password [where x = "demo_user ''ann''"]) (simp_all add: demo_accounts_def vt_is_valid_def)
qed (simp add: demo_accounts_def)

text \<open>
  A user who signs up with a password while the single sign-on service does not
  accept him is saved with that password as it is: the hash is only ever set on the object
  in memory, which nothing saves.
\<close>

theorem signup_keeps_plain_password:
  assumes "validate_username email_ok email db = Available"
  shows "map_option us_password (ad_users (fst (user_create email_ok hash silent False now key gen ty verified email
    (Some password) db)) (ad_next_user db)) = Some password"
  using assms
  by (auto simp: user_create_def Let_def fst_and_then fst_reply verify_email_def vt_initialize_users save_user_def
      split: option.split sum.split)

lemma signup_keeps_plain_password_witness:
  "map_option us_password (ad_users (fst (user_create (\<lambda>e. e \<noteq> []) rev (Some False) False 500 ''k1'' ''g'' None False
    ''new'' (Some ''secret'') demo_accounts)) (ad_next_user demo_accounts)) = Some ''secret''"
  by (rule signup_keeps_plain_password) code_simp

end
