(* ===== verification/Transparency.thy ===== *)
theory Transparency
  imports Claims_Service Supply_Chain
begin

text \<open>
  Transparency requests (\<open>v2/transparency_request\<close>): a node asks another for stock, for a
  claim on the company, or to map its connections. The models of \<open>models.py\<close>, the
  serializers \<open>stock.py\<close>, \<open>claim.py\<close> and \<open>connection.py\<close> with their views, and the places
  where other components complete a request.

  The three subclasses share the base table, hence the ids. Notifications and activities
  are the entries of a log. A request that fails after it has written returns what it left.
\<close>

section \<open>Requests\<close>

text \<open>\<open>status\<close> is an integer column, and the serializers take any integer.\<close>

definition REQ_PENDING :: int where
  "REQ_PENDING = 1"

definition REQ_COMPLETED :: int where
  "REQ_COMPLETED = 2"

definition REQ_DECLINED :: int where
  "REQ_DECLINED = 3"

definition REQ_ACKNOWLEDGED :: int where
  "REQ_ACKNOWLEDGED = 4"

record stock_order =
  so_connection :: nat
  so_product :: nat
  so_quantity :: int
  so_unit :: nat
  so_price :: "rat option"
  so_currency :: "string option"
  so_claims :: "nat list"
  so_transaction :: "nat option"

datatype request_kind = Stock_request stock_order | Claim_request nat | Connection_request nat

record transparency_request =
  tr_kind :: request_kind
  tr_number :: "nat option"
  tr_requester :: nat
  tr_requestee :: nat
  tr_status :: int
  tr_note :: string
  tr_response :: string
  tr_deleted :: bool

record request_field =
  rf_request :: nat
  rf_field :: nat
  rf_response :: string
  rf_file :: "string option"

datatype request_notice = Request_created | Request_declined | Request_answered

record request_db =
  rq_requests :: "nat \<rightharpoonup> transparency_request"
  rq_next :: nat
  rq_fields :: "nat \<rightharpoonup> request_field"
  rq_next_field :: nat
  rq_log :: "(nat \<times> request_notice) list"
  rq_owners :: "(nat \<times> nat) list"

definition get_request :: "nat \<Rightarrow> request_db \<Rightarrow> transparency_request result" where
  "get_request i db = of_option DoesNotExist (rq_requests db i)"

definition save_tr :: "nat \<Rightarrow> transparency_request \<Rightarrow> request_db \<Rightarrow> request_db" where
  "save_tr i r db = db\<lparr>rq_requests := (rq_requests db)(i \<mapsto> r)\<rparr>"

definition log_request :: "nat \<Rightarrow> request_notice \<Rightarrow> request_db \<Rightarrow> request_db" where
  "log_request i n db = db\<lparr>rq_log := rq_log db @ [(i, n)]\<rparr>"

definition requests_where :: "(transparency_request \<Rightarrow> bool) \<Rightarrow> request_db \<Rightarrow> nat list" where
  "requests_where p db = [i\<leftarrow>[0..<rq_next db]. case rq_requests db i of Some r \<Rightarrow> p r | None \<Rightarrow> False]"

definition insert_request :: "transparency_request \<Rightarrow> request_db \<Rightarrow> request_db \<times> nat" where
  "insert_request r db = ((save_tr (rq_next db) r db)\<lparr>rq_next := Suc (rq_next db)\<rparr>, rq_next db)"

definition is_modifiable :: "transparency_request \<Rightarrow> bool" where
  "is_modifiable r \<longleftrightarrow> tr_status r = REQ_PENDING"

definition reject_request :: "string \<Rightarrow> transparency_request \<Rightarrow> transparency_request" where
  "reject_request response r =
     (if tr_status r \<noteq> REQ_COMPLETED then r\<lparr>tr_response := response, tr_status := REQ_DECLINED\<rparr> else r)"

definition remove_request :: "transparency_request \<Rightarrow> transparency_request" where
  "remove_request r = (if tr_status r \<noteq> REQ_COMPLETED then r\<lparr>tr_deleted := True\<rparr> else r)"

definition tr_complete :: "transparency_request \<Rightarrow> transparency_request" where
  "tr_complete r = (if tr_status r \<noteq> REQ_COMPLETED then r\<lparr>tr_status := REQ_COMPLETED\<rparr> else r)"

text \<open>
  \<open>reject\<close> of the subclasses, and \<open>mark_as_complete\<close> of a claim request: both log and notify
  whatever the base class answered.
\<close>

definition reject :: "string \<Rightarrow> nat \<Rightarrow> transparency_request \<Rightarrow> request_db \<Rightarrow> request_db" where
  "reject response i r db = log_request i Request_declined (save_tr i (reject_request response r) db)"

definition mark_as_complete :: "nat \<Rightarrow> request_db \<Rightarrow> request_db" where
  "mark_as_complete i db =
     (case rq_requests db i of None \<Rightarrow> db
      | Some r \<Rightarrow> log_request i Request_answered (save_tr i (tr_complete r) db))"

text \<open>\<open>get_queryset\<close> of the detail views: the requests the node sent or received.\<close>

definition request_of_node :: "(request_kind \<Rightarrow> bool) \<Rightarrow> nat \<Rightarrow> nat \<Rightarrow> request_db \<Rightarrow> transparency_request result" where
  "request_of_node k node i db =
     rbind (get_request i db) (\<lambda>r.
       if k (tr_kind r) \<and> (tr_requester r = node \<or> tr_requestee r = node) then Inr r else Inl DoesNotExist)"

definition is_stock_request :: "request_kind \<Rightarrow> bool" where
  "is_stock_request k = (case k of Stock_request _ \<Rightarrow> True | _ \<Rightarrow> False)"

definition is_claim_request :: "request_kind \<Rightarrow> bool" where
  "is_claim_request k = (case k of Claim_request _ \<Rightarrow> True | _ \<Rightarrow> False)"

definition is_connection_request :: "request_kind \<Rightarrow> bool" where
  "is_connection_request k = (case k of Connection_request _ \<Rightarrow> True | _ \<Rightarrow> False)"

section \<open>Stock requests\<close>

record product_info =
  pi_chain :: "nat \<Rightarrow> nat"
  pi_local :: "nat \<Rightarrow> bool"

definition get_connection :: "nat \<Rightarrow> nat \<Rightarrow> nat \<Rightarrow> 'h sc_db_scheme \<Rightarrow> error \<Rightarrow> nat result" where
  "get_connection buyer supplier chain sc missing =
     (case connections_where (\<lambda>c. cn_buyer c = buyer \<and> cn_supplier c = supplier \<and> cn_chain c = chain) sc of
        [] \<Rightarrow> Inl missing | [c] \<Rightarrow> Inr c | _ \<Rightarrow> Inl MultipleObjectsReturned)"

text \<open>\<open>StockRequestSerializer.create\<close>; the status is taken from the request, if it has one.\<close>

definition stock_request_create ::
    "product_info \<Rightarrow> 'h sc_db_scheme \<Rightarrow> nat \<Rightarrow> nat \<Rightarrow> stock_order \<Rightarrow> int option \<Rightarrow> string \<Rightarrow> request_db \<Rightarrow>
     (request_db \<times> nat) result"
where
  "stock_request_create prods sc requester requestee order status txt db =
     rbind (get_connection requester requestee (pi_chain prods (so_product order)) sc
              (BadRequest ''Node is not connected'')) (\<lambda>c.
       case insert_request
              \<lparr>tr_kind = Stock_request (order\<lparr>so_connection := c\<rparr>), tr_number = Some (rq_next db + 1200),
               tr_requester = requester, tr_requestee = requestee,
               tr_status = (case status of Some s \<Rightarrow> s | None \<Rightarrow> REQ_PENDING),
               tr_note = txt, tr_response = [], tr_deleted = False\<rparr> db of
         (db1, i) \<Rightarrow>
           (let db2 = (if pi_local prods (so_product order)
                       then db1\<lparr>rq_owners := List.insert (so_product order, requestee) (rq_owners db1)\<rparr> else db1)
            in Inr (log_request i Request_created db2, i)))"

text \<open>
  \<open>validate\<close> and \<open>update\<close>: \<open>requester\<close> is always among the validated data, \<open>others\<close> says
  whether a key besides it, the status and the response is.
\<close>

definition stock_request_update ::
    "nat \<Rightarrow> nat \<Rightarrow> int option \<Rightarrow> string option \<Rightarrow> bool \<Rightarrow> request_db \<Rightarrow> request_db result"
where
  "stock_request_update node i status response others db =
     rbind (request_of_node is_stock_request node i db) (\<lambda>r.
       if tr_deleted r then Inl DoesNotExist
       else if \<not> is_modifiable r
       then Inl (ValidationError ''Transparency request cannot be modified. It might be completed.'')
       else if tr_status r \<in> {REQ_COMPLETED, REQ_DECLINED}
       then Inl (BadRequest ''Status cannot be changed for already Completed/Declined requests'')
       else case status of
         None \<Rightarrow> Inl PyKeyError
       | Some s \<Rightarrow>
           if others then Inl (BadRequest ''Not updated. You can only update status of your stock request'')
           else if s = 0 then Inr db
           else if s = REQ_DECLINED then
             (if tr_requestee r \<noteq> node
              then Inl (BadRequest ''Only the receiver of the Stock request can reject it.'')
              else rbind (of_option PyKeyError response) (\<lambda>txt. Inr (reject txt i r db)))
           else Inl (BadRequest ''Status can only be changed to Declined''))"

definition stock_request_destroy :: "nat \<Rightarrow> nat \<Rightarrow> request_db \<Rightarrow> request_db result" where
  "stock_request_destroy node i db =
     rbind (request_of_node is_stock_request node i db) (\<lambda>r.
       if tr_deleted r then Inl DoesNotExist
       else if tr_requester r \<noteq> node
       then Inl (BadRequest ''Only the sender of the Transparency request can delete it.'')
       else if \<not> is_modifiable r
       then Inl (BadRequest ''Transparency request cannot be removed. It might be completed.'')
       else Inr (save_tr i (remove_request r) db))"

text \<open>
  A sale that names a stock request completes it, in \<open>ExternalTransactionSerializer.create\<close>;
  that the two agree is checked where the sale is validated (\<open>Stock_Ledger\<close>). The status is
  not looked at.
\<close>

definition sale_completes_request :: "nat \<Rightarrow> nat \<Rightarrow> request_db \<Rightarrow> request_db result" where
  "sale_completes_request tx i db =
     rbind (get_request i db) (\<lambda>r.
       case tr_kind r of
         Stock_request q \<Rightarrow>
           Inr (save_tr i (r\<lparr>tr_kind := Stock_request (q\<lparr>so_transaction := Some tx\<rparr>), tr_status := REQ_COMPLETED\<rparr>) db)
       | _ \<Rightarrow> Inl DoesNotExist)"

text \<open>\<open>StockRequestVerificationSerializer\<close>: per batch and claim of the request, whether it is approved there.\<close>

definition claim_approved_on :: "'c claims_db_scheme \<Rightarrow> nat \<Rightarrow> nat \<Rightarrow> bool" where
  "claim_approved_on cs b c \<longleftrightarrow>
     [i\<leftarrow>batch_claims b cs. case cs_attached cs i of
        Some a \<Rightarrow> ac_claim a = c \<and> ac_status a = STATUS_APPROVED | None \<Rightarrow> False] \<noteq> []"

definition verify_stock_request ::
    "'c claims_db_scheme \<Rightarrow> nat list \<Rightarrow> stock_order \<Rightarrow> bool \<times> (nat \<times> bool \<times> (nat \<times> bool) list) list"
where
  "verify_stock_request cs batches q =
     (let rows = map (\<lambda>b. let vs = map (\<lambda>c. (c, claim_approved_on cs b c)) (so_claims q)
                          in (b, list_all snd vs, vs)) batches
      in (list_all (\<lambda>(b, ok, vs). ok) rows, rows))"

section \<open>Claim requests\<close>

text \<open>\<open>ClaimRequestSerializer.validate_claim\<close> and \<open>create\<close>.\<close>

definition create_fields :: "nat \<Rightarrow> nat list \<Rightarrow> request_db \<Rightarrow> request_db" where
  "create_fields i fs db =
     fold (\<lambda>f d. d\<lparr>rq_fields := (rq_fields d)(rq_next_field d \<mapsto>
              \<lparr>rf_request = i, rf_field = f, rf_response = [], rf_file = None\<rparr>),
            rq_next_field := Suc (rq_next_field d)\<rparr>) fs db"

definition fields_of_claim :: "nat \<Rightarrow> 'c claims_db_scheme \<Rightarrow> nat list" where
  "fields_of_claim clm cs = [f. cr \<leftarrow> claim_criteria clm cs, f \<leftarrow> fields_of cr cs]"

definition claim_request_create ::
    "nat \<Rightarrow> nat \<Rightarrow> nat \<Rightarrow> int option \<Rightarrow> string \<Rightarrow> 'c claims_db_scheme \<Rightarrow> request_db \<Rightarrow> (request_db \<times> nat) result"
where
  "claim_request_create node requestee clm status txt cs db =
     rbind (of_option (ValidationError ''Invalid pk - object does not exist.'') (cs_claims cs clm)) (\<lambda>cl.
       if cl_type cl = CLAIM_TYPE_PRODUCT then Inl (ValidationError ''Cannot attach product claim to company'')
       else if cl_scope cl = CLAIM_SCOPE_LOCAL \<and> node \<notin> set (cl_owners cl)
       then Inl (ValidationError ''not permitted to use claim'')
       else case insert_request
              \<lparr>tr_kind = Claim_request clm, tr_number = None, tr_requester = node, tr_requestee = requestee,
               tr_status = (case status of Some s \<Rightarrow> s | None \<Rightarrow> REQ_PENDING), tr_note = txt, tr_response = [],
               tr_deleted = False\<rparr> db of
         (db1, i) \<Rightarrow>
           (let db2 = log_request i Request_created db1
            in Inr (if cl_scope cl = CLAIM_SCOPE_LOCAL then create_fields i (fields_of_claim clm cs) db2 else db2, i)))"

definition claim_of :: "transparency_request \<Rightarrow> 'c claims_db_scheme \<Rightarrow> claim result" where
  "claim_of r cs = (case tr_kind r of Claim_request c \<Rightarrow> get_claim c cs | _ \<Rightarrow> Inl DoesNotExist)"

definition claim_request_update ::
    "nat \<Rightarrow> nat \<Rightarrow> int option \<Rightarrow> string option \<Rightarrow> 'c claims_db_scheme \<Rightarrow> request_db \<Rightarrow> request_db result"
where
  "claim_request_update node i status response cs db =
     rbind (request_of_node is_claim_request node i db) (\<lambda>r.
       if tr_status r \<in> {REQ_COMPLETED, REQ_DECLINED}
       then Inl (BadRequest ''Status cannot be changed for already Completed/Declined requests'')
       else
         rbind (of_option PyKeyError status) (\<lambda>s.
           if s = REQ_DECLINED then
             (if node = tr_requestee r
              then rbind (of_option PyKeyError response) (\<lambda>txt. Inr (reject txt i r db))
              else Inr (save_tr i (r\<lparr>tr_status := REQ_DECLINED\<rparr>) db))
           else
             rbind (claim_of r cs) (\<lambda>cl.
               if cl_scope cl = CLAIM_SCOPE_LOCAL then
                 (if s = REQ_ACKNOWLEDGED
                  then Inr (log_request i Request_answered (save_tr i (r\<lparr>tr_status := s\<rparr>) db))
                  else Inr db)
               else Inl (BadRequest ''Status can only be changed to Declined/Acknowledged''))))"

text \<open>\<open>ClaimRequestFieldView\<close>: either party writes the response, whatever the status of the request.\<close>

definition claim_field_update ::
    "nat \<Rightarrow> nat \<Rightarrow> string option \<Rightarrow> string option \<Rightarrow> request_db \<Rightarrow> request_db result"
where
  "claim_field_update node f response file db =
     rbind (of_option DoesNotExist (rq_fields db f)) (\<lambda>x.
     rbind (request_of_node is_claim_request node (rf_request x) db) (\<lambda>_.
       Inr (db\<lparr>rq_fields := (rq_fields db)(f \<mapsto> x\<lparr>
         rf_response := (case response of Some t \<Rightarrow> t | None \<Rightarrow> rf_response x),
         rf_file := (case file of Some c \<Rightarrow> Some c | None \<Rightarrow> rf_file x)\<rparr>)\<rparr>)))"

definition responded :: "request_field \<Rightarrow> bool" where
  "responded x \<longleftrightarrow> rf_file x \<noteq> None \<or> rf_response x \<noteq> []"

text \<open>\<open>claim_request.fields.all()\<close>: newest first.\<close>

definition fields_of_request :: "nat \<Rightarrow> request_db \<Rightarrow> request_field list" where
  "fields_of_request i db =
     [x. f \<leftarrow> rev [0..<rq_next_field db], x \<leftarrow> (case rq_fields db f of Some x \<Rightarrow> [x] | None \<Rightarrow> []), rf_request x = i]"

text \<open>\<open>NodeCriterionFieldResponseSerializer\<close>: only a missing criterion is caught.\<close>

definition node_response_criterion :: "criterion_field \<Rightarrow> nat \<Rightarrow> 'c claims_db_scheme \<Rightarrow> nat result" where
  "node_response_criterion f node cs =
     (case [i\<leftarrow>[0..<cs_next_item cs].
              case cs_items cs i of
                Some a \<Rightarrow> at_criterion a = cf_criterion f \<and>
                  (case cs_attached cs (at_owner a) of Some c \<Rightarrow> ac_target c = OnNode (Some node) | None \<Rightarrow> False)
              | None \<Rightarrow> False] of
        [] \<Rightarrow> Inl (ValidationError ''Invalid Company Claim'') | [i] \<Rightarrow> Inr i | _ \<Rightarrow> Inl MultipleObjectsReturned)"

definition add_node_response ::
    "(string \<Rightarrow> string) \<Rightarrow> nat \<Rightarrow> nat \<Rightarrow> response_data \<Rightarrow> 'c claims_db_scheme \<Rightarrow> 'c claims_db_scheme result"
where
  "add_node_response hash_file current node d cs =
     rbind (of_option (ValidationError ''Invalid pk - object does not exist.'') (cs_fields cs (rd_field d))) (\<lambda>f.
     rbind (response_validate hash_file f d) (\<lambda>h.
     rbind (node_response_criterion f node cs) (\<lambda>i.
       Inr (store_response current (rd_field d) (rd_response d) h i cs))))"

text \<open>
  Attaching company claims completes the requests for the global ones among them, where the
  claim was not attached already.
\<close>

definition complete_claim_requests :: "nat \<Rightarrow> nat \<Rightarrow> request_db \<Rightarrow> request_db" where
  "complete_claim_requests clm node db =
     fold mark_as_complete (requests_where (\<lambda>r. tr_kind r = Claim_request clm \<and> tr_requestee r = node) db) db"

definition attach_company_claims_view ::
    "nat \<Rightarrow> nat \<Rightarrow> nat list \<Rightarrow> bool \<Rightarrow> 'c claims_db_scheme \<Rightarrow> request_db \<Rightarrow> ('c claims_db_scheme \<times> request_db) result"
where
  "attach_company_claims_view current node clms override cs db =
     rbind (validate_company_claims current clms cs) (\<lambda>_.
       rfold (\<lambda>clm (cs, db).
         rbind (get_claim clm cs) (\<lambda>cl.
         rbind (attach_company_claims current node [clm] override cs) (\<lambda>cs1.
           let fresh = (override \<or> company_claims_for node clm current cs = [])
           in Inr (cs1, if fresh \<and> cl_scope cl = CLAIM_SCOPE_GLOBAL then complete_claim_requests clm node db else db))))
         clms (cs, db))"

text \<open>\<open>attach_claim_from_request\<close>: the request is completed inside the loop over its fields.\<close>

definition answer_field ::
    "(string \<Rightarrow> string) \<Rightarrow> nat \<Rightarrow> nat \<Rightarrow> nat \<Rightarrow> request_field \<Rightarrow> 'c claims_db_scheme \<times> request_db \<Rightarrow>
     ('c claims_db_scheme \<times> request_db) result"
where
  "answer_field hash_file current node i x s =
     rbind (add_node_response hash_file current node
              \<lparr>rd_field = rf_field x, rd_response = Some (rf_response x), rd_file = rf_file x\<rparr> (fst s)) (\<lambda>cs.
     rbind (get_request i (snd s)) (\<lambda>r.
       Inr (cs, save_tr i (r\<lparr>tr_status := REQ_COMPLETED\<rparr>) (snd s))))"

definition attach_claim_from_request ::
    "(string \<Rightarrow> string) \<Rightarrow> nat \<Rightarrow> nat \<Rightarrow> 'c claims_db_scheme \<Rightarrow> request_db \<Rightarrow> ('c claims_db_scheme \<times> request_db) result"
where
  "attach_claim_from_request hash_file current i cs db =
     rbind (get_request i db) (\<lambda>r.
     rbind (claim_of r cs) (\<lambda>cl.
       if cl_scope cl \<noteq> CLAIM_SCOPE_LOCAL
       then Inl (BadRequest ''Only Private claims can be added through this API'')
       else if \<not> list_all responded (fields_of_request i db) then Inl (BadRequest ''Not all files are attached'')
       else case tr_kind r of
         Claim_request clm \<Rightarrow>
           if \<not> list_all (\<lambda>f. f \<in> rf_field ` set (fields_of_request i db)) (fields_of_claim clm cs)
           then Inl (BadRequest ''Claims seems to have changed. Please contact admin'')
           else
             rbind (attach_company_claims_view current (tr_requestee r) [clm] True cs db) (\<lambda>s.
               rfold (answer_field hash_file current (tr_requestee r) i) (fields_of_request i db) s)
       | _ \<Rightarrow> Inl DoesNotExist))"

definition attach_requested_claim ::
    "(string \<Rightarrow> string) \<Rightarrow> nat \<Rightarrow> nat \<Rightarrow> 'c claims_db_scheme \<Rightarrow> request_db \<Rightarrow> ('c claims_db_scheme \<times> request_db) result"
where
  "attach_requested_claim hash_file node i cs db =
     rbind (get_request i db) (\<lambda>r.
       if \<not> is_claim_request (tr_kind r) then Inl DoesNotExist
       else if tr_requester r \<noteq> node then Inl (BadRequest ''Only requester can add the claim'')
       else attach_claim_from_request hash_file node i cs db)"

section \<open>Connection requests\<close>

text \<open>\<open>ConnectionRequestSerializer.create\<close> looks for the connection after it has created the request.\<close>

definition connection_request_create ::
    "'h sc_db_scheme \<Rightarrow> nat \<Rightarrow> nat \<Rightarrow> nat \<Rightarrow> int option \<Rightarrow> string \<Rightarrow> request_db \<Rightarrow> request_db \<times> nat result"
where
  "connection_request_create sc node requestee chain status txt db =
     (if \<not> is_directly_connected_to node requestee (Some chain) sc
      then (db, Inl (ValidationError ''You are not connected. Cannot send request''))
      else case insert_request
              \<lparr>tr_kind = Connection_request chain, tr_number = None, tr_requester = node, tr_requestee = requestee,
               tr_status = (case status of Some s \<Rightarrow> s | None \<Rightarrow> REQ_PENDING), tr_note = txt, tr_response = [],
               tr_deleted = False\<rparr> db of
        (db1, i) \<Rightarrow>
          (log_request i Request_created db1,
           rbind (get_connection node requestee chain sc (BadRequest ''Node is not connected'')) (\<lambda>_. Inr i)))"

definition connection_request_update ::
    "nat \<Rightarrow> nat \<Rightarrow> int option \<Rightarrow> string option \<Rightarrow> request_db \<Rightarrow> request_db result"
where
  "connection_request_update node i status response db =
     rbind (request_of_node is_connection_request node i db) (\<lambda>r.
       if tr_status r \<in> {REQ_ACKNOWLEDGED, REQ_DECLINED}
       then Inl (BadRequest ''Status cannot be changed for already Acknowledged/Declined requests'')
       else
         rbind (of_option PyKeyError status) (\<lambda>s.
           if s = REQ_DECLINED then rbind (of_option PyKeyError response) (\<lambda>txt. Inr (reject txt i r db))
           else if s = REQ_ACKNOWLEDGED then Inr (save_tr i (r\<lparr>tr_status := s\<rparr>) db)
           else Inl (BadRequest ''Status can only be changed to Acknowledged or Declined'')))"

text \<open>\<open>Invitation.send_initial_connection_request\<close>.\<close>

definition send_initial_connection_request ::
    "nat \<Rightarrow> nat \<Rightarrow> nat \<Rightarrow> bool \<Rightarrow> request_db \<Rightarrow> request_db result"
where
  "send_initial_connection_request inviter invitee chain to_supplier db =
     (if \<not> to_supplier then Inr db
      else case requests_where (\<lambda>r. tr_requester r = inviter \<and> tr_requestee r = invitee \<and>
                  tr_kind r = Connection_request chain) db of
        [] \<Rightarrow>
          (case insert_request
              \<lparr>tr_kind = Connection_request chain, tr_number = None, tr_requester = inviter, tr_requestee = invitee,
               tr_status = REQ_PENDING,
               tr_note = ''Please take some time to complete the chain by inviting your connections.'',
               tr_response = [], tr_deleted = False\<rparr> db of
             (db1, i) \<Rightarrow> Inr (log_request i Request_created db1))
      | [_] \<Rightarrow> Inr db
      | _ \<Rightarrow> Inl MultipleObjectsReturned)"

end
