(* ===== verification/Transparency_Runs.thy ===== *)
theory Transparency_Runs
  imports Transparency
begin

text \<open>
  Runs of the operations on transparency requests. Every one of them is a composition of
  the changes of a single request that the locale \<open>request_moves\<close> names; the claims and the
  supply chain may be anything at each step.
\<close>

inductive tr_step :: "request_db \<Rightarrow> request_db \<Rightarrow> bool" where
  stock_create: "stock_request_create prods (sc :: sc_db) n m q status msg db = Inr (db', i) \<Longrightarrow> tr_step db db'"
| stock_update: "stock_request_update n i status response others db = Inr db' \<Longrightarrow> tr_step db db'"
| stock_destroy: "stock_request_destroy n i db = Inr db' \<Longrightarrow> tr_step db db'"
| sale: "sale_completes_request tx i db = Inr db' \<Longrightarrow> tr_step db db'"
| claim_create: "claim_request_create n m clm status msg (cs :: claims_db) db = Inr (db', i) \<Longrightarrow> tr_step db db'"
| claim_update: "claim_request_update n i status response (cs :: claims_db) db = Inr db' \<Longrightarrow> tr_step db db'"
| claim_field: "claim_field_update n f resp file db = Inr db' \<Longrightarrow> tr_step db db'"
| claim_attach: "attach_requested_claim h n i (cs :: claims_db) db = Inr (cs', db') \<Longrightarrow> tr_step db db'"
| company_claims: "attach_company_claims_view n m clms ov (cs :: claims_db) db = Inr (cs', db') \<Longrightarrow> tr_step db db'"
| connection_create: "connection_request_create (sc :: sc_db) n m chain status msg db = (db', res) \<Longrightarrow> tr_step db db'"
| connection_update: "connection_request_update n i status response db = Inr db' \<Longrightarrow> tr_step db db'"
| invited: "send_initial_connection_request n m chain to_supplier db = Inr db' \<Longrightarrow> tr_step db db'"

section \<open>What happens to each request\<close>

definition each_request ::
    "(transparency_request \<Rightarrow> transparency_request \<Rightarrow> bool) \<Rightarrow> request_db \<Rightarrow> request_db \<Rightarrow> bool"
where
  "each_request P db db' \<longleftrightarrow>
     rq_next db \<le> rq_next db' \<and>
     (\<forall>i r. i < rq_next db \<longrightarrow> rq_requests db i = Some r \<longrightarrow>
        (\<exists>r'. rq_requests db' i = Some r' \<and> P r r'))"

lemma get_request_Inr: "get_request i db = Inr r \<longleftrightarrow> rq_requests db i = Some r"
  by (auto simp: get_request_def of_option_def split: option.splits)

lemma request_of_node_Inr:
  "request_of_node k n i db = Inr r \<longleftrightarrow>
     rq_requests db i = Some r \<and> k (tr_kind r) \<and> (tr_requester r = n \<or> tr_requestee r = n)"
  by (auto simp: request_of_node_def rbind_eq_Inr get_request_Inr split: if_split_asm)

lemma requests_frame [simp]:
  "rq_requests (log_request i n db) = rq_requests db" "rq_next (log_request i n db) = rq_next db"
  "rq_next (save_tr i r db) = rq_next db" "rq_requests (save_tr i r db) = (rq_requests db)(i \<mapsto> r)"
  "rq_fields (log_request i n db) = rq_fields db" "rq_next_field (log_request i n db) = rq_next_field db"
  "rq_fields (save_tr i r db) = rq_fields db" "rq_next_field (save_tr i r db) = rq_next_field db"
  by (simp_all add: log_request_def save_tr_def)

lemma create_fields_frame [simp]:
  "rq_requests (create_fields i fs db) = rq_requests db" "rq_next (create_fields i fs db) = rq_next db"
  unfolding create_fields_def by (induction fs arbitrary: db) simp_all

locale request_moves =
  fixes P :: "transparency_request \<Rightarrow> transparency_request \<Rightarrow> bool"
  assumes move_refl: "P r r"
    and move_trans: "P r r' \<Longrightarrow> P r' r'' \<Longrightarrow> P r r''"
    and move_reject: "P r (reject_request t r)"
    and move_remove: "P r (remove_request r)"
    and move_complete: "P r (tr_complete r)"
    and move_answer: "P r (r\<lparr>tr_status := REQ_COMPLETED\<rparr>)"
    and move_sale: "tr_kind r = Stock_request q \<Longrightarrow>
      P r (r\<lparr>tr_kind := Stock_request (q\<lparr>so_transaction := tx\<rparr>), tr_status := REQ_COMPLETED\<rparr>)"
    and move_status: "is_connection_request (tr_kind r) \<or> tr_status r \<noteq> REQ_COMPLETED \<Longrightarrow> P r (r\<lparr>tr_status := s\<rparr>)"
begin

lemma each_refl: "each_request P db db"
  by (simp add: each_request_def move_refl)

lemma each_same: "rq_requests db' = rq_requests db \<Longrightarrow> rq_next db' = rq_next db \<Longrightarrow> each_request P db db'"
  by (simp add: each_request_def move_refl)

lemma each_trans:
  assumes "each_request P a b" and "each_request P b c"
  shows "each_request P a c"
  unfolding each_request_def
proof (intro conjI allI impI)
  show "rq_next a \<le> rq_next c" using assms by (simp add: each_request_def)
next
  fix i r assume "i < rq_next a" and "rq_requests a i = Some r"
  then obtain r' where r': "rq_requests b i = Some r'" "P r r'" and "i < rq_next b"
    using assms(1) unfolding each_request_def by (meson order_less_le_trans)
  then obtain r'' where "rq_requests c i = Some r''" "P r' r''"
    using assms(2) unfolding each_request_def by blast
  then show "\<exists>r''. rq_requests c i = Some r'' \<and> P r r''"
    using move_trans [OF r'(2)] by blast
qed

lemma each_save: "rq_requests db i = Some r \<Longrightarrow> P r r' \<Longrightarrow> each_request P db (save_tr i r' db)"
  by (auto simp: each_request_def move_refl)

lemma each_log: "each_request P db db' \<Longrightarrow> each_request P db (log_request i n db')"
  by (simp add: each_request_def)

lemma each_new: "each_request P db ((save_tr (rq_next db) r db)\<lparr>rq_next := Suc (rq_next db)\<rparr>)"
  by (auto simp: each_request_def move_refl)

lemma each_create: "insert_request r db = (db', i) \<Longrightarrow> each_request P db db'"
  by (auto simp: insert_request_def each_new)

lemma each_reject: "rq_requests db i = Some r \<Longrightarrow> each_request P db (reject t i r db)"
  unfolding reject_def by (rule each_log, rule each_save, assumption, rule move_reject)

lemma each_mark: "each_request P db (mark_as_complete i db)"
  unfolding mark_as_complete_def
  by (auto split: option.split intro!: each_refl each_log each_save move_complete)

lemma each_complete_claims: "each_request P db (complete_claim_requests clm n db)"
proof -
  have "each_request P db (fold mark_as_complete is' db)" for is'
    by (induction is' arbitrary: db) (auto intro: each_refl each_trans [OF each_mark])
  then show ?thesis unfolding complete_claim_requests_def by blast
qed

lemma each_company_claims:
  assumes "attach_company_claims_view n m clms ov cs db = Inr (cs', db')"
  shows "each_request P db db'"
proof -
  have "each_request P db db'"
    if "rfold (\<lambda>clm (cs, db).
         rbind (get_claim clm cs) (\<lambda>cl.
         rbind (attach_company_claims n m [clm] ov cs) (\<lambda>cs1.
           let fresh = (ov \<or> company_claims_for m clm n cs = [])
           in Inr (cs1, if fresh \<and> cl_scope cl = CLAIM_SCOPE_GLOBAL then complete_claim_requests clm m db else db))))
         clms (cs, db) = Inr (cs', db')" for clms cs db cs' db'
    using that
  proof (induction clms arbitrary: cs db)
    case Nil
    then show ?case by (simp add: each_refl)
  next
    case (Cons clm clms)
    then obtain cs1 db1 where db1: "db1 = db \<or> db1 = complete_claim_requests clm m db"
      and rest: "rfold (\<lambda>clm (cs, db).
         rbind (get_claim clm cs) (\<lambda>cl.
         rbind (attach_company_claims n m [clm] ov cs) (\<lambda>cs1.
           let fresh = (ov \<or> company_claims_for m clm n cs = [])
           in Inr (cs1, if fresh \<and> cl_scope cl = CLAIM_SCOPE_GLOBAL then complete_claim_requests clm m db else db))))
         clms (cs1, db1) = Inr (cs', db')"
      by (auto simp: rbind_eq_Inr Let_def split: if_split_asm)
    have "each_request P db db1" using db1 by (auto simp: each_refl each_complete_claims)
    then show ?case using Cons.IH [OF rest] by (rule each_trans)
  qed
  then show ?thesis using assms by (auto simp: attach_company_claims_view_def rbind_eq_Inr)
qed

lemma each_answer:
  assumes "rfold (answer_field h n m i) xs s = Inr s'"
  shows "each_request P (snd s) (snd s')"
  using assms
proof (induction xs arbitrary: s)
  case Nil
  then show ?case by (simp add: each_refl)
next
  case (Cons x xs)
  then obtain s1 where one: "answer_field h n m i x s = Inr s1" and rest: "rfold (answer_field h n m i) xs s1 = Inr s'"
    by (auto simp: rbind_eq_Inr)
  from one have "each_request P (snd s) (snd s1)"
    by (auto simp: answer_field_def rbind_eq_Inr get_request_Inr intro!: each_save move_answer)
  then show ?case using Cons.IH [OF rest] by (rule each_trans)
qed

lemma each_attach:
  assumes "attach_requested_claim h n i cs db = Inr (cs', db')"
  shows "each_request P db db'"
proof -
  from assms obtain m clm s where v: "attach_company_claims_view n m [clm] True cs db = Inr s"
    and f: "rfold (answer_field h n m i) (fields_of_request i db) s = Inr (cs', db')"
    by (auto simp: attach_requested_claim_def attach_claim_from_request_def rbind_eq_Inr get_request_Inr
        split: if_split_asm request_kind.split_asm)
  show ?thesis
    using each_company_claims [of n m "[clm]" True cs db "fst s" "snd s"] v each_answer [OF f]
    by (auto intro: each_trans)
qed

lemma step_each: "tr_step db db' \<Longrightarrow> each_request P db db'"
proof (induction rule: tr_step.induct)
  case (stock_create prods sc n m q status msg db db' i)
  then show ?case
    by (auto simp: stock_request_create_def rbind_eq_Inr Let_def insert_request_def split: if_split_asm
        intro!: each_log intro: each_new each_trans [OF each_new each_same])
next
  case (stock_update n i status response others db db')
  then show ?case
    by (auto simp: stock_request_update_def rbind_eq_Inr request_of_node_Inr intro: each_refl each_reject
        split: if_split_asm option.split_asm)
next
  case (stock_destroy n i db db')
  then show ?case
    by (auto simp: stock_request_destroy_def rbind_eq_Inr request_of_node_Inr split: if_split_asm
        intro!: each_save move_remove)
next
  case (sale tx i db db')
  then obtain r where r: "rq_requests db i = Some r"
    by (auto simp: sale_completes_request_def rbind_eq_Inr get_request_Inr)
  with sale show ?case
    by (cases "tr_kind r") (auto simp: sale_completes_request_def get_request_def intro!: each_save move_sale)
next
  case (claim_create n m clm status msg cs db db' i)
  then show ?case
    by (auto simp: claim_request_create_def rbind_eq_Inr Let_def insert_request_def split: if_split_asm
        intro!: each_log each_new each_trans [OF each_log [OF each_new] each_same])
next
  case (claim_update n i status response cs db db')
  then show ?case
    by (auto simp: claim_request_update_def rbind_eq_Inr request_of_node_Inr split: if_split_asm
        intro!: each_refl each_reject each_log each_save move_status)
next
  case (claim_field n f resp att db db')
  then show ?case
    by (auto simp: claim_field_update_def rbind_eq_Inr intro!: each_same)
next
  case (claim_attach h n i cs db cs' db')
  then show ?case by (rule each_attach)
next
  case (company_claims n m clms ov cs db cs' db')
  then show ?case by (rule each_company_claims)
next
  case (connection_create sc n m chain status msg db db' res)
  then show ?case
    by (auto simp: connection_request_create_def insert_request_def each_refl split: if_split_asm
        intro!: each_log each_new)
next
  case (connection_update n i status response db db')
  then show ?case
    by (auto simp: connection_request_update_def rbind_eq_Inr request_of_node_Inr split: if_split_asm
        intro!: each_reject each_save move_status)
next
  case (invited n m chain to_supplier db db')
  then show ?case
    by (auto simp: send_initial_connection_request_def insert_request_def each_refl split: if_split_asm list.split_asm
        intro!: each_log each_new)
qed

lemma run_each: "tr_step\<^sup>*\<^sup>* db db' \<Longrightarrow> each_request P db db'"
  by (induction rule: rtranclp_induct) (auto intro: each_refl each_trans step_each)

end

section \<open>Completed requests stay completed\<close>

text \<open>
  A completed request for stock or for a claim does not change any more, except that
  another sale may put its transaction in place of the one that completed it.
\<close>

definition stays_completed :: "transparency_request \<Rightarrow> transparency_request \<Rightarrow> bool" where
  "stays_completed r r' \<longleftrightarrow>
     is_connection_request (tr_kind r') = is_connection_request (tr_kind r) \<and>
     (\<not> is_connection_request (tr_kind r) \<and> tr_status r = REQ_COMPLETED \<longrightarrow>
        tr_status r' = REQ_COMPLETED \<and> tr_response r' = tr_response r \<and> tr_deleted r' = tr_deleted r)"

text \<open>What was asked for, without the transaction that answers it.\<close>

definition subject :: "request_kind \<Rightarrow> request_kind" where
  "subject k = (case k of Stock_request q \<Rightarrow> Stock_request (q\<lparr>so_transaction := None\<rparr>) | _ \<Rightarrow> k)"

definition same_parties :: "transparency_request \<Rightarrow> transparency_request \<Rightarrow> bool" where
  "same_parties r r' \<longleftrightarrow>
     tr_requester r' = tr_requester r \<and> tr_requestee r' = tr_requestee r \<and> tr_number r' = tr_number r \<and>
     tr_note r' = tr_note r \<and> subject (tr_kind r') = subject (tr_kind r)"

interpretation fin: request_moves stays_completed
  by unfold_locales
    (auto simp: stays_completed_def reject_request_def remove_request_def tr_complete_def is_connection_request_def
      split: request_kind.split_asm)

interpretation par: request_moves same_parties
  by unfold_locales
    (auto simp: same_parties_def subject_def reject_request_def remove_request_def tr_complete_def
      split: request_kind.split)

text \<open>
  C19: Whatever is done with transparency requests, none of them changes who asked, who
  was asked, or for what; and a completed request for stock or a claim is final: its
  status, response and deletion mark stay as they are.
\<close>

theorem completed_requests_final:
  assumes "tr_step\<^sup>*\<^sup>* db db'" and "i < rq_next db" and "rq_requests db i = Some r"
  shows "\<exists>r'. rq_requests db' i = Some r' \<and> same_parties r r' \<and>
    (\<not> is_connection_request (tr_kind r) \<and> tr_status r = REQ_COMPLETED \<longrightarrow>
       tr_status r' = REQ_COMPLETED \<and> tr_response r' = tr_response r \<and> tr_deleted r' = tr_deleted r)"
proof -
  from fin.run_each [OF assms(1)] obtain r' where r': "rq_requests db' i = Some r'" "stays_completed r r'"
    using assms(2,3) unfolding each_request_def by blast
  moreover from par.run_each [OF assms(1)] have "same_parties r r'"
    using assms(2,3) r'(1) unfolding each_request_def by fastforce
  ultimately show ?thesis by (auto simp: stays_completed_def)
qed

section \<open>Who decides\<close>

text \<open>
  C38: A request for stock is declined only by the node that received it and withdrawn only
  by the node that sent it, both only while it is pending and not withdrawn; the response is
  kept with it, and nothing else of the request changes.
\<close>

theorem stock_request_decisions:
  "(stock_request_update n i status response others db = Inr db' \<and> db' \<noteq> db \<longrightarrow>
      (\<exists>r msg. rq_requests db i = Some r \<and> tr_requestee r = n \<and> tr_status r = REQ_PENDING \<and> \<not> tr_deleted r \<and>
         response = Some msg \<and> rq_log db' = rq_log db @ [(i, Request_declined)] \<and>
         rq_requests db' = (rq_requests db)(i \<mapsto> r\<lparr>tr_response := msg, tr_status := REQ_DECLINED\<rparr>))) \<and>
   (stock_request_destroy n i db = Inr db' \<longrightarrow>
      (\<exists>r. rq_requests db i = Some r \<and> tr_requester r = n \<and> tr_status r = REQ_PENDING \<and> \<not> tr_deleted r \<and>
         rq_requests db' = (rq_requests db)(i \<mapsto> r\<lparr>tr_deleted := True\<rparr>)))"
proof (intro conjI impI)
  assume "stock_request_update n i status response others db = Inr db' \<and> db' \<noteq> db"
  then show "\<exists>r msg. rq_requests db i = Some r \<and> tr_requestee r = n \<and> tr_status r = REQ_PENDING \<and> \<not> tr_deleted r \<and>
      response = Some msg \<and> rq_log db' = rq_log db @ [(i, Request_declined)] \<and>
      rq_requests db' = (rq_requests db)(i \<mapsto> r\<lparr>tr_response := msg, tr_status := REQ_DECLINED\<rparr>)"
    by (cases status; cases response)
      (auto simp: stock_request_update_def rbind_eq_Inr request_of_node_Inr is_modifiable_def reject_def
        reject_request_def log_request_def save_tr_def REQ_PENDING_def REQ_COMPLETED_def of_option_def
        split: if_split_asm)
next
  assume "stock_request_destroy n i db = Inr db'"
  then show "\<exists>r. rq_requests db i = Some r \<and> tr_requester r = n \<and> tr_status r = REQ_PENDING \<and> \<not> tr_deleted r \<and>
      rq_requests db' = (rq_requests db)(i \<mapsto> r\<lparr>tr_deleted := True\<rparr>)"
    by (auto simp: stock_request_destroy_def rbind_eq_Inr request_of_node_Inr is_modifiable_def remove_request_def
        REQ_PENDING_def REQ_COMPLETED_def split: if_split_asm)
qed

section \<open>What the checks leave out\<close>

lemma answer_statuses:
  assumes "rfold (answer_field h n m i) xs s = Inr s'" and "xs \<noteq> []"
  shows "map_option tr_status (rq_requests (snd s') i) = Some REQ_COMPLETED"
  using assms
proof (induction xs arbitrary: s)
  case (Cons x xs)
  then obtain s1 where one: "answer_field h n m i x s = Inr s1" and rest: "rfold (answer_field h n m i) xs s1 = Inr s'"
    by (auto simp: rbind_eq_Inr)
  show ?case
  proof (cases xs)
    case Nil
    then show ?thesis using one rest by (auto simp: answer_field_def rbind_eq_Inr)
  qed (use Cons.IH rest in simp)
qed simp

text \<open>
  Attaching the claim of a request completes the request whatever its status was,
  declined included, when the claim has fields; and leaves the status as it was when
  the claim has none, although the claim is attached.
\<close>

theorem attach_ignores_status:
  assumes "attach_requested_claim h n i cs db = Inr (cs', db')" and "rq_requests db i = Some r"
  shows "map_option tr_status (rq_requests db' i) =
    Some (if fields_of_request i db = [] then tr_status r else REQ_COMPLETED)"
proof -
  obtain clm s where k: "tr_kind r = Claim_request clm" and loc: "map_option cl_scope (cs_claims cs clm) = Some CLAIM_SCOPE_LOCAL"
    and v: "attach_company_claims_view n (tr_requestee r) [clm] True cs db = Inr s"
    and f: "rfold (answer_field h n (tr_requestee r) i) (fields_of_request i db) s = Inr (cs', db')"
    using assms
    by (auto simp: attach_requested_claim_def attach_claim_from_request_def rbind_eq_Inr get_request_Inr claim_of_def
        get_claim_def of_option_def split: if_split_asm request_kind.split_asm option.split_asm)
  have "snd s = db"
    using v loc by (auto simp: attach_company_claims_view_def rbind_eq_Inr get_claim_def of_option_def Let_def)
  then show ?thesis
    using f assms(2) answer_statuses [OF f] by auto
qed

text \<open>
  A node that supplies another one and asks it to map its connections gets an
  error, since the request looks for a connection in which the requester is the
  buyer; the request and its notification stay behind.
\<close>

theorem connection_request_left_behind:
  assumes "is_directly_connected_to n m (Some chain) sc"
    and "connections_where (\<lambda>c. cn_buyer c = n \<and> cn_supplier c = m \<and> cn_chain c = chain) sc = []"
  shows "snd (connection_request_create sc n m chain status msg db) = Inl (BadRequest ''Node is not connected'') \<and>
    map_option tr_requestee (rq_requests (fst (connection_request_create sc n m chain status msg db)) (rq_next db)) = Some m \<and>
    rq_log (fst (connection_request_create sc n m chain status msg db)) = rq_log db @ [(rq_next db, Request_created)]"
  using assms
  by (simp add: connection_request_create_def get_connection_def insert_request_def log_request_def save_tr_def)

section \<open>On concrete requests\<close>

text \<open>
  Node 5 owns the private claim 2, whose criterion 3 has the text field 4 if \<open>with_field\<close>,
  and has asked node 6 for it; node 6 declined. Node 5 buys from node 8.
\<close>

definition demo_private :: "bool \<Rightarrow> claims_db" where
  "demo_private with_field =
     \<lparr>cs_claims = [2 \<mapsto> \<lparr>cl_name = ''Audit'', cl_type = CLAIM_TYPE_COMPANY, cl_scope = CLAIM_SCOPE_LOCAL,
        cl_proportional = False, cl_removable = True, cl_inheritable = INHERITANCE_TYPE_NONE,
        cl_verified_by = VERIFIED_BY_SECOND_PARTY, cl_verifiers = [], cl_owners = [5], cl_supply_chains = [],
        cl_reference = 2, cl_version = 1, cl_active = True, cl_latest = True, cl_processor = TRACE\<rparr>],
      cs_next_claim = 3,
      cs_criteria = [3 \<mapsto> \<lparr>cr_claim = 2, cr_name = ''Report'', cr_mandatory = True,
        cr_verification = VERIFICATION_TYPE_MANUAL, cr_verifier = None, cr_reference = 3, cr_version = 1\<rparr>],
      cs_next_criterion = 4,
      cs_fields = (if with_field then [4 \<mapsto> \<lparr>cf_criterion = 3, cf_title = ''Year'', cf_options = [],
        cf_type = FIELD_TYPE_TEXT\<rparr>] else Map.empty),
      cs_next_field = 5, cs_attached = Map.empty, cs_next_attached = 2, cs_items = Map.empty, cs_next_item = 2,
      cs_responses = [], cs_logs = [], cs_guardian = [], cs_messages = [], cs_notices = []\<rparr>"

definition no_requests :: request_db where
  "no_requests = \<lparr>rq_requests = Map.empty, rq_next = 2, rq_fields = Map.empty, rq_next_field = 2, rq_log = [], rq_owners = []\<rparr>"

definition demo_asked_claim :: "bool \<Rightarrow> request_db" where
  "demo_asked_claim with_field = fst (projr (claim_request_create 5 6 2 None [] (demo_private with_field) no_requests))"

definition demo_filled :: "bool \<Rightarrow> request_db" where
  "demo_filled with_field =
     (if with_field then projr (claim_field_update 6 2 (Some ''1998'') None (demo_asked_claim with_field))
      else demo_asked_claim with_field)"

definition demo_refused :: "bool \<Rightarrow> request_db" where
  "demo_refused with_field =
     projr (claim_request_update 6 2 (Some REQ_DECLINED) (Some ''no'') (demo_private with_field) (demo_filled with_field))"

definition demo_chain_of :: sc_db where
  "demo_chain_of = \<lparr>sc_nodes = Map.empty, sc_next_node = 9,
     sc_connections = [2 \<mapsto> \<lparr>cn_buyer = 5, cn_supplier = 8, cn_chain = 7, cn_status = CONNECTION_STATUS_CLAIMED,
       cn_active = True, cn_creator = None\<rparr>],
     sc_next_connection = 3, sc_tags = Map.empty, sc_next_tag = 2, sc_invitations = [], sc_access = Map.empty\<rparr>"

definition demo_order :: request_db where
  "demo_order = fst (projr (stock_request_create \<lparr>pi_chain = (\<lambda>_. 7), pi_local = (\<lambda>_. True)\<rparr> demo_chain_of 5 8
     \<lparr>so_connection = 0, so_product = 3, so_quantity = 5000, so_unit = 2, so_price = None, so_currency = None,
      so_claims = [], so_transaction = None\<rparr> None [] no_requests))"

lemma connection_request_left_behind_witness:
  "snd (connection_request_create demo_chain_of 8 5 7 None [] no_requests) = Inl (BadRequest ''Node is not connected'') \<and>
   map_option tr_requestee (rq_requests (fst (connection_request_create demo_chain_of 8 5 7 None [] no_requests))
     (rq_next no_requests)) = Some 5 \<and>
   rq_log (fst (connection_request_create demo_chain_of 8 5 7 None [] no_requests)) =
     rq_log no_requests @ [(rq_next no_requests, Request_created)]"
  by (rule connection_request_left_behind) (code_simp, code_simp)

lemma ok_projr: "is_ok r \<Longrightarrow> r = Inr (fst (projr r), snd (projr r))"
  by (cases r) simp_all

lemma attach_ignores_status_witness:
  "map_option tr_status (rq_requests
      (snd (projr (attach_requested_claim rev 5 2 (demo_private True) (demo_refused True)))) 2) = Some REQ_COMPLETED \<and>
   map_option tr_status (rq_requests
      (snd (projr (attach_requested_claim rev 5 2 (demo_private False) (demo_refused False)))) 2) = Some REQ_DECLINED"
proof
  have ok: "is_ok (attach_requested_claim rev 5 2 (demo_private True) (demo_refused True))"
    "is_ok (attach_requested_claim rev 5 2 (demo_private False) (demo_refused False))" by code_simp+
  have declined: "map_option tr_status (rq_requests (demo_refused b) 2) = Some REQ_DECLINED" for b
    by (cases b; simp only:; code_simp)
  have fields: "fields_of_request 2 (demo_refused True) \<noteq> []" "fields_of_request 2 (demo_refused False) = []"
    by code_simp+
  from declined [of True] obtain r where r: "rq_requests (demo_refused True) 2 = Some r" by auto
  from attach_ignores_status [OF ok_projr [OF ok(1)] r]
  show "map_option tr_status (rq_requests
      (snd (projr (attach_requested_claim rev 5 2 (demo_private True) (demo_refused True)))) 2) = Some REQ_COMPLETED"
    using fields(1) by simp
  from declined [of False] obtain r where r: "rq_requests (demo_refused False) 2 = Some r" by auto
  from attach_ignores_status [OF ok_projr [OF ok(2)] r]
  show "map_option tr_status (rq_requests
      (snd (projr (attach_requested_claim rev 5 2 (demo_private False) (demo_refused False)))) 2) = Some REQ_DECLINED"
    using fields(2) declined [of False] r by simp
qed

lemma stock_request_decisions_witness:
  "\<exists>r msg. rq_requests demo_order 2 = Some r \<and> tr_requestee r = 8 \<and> tr_status r = REQ_PENDING \<and> \<not> tr_deleted r \<and>
     Some ''sold out'' = Some msg \<and>
     rq_log (projr (stock_request_update 8 2 (Some REQ_DECLINED) (Some ''sold out'') False demo_order)) =
       rq_log demo_order @ [(2, Request_declined)] \<and>
     rq_requests (projr (stock_request_update 8 2 (Some REQ_DECLINED) (Some ''sold out'') False demo_order)) =
       (rq_requests demo_order)(2 \<mapsto> r\<lparr>tr_response := msg, tr_status := REQ_DECLINED\<rparr>)"
proof -
  let ?r = "stock_request_update 8 2 (Some REQ_DECLINED) (Some ''sold out'') False demo_order"
  have "is_ok ?r" by code_simp
  then have "?r = Inr (projr ?r)" by (cases ?r) simp_all
  moreover have "length (rq_log (projr ?r)) \<noteq> length (rq_log demo_order)" by code_simp
  then have "projr ?r \<noteq> demo_order" by metis
  ultimately show ?thesis using stock_request_decisions by blast
qed

lemma completed_requests_final_witness:
  "\<exists>r'. rq_requests (projr (sale_completes_request 9 2 (projr (sale_completes_request 7 2 demo_order)))) 2 = Some r' \<and>
     same_parties (the (rq_requests (projr (sale_completes_request 7 2 demo_order)) 2)) r' \<and>
     tr_status r' = REQ_COMPLETED"
proof -
  let ?a = "sale_completes_request 7 2 demo_order"
  let ?b = "sale_completes_request 9 2 (projr ?a)"
  have "is_ok ?b" by code_simp
  then have "?b = Inr (projr ?b)" by (cases ?b) simp_all
  then have run: "tr_step\<^sup>*\<^sup>* (projr ?a) (projr ?b)" by (blast intro: tr_step.sale)
  have "rq_requests (projr ?a) 2 \<noteq> None" by code_simp
  then obtain r where r: "rq_requests (projr ?a) 2 = Some r" by blast
  have "\<not> is_connection_request (tr_kind (the (rq_requests (projr ?a) 2))) \<and>
    tr_status (the (rq_requests (projr ?a) 2)) = REQ_COMPLETED" by code_simp
  moreover have "2 < rq_next (projr ?a)" by code_simp
  ultimately show ?thesis using completed_requests_final [OF run _ r] by (auto simp: r)
qed

end
