(* ===== verification/Farmer_Cards.thy ===== *)
theory Farmer_Cards
  imports Prelude
begin

text \<open>
  The cards of farmers: \<open>NodeCard\<close> and \<open>NodeCardHistory\<close> of \<open>v2/projects/models.py\<close>, the
  request that assigns a card to a node (\<open>NodeCardSerializer\<close> of
  \<open>v2/projects/serializers/project.py\<close>), the card named by a transaction of the mobile
  application, and the synchronisation that writes an external id to a card. Who created
  and updated a row, the instants and the activity log are left out.
\<close>

section \<open>Tables\<close>

definition CARD_STATUS_ACTIVE :: int where
  "CARD_STATUS_ACTIVE = 101"

definition CARD_STATUS_INACTIVE :: int where
  "CARD_STATUS_INACTIVE = 201"

definition CARD_ISSUE_STATUS_NEW :: int where
  "CARD_ISSUE_STATUS_NEW = 101"

definition CARD_ISSUE_STATUS_REISSUE :: int where
  "CARD_ISSUE_STATUS_REISSUE = 201"

definition CARD_ISSUE_STATUS_REMOVED :: int where
  "CARD_ISSUE_STATUS_REMOVED = 301"

record node_card =
  nc_external_id :: "string option"
  nc_node :: "nat option"
  nc_card_id :: string
  nc_fairid :: string
  nc_status :: int
  nc_reference :: "nat option"

record card_history =
  ch_node :: "nat option"
  ch_card_id :: string
  ch_fairid :: string
  ch_status :: int

record farmer_reference =
  ref_number :: string
  ref_kind :: nat
  ref_farmer :: "nat option"

text \<open>
  The history is a list with the newest entry first, as \<open>ordering\<close> gives it; the key of
  an entry is its distance from the end. \<open>cd_kinds\<close> are the rows of \<open>Reference\<close> whose name
  is that of the card reference, newest first; \<open>cd_farms\<close> the nodes of type farm.
\<close>

record card_db =
  cd_cards :: "nat \<rightharpoonup> node_card"
  cd_next_card :: nat
  cd_history :: "card_history list"
  cd_references :: "nat \<rightharpoonup> farmer_reference"
  cd_next_reference :: nat
  cd_kinds :: "nat list"
  cd_farms :: "nat list"

definition save_row :: "nat \<Rightarrow> node_card \<Rightarrow> card_db \<Rightarrow> card_db" where
  "save_row i c db = db\<lparr>cd_cards := (cd_cards db)(i \<mapsto> c)\<rparr>"

definition update_cards :: "(nat \<Rightarrow> node_card \<Rightarrow> bool) \<Rightarrow> (node_card \<Rightarrow> node_card) \<Rightarrow> card_db \<Rightarrow> card_db" where
  "update_cards p f db = db\<lparr>cd_cards := (\<lambda>i. map_option (\<lambda>c. if p i c then f c else c) (cd_cards db i))\<rparr>"

definition cards_where :: "(node_card \<Rightarrow> bool) \<Rightarrow> card_db \<Rightarrow> nat list" where
  "cards_where p db = [i\<leftarrow>[0..<cd_next_card db]. case cd_cards db i of Some c \<Rightarrow> p c | None \<Rightarrow> False]"

section \<open>Saving a card\<close>

text \<open>
  \<open>_create_history\<close>. An entry is found with its key, to compare it with another. Clearing
  the key of an entry and saving it adds a copy with a new key, which the entry in memory
  then has.
\<close>

fun find_history :: "(card_history \<Rightarrow> bool) \<Rightarrow> card_history list \<Rightarrow> (nat \<times> card_history) option" where
  "find_history p [] = None"
| "find_history p (h # hs) = (if p h then Some (length hs, h) else find_history p hs)"

definition handed_out :: "card_history \<Rightarrow> bool" where
  "handed_out h \<longleftrightarrow> ch_status h \<in> {CARD_ISSUE_STATUS_REISSUE, CARD_ISSUE_STATUS_NEW}"

definition removed_copy :: "card_history \<Rightarrow> card_history list \<Rightarrow> card_history list" where
  "removed_copy h hs = h\<lparr>ch_status := CARD_ISSUE_STATUS_REMOVED\<rparr> # hs"

definition create_history :: "node_card \<Rightarrow> card_db \<Rightarrow> card_db" where
  "create_history c db =
     (let hs = cd_history db;
          last_card = (case find_history (\<lambda>h. ch_card_id h = nc_card_id c) hs of
                         Some x \<Rightarrow> Some x
                       | None \<Rightarrow> find_history (\<lambda>h. ch_fairid h = nc_fairid c) hs);
          last_node = find_history (\<lambda>h. ch_node h = nc_node c \<and> handed_out h) hs;
          status = (case last_card of
                      None \<Rightarrow> CARD_ISSUE_STATUS_NEW
                    | Some _ \<Rightarrow> if nc_status c = CARD_STATUS_ACTIVE then CARD_ISSUE_STATUS_REISSUE
                               else CARD_ISSUE_STATUS_REMOVED);
          (hs1, card_key) = (case last_card of
                      None \<Rightarrow> (hs, None)
                    | Some (k, h) \<Rightarrow>
                        if handed_out h \<and> (\<exists>n\<in>set_option (ch_node h). n \<in> set (cd_farms db))
                        then (removed_copy h hs, Some (length hs)) else (hs, Some k));
          hs2 = (case last_node of
                      None \<Rightarrow> hs1
                    | Some (k, h) \<Rightarrow>
                        if (\<exists>n\<in>set_option (ch_node h). n \<in> set (cd_farms db)) \<and> card_key \<noteq> Some k
                        then removed_copy h hs1 else hs1)
      in db\<lparr>cd_history := \<lparr>ch_node = nc_node c, ch_card_id = nc_card_id c, ch_fairid = nc_fairid c,
                            ch_status = status\<rparr> # hs2\<rparr>)"

text \<open>\<open>NodeCard.node_changed\<close>, with the row as it is stored; \<open>pk\<close> is unset for a new card.\<close>

definition node_changed :: "nat option \<Rightarrow> node_card \<Rightarrow> card_db \<Rightarrow> bool result" where
  "node_changed pk c db =
     (if nc_node c = None then Inr False
      else case pk of
        None \<Rightarrow> Inr True
      | Some i \<Rightarrow> rbind (of_option DoesNotExist (cd_cards db i)) (\<lambda>old. Inr (nc_node old \<noteq> nc_node c)))"

text \<open>\<open>FarmerReference.save\<close>: \<open>full_clean\<close> wants a number of at most 100 characters and one row per farmer.\<close>

definition references_of :: "nat \<Rightarrow> nat \<Rightarrow> card_db \<Rightarrow> nat list" where
  "references_of kind n db =
     [r\<leftarrow>[0..<cd_next_reference db].
        case cd_references db r of Some x \<Rightarrow> ref_kind x = kind \<and> ref_farmer x = Some n | None \<Rightarrow> False]"

definition clean_number :: "string \<Rightarrow> unit result" where
  "clean_number s =
     rbind (ensure (s \<noteq> []) (ValidationError ''This field cannot be blank.'')) (\<lambda>_.
       ensure (length s \<le> 100) (ValidationError ''Ensure this value has at most 100 characters''))"

definition create_reference :: "nat \<Rightarrow> node_card \<Rightarrow> card_db \<Rightarrow> (card_db \<times> nat) result" where
  "create_reference n c db =
     (if cd_kinds db = [] then Inl (ValidationError ''reference is missing from reference table'')
      else
        (let kind = last (cd_kinds db); number = (if nc_fairid c \<noteq> [] then nc_fairid c else nc_card_id c)
         in case references_of kind n db of
              [] \<Rightarrow> rbind (clean_number number) (\<lambda>_.
                     let r = cd_next_reference db in
                     Inr (db\<lparr>cd_references := (cd_references db)(r \<mapsto> \<lparr>ref_number = number, ref_kind = kind, ref_farmer = Some n\<rparr>),
                            cd_next_reference := Suc r\<rparr>, r))
            | [r] \<Rightarrow> rbind (clean_number number) (\<lambda>_.
                     Inr (db\<lparr>cd_references := (\<lambda>i. if i = r then map_option (\<lambda>x. x\<lparr>ref_number := number\<rparr>) (cd_references db i)
                                                   else cd_references db i)\<rparr>, r))
            | _ \<Rightarrow> Inl MultipleObjectsReturned))"

definition update_or_create_reference :: "nat option \<Rightarrow> node_card \<Rightarrow> card_db \<Rightarrow> card_db result" where
  "update_or_create_reference pk c db =
     (case nc_node c of
        None \<Rightarrow> Inl PyAttributeError
      | Some n \<Rightarrow>
          if n \<notin> set (cd_farms db) then Inr db
          else case nc_reference c of
            Some r \<Rightarrow>
              rbind (of_option DoesNotExist (cd_references db r)) (\<lambda>x.
                let free = (\<lambda>y. if ref_farmer y = Some n \<and> ref_kind y = ref_kind x then y\<lparr>ref_farmer := None\<rparr> else y);
                    refs = (\<lambda>i. map_option free (cd_references db i))
                in Inr (db\<lparr>cd_references := (\<lambda>i. if i = r then map_option (\<lambda>y. y\<lparr>ref_farmer := Some n\<rparr>) (refs i) else refs i)\<rparr>))
          | None \<Rightarrow>
              rbind (create_reference n c db) (\<lambda>(db1, r).
                let db2 = update_cards (\<lambda>i d. nc_reference d = Some r)
                            (\<lambda>d. d\<lparr>nc_reference := None, nc_status := CARD_STATUS_INACTIVE\<rparr>) db1
                in Inr (case pk of None \<Rightarrow> db2
                        | Some i \<Rightarrow> update_cards (\<lambda>j d. j = i) (\<lambda>d. d\<lparr>nc_reference := Some r\<rparr>) db2)))"

text \<open>
  \<open>NodeCard.save\<close>, in one database transaction: the object in memory, whose reference is
  the one it was loaded with, is written last.
\<close>

definition save_card :: "nat option \<Rightarrow> node_card \<Rightarrow> card_db \<Rightarrow> (card_db \<times> nat) result" where
  "save_card pk c db =
     rbind (node_changed pk c db) (\<lambda>changed.
     rbind (update_or_create_reference pk c (if changed then create_history c db else db)) (\<lambda>db1.
       case pk of
         Some i \<Rightarrow> Inr (save_row i c db1, i)
       | None \<Rightarrow> (let i = cd_next_card db1 in Inr ((save_row i c db1)\<lparr>cd_next_card := Suc i\<rparr>, i))))"

section \<open>Requests\<close>

definition deactivate_old_cards :: "nat option \<Rightarrow> card_db \<Rightarrow> card_db" where
  "deactivate_old_cards node = update_cards (\<lambda>i c. nc_node c = node) (\<lambda>c. c\<lparr>nc_status := CARD_STATUS_INACTIVE\<rparr>)"

text \<open>
  The validated data of \<open>NodeCardSerializer\<close>; the outer option of the node is an absent key. A card id or
  fair id that is absent or null is \<open>None\<close>.
\<close>

record card_data =
  cf_node :: "nat option option"
  cf_card_id :: "string option"
  cf_fairid :: "string option"
  cf_external_id :: "string option"

definition text_or_empty :: "string option \<Rightarrow> string" where
  "text_or_empty s = (case s of None \<Rightarrow> [] | Some t \<Rightarrow> t)"

definition card_lookup :: "string option \<Rightarrow> string option \<Rightarrow> card_db \<Rightarrow> nat list" where
  "card_lookup card_id fairid db =
     (if text_or_empty card_id \<noteq> [] then cards_where (\<lambda>c. nc_card_id c = text_or_empty card_id) db
      else case fairid of None \<Rightarrow> [] | Some f \<Rightarrow> cards_where (\<lambda>c. nc_fairid c = f) db)"

text \<open>
  \<open>NodeCardSerializer.create\<close>, in one database transaction. What saving a card that was
  found raises is caught and reported, and the request goes on; when several cards were
  found, with the variable \<open>card\<close> unbound. What creating a card raises is not caught.
\<close>

definition assign_card :: "card_data \<Rightarrow> card_db \<Rightarrow> (card_db \<times> nat) result" where
  "assign_card d db =
     rbind (of_option PyKeyError (cf_node d)) (\<lambda>node.
     let db1 = deactivate_old_cards node db;
         card = \<lparr>nc_external_id = cf_external_id d, nc_node = node, nc_card_id = text_or_empty (cf_card_id d),
                 nc_fairid = text_or_empty (cf_fairid d), nc_status = CARD_STATUS_ACTIVE, nc_reference = None\<rparr>
     in case card_lookup (cf_card_id d) (cf_fairid d) db1 of
          [] \<Rightarrow> save_card None card db1
        | [i] \<Rightarrow>
            rbind (of_option DoesNotExist (cd_cards db1 i)) (\<lambda>old.
              if node = None then Inl PyAttributeError
              else case save_card (Some i) (card\<lparr>nc_reference := nc_reference old\<rparr>) db1 of
                     Inr (db2, k) \<Rightarrow> Inr (db2, i)
                   | Inl e \<Rightarrow> Inr (db1, i))
        | _ \<Rightarrow> Inl PyNameError)"

text \<open>
  \<open>validate\<close> of the application's transactions: the card that authorises a transaction.
\<close>

definition transaction_card :: "string option \<Rightarrow> string option \<Rightarrow> card_db \<Rightarrow> nat option result" where
  "transaction_card card_id fairid db =
     (let found = (if text_or_empty card_id \<noteq> [] then cards_where (\<lambda>c. nc_card_id c = text_or_empty card_id) db
                   else if text_or_empty fairid \<noteq> [] then cards_where (\<lambda>c. nc_fairid c = text_or_empty fairid) db
                   else [])
      in case found of
           [i] \<Rightarrow> Inr (Some i)
         | _ \<Rightarrow> if text_or_empty card_id \<noteq> [] \<or> text_or_empty fairid \<noteq> []
                then Inl (ValidationError ''Invalid Card. Transaction not authorized'') else Inr None)"

text \<open>
  \<open>sync_farmer_cards\<close> and \<open>sync_unassigned_cards\<close> once the other service has answered with
  the external id of the card.
\<close>

definition synced_card :: "nat \<Rightarrow> string \<Rightarrow> card_db \<Rightarrow> (card_db \<times> nat) result" where
  "synced_card i external db =
     rbind (of_option DoesNotExist (cd_cards db i)) (\<lambda>c. save_card (Some i) (c\<lparr>nc_external_id := Some external\<rparr>) db)"

end
