(* ===== verification/Card_Runs.thy ===== *)
theory Card_Runs
  imports Farmer_Cards
begin

text \<open>
  Runs of requests on the cards of farmers: a node has at most one active card, a farmer one
  reference, and no card ever refers to its reference. Then single requests that do what
  their documentation does not say.
\<close>

section \<open>What saving a card does\<close>

lemma update_cards_sel [simp]:
  "cd_cards (update_cards p f db) i = map_option (\<lambda>c. if p i c then f c else c) (cd_cards db i)"
  "cd_next_card (update_cards p f db) = cd_next_card db"
  "cd_history (update_cards p f db) = cd_history db"
  "cd_references (update_cards p f db) = cd_references db"
  "cd_next_reference (update_cards p f db) = cd_next_reference db"
  "cd_kinds (update_cards p f db) = cd_kinds db"
  "cd_farms (update_cards p f db) = cd_farms db"
  by (simp_all add: update_cards_def)

lemma create_history_sel [simp]:
  "cd_cards (create_history c db) = cd_cards db"
  "cd_next_card (create_history c db) = cd_next_card db"
  "cd_references (create_history c db) = cd_references db"
  "cd_next_reference (create_history c db) = cd_next_reference db"
  "cd_kinds (create_history c db) = cd_kinds db"
  "cd_farms (create_history c db) = cd_farms db"
  by (simp_all add: create_history_def Let_def split: prod.splits)

definition references_ok :: "card_db \<Rightarrow> bool" where
  "references_ok db \<longleftrightarrow>
     (\<forall>r x. cd_references db r = Some x \<longrightarrow> r < cd_next_reference db) \<and>
     (\<forall>r s x y. cd_references db r = Some x \<and> cd_references db s = Some y \<and> ref_farmer x \<noteq> None \<and>
        ref_farmer x = ref_farmer y \<and> ref_kind x = ref_kind y \<longrightarrow> r = s)"

definition unreferenced :: "card_db \<Rightarrow> bool" where
  "unreferenced db \<longleftrightarrow> (\<forall>i c. cd_cards db i = Some c \<longrightarrow> nc_reference c = None)"

lemma references_of_Nil:
  "references_ok db \<Longrightarrow> references_of kind n db = [] \<Longrightarrow> cd_references db r = Some x \<Longrightarrow>
     ref_kind x = kind \<Longrightarrow> ref_farmer x \<noteq> Some n"
  by (force simp: references_of_def references_ok_def filter_empty_conv split: option.split_asm)

text \<open>Creating or renumbering the reference of a farmer leaves the cards and keeps one reference per farmer.\<close>

lemma create_reference_ok:
  assumes "create_reference n c db = Inr (db', r)" and ok: "references_ok db"
  shows "references_ok db'" and "cd_cards db' = cd_cards db" and "cd_next_card db' = cd_next_card db"
    and "cd_history db' = cd_history db" and "cd_farms db' = cd_farms db" and "cd_kinds db' = cd_kinds db"
proof -
  define kind where "kind = last (cd_kinds db)"
  define number where "number = (if nc_fairid c \<noteq> [] then nc_fairid c else nc_card_id c)"
  consider (new) "references_of kind n db = []" "r = cd_next_reference db"
      "db' = db\<lparr>cd_references := (cd_references db)(r \<mapsto> \<lparr>ref_number = number, ref_kind = kind, ref_farmer = Some n\<rparr>),
                cd_next_reference := Suc r\<rparr>"
    | (old) "db' = db\<lparr>cd_references := (\<lambda>i. if i = r then map_option (\<lambda>x. x\<lparr>ref_number := number\<rparr>) (cd_references db i)
                                                   else cd_references db i)\<rparr>"
    using assms(1)
    by (fastforce simp: create_reference_def Let_def rbind_eq_Inr kind_def [symmetric] number_def [symmetric]
        split: if_split_asm list.split_asm)
  note cases = this
  have "references_ok db' \<and> cd_cards db' = cd_cards db \<and> cd_next_card db' = cd_next_card db \<and>
    cd_history db' = cd_history db \<and> cd_farms db' = cd_farms db \<and> cd_kinds db' = cd_kinds db"
  proof (cases rule: cases)
    case new
    have "\<forall>s x. cd_references db s = Some x \<and> ref_kind x = kind \<longrightarrow> ref_farmer x \<noteq> Some n"
      using references_of_Nil [OF ok new(1)] by blast
    then show ?thesis
      using ok new(2,3) unfolding references_ok_def by (auto simp: less_Suc_eq) metis+
  next
    case old
    then show ?thesis using ok unfolding references_ok_def by (auto split: if_split_asm)
  qed
  then show "references_ok db'" "cd_cards db' = cd_cards db" "cd_next_card db' = cd_next_card db"
    "cd_history db' = cd_history db" "cd_farms db' = cd_farms db" "cd_kinds db' = cd_kinds db" by blast+
qed

text \<open>While no card has a reference, taking a reference from all cards changes none.\<close>

lemma untouched:
  assumes "unreferenced db"
  shows "update_cards (\<lambda>i d. nc_reference d = Some r) f db = db"
proof -
  have "map_option (\<lambda>d. if nc_reference d = Some r then f d else d) (cd_cards db j) = cd_cards db j" for j
    using assms by (cases "cd_cards db j") (auto simp: unreferenced_def)
  then show ?thesis by (simp add: update_cards_def)
qed

lemma update_or_create_reference_ok:
  assumes "update_or_create_reference pk c db = Inr db'" and "nc_reference c = None"
    and "references_ok db" and "unreferenced db"
  shows "references_ok db' \<and> cd_next_card db' = cd_next_card db \<and> cd_history db' = cd_history db \<and>
    cd_farms db' = cd_farms db \<and> cd_kinds db' = cd_kinds db \<and>
    (\<forall>j. pk \<noteq> Some j \<longrightarrow> cd_cards db' j = cd_cards db j)"
proof -
  obtain n where n: "nc_node c = Some n"
    using assms(1) by (auto simp: update_or_create_reference_def split: option.split_asm)
  show ?thesis
  proof (cases "n \<in> set (cd_farms db)")
    case False
    then show ?thesis using assms n by (simp add: update_or_create_reference_def)
  next
    case True
    then obtain db1 r where c: "create_reference n c db = Inr (db1, r)"
      and w: "db' = (let db2 = update_cards (\<lambda>i d. nc_reference d = Some r)
                (\<lambda>d. d\<lparr>nc_reference := None, nc_status := CARD_STATUS_INACTIVE\<rparr>) db1
              in case pk of None \<Rightarrow> db2 | Some i \<Rightarrow> update_cards (\<lambda>j d. j = i) (\<lambda>d. d\<lparr>nc_reference := Some r\<rparr>) db2)"
      using assms(1,2) n by (auto simp: update_or_create_reference_def rbind_eq_Inr Let_def)
    note k = create_reference_ok [OF c assms(3)]
    have "unreferenced db1" using assms(4) k(2) by (simp add: unreferenced_def)
    then have "db' = (case pk of None \<Rightarrow> db1 | Some i \<Rightarrow> update_cards (\<lambda>j d. j = i) (\<lambda>d. d\<lparr>nc_reference := Some r\<rparr>) db1)"
      using w by (simp add: untouched Let_def)
    then show ?thesis
      using k by (cases pk) (auto simp: references_ok_def option.map_ident)
  qed
qed

definition cards_ok :: "card_db \<Rightarrow> bool" where
  "cards_ok db \<longleftrightarrow> references_ok db \<and> unreferenced db \<and>
     (\<forall>i c. cd_cards db i = Some c \<longrightarrow> i < cd_next_card db) \<and>
     (\<forall>i j c d. cd_cards db i = Some c \<and> cd_cards db j = Some d \<and> nc_node c \<noteq> None \<and> nc_node c = nc_node d \<and>
        nc_status c = CARD_STATUS_ACTIVE \<and> nc_status d = CARD_STATUS_ACTIVE \<longrightarrow> i = j)"

text \<open>Saving a card without a reference writes its row, and no other.\<close>

lemma save_card_ok:
  assumes "save_card pk c db = Inr (db', i)" and "nc_reference c = None"
    and "references_ok db" and "unreferenced db" and "pk \<noteq> None \<longrightarrow> the pk < cd_next_card db"
  shows "references_ok db' \<and> cd_farms db' = cd_farms db \<and> cd_kinds db' = cd_kinds db \<and>
    cd_cards db' = (cd_cards db)(i \<mapsto> c) \<and> cd_next_card db' = max (cd_next_card db) (Suc i) \<and>
    i = (case pk of None \<Rightarrow> cd_next_card db | Some k \<Rightarrow> k) \<and>
    (\<exists>ch. node_changed pk c db = Inr ch \<and>
       cd_history db' = (if ch then cd_history (create_history c db) else cd_history db))"
proof -
  obtain ch db1 where n: "node_changed pk c db = Inr ch"
    and u: "update_or_create_reference pk c (if ch then create_history c db else db) = Inr db1"
    and w: "(case pk of Some k \<Rightarrow> Inr (save_row k c db1, k)
       | None \<Rightarrow> (let k = cd_next_card db1 in Inr ((save_row k c db1)\<lparr>cd_next_card := Suc k\<rparr>, k))) =
       (Inr (db', i) :: (card_db \<times> nat) result)"
    using assms(1) by (auto simp: save_card_def rbind_eq_Inr)
  have "references_ok (if ch then create_history c db else db)" "unreferenced (if ch then create_history c db else db)"
    using assms(3,4) by (simp_all add: references_ok_def unreferenced_def)
  from update_or_create_reference_ok [OF u assms(2) this]
  have k: "references_ok db1" "cd_next_card db1 = cd_next_card db" "cd_farms db1 = cd_farms db" "cd_kinds db1 = cd_kinds db"
    "\<forall>j. pk \<noteq> Some j \<longrightarrow> cd_cards db1 j = cd_cards db j"
    "cd_history db1 = (if ch then cd_history (create_history c db) else cd_history db)" by simp_all
  show ?thesis
    using w k assms(5) n
    by (cases pk) (auto simp: Let_def save_row_def references_ok_def fun_eq_iff max_def)
qed

lemma status_distinct [simp]:
  "CARD_STATUS_ACTIVE \<noteq> CARD_STATUS_INACTIVE" "CARD_STATUS_INACTIVE \<noteq> CARD_STATUS_ACTIVE"
  by (simp_all add: CARD_STATUS_ACTIVE_def CARD_STATUS_INACTIVE_def)

lemma deactivated_row:
  assumes "cd_cards (deactivate_old_cards node db) j = Some c"
  obtains b where "cd_cards db j = Some b" and "nc_node c = nc_node b" and "nc_reference c = nc_reference b"
    and "nc_status c = (if nc_node b = node then CARD_STATUS_INACTIVE else nc_status b)"
proof -
  from assms obtain b where b: "cd_cards db j = Some b"
    and c: "(if nc_node b = node then b\<lparr>nc_status := CARD_STATUS_INACTIVE\<rparr> else b) = c"
    by (auto simp: deactivate_old_cards_def)
  show ?thesis by (rule that [OF b]) (simp_all add: c [symmetric])
qed

lemma deactivated:
  "cd_cards (deactivate_old_cards node db) j = Some c \<Longrightarrow> nc_node c = node \<Longrightarrow> nc_status c = CARD_STATUS_INACTIVE"
  by (erule deactivated_row) simp

lemma cards_ok_deactivate:
  assumes "cards_ok db"
  shows "cards_ok (deactivate_old_cards node db)"
proof -
  have r: "references_ok db" "unreferenced db" and b: "\<And>j d. cd_cards db j = Some d \<Longrightarrow> j < cd_next_card db"
    and u: "\<And>j k d e. cd_cards db j = Some d \<Longrightarrow> cd_cards db k = Some e \<Longrightarrow> nc_node d \<noteq> None \<Longrightarrow>
      nc_node d = nc_node e \<Longrightarrow> nc_status d = CARD_STATUS_ACTIVE \<Longrightarrow> nc_status e = CARD_STATUS_ACTIVE \<Longrightarrow> j = k"
    using assms unfolding cards_ok_def by blast+
  show ?thesis unfolding cards_ok_def
  proof (intro conjI allI impI)
    show "references_ok (deactivate_old_cards node db)"
      using r(1) by (simp add: references_ok_def deactivate_old_cards_def)
    show "unreferenced (deactivate_old_cards node db)"
      using r(2) unfolding unreferenced_def by (metis deactivated_row)
    show "i < cd_next_card (deactivate_old_cards node db)" if "cd_cards (deactivate_old_cards node db) i = Some c" for i c
      using that b by (auto simp: deactivate_old_cards_def elim: deactivated_row)
    fix i j c d
    assume h: "cd_cards (deactivate_old_cards node db) i = Some c \<and> cd_cards (deactivate_old_cards node db) j = Some d \<and>
      nc_node c \<noteq> None \<and> nc_node c = nc_node d \<and> nc_status c = CARD_STATUS_ACTIVE \<and> nc_status d = CARD_STATUS_ACTIVE"
    obtain c0 where c0: "cd_cards db i = Some c0" "nc_node c = nc_node c0"
      "nc_status c = (if nc_node c0 = node then CARD_STATUS_INACTIVE else nc_status c0)"
      using h deactivated_row by blast
    obtain d0 where d0: "cd_cards db j = Some d0" "nc_node d = nc_node d0"
      "nc_status d = (if nc_node d0 = node then CARD_STATUS_INACTIVE else nc_status d0)"
      using h deactivated_row by blast
    show "i = j" using u [OF c0(1) d0(1)] h c0(2,3) d0(2,3) by (auto split: if_split_asm)
  qed
qed

text \<open>Making a card the active one of a node that has no active card.\<close>

lemma cards_ok_save:
  assumes "save_card pk c db = Inr (db', i)" and ok: "cards_ok db" and "nc_reference c = None"
    and "pk \<noteq> None \<longrightarrow> cd_cards db (the pk) \<noteq> None"
    and "\<And>j d. cd_cards db j = Some d \<Longrightarrow> pk \<noteq> Some j \<Longrightarrow> nc_node d = nc_node c \<Longrightarrow> nc_node c \<noteq> None \<Longrightarrow>
      nc_status c = CARD_STATUS_ACTIVE \<Longrightarrow> nc_status d \<noteq> CARD_STATUS_ACTIVE"
  shows "cards_ok db'"
proof -
  have r: "references_ok db" "unreferenced db" and b: "\<And>j d. cd_cards db j = Some d \<Longrightarrow> j < cd_next_card db"
    and u: "\<And>j k d e. cd_cards db j = Some d \<Longrightarrow> cd_cards db k = Some e \<Longrightarrow> nc_node d \<noteq> None \<Longrightarrow>
      nc_node d = nc_node e \<Longrightarrow> nc_status d = CARD_STATUS_ACTIVE \<Longrightarrow> nc_status e = CARD_STATUS_ACTIVE \<Longrightarrow> j = k"
    using ok unfolding cards_ok_def by blast+
  have "pk \<noteq> None \<longrightarrow> the pk < cd_next_card db" using assms(4) b by auto
  from save_card_ok [OF assms(1,3) r this]
  have s: "references_ok db'" "cd_cards db' = (cd_cards db)(i \<mapsto> c)" "cd_next_card db' = max (cd_next_card db) (Suc i)"
    and i: "i = (case pk of None \<Rightarrow> cd_next_card db | Some k \<Rightarrow> k)" by simp_all
  have other: "pk \<noteq> Some j" if "cd_cards db j = Some d" "j \<noteq> i" for j d using that i by (auto split: option.splits)
  show ?thesis unfolding cards_ok_def
  proof (intro conjI allI impI)
    show "references_ok db'" by (rule s(1))
    show "unreferenced db'" using r(2) assms(3) by (simp add: s(2) unreferenced_def)
    show "j < cd_next_card db'" if "cd_cards db' j = Some d" for j d
      using that b by (auto simp: s(2,3) less_max_iff_disj split: if_split_asm)
    fix j k d e
    assume h: "cd_cards db' j = Some d \<and> cd_cards db' k = Some e \<and> nc_node d \<noteq> None \<and> nc_node d = nc_node e \<and>
        nc_status d = CARD_STATUS_ACTIVE \<and> nc_status e = CARD_STATUS_ACTIVE"
    then show "j = k"
      using u [of j d k e] assms(5) [of j d] assms(5) [of k e] other [of j d] other [of k e]
      by (auto simp: s(2) split: if_split_asm)
  qed
qed

inductive card_step :: "card_db \<Rightarrow> card_db \<Rightarrow> bool" where
  assign: "assign_card d db = Inr (db', i) \<Longrightarrow> card_step db db'"
| sync: "synced_card i external db = Inr (db', k) \<Longrightarrow> card_step db db'"

lemma card_lookup_stored: "card_lookup a b db = i # rest \<Longrightarrow> cd_cards db i \<noteq> None"
  by (auto simp: card_lookup_def cards_where_def filter_eq_Cons_iff split: if_split_asm option.split_asm)

lemma assign_card_ok:
  assumes "assign_card d db = Inr (db', i)" and ok: "cards_ok db"
  shows "cards_ok db'"
proof -
  obtain node where node: "cf_node d = Some node" using assms(1) by (auto simp: assign_card_def rbind_eq_Inr)
  define db1 where "db1 = deactivate_old_cards node db"
  define card where "card = \<lparr>nc_external_id = cf_external_id d, nc_node = node, nc_card_id = text_or_empty (cf_card_id d),
    nc_fairid = text_or_empty (cf_fairid d), nc_status = CARD_STATUS_ACTIVE, nc_reference = None\<rparr>"
  have ok1: "cards_ok db1" unfolding db1_def by (rule cards_ok_deactivate [OF ok])
  have free: "nc_status x \<noteq> CARD_STATUS_ACTIVE" if "cd_cards db1 j = Some x" "nc_node x = node" for j x
    using deactivated [of node db j x] that by (simp add: db1_def CARD_STATUS_ACTIVE_def CARD_STATUS_INACTIVE_def)
  consider (new) "save_card None card db1 = Inr (db', i)"
    | (found) old k where "card_lookup (cf_card_id d) (cf_fairid d) db1 = [i]" "cd_cards db1 i = Some old"
        "save_card (Some i) (card\<lparr>nc_reference := nc_reference old\<rparr>) db1 = Inr (db', k)"
    | (failed) "db' = db1"
    using assms(1)
    by (auto simp: assign_card_def node Let_def rbind_eq_Inr db1_def [symmetric] card_def [symmetric]
        split: list.split_asm if_split_asm sum.split_asm)
  then show ?thesis
  proof cases
    case new
    then show ?thesis by (rule cards_ok_save [OF _ ok1]) (auto simp: card_def dest: free)
  next
    case found
    have "nc_reference old = None" using ok1 found(2) by (auto simp: cards_ok_def unreferenced_def)
    then show ?thesis by (intro cards_ok_save [OF found(3) ok1]) (auto simp: card_def found(2) dest: free)
  next
    case failed
    then show ?thesis using ok1 by simp
  qed
qed

lemma synced_card_ok:
  assumes "synced_card i external db = Inr (db', k)" and ok: "cards_ok db"
  shows "cards_ok db'"
proof -
  obtain c where c: "cd_cards db i = Some c" and s: "save_card (Some i) (c\<lparr>nc_external_id := Some external\<rparr>) db = Inr (db', k)"
    using assms(1) by (auto simp: synced_card_def rbind_eq_Inr)
  show ?thesis
    by (rule cards_ok_save [OF s ok]) (use ok c in \<open>auto simp: cards_ok_def unreferenced_def\<close>)
qed

lemma card_step_ok: "card_step db db' \<Longrightarrow> cards_ok db \<Longrightarrow> cards_ok db'"
  by (erule card_step.cases) (auto intro: assign_card_ok synced_card_ok)


section \<open>Single requests\<close>

text \<open>
  A card the system knows whose saving fails, here for want of the kind of reference, is
  reported as assigned; the farmer's earlier cards are inactive all the same.
\<close>

lemma failed_assignment_accepted:
  assumes "cf_node d = Some (Some n)" and "n \<in> set (cd_farms db)" and "cd_kinds db = []"
    and "card_lookup (cf_card_id d) (cf_fairid d) (deactivate_old_cards (Some n) db) = [i]"
    and "\<forall>c. cd_cards db i = Some c \<longrightarrow> nc_reference c = None"
  shows "assign_card d db = Inr (deactivate_old_cards (Some n) db, i)"
proof -
  define db1 where "db1 = deactivate_old_cards (Some n) db"
  obtain old where old: "cd_cards db1 i = Some old"
    using card_lookup_stored [OF assms(4)] by (auto simp: db1_def)
  then have "nc_reference old = None" using assms(5) unfolding db1_def by (auto elim: deactivated_row)
  moreover have "cd_kinds db1 = []" "n \<in> set (cd_farms db1)" using assms(2,3) by (simp_all add: db1_def deactivate_old_cards_def)
  ultimately show ?thesis
    using assms(1,4) old
    by (simp add: assign_card_def Let_def save_card_def update_or_create_reference_def create_reference_def
        node_changed_def db1_def [symmetric])
qed

text \<open>A card that belongs to no node cannot be saved, so that synchronising it fails after the other service has it.\<close>

lemma unassigned_card_not_synced:
  "cd_cards db i = Some c \<Longrightarrow> nc_node c = None \<Longrightarrow> synced_card i external db = Inl PyAttributeError"
  by (simp add: synced_card_def save_card_def node_changed_def update_or_create_reference_def)

text \<open>A card that is inactive, lost or blocked authorises a transaction as an active one does.\<close>

lemma cards_where_status:
  "(\<And>c. p (c\<lparr>nc_status := st\<rparr>) = p c) \<Longrightarrow>
   cards_where p (update_cards q (\<lambda>c. c\<lparr>nc_status := st\<rparr>) db) = cards_where p db"
  unfolding cards_where_def by (rule filter_cong) (auto split: option.splits)

lemma transaction_card_ignores_status:
  "transaction_card a b (update_cards q (\<lambda>c. c\<lparr>nc_status := st\<rparr>) db) = transaction_card a b db"
  by (simp add: transaction_card_def cards_where_status)

section \<open>A card without a printed id\<close>

lemma find_history_None: "find_history p hs = None \<longleftrightarrow> (\<forall>h \<in> set hs. \<not> p h)"
  by (induction hs) auto

lemma find_history_in: "find_history p hs = Some (k, h) \<Longrightarrow> h \<in> set hs \<and> p h"
  by (induction hs) (auto split: if_split_asm)

text \<open>
  When a new card without a fair id is given to a farmer who had none, the history says
  that the last card without a fair id was taken from the farmer it belongs to, and that
  the new card is reissued, although that farmer keeps his card as it was.
\<close>

lemma new_card_removes_strangers:
  assumes "assign_card d db = Inr (db', i)" and "cards_ok db"
    and "cf_node d = Some (Some n)" and "cf_card_id d = Some x" and "x \<noteq> []" and "text_or_empty (cf_fairid d) = []"
    and "cards_where (\<lambda>c. nc_card_id c = x) db = []" and "\<forall>h \<in> set (cd_history db). ch_card_id h \<noteq> x \<and> ch_node h \<noteq> Some n"
    and "find_history (\<lambda>h. ch_fairid h = []) (cd_history db) = Some (k, h)"
    and "handed_out h" and "ch_node h = Some m" and "m \<in> set (cd_farms db)"
    and "cd_cards db j = Some c" and "nc_node c = Some m"
  shows "m \<noteq> n \<and> cd_cards db' j = Some c \<and>
    cd_history db' = \<lparr>ch_node = Some n, ch_card_id = x, ch_fairid = [], ch_status = CARD_ISSUE_STATUS_REISSUE\<rparr> #
      h\<lparr>ch_status := CARD_ISSUE_STATUS_REMOVED\<rparr> # cd_history db"
proof -
  define db1 where "db1 = deactivate_old_cards (Some n) db"
  define card where "card = \<lparr>nc_external_id = cf_external_id d, nc_node = Some n, nc_card_id = x,
    nc_fairid = [], nc_status = CARD_STATUS_ACTIVE, nc_reference = None\<rparr>"
  have "card_lookup (cf_card_id d) (cf_fairid d) db1 = []"
    using assms(4,5,7) by (simp add: card_lookup_def text_or_empty_def db1_def deactivate_old_cards_def cards_where_status)
  then have save: "save_card None card db1 = Inr (db', i)"
    using assms(1,3,4,6) by (simp add: assign_card_def Let_def db1_def [symmetric] card_def text_or_empty_def)
  have ok: "cards_ok db1" unfolding db1_def by (rule cards_ok_deactivate [OF assms(2)])
  then have r: "references_ok db1" "unreferenced db1" by (simp_all add: cards_ok_def)
  have same: "cd_history db1 = cd_history db" "cd_farms db1 = cd_farms db" by (simp_all add: db1_def deactivate_old_cards_def)
  have c: "nc_reference card = None" "node_changed None card db1 = Inr True" by (simp_all add: card_def node_changed_def)
  from save_card_ok [OF save c(1) r] have s: "cd_cards db' = (cd_cards db1)(i \<mapsto> card)" "i = cd_next_card db1"
    "cd_history db' = cd_history (create_history card db1)" by (auto simp: c(2))
  have "m \<noteq> n" using find_history_in [OF assms(9)] assms(8,11) by auto
  then have "cd_cards db1 j = Some c" using assms(13,14) by (simp add: db1_def deactivate_old_cards_def)
  moreover from this have "j \<noteq> i" using ok s(2) by (auto simp: cards_ok_def)
  moreover have "find_history (\<lambda>h. ch_card_id h = x) (cd_history db) = None"
    "find_history (\<lambda>h. ch_node h = Some n \<and> handed_out h) (cd_history db) = None"
    using assms(8) by (simp_all add: find_history_None)
  ultimately show ?thesis
    using \<open>m \<noteq> n\<close> assms(9-12) by (simp add: s(1,3) create_history_def same card_def removed_copy_def Let_def)
qed

text \<open>Farmer 5 has card 2 with a printed id, farmer 6 card 3 without; farmer 7 has none.\<close>

definition demo_cards :: "nat list \<Rightarrow> card_db" where
  "demo_cards kinds =
     \<lparr>cd_cards = Map.empty(
        2 \<mapsto> \<lparr>nc_external_id = None, nc_node = Some 5, nc_card_id = ''a1'', nc_fairid = ''77'', nc_status = CARD_STATUS_ACTIVE, nc_reference = None\<rparr>,
        3 \<mapsto> \<lparr>nc_external_id = None, nc_node = Some 6, nc_card_id = ''b2'', nc_fairid = [], nc_status = CARD_STATUS_ACTIVE, nc_reference = None\<rparr>),
      cd_next_card = 4,
      cd_history = [\<lparr>ch_node = Some 6, ch_card_id = ''b2'', ch_fairid = [], ch_status = CARD_ISSUE_STATUS_NEW\<rparr>,
                    \<lparr>ch_node = Some 5, ch_card_id = ''a1'', ch_fairid = ''77'', ch_status = CARD_ISSUE_STATUS_NEW\<rparr>],
      cd_references = Map.empty, cd_next_reference = 2, cd_kinds = kinds, cd_farms = [5, 6, 7]\<rparr>"

definition demo_card :: "nat \<Rightarrow> string \<Rightarrow> card_data" where
  "demo_card n x = \<lparr>cf_node = Some (Some n), cf_card_id = Some x, cf_fairid = None, cf_external_id = None\<rparr>"

definition no_cards :: card_db where
  "no_cards = \<lparr>cd_cards = Map.empty, cd_next_card = 2, cd_history = [], cd_references = Map.empty,
     cd_next_reference = 2, cd_kinds = [3], cd_farms = [5, 6, 7]\<rparr>"

lemma demo_cards_ok: "cards_ok (demo_cards kinds)"
  by (auto simp: cards_ok_def references_ok_def unreferenced_def demo_cards_def)

lemma new_card_removes_strangers_witness:
  "\<exists>db' i h. assign_card (demo_card 7 ''c3'') (demo_cards [3]) = Inr (db', i) \<and>
     cd_cards db' 3 = cd_cards (demo_cards [3]) 3 \<and> cd_history db' \<noteq> [] \<and> cd_history db' ! 1 = h \<and>
     ch_node h = Some 6 \<and> ch_status h = CARD_ISSUE_STATUS_REMOVED"
proof -
  have "is_ok (assign_card (demo_card 7 ''c3'') (demo_cards [3]))" by code_simp
  then obtain db' i where a: "assign_card (demo_card 7 ''c3'') (demo_cards [3]) = Inr (db', i)"
    by (auto simp: is_ok_def split: sum.split_asm)
  from new_card_removes_strangers [OF a demo_cards_ok, of 7 "''c3''" 1
      "\<lparr>ch_node = Some 6, ch_card_id = ''b2'', ch_fairid = [], ch_status = CARD_ISSUE_STATUS_NEW\<rparr>" 6 3
      "the (cd_cards (demo_cards [3]) 3)"]
  show ?thesis
    using a by (auto simp: demo_cards_def demo_card_def text_or_empty_def cards_where_def handed_out_def upt_conv_Cons
        eval_nat_numeral)
qed


end
