(* ===== verification/Payments.thy ===== *)
theory Payments
  imports Prelude
begin

text \<open>
  Payments to farmers: \<open>Payment\<close> of \<open>v2/projects/models.py\<close>, the payments an external
  transaction makes and refreshes when it is saved (\<open>ExternalTransaction.save\<close> of
  \<open>v2/transactions/models.py\<close>), the premiums of the mobile application's transactions, and the
  requests that post a payment or its invoice. What a payment reads of its transaction is
  the record \<open>pay_tx\<close>; amounts are \<open>rat\<close>. External ids and extra fields are left out.
\<close>

section \<open>Tables\<close>

datatype payment_type = BASE_TRANSACTION | BASE_PREMIUM | TRANSACTION_PREMIUM
datatype payment_method = CARD_VERIFICATION | INVOICE_VERIFICATION | NO_VERIFICATION
datatype payment_direction = PAY_INCOMING | PAY_OUTGOING | PAY_OTHER string

record pay_tx =
  pt_external :: bool
  pt_source :: nat
  pt_destination :: nat
  pt_invoice :: string
  pt_invoice_number :: string
  pt_card :: "nat option"
  pt_product :: "string option"
  pt_price :: "rat option"
  pt_currency :: string
  pt_latitude :: rat
  pt_longitude :: rat

record payment =
  py_type :: payment_type
  py_source :: "nat option"
  py_destination :: "nat option"
  py_premium :: "nat option"
  py_card :: "nat option"
  py_invoice :: string
  py_invoice_number :: "string option"
  py_amount :: rat
  py_option :: "nat option"
  py_currency :: "string option"
  py_tx :: "nat option"
  py_latitude :: rat
  py_longitude :: rat
  py_method :: payment_method
  py_description :: string

record pay_db =
  pm_payments :: "nat \<rightharpoonup> payment"
  pm_next :: nat
  pm_txs :: "nat \<rightharpoonup> pay_tx"
  pm_next_tx :: nat
  pm_names :: "nat \<Rightarrow> string"
  pm_premium_names :: "nat \<Rightarrow> string"

section \<open>Saving a payment\<close>

definition update_from_transaction :: "payment \<Rightarrow> pay_db \<Rightarrow> payment result" where
  "update_from_transaction p db =
     (case py_tx p of
        None \<Rightarrow> Inr p
      | Some t \<Rightarrow>
          rbind (of_option DoesNotExist (pm_txs db t)) (\<lambda>x.
            let p1 = p\<lparr>py_source := Some (pt_destination x), py_destination := Some (pt_source x),
                       py_invoice := (if py_invoice p = [] then pt_invoice x else py_invoice p),
                       py_card := pt_card x, py_invoice_number := Some (pt_invoice_number x)\<rparr>
            in if \<not> pt_external x then Inl DoesNotExist
               else Inr (p1\<lparr>py_currency := Some (pt_currency x), py_latitude := pt_latitude x,
                            py_longitude := pt_longitude x\<rparr>)))"

definition update_payment_status :: "payment \<Rightarrow> payment result" where
  "update_payment_status p =
     (if py_tx p \<noteq> None \<and> py_premium p \<noteq> None then Inr (p\<lparr>py_type := TRANSACTION_PREMIUM\<rparr>)
      else if py_tx p \<noteq> None then Inr (p\<lparr>py_type := BASE_TRANSACTION\<rparr>)
      else if py_premium p \<noteq> None then Inr (p\<lparr>py_type := BASE_PREMIUM\<rparr>)
      else Inl (PyException ''Payment type can not determined.''))"

definition update_verification_method :: "payment \<Rightarrow> payment" where
  "update_verification_method p =
     p\<lparr>py_method := (if py_card p \<noteq> None then CARD_VERIFICATION
                     else if py_invoice p \<noteq> [] then INVOICE_VERIFICATION else NO_VERIFICATION)\<rparr>"

definition update_description :: "payment \<Rightarrow> pay_db \<Rightarrow> payment result" where
  "update_description p db =
     (if py_description p \<noteq> [] then Inr p
      else rbind (of_option PyAttributeError (py_source p)) (\<lambda>s.
           rbind (of_option PyAttributeError (py_destination p)) (\<lambda>d.
             let what = (case py_premium p of Some m \<Rightarrow> pm_premium_names db m | None \<Rightarrow> ''Base price'');
                 product = Option.bind (Option.bind (py_tx p) (pm_txs db)) pt_product
             in Inr (p\<lparr>py_description := '' '' @ pm_names db s @ '' paid '' @ what @ '' to '' @ pm_names db d @
                        (case product of Some n \<Rightarrow> '' for product '' @ n | None \<Rightarrow> [])\<rparr>))))"

definition payment_row :: "payment \<Rightarrow> pay_db \<Rightarrow> payment result" where
  "payment_row p db =
     rbind (update_from_transaction p db) (\<lambda>p1.
     rbind (update_payment_status p1) (\<lambda>p2.
       update_description (update_verification_method p2) db))"

definition save_payment :: "nat option \<Rightarrow> payment \<Rightarrow> pay_db \<Rightarrow> (pay_db \<times> nat) result" where
  "save_payment pk p db =
     rbind (payment_row p db) (\<lambda>q.
       case pk of
         Some i \<Rightarrow> Inr (db\<lparr>pm_payments := (pm_payments db)(i \<mapsto> q)\<rparr>, i)
       | None \<Rightarrow> (let i = pm_next db in Inr (db\<lparr>pm_payments := (pm_payments db)(i \<mapsto> q), pm_next := Suc i\<rparr>, i)))"

text \<open>A payment with the defaults of the model.\<close>

definition new_payment :: "nat option \<Rightarrow> nat option \<Rightarrow> payment" where
  "new_payment premium t =
     \<lparr>py_type = BASE_TRANSACTION, py_source = None, py_destination = None, py_premium = premium, py_card = None,
      py_invoice = [], py_invoice_number = None, py_amount = 0, py_option = None, py_currency = None, py_tx = t,
      py_latitude = 0, py_longitude = 0, py_method = NO_VERIFICATION, py_description = []\<rparr>"

definition payments_where :: "(payment \<Rightarrow> bool) \<Rightarrow> pay_db \<Rightarrow> nat list" where
  "payments_where p db = [i\<leftarrow>rev [0..<pm_next db]. case pm_payments db i of Some x \<Rightarrow> p x | None \<Rightarrow> False]"

definition get_or_create_payment :: "(payment \<Rightarrow> bool) \<Rightarrow> payment \<Rightarrow> pay_db \<Rightarrow> (pay_db \<times> nat) result" where
  "get_or_create_payment p new db =
     (case payments_where p db of
        [] \<Rightarrow> save_payment None new db
      | [i] \<Rightarrow> Inr (db, i)
      | _ \<Rightarrow> Inl MultipleObjectsReturned)"

section \<open>Payments of a transaction\<close>

definition save_payment_again :: "nat \<Rightarrow> pay_db \<Rightarrow> pay_db result" where
  "save_payment_again i db =
     rbind (of_option DoesNotExist (pm_payments db i)) (\<lambda>p. rbind (save_payment (Some i) p db) (\<lambda>(db', j). Inr db'))"

text \<open>
  \<open>ExternalTransaction.update_payments\<close>. The first time a transaction is saved it has no
  number, so that it is saved once more from inside, and \<open>new_instance\<close> is unset when either
  call of \<open>update_payments\<close> reads it.
\<close>

definition set_base_payment :: "nat \<Rightarrow> rat option \<Rightarrow> pay_db \<Rightarrow> pay_db result" where
  "set_base_payment t price db =
     (if price = None \<or> price = Some 0 then Inr db
      else rbind (get_or_create_payment (\<lambda>p. py_tx p = Some t \<and> py_premium p = None) (new_payment None (Some t)) db) (\<lambda>(db1, i).
           rbind (of_option DoesNotExist (pm_payments db1 i)) (\<lambda>p.
           rbind (save_payment (Some i) (p\<lparr>py_amount := the price\<rparr>) db1) (\<lambda>(db2, j). Inr db2))))"

definition update_payments :: "nat \<Rightarrow> pay_db \<Rightarrow> pay_db result" where
  "update_payments t db =
     rbind (of_option DoesNotExist (pm_txs db t)) (\<lambda>x.
     rbind (set_base_payment t (pt_price x) db) (\<lambda>db1.
       if pt_invoice x \<noteq> [] then rfold save_payment_again (payments_where (\<lambda>p. py_tx p = Some t) db1) db1 else Inr db1))"

text \<open>The row of the transaction is written before its payments, and stays when they fail.\<close>

definition save_external :: "nat \<Rightarrow> pay_tx \<Rightarrow> pay_db \<Rightarrow> pay_db \<times> unit result" where
  "save_external t x db =
     (let db1 = db\<lparr>pm_txs := (pm_txs db)(t \<mapsto> x)\<rparr>
      in case update_payments t db1 of Inl e \<Rightarrow> (db1, Inl e) | Inr db2 \<Rightarrow> (db2, Inr ()))"

definition create_external :: "pay_tx \<Rightarrow> pay_db \<Rightarrow> pay_db \<times> nat result" where
  "create_external x db =
     (let t = pm_next_tx db; db1 = db\<lparr>pm_next_tx := Suc t\<rparr>
      in case save_external t x db1 of
           (db2, Inl e) \<Rightarrow> (db2, Inl e)
         | (db2, Inr u) \<Rightarrow>
             (case update_payments t db2 of Inl e \<Rightarrow> (db2, Inl e) | Inr db3 \<Rightarrow> (db3, Inr t)))"

text \<open>\<open>AppTransactionSerializer.create_premium\<close>; the other serializer of the application does not look at the amount.\<close>

record premium_line =
  pl_premium :: nat
  pl_amount :: rat
  pl_option :: "nat option"

definition premium_payment :: "nat \<Rightarrow> premium_line \<Rightarrow> pay_db \<Rightarrow> pay_db result" where
  "premium_payment t l db =
     rbind (get_or_create_payment
              (\<lambda>p. py_premium p = Some (pl_premium l) \<and> py_amount p = pl_amount l \<and> py_option p = pl_option l \<and> py_tx p = Some t)
              ((new_payment (Some (pl_premium l)) (Some t))\<lparr>py_amount := pl_amount l, py_option := pl_option l\<rparr>) db)
       (\<lambda>(db', i). Inr db')"

definition create_premium :: "bool \<Rightarrow> nat \<Rightarrow> premium_line list \<Rightarrow> pay_db \<Rightarrow> pay_db result" where
  "create_premium smallest t = rfold (\<lambda>l db. if smallest \<and> pl_amount l < 1 / 100 then Inr db else premium_payment t l db)"

section \<open>Requests\<close>

text \<open>
  \<open>PaymentViewSet.create\<close>: the current node is one side of the payment; all other fields
  of the model are taken from the request.
\<close>

definition post_payment :: "payment_direction \<Rightarrow> nat \<Rightarrow> payment \<Rightarrow> pay_db \<Rightarrow> (pay_db \<times> nat) result" where
  "post_payment direction node p db =
     (case direction of
        PAY_OTHER s \<Rightarrow> Inl (ValidationError ''a valid payment direction is required.'')
      | _ \<Rightarrow>
          (let p1 = (if direction = PAY_INCOMING then p\<lparr>py_destination := Some node\<rparr> else p\<lparr>py_source := Some node\<rparr>)
           in rbind (ensure (\<forall>t\<in>set_option (py_tx p1). pm_txs db t \<noteq> None) (ValidationError ''object does not exist'')) (\<lambda>_.
                save_payment None p1 db)))"

definition upload_invoice :: "nat \<Rightarrow> string option \<Rightarrow> pay_db \<Rightarrow> (pay_db \<times> nat) result" where
  "upload_invoice i invoice db =
     rbind (of_option PyAttributeError invoice) (\<lambda>f.
     rbind (of_option DoesNotExist (pm_payments db i)) (\<lambda>p. save_payment (Some i) (p\<lparr>py_invoice := f\<rparr>) db))"

text \<open>\<open>PaymentSerializer.get_direction\<close>: what a node is shown of a payment.\<close>

definition get_direction :: "nat \<Rightarrow> payment \<Rightarrow> payment_direction option" where
  "get_direction node p =
     (if py_destination p = Some node then Some PAY_OUTGOING
      else if py_source p = Some node then Some PAY_INCOMING else None)"

end
