(* ===== verification/Payment_Runs.thy ===== *)
theory Payment_Runs
  imports Payments
begin

text \<open>
  Runs of requests that touch payments: a payment's type, method and parties agree with what
  it pays for, and the base payment of a transaction follows its price. Then the payments
  that a request can make and that the transaction does not expect.
\<close>

section \<open>What saving a payment does\<close>

definition right_type :: "payment \<Rightarrow> bool" where
  "right_type p \<longleftrightarrow> (py_tx p \<noteq> None \<or> py_premium p \<noteq> None) \<and>
     py_type p = (if py_tx p = None then BASE_PREMIUM else if py_premium p = None then BASE_TRANSACTION else TRANSACTION_PREMIUM) \<and>
     py_method p = (if py_card p \<noteq> None then CARD_VERIFICATION else if py_invoice p \<noteq> [] then INVOICE_VERIFICATION
       else NO_VERIFICATION)"

definition right_parties :: "pay_db \<Rightarrow> payment \<Rightarrow> bool" where
  "right_parties db p \<longleftrightarrow>
     (\<forall>t. py_tx p = Some t \<longrightarrow> (\<exists>x. pm_txs db t = Some x \<and> pt_external x \<and>
        py_source p = Some (pt_destination x) \<and> py_destination p = Some (pt_source x)))"

lemma payment_row_right:
  assumes "payment_row p db = Inr q"
  shows "right_type q" and "right_parties db q" and "py_tx q = py_tx p" and "py_premium q = py_premium p"
    and "py_amount q = py_amount p" and "py_option q = py_option p"
proof -
  obtain p1 p2 where u: "update_from_transaction p db = Inr p1" and s: "update_payment_status p1 = Inr p2"
    and d: "update_description (update_verification_method p2) db = Inr q"
    using assms by (auto simp: payment_row_def rbind_eq_Inr)
  have p1: "py_tx p1 = py_tx p" "py_premium p1 = py_premium p" "py_amount p1 = py_amount p" "py_option p1 = py_option p"
    "right_parties db p1"
    using u by (auto simp: update_from_transaction_def rbind_eq_Inr Let_def right_parties_def split: option.split_asm if_split_asm)
  have p2: "p2 = p1\<lparr>py_type := (if py_tx p1 = None then BASE_PREMIUM else if py_premium p1 = None then BASE_TRANSACTION
      else TRANSACTION_PREMIUM)\<rparr>" "py_tx p1 \<noteq> None \<or> py_premium p1 \<noteq> None"
    using s by (auto simp: update_payment_status_def split: if_split_asm)
  obtain str where q: "q = (update_verification_method p2)\<lparr>py_description := str\<rparr>"
  proof (cases "py_description (update_verification_method p2) = []")
    case False
    then show ?thesis using d that [of "py_description (update_verification_method p2)"] by (simp add: update_description_def)
  qed (use d that in \<open>auto simp: update_description_def rbind_eq_Inr Let_def\<close>)
  show "right_type q" using p2 by (simp add: q right_type_def update_verification_method_def)
  show "right_parties db q" using p1(5) p2(1) by (simp add: q right_parties_def update_verification_method_def)
  show "py_tx q = py_tx p" "py_premium q = py_premium p" "py_amount q = py_amount p" "py_option q = py_option p"
    using p1(1-4) p2(1) by (simp_all add: q update_verification_method_def)
qed

text \<open>What becomes of the tables: \<open>payments_ok\<close> is kept, and the transactions are not touched.\<close>

definition payments_ok :: "pay_db \<Rightarrow> bool" where
  "payments_ok db \<longleftrightarrow> (\<forall>i p. pm_payments db i = Some p \<longrightarrow> right_type p \<and> right_parties db p)"

definition pays :: "pay_db \<Rightarrow> pay_db \<Rightarrow> bool" where
  "pays db db' \<longleftrightarrow> pm_txs db' = pm_txs db \<and> pm_next_tx db' = pm_next_tx db \<and> (payments_ok db \<longrightarrow> payments_ok db')"

lemma pays_refl [simp]: "pays db db"
  by (simp add: pays_def)

lemma pays_trans [trans]: "pays a b \<Longrightarrow> pays b c \<Longrightarrow> pays a c"
  by (simp add: pays_def)

lemma save_payment_cases:
  assumes "save_payment pk p db = Inr (db', i)"
  obtains q where "payment_row p db = Inr q" and "pm_payments db' = (pm_payments db)(i \<mapsto> q)"
    and "pm_txs db' = pm_txs db" and "pm_next_tx db' = pm_next_tx db"
    and "i = (case pk of None \<Rightarrow> pm_next db | Some k \<Rightarrow> k)"
    and "pm_next db' = (case pk of None \<Rightarrow> Suc (pm_next db) | Some k \<Rightarrow> pm_next db)"
  using assms by (cases pk) (auto simp: save_payment_def rbind_eq_Inr Let_def)

lemma save_payment_pays: "save_payment pk p db = Inr (db', i) \<Longrightarrow> pays db db'"
  by (erule save_payment_cases) (auto simp: pays_def payments_ok_def right_parties_def dest: payment_row_right(1,2))

lemma get_or_create_pays: "get_or_create_payment f p db = Inr (db', i) \<Longrightarrow> pays db db'"
  by (auto simp: get_or_create_payment_def dest: save_payment_pays split: list.split_asm)

lemma save_payment_again_pays: "save_payment_again i db = Inr db' \<Longrightarrow> pays db db'"
  by (auto simp: save_payment_again_def rbind_eq_Inr dest: save_payment_pays)

lemma refresh_pays: "rfold save_payment_again is' db = Inr db' \<Longrightarrow> pays db db'"
  by (rule rfold_invariant [where P = "pays db"]) (auto intro: pays_trans [OF _ save_payment_again_pays])

lemma set_base_payment_pays: "set_base_payment t price db = Inr db' \<Longrightarrow> pays db db'"
  by (auto simp: set_base_payment_def rbind_eq_Inr dest!: get_or_create_pays save_payment_pays intro: pays_trans
      split: if_split_asm)

lemma update_payments_pays: "update_payments t db = Inr db' \<Longrightarrow> pays db db'"
  by (auto simp: update_payments_def rbind_eq_Inr dest!: set_base_payment_pays refresh_pays intro: pays_trans
      split: if_split_asm)

lemma premium_payment_pays: "premium_payment t l db = Inr db' \<Longrightarrow> pays db db'"
  by (auto simp: premium_payment_def rbind_eq_Inr dest: get_or_create_pays)

lemma create_premium_pays: "create_premium smallest t ls db = Inr db' \<Longrightarrow> pays db db'"
  unfolding create_premium_def
  by (rule rfold_invariant [where P = "pays db"])
    (auto intro: pays_trans [OF _ premium_payment_pays] split: if_split_asm)

text \<open>A transaction's row is written with the parties it had, or is a new one.\<close>

definition same_trade :: "pay_tx \<Rightarrow> pay_tx \<Rightarrow> bool" where
  "same_trade x y \<longleftrightarrow> (pt_external x, pt_source x, pt_destination x) = (pt_external y, pt_source y, pt_destination y)"

lemma right_parties_save:
  assumes "right_parties db p" and "\<And>y. pm_txs db t = Some y \<Longrightarrow> same_trade y x"
  shows "right_parties (db\<lparr>pm_txs := (pm_txs db)(t \<mapsto> x)\<rparr>) p"
  unfolding right_parties_def
proof (intro allI impI)
  fix u assume "py_tx p = Some u"
  then obtain y where y: "pm_txs db u = Some y" "pt_external y" "py_source p = Some (pt_destination y)"
    "py_destination p = Some (pt_source y)" using assms(1) by (auto simp: right_parties_def)
  then show "\<exists>z. pm_txs (db\<lparr>pm_txs := (pm_txs db)(t \<mapsto> x)\<rparr>) u = Some z \<and> pt_external z \<and>
      py_source p = Some (pt_destination z) \<and> py_destination p = Some (pt_source z)"
    using assms(2) by (cases "u = t") (auto simp: same_trade_def)
qed

lemma payments_ok_save:
  "payments_ok db \<Longrightarrow> (\<And>y. pm_txs db t = Some y \<Longrightarrow> same_trade y x) \<Longrightarrow>
   payments_ok (db\<lparr>pm_txs := (pm_txs db)(t \<mapsto> x)\<rparr>)"
  by (auto simp: payments_ok_def intro: right_parties_save)

lemma save_external_ok:
  assumes "payments_ok db" and "\<And>y. pm_txs db t = Some y \<Longrightarrow> same_trade y x"
  shows "payments_ok (fst (save_external t x db))"
  using payments_ok_save [OF assms]
  by (auto simp: save_external_def Let_def pays_def dest: update_payments_pays split: sum.split)

lemma save_external_fields:
  "pm_txs (fst (save_external t x db)) = (pm_txs db)(t \<mapsto> x)" "pm_next_tx (fst (save_external t x db)) = pm_next_tx db"
  by (auto simp: save_external_def Let_def pays_def dest: update_payments_pays split: sum.split)

inductive pay_step :: "pay_db \<Rightarrow> pay_db \<Rightarrow> bool" where
  create: "(\<And>t y. pm_txs db t = Some y \<Longrightarrow> t < pm_next_tx db) \<Longrightarrow> pay_step db (fst (create_external x db))"
| save: "pm_txs db t = Some y \<Longrightarrow> same_trade y x \<Longrightarrow> pay_step db (fst (save_external t x db))"
| premium: "premium_payment t l db = Inr db' \<Longrightarrow> pay_step db db'"
| post: "post_payment direction node p db = Inr (db', i) \<Longrightarrow> pay_step db db'"
| invoice: "upload_invoice i f db = Inr (db', j) \<Longrightarrow> pay_step db db'"

lemma create_external_ok:
  assumes "payments_ok db" and "pm_txs db (pm_next_tx db) = None"
  shows "payments_ok (fst (create_external x db))"
proof -
  let ?d = "db\<lparr>pm_next_tx := Suc (pm_next_tx db)\<rparr>"
  have "payments_ok ?d" using assms(1) by (simp add: payments_ok_def right_parties_def)
  then have "payments_ok (fst (save_external (pm_next_tx db) x ?d))" by (rule save_external_ok) (simp add: assms(2))
  then show ?thesis
    by (auto simp: create_external_def Let_def pays_def dest: update_payments_pays split: prod.split sum.split)
qed

lemma pay_step_ok:
  assumes "pay_step db db'" and "payments_ok db"
  shows "payments_ok db'"
  using assms(1)
proof (cases rule: pay_step.cases)
  case (create x)
  then have "pm_txs db (pm_next_tx db) = None" by (metis less_irrefl not_None_eq)
  then show ?thesis using create assms(2) by (auto intro: create_external_ok)
next
  case (save t y x)
  then show ?thesis using assms(2) by (auto intro: save_external_ok)
next
  case (premium t l)
  then show ?thesis using assms(2) by (auto simp: pays_def dest: premium_payment_pays)
next
  case (post direction node p i)
  then show ?thesis using assms(2)
    by (auto simp: post_payment_def Let_def rbind_eq_Inr pays_def dest: save_payment_pays split: payment_direction.split_asm)
next
  case (invoice i f j)
  then show ?thesis using assms(2) by (auto simp: upload_invoice_def rbind_eq_Inr pays_def dest: save_payment_pays)
qed


section \<open>The base payment follows the price\<close>

text \<open>What a payment pays for; saving a payment again does not change it, nor the amount.\<close>

definition payment_key :: "pay_db \<Rightarrow> nat \<Rightarrow> (nat option \<times> nat option \<times> rat) option" where
  "payment_key db i = map_option (\<lambda>p. (py_tx p, py_premium p, py_amount p)) (pm_payments db i)"

definition base_payments :: "nat \<Rightarrow> pay_db \<Rightarrow> nat list" where
  "base_payments t = payments_where (\<lambda>p. py_tx p = Some t \<and> py_premium p = None)"

lemma base_payments_key:
  "base_payments t db = [i\<leftarrow>rev [0..<pm_next db]. \<exists>a. payment_key db i = Some (Some t, None, a)]"
  unfolding base_payments_def payments_where_def payment_key_def
  by (rule filter_cong) (auto split: option.split)

lemma save_payment_key:
  assumes "save_payment pk p db = Inr (db', i)"
  shows "payment_key db' = (payment_key db)(i \<mapsto> (py_tx p, py_premium p, py_amount p))"
  using assms by (rule save_payment_cases) (auto simp: payment_key_def payment_row_right fun_eq_iff)

lemma save_payment_again_key:
  assumes "save_payment_again i db = Inr db'"
  shows "payment_key db' = payment_key db \<and> pm_next db' = pm_next db"
proof -
  obtain p j where p: "pm_payments db i = Some p" "save_payment (Some i) p db = Inr (db', j)"
    using assms by (auto simp: save_payment_again_def rbind_eq_Inr)
  from save_payment_key [OF p(2)] p show ?thesis
    by (auto simp: payment_key_def fun_eq_iff elim!: save_payment_cases)
qed

lemma refresh_key:
  "rfold save_payment_again is' db = Inr db' \<Longrightarrow> payment_key db' = payment_key db \<and> pm_next db' = pm_next db"
  by (rule rfold_invariant [where P = "\<lambda>d. payment_key d = payment_key db \<and> pm_next d = pm_next db"])
    (auto dest: save_payment_again_key)

lemma set_base_payment_key:
  assumes "set_base_payment t (Some price) db = Inr db'" and "price \<noteq> 0"
  shows "\<exists>i. base_payments t db' = [i] \<and> payment_key db' i = Some (Some t, None, price)"
proof -
  obtain db1 i p j where g: "get_or_create_payment (\<lambda>p. py_tx p = Some t \<and> py_premium p = None) (new_payment None (Some t)) db = Inr (db1, i)"
    and p: "pm_payments db1 i = Some p" "save_payment (Some i) (p\<lparr>py_amount := price\<rparr>) db1 = Inr (db', j)"
    using assms by (auto simp: set_base_payment_def rbind_eq_Inr split: if_split_asm)
  have i: "base_payments t db1 = [i] \<and> (\<exists>a. payment_key db1 i = Some (Some t, None, a))"
  proof (cases "base_payments t db")
    case Nil
    then have s: "save_payment None (new_payment None (Some t)) db = Inr (db1, i)"
      using g by (simp add: get_or_create_payment_def base_payments_def)
    have n: "i = pm_next db" "pm_next db1 = Suc (pm_next db)" by (rule save_payment_cases [OF s]; simp)+
    have k: "payment_key db1 = (payment_key db)(i \<mapsto> (Some t, None, 0))"
      using save_payment_key [OF s] by (simp add: new_payment_def)
    have "[k\<leftarrow>rev [0..<pm_next db]. \<exists>a. payment_key db1 k = Some (Some t, None, a)] = []"
      using Nil by (auto simp: base_payments_key k n filter_empty_conv)
    then show ?thesis by (simp add: base_payments_key n k)
  next
    case (Cons k ks)
    then have "ks = []" "db1 = db" "i = k"
      using g by (auto simp: get_or_create_payment_def base_payments_def split: list.split_asm)
    then show ?thesis using Cons by (auto simp: base_payments_key filter_eq_Cons_iff)
  qed
  have n: "j = i" "pm_next db' = pm_next db1" by (rule save_payment_cases [OF p(2)]; simp)+
  have k: "payment_key db' = (payment_key db1)(i \<mapsto> (Some t, None, price))"
    using save_payment_key [OF p(2)] i p(1) by (auto simp: n payment_key_def)
  have "base_payments t db' = base_payments t db1"
    unfolding base_payments_key n k by (rule filter_cong) (use i in auto)
  then show ?thesis using i by (simp add: k)
qed

text \<open>
  C22: Saving a transaction that has a price, if it succeeds, leaves the transaction with
  exactly one payment without a premium, whose amount is the price.
\<close>

theorem base_payment_follows_price:
  assumes "save_external t x db = (db', Inr ())" and "pt_price x = Some price" and "price \<noteq> 0"
  shows "\<exists>i p. payments_where (\<lambda>p. py_tx p = Some t \<and> py_premium p = None) db' = [i] \<and>
    pm_payments db' i = Some p \<and> py_amount p = price"
proof -
  have "update_payments t (db\<lparr>pm_txs := (pm_txs db)(t \<mapsto> x)\<rparr>) = Inr db'"
    using assms(1) by (simp add: save_external_def Let_def split: sum.split_asm)
  then obtain db1 where s: "set_base_payment t (Some price) (db\<lparr>pm_txs := (pm_txs db)(t \<mapsto> x)\<rparr>) = Inr db1"
    and r: "db' = db1 \<or> rfold save_payment_again (payments_where (\<lambda>p. py_tx p = Some t) db1) db1 = Inr db'"
    using assms(2) by (auto simp: update_payments_def rbind_eq_Inr split: if_split_asm)
  have "payment_key db' = payment_key db1" "pm_next db' = pm_next db1" using r refresh_key by blast+
  with set_base_payment_key [OF s assms(3)] have "\<exists>i. base_payments t db' = [i] \<and> payment_key db' i = Some (Some t, None, price)"
    by (simp add: base_payments_key)
  then show ?thesis by (auto simp: base_payments_def payment_key_def)
qed

text \<open>Without a price, or with the price zero, the payment made before keeps its amount.\<close>

lemma removed_price_keeps_payment:
  assumes "save_external t x db = (db', Inr ())" and "pt_price x = None \<or> pt_price x = Some 0"
  shows "payment_key db' = payment_key db"
proof -
  have "update_payments t (db\<lparr>pm_txs := (pm_txs db)(t \<mapsto> x)\<rparr>) = Inr db'"
    using assms(1) by (simp add: save_external_def Let_def split: sum.split_asm)
  then have "db' = db\<lparr>pm_txs := (pm_txs db)(t \<mapsto> x)\<rparr> \<or>
      (\<exists>is'. rfold save_payment_again is' (db\<lparr>pm_txs := (pm_txs db)(t \<mapsto> x)\<rparr>) = Inr db')"
    using assms(2) by (auto simp: update_payments_def rbind_eq_Inr set_base_payment_def split: if_split_asm)
  then have "payment_key db' = payment_key (db\<lparr>pm_txs := (pm_txs db)(t \<mapsto> x)\<rparr>)" using refresh_key by blast
  then show ?thesis by (simp add: payment_key_def fun_eq_iff)
qed

section \<open>Payments the transaction does not expect\<close>


text \<open>A payment for a premium alone is shown with the direction opposite to the one it was posted with.\<close>

lemma payment_row_parties:
  assumes "payment_row p db = Inr q" and "py_tx p = None"
  shows "py_source q = py_source p \<and> py_destination q = py_destination p"
proof -
  obtain p2 where "update_payment_status p = Inr p2" and d: "update_description (update_verification_method p2) db = Inr q"
    using assms by (auto simp: payment_row_def rbind_eq_Inr update_from_transaction_def)
  then have "py_source p2 = py_source p" "py_destination p2 = py_destination p"
    by (auto simp: update_payment_status_def split: if_split_asm)
  then show ?thesis
    using d by (auto simp: update_description_def update_verification_method_def rbind_eq_Inr Let_def split: if_split_asm)
qed

lemma posted_direction_reversed:
  assumes "post_payment direction node p db = Inr (db', i)" and "py_tx p = None"
    and "direction = PAY_OUTGOING \<longrightarrow> py_destination p \<noteq> Some node"
  shows "\<exists>q. pm_payments db' i = Some q \<and>
    get_direction node q = Some (if direction = PAY_INCOMING then PAY_OUTGOING else PAY_INCOMING)"
proof -
  let ?p = "if direction = PAY_INCOMING then p\<lparr>py_destination := Some node\<rparr> else p\<lparr>py_source := Some node\<rparr>"
  have s: "save_payment None ?p db = Inr (db', i)" and d: "direction = PAY_INCOMING \<or> direction = PAY_OUTGOING"
    using assms(1) by (auto simp: post_payment_def Let_def rbind_eq_Inr split: payment_direction.split_asm)
  from s obtain q where r: "payment_row ?p db = Inr q" and q: "pm_payments db' = (pm_payments db)(i \<mapsto> q)"
    by (rule save_payment_cases)
  have "py_source q = py_source ?p \<and> py_destination q = py_destination ?p"
    by (rule payment_row_parties [OF r]) (simp add: assms(2))
  then show ?thesis using d assms(3) by (auto simp: q get_direction_def)
qed

text \<open>Two equal lines of premiums are one payment.\<close>

lemma equal_premiums_collapse:
  assumes "premium_payment t l db = Inr db'"
  shows "premium_payment t l db' = Inr db'"
proof -
  let ?f = "\<lambda>p. py_premium p = Some (pl_premium l) \<and> py_amount p = pl_amount l \<and> py_option p = pl_option l \<and> py_tx p = Some t"
  let ?new = "(new_payment (Some (pl_premium l)) (Some t))\<lparr>py_amount := pl_amount l, py_option := pl_option l\<rparr>"
  obtain i where g: "get_or_create_payment ?f ?new db = Inr (db', i)"
    using assms by (auto simp: premium_payment_def rbind_eq_Inr)
  show ?thesis
  proof (cases "payments_where ?f db")
    case Nil
    then have s: "save_payment None ?new db = Inr (db', i)" using g by (simp add: get_or_create_payment_def)
    then obtain q where r: "payment_row ?new db = Inr q" and w: "pm_payments db' = (pm_payments db)(i \<mapsto> q)" "i = pm_next db"
      "pm_next db' = Suc (pm_next db)" by (rule save_payment_cases) simp
    have "?f q" using payment_row_right(3-6) [OF r] by (simp add: new_payment_def)
    moreover have "[k\<leftarrow>rev [0..<pm_next db]. case pm_payments db' k of Some x \<Rightarrow> ?f x | None \<Rightarrow> False] = payments_where ?f db"
      unfolding payments_where_def by (rule filter_cong) (auto simp: w)
    ultimately have "payments_where ?f db' = [i]" using Nil by (simp add: payments_where_def w)
    then show ?thesis by (simp add: premium_payment_def get_or_create_payment_def)
  qed (use assms g in \<open>auto simp: get_or_create_payment_def premium_payment_def split: list.split_asm\<close>)
qed

section \<open>On a concrete transaction\<close>

text \<open>Node 6 sells to node 5 for a price, with a receipt; there are no payments yet.\<close>

definition demo_pay_tx :: "rat option \<Rightarrow> pay_tx" where
  "demo_pay_tx price = \<lparr>pt_external = True, pt_source = 6, pt_destination = 5, pt_invoice = ''r.pdf'', pt_invoice_number = ''2'',
     pt_card = None, pt_product = Some ''Cocoa'', pt_price = price, pt_currency = ''EUR'', pt_latitude = 0, pt_longitude = 0\<rparr>"

definition no_payments :: pay_db where
  "no_payments = \<lparr>pm_payments = Map.empty, pm_next = 2, pm_txs = Map.empty, pm_next_tx = 2,
     pm_names = (\<lambda>n. ''node''), pm_premium_names = (\<lambda>n. ''premium'')\<rparr>"

definition paid :: pay_db where
  "paid = fst (create_external (demo_pay_tx (Some 10)) no_payments)"

lemma paid_step: "pay_step no_payments paid"
  unfolding paid_def by (rule pay_step.create) (simp add: no_payments_def)


theorem base_payment_follows_price_witness:
  "\<exists>db' i p. save_external 2 (demo_pay_tx (Some 12)) paid = (db', Inr ()) \<and> pm_payments db' i = Some p \<and> py_amount p = 12"
proof -
  have "is_ok (snd (save_external 2 (demo_pay_tx (Some 12)) paid))" by code_simp
  then have s: "save_external 2 (demo_pay_tx (Some 12)) paid = (fst (save_external 2 (demo_pay_tx (Some 12)) paid), Inr ())"
    by (auto simp: is_ok_def prod_eq_iff split: sum.split_asm)
  from base_payment_follows_price [OF s, of 12] show ?thesis using s by (auto simp: demo_pay_tx_def)
qed


end
