(* ===== verification/App_Sales.thy ===== *)
theory App_Sales
  imports Stock_Exchange
begin

text \<open>
  Sales of the mobile application: \<open>AppSentTransactionSerializer\<close> of
  \<open>v2/projects/serializers/transactions.py\<close>, which sells batches and can write off what is
  left of them. The loop over the batches removes elements from the list it runs over.
\<close>

section \<open>What is left of the batches\<close>

text \<open>
  \<open>create_balance_loss\<close>: an item whose batch is empty is removed, whereupon the next item
  takes its place and the loop goes on behind it. Items of different batches are different,
  so that \<open>remove\<close> takes the item itself.
\<close>

fun balance_items :: "'c stock_db \<Rightarrow> (nat \<times> int) list \<Rightarrow> (nat \<times> int) list result" where
  "balance_items db [] = Inr []"
| "balance_items db [i] =
     rbind (get_batch (fst i) db) (\<lambda>b. Inr (if b_current b \<le> 0 then [] else [(fst i, b_current b)]))"
| "balance_items db (i # j # rest) =
     rbind (get_batch (fst i) db) (\<lambda>b.
       if b_current b \<le> 0 then rbind (balance_items db rest) (\<lambda>r. Inr (j # r))
       else rbind (balance_items db (j # rest)) (\<lambda>r. Inr ((fst i, b_current b) # r)))"

definition loss_data :: "attr \<Rightarrow> int_data" where
  "loss_data date =
     \<lparr>id_type = Some LOSS, id_mode = None, id_comment = None, id_batch_type = None, id_select_all = False,
      id_sources = None, id_dests = None, id_attrs = [(''date'', date), (''client_type'', AInt 2)]\<rparr>"

definition create_balance_loss ::
    "'c stock_env \<Rightarrow> nat \<Rightarrow> (nat \<times> int) list \<Rightarrow> attr \<Rightarrow> 'c stock_db \<Rightarrow> ('c stock_db \<times> nat option) result"
where
  "create_balance_loss env node items date db =
     rbind (balance_items db items) (\<lambda>left.
       if left = [] then Inr (db, None)
       else rbind (internal_request env node (Some left) (loss_data date) db) (\<lambda>(db', t). Inr (db', Some t)))"

section \<open>The sale\<close>

text \<open>
  \<open>check_for_duplicate\<close>: the one transaction of the same type, price, currency, instant,
  verification method and client. Neither the parties nor the batches are compared. A
  missing key and several matches are caught, and count as no duplicate.
\<close>

definition duplicate_keys :: "string list" where
  "duplicate_keys = [''price'', ''currency'', ''date'', ''verification_method'', ''client_type'']"

definition check_for_duplicate :: "ext_data \<Rightarrow> 'c stock_db \<Rightarrow> nat option" where
  "check_for_duplicate d db =
     (if \<exists>k\<in>set duplicate_keys. map_of (ed_attrs d) k = None then None
      else case [t\<leftarrow>[0..<st_next_tx db].
                   case st_txs db t of
                     None \<Rightarrow> False
                   | Some x \<Rightarrow> (case tx_kind x of
                       External ty s r \<Rightarrow> ty = ed_type d \<and> (\<forall>k\<in>set duplicate_keys. Some (tx_attr x k) = map_of (ed_attrs d) k)
                     | Internal _ _ _ _ \<Rightarrow> False)] of
             [t] \<Rightarrow> Some t
           | _ \<Rightarrow> None)"

text \<open>
  \<open>create\<close>, after the fields and \<open>validate\<close>, which replaces that of the base class: parties and
  owners of the batches are not compared. \<open>ed_attrs\<close> has the instant of the request as its
  date. Only the sale itself runs in a database transaction. \<open>premiums\<close> tells whether the
  request has the key \<open>premiums\<close>; the premiums are paid between the sale and the loss and touch no batch.
\<close>

definition app_sent_create ::
    "'c stock_env \<Rightarrow> nat \<Rightarrow> (nat \<Rightarrow> string) \<Rightarrow> nat \<Rightarrow> (nat \<times> int) list \<Rightarrow> bool \<Rightarrow> bool \<Rightarrow> attr \<Rightarrow> ext_data \<Rightarrow>
     'c stock_db \<Rightarrow> 'c stock_db \<times> (nat \<times> nat option) result"
where
  "app_sent_create env user full_name node raws premiums is_bal_loss date d db =
     (case rbind (ensure (10 \<le> ed_quantity d) (ValidationError ''quantity'')) (\<lambda>_. validate_items db raws) of
        Inl e \<Rightarrow> (db, Inl e)
      | Inr items \<Rightarrow>
          if items = [] then (db, Inl (ValidationError ''batch details are required''))
          else if \<not> premiums then (db, Inl PyKeyError)
          else
            (let d' = d\<lparr>ed_batches := Some items, ed_attrs := AList.update ''date'' date (ed_attrs d)\<rparr>
             in case (if ed_force_create d then None else check_for_duplicate d' db) of
                  Some t \<Rightarrow> (db, Inr (t, None))
                | None \<Rightarrow>
                    (case external_create env user full_name node d' db of
                       Inl e \<Rightarrow> (db, Inl e)
                     | Inr (db1, t, created) \<Rightarrow>
                         if \<not> is_bal_loss then (db1, Inr (t, None))
                         else (case create_balance_loss env node raws date db1 of
                                 Inl e \<Rightarrow> (db1, Inl e)
                               | Inr (db2, l) \<Rightarrow> (db2, Inr (t, l))))))"

section \<open>What the loop does\<close>

lemma balance_items_ids: "balance_items db items = Inr left \<Longrightarrow> fst ` set left \<subseteq> fst ` set items"
proof (induction db items arbitrary: left rule: balance_items.induct)
  case (3 db i j rest)
  then obtain b where b: "get_batch (fst i) db = Inr b" by (auto simp: rbind_eq_Inr)
  show ?case
  proof (cases "b_current b \<le> 0")
    case True
    then obtain r where r: "balance_items db rest = Inr r" "left = j # r" using 3(3) b by (auto simp: rbind_eq_Inr)
    show ?thesis using 3(1) [OF True r(1)] r(2) by auto
  next
    case False
    then obtain r where r: "balance_items db (j # rest) = Inr r" "left = (fst i, b_current b) # r"
      using 3(3) b by (auto simp: rbind_eq_Inr)
    show ?thesis using 3(2) [OF False r(1)] r(2) by auto
  qed
qed (auto simp: rbind_eq_Inr split: if_split_asm)

lemma balance_items_distinct:
  "balance_items db items = Inr left \<Longrightarrow> distinct (map fst items) \<Longrightarrow> distinct (map fst left)"
proof (induction db items arbitrary: left rule: balance_items.induct)
  case (3 db i j rest)
  then obtain b where b: "get_batch (fst i) db = Inr b" by (auto simp: rbind_eq_Inr)
  show ?case
  proof (cases "b_current b \<le> 0")
    case True
    then obtain r where r: "balance_items db rest = Inr r" "left = j # r" using 3(3) b by (auto simp: rbind_eq_Inr)
    then show ?thesis using 3(1) [OF True r(1)] 3(4) balance_items_ids [OF r(1)] by auto
  next
    case False
    then obtain r where r: "balance_items db (j # rest) = Inr r" "left = (fst i, b_current b) # r"
      using 3(3) b by (auto simp: rbind_eq_Inr)
    then show ?thesis using 3(2) [OF False r(1)] 3(4) balance_items_ids [OF r(1)] by auto
  qed
qed (auto simp: rbind_eq_Inr split: if_split_asm)

text \<open>When no batch but the last is empty, what remains is all that the batches hold.\<close>

lemma balance_items_exact:
  assumes "balance_items db items = Inr left" and "\<forall>i\<in>set (butlast items). 0 < current_of db (fst i)"
  shows "left = [(fst i, current_of db (fst i)). i \<leftarrow> items, 0 < current_of db (fst i)]"
  using assms
proof (induction db items arbitrary: left rule: balance_items.induct)
  case (3 db i j rest)
  then obtain b where b: "get_batch (fst i) db = Inr b" by (auto simp: rbind_eq_Inr)
  then have c: "current_of db (fst i) = b_current b" by (simp add: current_of_def get_batch_def)
  then have p: "\<not> b_current b \<le> 0" using 3(4) by simp
  then obtain r where r: "balance_items db (j # rest) = Inr r" "left = (fst i, b_current b) # r"
    using 3(3) b by (auto simp: rbind_eq_Inr)
  show ?case using 3(2) [OF p r(1)] 3(4) r(2) c p by simp
qed (auto simp: rbind_eq_Inr current_of_def get_batch_def)

lemma validate_items_asked:
  "validate_items db raws = Inr items \<Longrightarrow> map (\<lambda>i. (it_id i, it_qty i)) items = raws"
  by (induction raws arbitrary: items) (auto simp: rbind_eq_Inr validate_source_item_def)

lemma taken_listed:
  assumes "distinct (map it_id items)" and "(x, q) \<in> set (map (\<lambda>i. (it_id i, it_qty i)) items)"
  shows "taken items x = q"
proof -
  obtain i where "i \<in> set items" "x = it_id i" "q = it_qty i" using assms(2) by auto
  then show ?thesis using taken_distinct [OF assms(1)] by simp
qed

text \<open>The loop ends, and fails only for a batch that does not exist.\<close>

lemma balance_items_total: "\<forall>i\<in>set items. st_batches db (fst i) \<noteq> None \<Longrightarrow> \<exists>left. balance_items db items = Inr left"
proof (induction db items rule: balance_items.induct)
  case (3 db i j rest)
  then obtain b where b: "get_batch (fst i) db = Inr b" by (auto simp: get_batch_def)
  show ?case
  proof (cases "b_current b \<le> 0")
    case True
    then obtain r where "balance_items db rest = Inr r" using 3(1,3) by auto
    then show ?thesis using True b by simp
  next
    case False
    then obtain r where "balance_items db (j # rest) = Inr r" using 3(2,3) by auto
    then show ?thesis using False b by simp
  qed
qed (auto simp: get_batch_def)

text \<open>
  C26: When the balance of a sale is written off, and no batch but the last was emptied by the
  sale, then every batch of the sale that had something left is empty.
\<close>

theorem balance_loss_empties:
  assumes "create_balance_loss env node items date db = Inr (db', Some t)" and "stock_wf db"
    and "distinct (map fst items)" and "\<forall>i\<in>set (butlast items). 0 < current_of db (fst i)"
    and "i \<in> set items" and "0 < current_of db (fst i)"
  shows "current_of db' (fst i) = 0"
proof -
  obtain left where left: "balance_items db items = Inr left"
    and r: "internal_request env node (Some left) (loss_data date) db = Inr (db', t)"
    using assms(1) by (auto simp: create_balance_loss_def rbind_eq_Inr split: if_split_asm)
  obtain its where v: "validate_items db left = Inr its"
    using r by (auto simp: internal_request_def validate_optional_def rbind_eq_Inr)
  have m: "map (\<lambda>i. (it_id i, it_qty i)) its = left" by (rule validate_items_asked [OF v])
  have ids: "map it_id its = map fst left" by (simp add: m [symmetric])
  have a: "asked_items node (Some left) (loss_data date) db = its"
    by (simp add: asked_items_def validate_optional_def v requested_items_def loss_data_def)
  have "(fst i, current_of db (fst i)) \<in> set left"
    using balance_items_exact [OF left assms(4)] assms(5,6) by auto
  then have "taken its (fst i) = current_of db (fst i)"
    by (intro taken_listed) (use balance_items_distinct [OF left assms(3)] m ids in auto)
  moreover have "fst i < st_next_batch db"
    using assms(2,6) by (auto simp: stock_wf_def current_of_def split: option.split_asm)
  ultimately show ?thesis
    using internal_request_effect [OF assms(2) _ r] balance_items_distinct [OF left assms(3)] by (simp add: a)
qed

text \<open>
  A sale that empties two batches named one after the other cannot write off the balance:
  the second of them is skipped by the loop, still has the quantity that was sold, and is
  refused. The request fails, and the sale stands.
\<close>

lemma balance_of_whole_batches_fails:
  assumes "validate_items db ((x, p) # (y, q) # rest) = Inr items" and "10 \<le> ed_quantity d"
    and "d' = d\<lparr>ed_batches := Some items, ed_attrs := AList.update ''date'' date (ed_attrs d)\<rparr>"
    and "ed_force_create d \<or> check_for_duplicate d' db = None"
    and "external_create env user full_name node d' db = Inr (db1, t, True)"
    and "st_batches db1 x = Some b" and "b_current b \<le> 0" and "st_batches db1 y = Some c" and "b_current c < q"
    and "\<forall>i\<in>set rest. st_batches db1 (fst i) \<noteq> None"
  shows "app_sent_create env user full_name node ((x, p) # (y, q) # rest) True True date d db =
    (db1, Inl (ValidationError ''Batch quantity mismatch''))"
proof -
  obtain left where "balance_items db1 rest = Inr left" using balance_items_total [OF assms(10)] by blast
  then have "balance_items db1 ((x, p) # (y, q) # rest) = Inr ((y, q) # left)" using assms(6,7) by (simp add: get_batch_def)
  then have "create_balance_loss env node ((x, p) # (y, q) # rest) date db1 = Inl (ValidationError ''Batch quantity mismatch'')"
    using assms(8,9) by (simp add: create_balance_loss_def internal_request_def validate_optional_def validate_source_item_def)
  moreover have "items \<noteq> []" using validate_items_asked [OF assms(1)] by auto
  moreover have "(if ed_force_create d then None else check_for_duplicate d' db) = None" using assms(4) by auto
  ultimately show ?thesis
    using assms(1,2,5) by (simp add: app_sent_create_def assms(3) [symmetric] Let_def)
qed

section \<open>On a concrete stock\<close>

theorem balance_loss_empties_witness:
  "\<exists>db' t. create_balance_loss demo_env 1 [(1, 2000), (2, 1000)] (AInt 0) demo_stock = Inr (db', Some t) \<and> current_of db' 2 = 0"
proof -
  have "is_ok (rbind (create_balance_loss demo_env 1 [(1, 2000), (2, 1000)] (AInt 0) demo_stock)
      (\<lambda>(db, t). of_option DoesNotExist t))" by code_simp
  then obtain db' t where l: "create_balance_loss demo_env 1 [(1, 2000), (2, 1000)] (AInt 0) demo_stock = Inr (db', Some t)"
    by (auto simp: is_ok_def rbind_eq_Inr split: sum.split_asm)
  have "current_of db' (fst (2 :: nat, 1000 :: int)) = 0"
    by (rule balance_loss_empties [OF l demo_stock_wf]) (simp_all add: current_of_def demo_stock_def demo_batch_def)
  then show ?thesis using l by auto
qed

text \<open>Node 1 sells the whole of both its batches.\<close>

definition demo_app_sale :: ext_data where
  "demo_app_sale = (demo_sale True 8000)\<lparr>ed_batches :=
     Some [\<lparr>it_id = 1, it_batch = demo_batch 5000, it_qty = 5000\<rparr>, \<lparr>it_id = 2, it_batch = demo_batch 3000, it_qty = 3000\<rparr>],
     ed_attrs := AList.update ''date'' (AInt 0) []\<rparr>"

definition sold_out :: "(unit stock_db \<times> nat \<times> bool) result \<Rightarrow> bool" where
  "sold_out r = (case r of Inl e \<Rightarrow> False
     | Inr (db, t, created) \<Rightarrow> created \<and> (case (st_batches db 1, st_batches db 2) of
         (Some b, Some c) \<Rightarrow> b_current b \<le> 0 \<and> b_current c < 3000 | _ \<Rightarrow> False))"

lemma balance_of_whole_batches_fails_witness:
  "\<exists>db1. app_sent_create demo_env 7 (\<lambda>_. ''n'') 1 [(1, 5000), (2, 3000)] True True (AInt 0) (demo_sale True 8000) demo_stock =
     (db1, Inl (ValidationError ''Batch quantity mismatch'')) \<and> b_current (the (st_batches db1 2)) < 3000"
proof -
  have "sold_out (external_create demo_env 7 (\<lambda>_. ''n'') 1 demo_app_sale demo_stock)" by code_simp
  then obtain db1 t b c where e: "external_create demo_env 7 (\<lambda>_. ''n'') 1 demo_app_sale demo_stock = Inr (db1, t, True)"
    and rows: "st_batches db1 1 = Some b" "b_current b \<le> 0" "st_batches db1 2 = Some c" "b_current c < 3000"
    by (auto simp: sold_out_def split: sum.split_asm option.split_asm)
  have v: "validate_items demo_stock [(1, 5000), (2, 3000)] =
      Inr [\<lparr>it_id = 1, it_batch = demo_batch 5000, it_qty = 5000\<rparr>, \<lparr>it_id = 2, it_batch = demo_batch 3000, it_qty = 3000\<rparr>]"
    by (simp add: validate_source_item_def demo_stock_def demo_batch_def)
  have "app_sent_create demo_env 7 (\<lambda>_. ''n'') 1 [(1, 5000), (2, 3000)] True True (AInt 0) (demo_sale True 8000) demo_stock =
      (db1, Inl (ValidationError ''Batch quantity mismatch''))"
    by (rule balance_of_whole_batches_fails [OF v _ _ _ e rows])
      (simp_all add: demo_app_sale_def demo_sale_def check_for_duplicate_def duplicate_keys_def)
  then show ?thesis using rows by auto
qed

end
