(* ===== verification/Spec2Isabelle.thy ===== *)
theory Spec2Isabelle
  imports Prelude Common_Library Callback_Auth Blockchain_Request Blockchain_Callbacks
    Blockchain_Protocol Blockchain_Runs Blockchain_Progress Wallets Owner_Tables Assets Asset_Runs
    Asset_Logging Asset_Answers Transaction_Graph Stock_Ledger
    Stock_Properties Stock_Exchange Trade_Runs Stock_Balance Claims Claims_Service Claims_Properties
    Claims_Inheritance Claims_Runs Claims_Evidence Supply_Chain Supply_Chain_Properties Trace_Server
    Accounts Logins Node_Access Account_Moves Account_Runs Account_Properties Transparency
    Transparency_Runs Farmer_Cards Card_Runs Payments Payment_Runs App_Sales
begin

text \<open>
  Fairfood Trace (\<open>src/fairtrace_v2\<close>) is a Django server that records the trade in a supply
  chain. Companies and farmers (nodes) are connected per supply chain; companies buy, sell,
  process and merge batches of products; batches and companies carry claims (organic, a good
  price, \<dots>) that are verified by other companies or by the server; transactions, batches and
  claims are written to a blockchain through a middleware, which answers by callbacks. The
  development follows the files under \<open>v2\<close> and \<open>common\<close>, one theory for a component's code
  and one or more for what is proved of it.

  \<^bold>\<open>Conventions\<close> (\<open>Prelude\<close>). A table is a map from primary keys (\<open>nat\<close>) to records, with a
  counter above the keys in use; a component's database is a record of its tables. An
  operation takes the database and returns the new one. An exception is a value of the
  datatype \<open>error\<close>. An operation whose effects Django rolls back returns
  \<open>error + 'a\<close>; one that leaves effects behind when it raises returns the database next to
  \<open>error + 'a\<close>, so that what a failed request leaves is part of the model. Quantities
  (\<open>DecimalField\<close> with three places) are \<open>int\<close>, in thousandths; prices and percentages
  (floats) are idealised as \<open>rat\<close>; instants are \<open>int\<close>, in microseconds, and given to an
  operation as \<open>now\<close>. Random keys are arguments too. Third-party code (encryption, the HTTP
  client, the signed-on services, password hashing, geometry) is an argument of the
  definitions that use it.

  \<^bold>\<open>Blockchain\<close> (\<open>v2/blockchain\<close>). \<open>Callback_Auth\<close>: the token that authenticates a callback.
  \<open>Blockchain_Request\<close>: the request classes, the headers and bodies they post, and their
  status. \<open>Blockchain_Callbacks\<close>: the posting task, split where the middleware runs in
  between, and the view that takes callbacks. \<open>Blockchain_Protocol\<close> states the invariant
  \<open>bc_inv\<close> of requests and tokens and two interfaces, \<open>request_starter\<close> and
  \<open>request_owner\<close>, that all nine mixins provide; \<open>Blockchain_Runs\<close> the step relation
  \<open>bc_step\<close> of starting, posting and answering requests, and the interface
  \<open>callback_owner\<close> of the table whose row handles a callback; \<open>Blockchain_Progress\<close> that a
  retry always leads to a callback that settles the request. \<open>Wallets\<close>: the wallets of nodes
  and their top-ups (\<open>supply_chains/models/profile.py\<close>), which provide \<open>callback_owner\<close>;
  \<open>Owner_Tables\<close>: what the protocol leaves alone in the tables next to it.

  \<^bold>\<open>What is logged\<close> (\<open>v2/products/models.py\<close>, \<open>v2/transactions/models.py\<close>, the associations of
  \<open>supply_chain.py\<close>). \<open>Assets\<close>: tokens, associations, admissions, minting, transfers, burning,
  migrations and messages, from the calls that start them (\<open>create_asset\<close> for
  \<open>create_blockchain_asset\<close>, \<open>log_external\<close> and \<open>log_internal\<close> for
  \<open>log_blockchain_transaction\<close>) to the answers of the middleware (\<open>asset_handle\<close>). Logging is
  written as actions that keep what they did before they raised; \<open>log_assets\<close> ties the mutual
  recursion. \<open>Asset_Runs\<close>: the interface \<open>asset_moves\<close>, a relation of two databases that every
  write of the logging respects, interpreted for the protocol and for the objects that stay;
  \<open>Asset_Logging\<close>: the depth of the recursion; \<open>Asset_Answers\<close>: the answers provide
  \<open>callback_owner\<close>, what a transfer writes, and what minting needs. The ledger's batches and
  transactions carry quantities and those of \<open>Assets\<close> hashes and wallets: columns of the same
  rows.

  \<^bold>\<open>Stock\<close> (\<open>v2/products\<close>, \<open>v2/transactions\<close>). \<open>Transaction_Graph\<close>: \<open>GraphModel\<close> of
  \<open>common/models.py\<close> and the level walk over ancestors. \<open>Stock_Ledger\<close>: batches, source
  batches, internal transactions (\<open>serializers/internal.py\<close>), sales, purchases and reversals
  (\<open>serializers/external.py\<close>) and rejections. \<open>Stock_Properties\<close> and \<open>Stock_Exchange\<close>: what a
  single request does to quantities. \<open>Trade_Runs\<close>: the contract \<open>stock_services\<close> of the ledger
  with the components it calls, and what every run of requests keeps. \<open>Stock_Balance\<close>: the log of
  source batches as the specification of the stock, which the column \<open>current_quantity\<close>
  implements as long as no request names a batch twice (\<open>clean_step\<close>).

  \<^bold>\<open>Claims\<close> (\<open>v2/claims\<close>). \<open>Claims\<close>: claims, criteria, responses, the system's verifiers and the
  status of a claim. \<open>Claims_Service\<close>: attaching, responding, verifying, new versions, removal.
  \<open>Claims_Properties\<close>: the invariant \<open>claims_inv\<close> and verification; \<open>Claims_Inheritance\<close>:
  inheritance along transactions; \<open>Claims_Runs\<close>: the step relation \<open>claims_step\<close> and single
  operations; \<open>Claims_Evidence\<close>: the type of stored responses.

  \<^bold>\<open>Supply chains\<close> (\<open>v2/supply_chains\<close>). \<open>Supply_Chain\<close>: connections, their tags, invitations,
  and tiers; \<open>Supply_Chain_Properties\<close>: the reachable states and the tiers of several paths.

  \<^bold>\<open>Users\<close> (\<open>v2/accounts\<close>, \<open>v2/supply_chains/permissions.py\<close>). \<open>Accounts\<close>: users, validation and
  access tokens; \<open>Logins\<close>: signing up, logging in, passwords; \<open>Node_Access\<close>: the permissions on a node and
  its members. \<open>Account_Moves\<close>: the moves all requests are composed of, as locales over a
  relation of two databases; \<open>Account_Runs\<close> interprets them for tokens and for members and
  proves that a token works once and a node keeps an administrator; \<open>Account_Properties\<close>:
  access levels, and single requests.

  \<^bold>\<open>Requests between companies\<close> (\<open>v2/transparency_request\<close>). \<open>Transparency\<close>: requests for stock,
  claims and connections; \<open>Transparency_Runs\<close>: the interface \<open>request_moves\<close> and what is
  final.

  \<^bold>\<open>The mobile application\<close> (\<open>v2/projects\<close>). \<open>Farmer_Cards\<close>: the cards of farmers with their
  history and references, and what saves them; \<open>Card_Runs\<close>: the reachable states and single
  requests. \<open>Payments\<close>: base payments and premiums of transactions, posted payments;
  \<open>Payment_Runs\<close>: their types and parties in every reachable state, and the base payment that
  follows the price. \<open>App_Sales\<close>: sales of the application and the loss of what is left of
  the batches, on top of the stock ledger.

  \<^bold>\<open>Together.\<close> \<open>Trace_Server\<close> puts the components side by side: the claims are among the tables
  that answer callbacks, the ledger's services are the wallets, the claims and the
  connections, and \<open>server_step\<close> is any request or callback of any of them. Every reachable
  state satisfies all invariants.

  \<^bold>\<open>Bounds.\<close> The walks over ancestors recurse on fuel, as Python's do on its stack: without fuel they
  give \<open>PyRecursionError\<close>. In a graph whose edges lead to older rows \<open>n + 1\<close> steps are
  enough for row \<open>n\<close>, which \<open>levels_cover_sources\<close> and \<open>farmer_verify_iff\<close> prove; logging
  nests at most \<open>2 * n + 3\<close> calls deep when batches and transactions have ranks up to \<open>n\<close> in the
  order of trade (\<open>logging_returns\<close>). Other loops are folds over finite lists.

  \<^bold>\<open>Not modelled.\<close> Representations (\<open>to_representation\<close>, filters, pagination), e-mails,
  notifications and the activity feed beyond a log of what was sent; the settings, devices and
  lists of the mobile application and its synchronisation (\<open>v2/projects\<close>) beyond cards, payments
  and sales; the imports from spreadsheets (\<open>v2/bulk_templates\<close>, \<open>v2/bulk_uploads\<close>); dashboards, reports and
  the consumer interface; the copy of the graph in Neo4j; the clients of external
  services (\<open>connect.py\<close>, \<open>navigate.py\<close>, the carbon programme); migrations, scripts and
  settings. They store no state of the components above or do so through operations that
  are modelled.
\<close>

end
